(* ===== verification/Prelude.thy ===== *)
theory Prelude
  imports Main
begin

text \<open>
  Shared vocabulary of the development: Go's truncating integer division, decimal
  rendering of integers, the state-and-error computations in which the effectful
  functions of the repository are written, and the generic list facts that more than
  one component uses.

  A computation \<open>('s, 'e, 'a) prog\<close> takes the state of the world and returns either an
  error or a value, together with the new state.  \<open>bnd\<close> is the Go idiom
  \<open>x, err := m(); if err != nil { return err }; ...\<close>; \<open>attempt\<close> is a call whose
  error is inspected by the caller instead of being returned.
\<close>

section \<open>Collections of facts\<close>

named_theorems prog_simps \<open>evaluation of the state-and-error combinators\<close>
named_theorems keeps_intros \<open>rules that a computation keeps a predicate on states\<close>

section \<open>Integers\<close>

text \<open>Go's \<open>/\<close> on signed integers truncates towards zero.\<close>

definition go_div :: "int \<Rightarrow> int \<Rightarrow> int" where
  "go_div a b =
     (let q = \<bar>a\<bar> div \<bar>b\<bar> in if (a < 0) = (b < 0) then q else - q)"

lemma go_div_nonneg [simp]: "0 \<le> a \<Longrightarrow> 0 < b \<Longrightarrow> go_div a b = a div b"
  by (simp add: go_div_def Let_def)

text \<open>\<open>strconv.Itoa\<close> and the \<open>%d\<close> verb.\<close>

fun nat_digits :: "nat \<Rightarrow> string" where
  "nat_digits n =
     (if n < 10 then [char_of (48 + n)] else nat_digits (n div 10) @ [char_of (48 + n mod 10)])"

declare nat_digits.simps [simp del]

definition itoa :: "int \<Rightarrow> string" where
  "itoa i = (if i < 0 then CHR ''-'' # nat_digits (nat (- i)) else nat_digits (nat i))"

definition undigit :: "char \<Rightarrow> nat" where
  "undigit c = of_char c - 48"

fun digits_value :: "string \<Rightarrow> nat \<Rightarrow> nat" where
  "digits_value [] acc = acc"
| "digits_value (c # cs) acc = digits_value cs (10 * acc + undigit c)"

lemma digits_value_append: "digits_value (xs @ ys) acc = digits_value ys (digits_value xs acc)"
  by (induction xs arbitrary: acc) auto

lemma undigit_digit: "d < 10 \<Longrightarrow> undigit (char_of (48 + d)) = d"
  by (simp add: undigit_def)

lemma digits_value_digits: "digits_value (nat_digits n) 0 = n"
proof (induction n rule: nat_digits.induct)
  case (1 n)
  show ?case
  proof (cases "n < 10")
    case True
    then show ?thesis by (subst nat_digits.simps) (simp add: undigit_digit)
  next
    case False
    then have "digits_value (nat_digits (n div 10)) 0 = n div 10" using 1 by simp
    with False show ?thesis
      by (subst nat_digits.simps) (simp add: digits_value_append undigit_digit)
  qed
qed

lemma nat_digits_inj: "nat_digits m = nat_digits n \<Longrightarrow> m = n"
  by (metis digits_value_digits)

lemma nat_digits_set: "set (nat_digits n) \<subseteq> (\<lambda>d. char_of (48 + d)) ` {..<(10::nat)}"
proof (induction n rule: nat_digits.induct)
  case (1 n)
  show ?case
  proof (cases "n < 10")
    case True
    then show ?thesis by (subst nat_digits.simps) auto
  next
    case False
    then show ?thesis using 1 by (subst nat_digits.simps) auto
  qed
qed

lemma nat_digits_chars:
  assumes "c \<in> set (nat_digits n)"
  shows "c \<noteq> CHR ''-''" and "c \<noteq> CHR ''|''"
proof -
  obtain d :: nat where d: "d < 10" "c = char_of (48 + d)"
    using assms nat_digits_set[of n] by auto
  then have "(of_char c :: nat) = 48 + d" by simp
  then show "c \<noteq> CHR ''-''" and "c \<noteq> CHR ''|''" using d(1) by auto
qed

lemma nat_digits_nonempty [simp]: "nat_digits n \<noteq> []"
  by (subst nat_digits.simps) simp

lemma itoa_inj: "itoa i = itoa j \<longleftrightarrow> i = j"
proof
  assume eq: "itoa i = itoa j"
  have no_minus: "nat_digits n \<noteq> CHR ''-'' # nat_digits m" for n m
    using nat_digits_chars(1)[of "CHR ''-''" n] by (metis list.set_intros(1))
  show "i = j"
    using eq no_minus no_minus[symmetric]
    by (auto simp: itoa_def split: if_splits dest!: nat_digits_inj)
qed simp

lemma itoa_no_bar: "CHR ''|'' \<notin> set (itoa i)"
  using nat_digits_chars(2) by (auto simp: itoa_def)

section \<open>Computations with state and errors\<close>

type_synonym ('s, 'e, 'a) prog = "'s \<Rightarrow> ('e + 'a) \<times> 's"

definition ret :: "'a \<Rightarrow> ('s, 'e, 'a) prog" where
  "ret x s = (Inr x, s)"

definition raise :: "'e \<Rightarrow> ('s, 'e, 'a) prog" where
  "raise e s = (Inl e, s)"

definition bnd :: "('s, 'e, 'a) prog \<Rightarrow> ('a \<Rightarrow> ('s, 'e, 'b) prog) \<Rightarrow> ('s, 'e, 'b) prog" where
  "bnd m f s = (case m s of (Inl e, t) \<Rightarrow> (Inl e, t) | (Inr x, t) \<Rightarrow> f x t)"

definition attempt :: "('s, 'e, 'a) prog \<Rightarrow> ('s, 'e, 'e + 'a) prog" where
  "attempt m s = (case m s of (r, t) \<Rightarrow> (Inr r, t))"

definition gets :: "('s \<Rightarrow> 'a) \<Rightarrow> ('s, 'e, 'a) prog" where
  "gets f s = (Inr (f s), s)"

definition modify :: "('s \<Rightarrow> 's) \<Rightarrow> ('s, 'e, unit) prog" where
  "modify f s = (Inr (), f s)"

definition of_sum :: "'e + 'a \<Rightarrow> ('s, 'e, 'a) prog" where
  "of_sum r s = (r, s)"

text \<open>A \<open>for\<close> loop over a slice whose body may return early with an error.\<close>

fun for_each :: "('x \<Rightarrow> ('s, 'e, unit) prog) \<Rightarrow> 'x list \<Rightarrow> ('s, 'e, unit) prog" where
  "for_each body [] = ret ()"
| "for_each body (x # xs) = bnd (body x) (\<lambda>_. for_each body xs)"

text \<open>The same loop threading an accumulator.\<close>

fun fold_each :: "('x \<Rightarrow> 'b \<Rightarrow> ('s, 'e, 'b) prog) \<Rightarrow> 'x list \<Rightarrow> 'b \<Rightarrow> ('s, 'e, 'b) prog" where
  "fold_each body [] acc = ret acc"
| "fold_each body (x # xs) acc = bnd (body x acc) (\<lambda>acc'. fold_each body xs acc')"

lemma ret_apply [prog_simps, simp]: "ret x s = (Inr x, s)"
  by (simp add: ret_def)

lemma raise_apply [prog_simps, simp]: "raise e s = (Inl e, s)"
  by (simp add: raise_def)

lemma gets_apply [prog_simps, simp]: "gets f s = (Inr (f s), s)"
  by (simp add: gets_def)

lemma modify_apply [prog_simps, simp]: "modify f s = (Inr (), f s)"
  by (simp add: modify_def)

lemma of_sum_apply [prog_simps, simp]: "of_sum r s = (r, s)"
  by (simp add: of_sum_def)

lemma attempt_apply [prog_simps]: "attempt m s = (Inr (fst (m s)), snd (m s))"
  by (simp add: attempt_def split: prod.splits)

lemma bnd_Inr [prog_simps]: "m s = (Inr x, t) \<Longrightarrow> bnd m f s = f x t"
  by (simp add: bnd_def)

lemma bnd_Inl [prog_simps]: "m s = (Inl e, t) \<Longrightarrow> bnd m f s = (Inl e, t)"
  by (simp add: bnd_def)

lemma bnd_attempt [prog_simps]: "m s = (r, t) \<Longrightarrow> bnd (attempt m) f s = f r t"
  by (simp add: bnd_def attempt_def)

lemma bnd_eq_Inr:
  "bnd m f s = (Inr y, u) \<longleftrightarrow> (\<exists>x t. m s = (Inr x, t) \<and> f x t = (Inr y, u))"
  by (auto simp: bnd_def split: prod.splits sum.splits)

lemma bnd_InrE:
  assumes "bnd m f s = (Inr y, u)"
  obtains x t where "m s = (Inr x, t)" and "f x t = (Inr y, u)"
  using assms by (auto simp: bnd_eq_Inr)

lemma bnd_ret [simp]: "bnd (ret x) f = f x"
  by (rule ext) (simp add: bnd_def)

lemma bnd_raise [simp]: "bnd (raise e) f = raise e"
  by (rule ext) (simp add: bnd_def)

lemma bnd_assoc: "bnd (bnd m f) g = bnd m (\<lambda>x. bnd (f x) g)"
  by (rule ext) (simp add: bnd_def split: prod.splits sum.splits)

subsection \<open>Predicates every execution keeps, on success and on error\<close>

definition keeps :: "('s \<Rightarrow> bool) \<Rightarrow> ('s, 'e, 'a) prog \<Rightarrow> bool" where
  "keeps P m \<longleftrightarrow> (\<forall>s. P s \<longrightarrow> P (snd (m s)))"

lemma keepsI: "(\<And>s. P s \<Longrightarrow> P (snd (m s))) \<Longrightarrow> keeps P m"
  by (simp add: keeps_def)

lemma keepsD: "keeps P m \<Longrightarrow> P s \<Longrightarrow> P (snd (m s))"
  by (simp add: keeps_def)

lemma keeps_ret [keeps_intros]: "keeps P (ret x)"
  by (simp add: keeps_def)

lemma keeps_raise [keeps_intros]: "keeps P (raise e)"
  by (simp add: keeps_def)

lemma keeps_gets [keeps_intros]: "keeps P (gets f)"
  by (simp add: keeps_def)

lemma keeps_of_sum [keeps_intros]: "keeps P (of_sum r)"
  by (simp add: keeps_def)

lemma keeps_bnd [keeps_intros]:
  "keeps P m \<Longrightarrow> (\<And>x. keeps P (f x)) \<Longrightarrow> keeps P (bnd m f)"
  by (auto simp: keeps_def bnd_def split: prod.splits sum.splits)

lemma keeps_attempt [keeps_intros]: "keeps P m \<Longrightarrow> keeps P (attempt m)"
  by (auto simp: keeps_def attempt_apply)

lemma keeps_for_each [keeps_intros]:
  "(\<And>x. keeps P (body x)) \<Longrightarrow> keeps P (for_each body xs)"
  by (induction xs) (auto intro: keeps_intros)

lemma keeps_fold_each [keeps_intros]:
  "(\<And>x acc. keeps P (body x acc)) \<Longrightarrow> keeps P (fold_each body xs acc)"
  by (induction xs arbitrary: acc) (auto intro: keeps_intros)

lemma keeps_if [keeps_intros]: "keeps P m \<Longrightarrow> keeps P n \<Longrightarrow> keeps P (if b then m else n)"
  by simp

lemma keeps_case_option [keeps_intros]:
  "keeps P m \<Longrightarrow> (\<And>x. keeps P (f x)) \<Longrightarrow> keeps P (case v of None \<Rightarrow> m | Some x \<Rightarrow> f x)"
  by (cases v) simp_all

lemma keeps_case_sum [keeps_intros]:
  "(\<And>e. keeps P (g e)) \<Longrightarrow> (\<And>x. keeps P (f x)) \<Longrightarrow>
   keeps P (case v of Inl e \<Rightarrow> g e | Inr x \<Rightarrow> f x)"
  by (cases v) simp_all

lemma keeps_case_prod [keeps_intros]:
  "(\<And>x y. keeps P (f x y)) \<Longrightarrow> keeps P (case v of (x, y) \<Rightarrow> f x y)"
  by (cases v) simp_all

lemma keeps_Let [keeps_intros]: "(\<And>x. keeps P (f x)) \<Longrightarrow> keeps P (let x = v in f x)"
  by (simp add: Let_def)

section \<open>List facts shared by the components\<close>

lemma length_filter_map_update:
  assumes "\<And>x. x \<in> set xs \<Longrightarrow> p (f x) = p x"
  shows "length (filter p (map f xs)) = length (filter p xs)"
  using assms by (induction xs) auto

lemma length_filter_partition:
  "length (filter p xs) = length (filter (\<lambda>x. p x \<and> q x) xs) + length (filter (\<lambda>x. p x \<and> \<not> q x) xs)"
  by (induction xs) auto

lemma int_sum_list_map: "int (sum_list (map f xs)) = sum_list (map (\<lambda>x. int (f x)) xs)"
  by (induction xs) auto

lemma sum_list_le_filter: "length (filter p xs) \<le> length xs"
  by (rule length_filter_le)

end
