(* ===== verification/Shards.thy ===== *)
theory Shards
  imports Prelude "HOL-Library.AList"
begin

text \<open>
  Page-range sharding (\<open>internal/pipeline/splitter.go\<close>): fixed windows with overlap
  and chapter-aligned windows.  A Go \<open>int\<close> is an \<open>int\<close>: page numbers and counts are far
  from the 64-bit bounds.  Errors are the formatted messages of the source.
\<close>

section \<open>Data\<close>

record shard_bound =
  Idx :: int
  PageStart :: int
  PageEnd :: int

record bookmark =
  Page :: int
  Title :: string

section \<open>Fixed windows\<close>

text \<open>The body of the \<open>for start <= pageCount\<close> loop: the window's end and the next start.\<close>

definition window_end :: "int \<Rightarrow> int \<Rightarrow> int \<Rightarrow> int" where
  "window_end pageCount shardPages start =
     (let e = start + shardPages - 1 in if e > pageCount then pageCount else e)"

definition next_start :: "int \<Rightarrow> int \<Rightarrow> int \<Rightarrow> int \<Rightarrow> int" where
  "next_start pageCount overlap start e =
     (let s = (if e < pageCount then e + 1 - overlap else e + 1)
      in if s \<le> start \<and> e < pageCount then start + 1 else s)"

text \<open>
  The loop as a recursive function.  A non-positive \<open>shardPages\<close> is rejected before the
  loop; the guard repeats that so that the function is total.
\<close>

function fixed_loop :: "int \<Rightarrow> int \<Rightarrow> int \<Rightarrow> int \<Rightarrow> int \<Rightarrow> shard_bound list" where
  "fixed_loop pageCount shardPages overlap start idx =
     (if 1 \<le> shardPages \<and> start \<le> pageCount
      then let e = window_end pageCount shardPages start
           in \<lparr>Idx = idx, PageStart = start, PageEnd = e\<rparr>
              # fixed_loop pageCount shardPages overlap (next_start pageCount overlap start e) (idx + 1)
      else [])"
  by pat_completeness auto
termination
  by (relation "measure (\<lambda>(n, s, ov, start, idx). nat (n + 1 - start))")
    (auto simp: window_end_def next_start_def Let_def)

declare fixed_loop.simps [simp del]

definition FixedBounds :: "int \<Rightarrow> int \<Rightarrow> int \<Rightarrow> string + shard_bound list" where
  "FixedBounds pageCount shardPages overlap =
     (if pageCount < 1 then Inl (''page_count must be >= 1, got '' @ itoa pageCount)
      else if shardPages < 1 then Inl (''shard_pages must be >= 1, got '' @ itoa shardPages)
      else Inr (fixed_loop pageCount shardPages overlap 1 0))"

section \<open>Chapter-aligned windows\<close>

text \<open>The \<open>clean\<close> map: the outline's target pages clamped into the document.\<close>

definition clamp_page :: "int \<Rightarrow> int \<Rightarrow> int" where
  "clamp_page pageCount p =
     (let p1 = (if p < 1 then 1 else p) in if p1 > pageCount then pageCount else p1)"

fun clean_outline :: "int \<Rightarrow> bookmark list \<Rightarrow> (int \<times> string) list \<Rightarrow> (int \<times> string) list" where
  "clean_outline pageCount [] clean = clean"
| "clean_outline pageCount (bm # bms) clean =
     (let p = clamp_page pageCount (Page bm)
      in clean_outline pageCount bms
           (if map_of clean p = None \<or> Title bm \<noteq> [] then AList.update p (Title bm) clean else clean))"

text \<open>The bounds of one chapter, moved to its first page and numbered on.\<close>

fun shift_bounds :: "int \<Rightarrow> int \<Rightarrow> shard_bound list \<Rightarrow> shard_bound list" where
  "shift_bounds idx prevStart [] = []"
| "shift_bounds idx prevStart (b # bs) =
     \<lparr>Idx = idx, PageStart = PageStart b + prevStart - 1, PageEnd = PageEnd b + prevStart - 1\<rparr>
     # shift_bounds (idx + 1) prevStart bs"

definition chapter_bounds :: "int \<Rightarrow> int \<Rightarrow> int \<Rightarrow> int \<Rightarrow> string + shard_bound list" where
  "chapter_bounds shardPages idx prevStart span =
     map_sum id (shift_bounds idx prevStart) (FixedBounds span shardPages 0)"

text \<open>The loop over the sorted target pages, carrying \<open>idx\<close> and \<open>prevStart\<close>.\<close>

fun chapter_loop :: "int \<Rightarrow> int \<Rightarrow> int list \<Rightarrow> int \<Rightarrow> int \<Rightarrow> string + shard_bound list" where
  "chapter_loop pageCount shardPages [] idx prevStart =
     (if prevStart \<le> pageCount
      then chapter_bounds shardPages idx prevStart (pageCount - prevStart + 1)
      else Inr [])"
| "chapter_loop pageCount shardPages (page # pages) idx prevStart =
     (if page > prevStart
      then case chapter_bounds shardPages idx prevStart (page - prevStart) of
             Inl err \<Rightarrow> Inl err
           | Inr bs \<Rightarrow>
               map_sum id (\<lambda>rest. bs @ rest)
                 (chapter_loop pageCount shardPages pages (idx + int (length bs)) page)
      else chapter_loop pageCount shardPages pages idx page)"

definition ChapterAlignedBounds :: "bookmark list \<Rightarrow> int \<Rightarrow> int \<Rightarrow> string + shard_bound list" where
  "ChapterAlignedBounds outline pageCount shardPages0 =
     (let shardPages = (if shardPages0 < 1 then 1 else shardPages0);
          pages = sort (map fst (clean_outline pageCount outline []))
      in case chapter_loop pageCount shardPages pages 0 1 of
           Inl err \<Rightarrow> Inl err
         | Inr bounds \<Rightarrow>
             if bounds = [] \<or> (\<exists>b \<in> set bounds. PageEnd b < PageStart b)
             then FixedBounds pageCount shardPages 1
             else Inr bounds)"

section \<open>What a list of shards promises\<close>

definition covers :: "shard_bound list \<Rightarrow> int \<Rightarrow> bool" where
  "covers bs p \<longleftrightarrow> (\<exists>b \<in> set bs. PageStart b \<le> p \<and> p \<le> PageEnd b)"

text \<open>Consecutive numbering from \<open>i\<close>; consecutive disjoint ranges from \<open>lo\<close> to \<open>hi\<close>.\<close>

fun numbered :: "int \<Rightarrow> shard_bound list \<Rightarrow> bool" where
  "numbered i [] = True"
| "numbered i (b # bs) = (Idx b = i \<and> numbered (i + 1) bs)"

fun tiles :: "int \<Rightarrow> int \<Rightarrow> shard_bound list \<Rightarrow> bool" where
  "tiles lo hi [] = (lo = hi + 1)"
| "tiles lo hi (b # bs) = (PageStart b = lo \<and> lo \<le> PageEnd b \<and> tiles (PageEnd b + 1) hi bs)"

definition at_most :: "int \<Rightarrow> shard_bound list \<Rightarrow> bool" where
  "at_most s bs \<longleftrightarrow> (\<forall>b \<in> set bs. PageEnd b - PageStart b + 1 \<le> s)"

lemma numbered_append:
  "numbered i (bs @ cs) \<longleftrightarrow> numbered i bs \<and> numbered (i + int (length bs)) cs"
  by (induction bs arbitrary: i) (auto simp: algebra_simps)

lemma tiles_append: "tiles lo mid bs \<Longrightarrow> tiles (mid + 1) hi cs \<Longrightarrow> tiles lo hi (bs @ cs)"
  by (induction bs arbitrary: lo) auto

lemma tiles_le: "tiles lo hi bs \<Longrightarrow> lo \<le> hi + 1"
  by (induction bs arbitrary: lo) force+

lemma tiles_covers: "tiles lo hi bs \<Longrightarrow> covers bs p \<longleftrightarrow> lo \<le> p \<and> p \<le> hi"
proof (induction bs arbitrary: lo)
  case Nil
  then show ?case by (simp add: covers_def)
next
  case (Cons b bs)
  then have t: "tiles (PageEnd b + 1) hi bs" by simp
  have "covers bs p \<longleftrightarrow> PageEnd b + 1 \<le> p \<and> p \<le> hi" using Cons.IH[OF t] .
  moreover have "covers (b # bs) p \<longleftrightarrow> (PageStart b \<le> p \<and> p \<le> PageEnd b) \<or> covers bs p"
    by (auto simp: covers_def)
  ultimately show ?case using tiles_le[OF t] Cons.prems by auto
qed

lemma tiles_ordered: "tiles lo hi bs \<Longrightarrow> b \<in> set bs \<Longrightarrow> lo \<le> PageStart b \<and> PageStart b \<le> PageEnd b"
proof (induction bs arbitrary: lo)
  case (Cons c bs)
  from Cons.prems(1) have "tiles (PageEnd c + 1) hi bs" and "PageStart c = lo" "lo \<le> PageEnd c" by auto
  with Cons show ?case by fastforce
qed simp

lemma tiles_hd: "tiles lo hi bs \<Longrightarrow> lo \<le> hi \<Longrightarrow> \<exists>b \<in> set bs. PageStart b = lo"
  by (cases bs) auto

lemma tiles_last: "tiles lo hi bs \<Longrightarrow> lo \<le> hi \<Longrightarrow> PageEnd (last bs) = hi"
proof (induction bs arbitrary: lo)
  case (Cons b bs)
  show ?case
  proof (cases "bs = []")
    case False
    then have "PageEnd b + 1 \<le> hi" using Cons.prems tiles_le by (cases bs) fastforce+
    with Cons False show ?thesis by auto
  qed (use Cons in auto)
qed simp

lemma tiles_nth_Suc:
  "tiles lo hi bs \<Longrightarrow> Suc i < length bs \<Longrightarrow> PageStart (bs ! Suc i) = PageEnd (bs ! i) + 1"
proof (induction bs arbitrary: lo i)
  case (Cons b bs)
  show ?case
  proof (cases i)
    case 0
    with Cons.prems show ?thesis by (cases bs) auto
  next
    case (Suc j)
    with Cons show ?thesis by auto
  qed
qed simp

text \<open>Disjointness: a page of a tiling lies in exactly one of its shards.\<close>

lemma tiles_disjoint:
  assumes "tiles lo hi bs" "i < length bs" "j < length bs" "i < j"
  shows "PageEnd (bs ! i) < PageStart (bs ! j)"
  using assms
proof (induction bs arbitrary: lo i j)
  case (Cons b bs)
  then obtain j' where j: "j = Suc j'" by (cases j) auto
  show ?case
  proof (cases i)
    case 0
    have "bs ! j' \<in> set bs" using Cons.prems j by simp
    with Cons.prems(1) 0 j show ?thesis using tiles_ordered by fastforce
  next
    case (Suc i')
    with Cons j show ?thesis by auto
  qed
qed simp

lemma at_most_simps [simp]:
  "at_most s []" "at_most s (b # bs) \<longleftrightarrow> PageEnd b - PageStart b + 1 \<le> s \<and> at_most s bs"
  "at_most s (bs @ cs) \<longleftrightarrow> at_most s bs \<and> at_most s cs"
  by (auto simp: at_most_def)

lemma shift_bounds_facts:
  "numbered i (shift_bounds i a bs)"
  "tiles lo hi bs \<Longrightarrow> tiles (lo + a - 1) (hi + a - 1) (shift_bounds i a bs)"
  "at_most s (shift_bounds i a bs) = at_most s bs"
  "length (shift_bounds i a bs) = length bs"
proof -
  show "numbered i (shift_bounds i a bs)"
    by (induction bs arbitrary: i) auto
  show "tiles lo hi bs \<Longrightarrow> tiles (lo + a - 1) (hi + a - 1) (shift_bounds i a bs)"
  proof (induction bs arbitrary: i lo)
    case (Cons b bs)
    then show ?case using Cons.IH[of "PageEnd b + 1" "i + 1"] by (simp add: algebra_simps)
  qed simp
  show "at_most s (shift_bounds i a bs) = at_most s bs"
    by (induction bs arbitrary: i) auto
  show "length (shift_bounds i a bs) = length bs"
    by (induction bs arbitrary: i) auto
qed

section \<open>Fixed windows: every branch\<close>

lemma window_end_bounds:
  "1 \<le> s \<Longrightarrow> start \<le> n \<Longrightarrow>
   start \<le> window_end n s start \<and> window_end n s start \<le> n \<and> window_end n s start - start + 1 \<le> s"
  by (auto simp: window_end_def Let_def)

lemma next_start_greater: "start \<le> e \<Longrightarrow> start < next_start n ov start e"
  by (auto simp: next_start_def Let_def)

lemma next_start_le: "start \<le> e \<Longrightarrow> 0 \<le> ov \<Longrightarrow> next_start n ov start e \<le> e + 1"
  by (auto simp: next_start_def Let_def)

lemma next_start_no_overlap: "start \<le> e \<Longrightarrow> next_start n 0 start e = e + 1"
  by (auto simp: next_start_def Let_def)

lemma fixed_loop_unfold:
  "1 \<le> s \<Longrightarrow> start \<le> n \<Longrightarrow> fixed_loop n s ov start idx =
     \<lparr>Idx = idx, PageStart = start, PageEnd = window_end n s start\<rparr>
     # fixed_loop n s ov (next_start n ov start (window_end n s start)) (idx + 1)"
  by (subst fixed_loop.simps) (simp add: Let_def)

lemma fixed_loop_stop: "n < start \<Longrightarrow> fixed_loop n s ov start idx = []"
  by (subst fixed_loop.simps) simp

lemma fixed_loop_numbered: "1 \<le> s \<Longrightarrow> numbered idx (fixed_loop n s ov start idx)"
proof (induction n s ov start idx rule: fixed_loop.induct)
  case (1 n s ov start idx)
  then show ?case
    by (cases "start \<le> n") (simp_all add: fixed_loop_unfold fixed_loop_stop)
qed

lemma fixed_loop_at_most: "1 \<le> s \<Longrightarrow> at_most s (fixed_loop n s ov start idx)"
proof (induction n s ov start idx rule: fixed_loop.induct)
  case (1 n s ov start idx)
  then show ?case
    using window_end_bounds[of s start n]
    by (cases "start \<le> n") (simp_all add: fixed_loop_unfold fixed_loop_stop)
qed

lemma fixed_loop_range:
  "1 \<le> s \<Longrightarrow> b \<in> set (fixed_loop n s ov start idx) \<Longrightarrow>
   start \<le> PageStart b \<and> PageStart b \<le> PageEnd b \<and> PageEnd b \<le> n"
proof (induction n s ov start idx rule: fixed_loop.induct)
  case (1 n s ov start idx)
  show ?case
  proof (cases "start \<le> n")
    case True
    let ?e = "window_end n s start" and ?rest = "fixed_loop n s ov (next_start n ov start (window_end n s start)) (idx + 1)"
    note w = window_end_bounds[OF "1.prems"(1) True]
    from "1.prems" True consider "b = \<lparr>Idx = idx, PageStart = start, PageEnd = ?e\<rparr>" | "b \<in> set ?rest"
      by (auto simp: fixed_loop_unfold)
    then show ?thesis
    proof cases
      case 2
      with "1.IH"[OF _ refl] "1.prems" True have "next_start n ov start ?e \<le> PageStart b \<and> PageStart b \<le> PageEnd b \<and> PageEnd b \<le> n"
        by blast
      then show ?thesis using next_start_greater[of start ?e n ov] w by auto
    qed (use w in auto)
  qed (use "1.prems" in \<open>simp add: fixed_loop_stop\<close>)
qed

lemma fixed_loop_sorted:
  "1 \<le> s \<Longrightarrow> sorted_wrt (<) (map PageStart (fixed_loop n s ov start idx))"
proof (induction n s ov start idx rule: fixed_loop.induct)
  case (1 n s ov start idx)
  show ?case
  proof (cases "start \<le> n")
    case True
    let ?e = "window_end n s start"
    have "\<forall>b \<in> set (fixed_loop n s ov (next_start n ov start ?e) (idx + 1)). start < PageStart b"
      using fixed_loop_range[OF "1.prems"] next_start_greater[of start ?e n ov] window_end_bounds[OF "1.prems" True] by fastforce
    with True 1 show ?thesis by (simp add: fixed_loop_unfold)
  qed (simp add: fixed_loop_stop)
qed

text \<open>No page from \<open>start\<close> on is skipped when the overlap is not negative.\<close>

lemma fixed_loop_covers:
  "1 \<le> s \<Longrightarrow> 0 \<le> ov \<Longrightarrow> start \<le> p \<Longrightarrow> p \<le> n \<Longrightarrow> covers (fixed_loop n s ov start idx) p"
proof (induction n s ov start idx rule: fixed_loop.induct)
  case (1 n s ov start idx)
  then have le: "start \<le> n" by simp
  let ?e = "window_end n s start"
  have w: "start \<le> ?e" using window_end_bounds[OF "1.prems"(1) le] by simp
  show ?case
  proof (cases "p \<le> ?e")
    case True
    with "1.prems" le show ?thesis by (simp add: fixed_loop_unfold covers_def)
  next
    case False
    then have "next_start n ov start ?e \<le> p" using next_start_le[OF w "1.prems"(2), of n] by simp
    with 1 le have "covers (fixed_loop n s ov (next_start n ov start ?e) (idx + 1)) p" by simp
    with "1.prems" le show ?thesis by (auto simp: fixed_loop_unfold covers_def)
  qed
qed

lemma fixed_loop_length: "1 \<le> s \<Longrightarrow> int (length (fixed_loop n s ov start idx)) \<le> max 0 (n - start + 1)"
proof (induction n s ov start idx rule: fixed_loop.induct)
  case (1 n s ov start idx)
  show ?case
  proof (cases "start \<le> n")
    case True
    let ?e = "window_end n s start"
    have "start < next_start n ov start ?e" using next_start_greater window_end_bounds[OF "1.prems" True] by blast
    then show ?thesis using "1.IH"[OF _ refl] "1.prems" True by (simp add: fixed_loop_unfold)
  qed (simp add: fixed_loop_stop)
qed

lemma tiles_length: "tiles lo hi bs \<Longrightarrow> int (length bs) \<le> hi - lo + 1"
proof (induction bs arbitrary: lo)
  case (Cons b bs)
  then show ?case using Cons.IH[of "PageEnd b + 1"] by simp
qed simp

lemma fixed_loop_tiles: "1 \<le> s \<Longrightarrow> start \<le> n + 1 \<Longrightarrow> tiles start n (fixed_loop n s 0 start idx)"
proof (induction n s "0::int" start idx rule: fixed_loop.induct)
  case (1 n s start idx)
  then show ?case
    using window_end_bounds[of s start n]
    by (cases "start \<le> n") (auto simp: fixed_loop_unfold fixed_loop_stop next_start_no_overlap)
qed

lemma fixed_loop_count:
  "1 \<le> s \<Longrightarrow> start \<le> n + 1 \<Longrightarrow> int (length (fixed_loop n s 0 start idx)) = (n - start + s) div s"
proof (induction n s "0::int" start idx rule: fixed_loop.induct)
  case (1 n s start idx)
  show ?case
  proof (cases "start \<le> n")
    case True
    let ?e = "window_end n s start"
    note w = window_end_bounds[OF "1.prems"(1) True]
    have "int (length (fixed_loop n s 0 start idx)) = 1 + (n - (?e + 1) + s) div s"
      using 1 True w by (simp add: fixed_loop_unfold next_start_no_overlap)
    also have "\<dots> = (n - start + s) div s"
    proof (cases "start + s - 1 > n")
      case True
      have "(n - start) div s = 0"
        using True w by (intro div_pos_pos_trivial) auto
      then have "(n - start + s) div s = 1" using div_add_self2[of s "n - start"] "1.prems"(1) by simp
      moreover have "?e = n" using True by (simp add: window_end_def)
      ultimately show ?thesis using "1.prems"(1) by (simp add: div_pos_pos_trivial)
    next
      case False
      then have "?e = start + s - 1" by (simp add: window_end_def)
      then have "n - start + s = (n - (?e + 1) + s) + 1 * s" by simp
      then show ?thesis using "1.prems"(1) by (simp only: div_mult_self1)
    qed
    finally show ?thesis .
  next
    case False
    with "1.prems" show ?thesis by (simp add: fixed_loop_stop div_pos_pos_trivial)
  qed
qed

text \<open>With the default overlap of one page and windows of at least two pages, neighbours share exactly one.\<close>

lemma fixed_loop_overlap1:
  "2 \<le> s \<Longrightarrow> Suc i < length (fixed_loop n s 1 start idx) \<Longrightarrow>
   PageStart (fixed_loop n s 1 start idx ! Suc i) = PageEnd (fixed_loop n s 1 start idx ! i)"
proof (induction n s "1::int" start idx arbitrary: i rule: fixed_loop.induct)
  case (1 n s start idx)
  let ?e = "window_end n s start" and ?rest = "\<lambda>st. fixed_loop n s 1 st (idx + 1)"
  have le: "start \<le> n" using "1.prems" fixed_loop_stop[of n start s 1 idx] by (cases "start \<le> n") auto
  show ?case
  proof (cases i)
    case 0
    let ?st = "next_start n 1 start ?e"
    from "1.prems" le 0 have ne: "?rest ?st \<noteq> []" by (simp add: fixed_loop_unfold)
    then have st: "?st \<le> n" using fixed_loop_stop[of n ?st] by (cases "?st \<le> n") auto
    with "1.prems" le have "?st = ?e" by (auto simp: window_end_def next_start_def Let_def split: if_splits)
    with "1.prems" le st 0 show ?thesis by (simp add: fixed_loop_unfold[of s] )
  next
    case (Suc j)
    with 1 le show ?thesis by (simp add: fixed_loop_unfold)
  qed
qed

section \<open>The interface of a disjoint sharder\<close>

text \<open>
  Two callers cut a span into disjoint windows: the chapter loop below, and the retry
  ladder of the parser.  Both number the pieces on and move them to an offset; what they
  need of the cutter is the law below.
\<close>

locale disjoint_sharder =
  fixes cut :: "int \<Rightarrow> int \<Rightarrow> string + shard_bound list"
  assumes cut_ok: "1 \<le> n \<Longrightarrow> 1 \<le> s \<Longrightarrow>
    \<exists>bs. cut n s = Inr bs \<and> tiles 1 n bs \<and> at_most s bs \<and> numbered 0 bs"
begin

lemma cut_shifted:
  assumes "1 \<le> n" and "1 \<le> s"
  shows "\<exists>bs. map_sum id (shift_bounds i a) (cut n s) = Inr bs \<and> tiles a (a + n - 1) bs
    \<and> at_most s bs \<and> numbered i bs"
proof -
  obtain bs where bs: "cut n s = Inr bs" "tiles 1 n bs" "at_most s bs"
    using cut_ok[OF assms] by auto
  have "tiles a (a + n - 1) (shift_bounds i a bs)"
    using shift_bounds_facts(2)[OF bs(2), of a i] by (simp add: algebra_simps)
  with bs show ?thesis by (simp add: shift_bounds_facts)
qed

text \<open>A shifted cut covers exactly the span it replaces, each page once.\<close>

lemma cut_shifted_covers:
  assumes "1 \<le> n" and "1 \<le> s" and "map_sum id (shift_bounds i a) (cut n s) = Inr bs"
  shows "covers bs p \<longleftrightarrow> a \<le> p \<and> p \<le> a + n - 1"
  using cut_shifted[OF assms(1,2), of i a] assms(3) tiles_covers by auto

end

interpretation fixed0: disjoint_sharder "\<lambda>n s. FixedBounds n s 0"
  by unfold_locales
    (simp add: FixedBounds_def fixed_loop_tiles fixed_loop_at_most fixed_loop_numbered)

section \<open>Chapter-aligned windows: correctness\<close>

lemma clamp_page_range: "1 \<le> n \<Longrightarrow> 1 \<le> clamp_page n p \<and> clamp_page n p \<le> n"
  by (auto simp: clamp_page_def Let_def)

lemma clean_outline_keys:
  "set (map fst (clean_outline n bms clean)) = set (map fst clean) \<union> (clamp_page n \<circ> Page) ` set bms"
proof (induction bms arbitrary: clean)
  case (Cons bm bms)
  show ?case using Cons
    by (auto simp: Let_def map_of_eq_None_iff dom_update image_iff)
qed simp

lemma chapter_loop_ok:
  assumes "1 \<le> s" "1 \<le> prev" "prev \<le> n" "sorted pages" "\<forall>p \<in> set pages. prev \<le> p \<and> p \<le> n"
  shows "\<exists>bs. chapter_loop n s pages idx prev = Inr bs \<and> tiles prev n bs \<and> at_most s bs
    \<and> numbered idx bs \<and> (\<forall>p \<in> set pages. \<exists>b \<in> set bs. PageStart b = p)"
  using assms
proof (induction pages arbitrary: idx prev)
  case Nil
  then show ?case
    using fixed0.cut_shifted[of "n - prev + 1" s idx prev] by (auto simp: chapter_bounds_def)
next
  case (Cons page pages)
  show ?case
  proof (cases "page > prev")
    case True
    obtain bs where bs: "chapter_bounds s idx prev (page - prev) = Inr bs" "tiles prev (page - 1) bs"
        "at_most s bs" "numbered idx bs"
      using fixed0.cut_shifted[of "page - prev" s idx prev] True Cons.prems(1)
      by (auto simp: chapter_bounds_def)
    obtain cs where cs: "chapter_loop n s pages (idx + int (length bs)) page = Inr cs"
        "tiles page n cs" "at_most s cs" "numbered (idx + int (length bs)) cs"
        "\<forall>p \<in> set pages. \<exists>b \<in> set cs. PageStart b = p"
      using Cons.IH[of page "idx + int (length bs)"] Cons.prems True by auto
    have "tiles prev n (bs @ cs)" using tiles_append[OF bs(2)] cs(2) by simp
    moreover have "\<exists>b \<in> set cs. PageStart b = page" using tiles_hd[OF cs(2)] Cons.prems by auto
    ultimately show ?thesis using True bs cs by (auto simp: numbered_append)
  next
    case False
    then have "page = prev" using Cons.prems by force
    moreover obtain cs where cs: "chapter_loop n s pages idx page = Inr cs"
        "tiles page n cs" "at_most s cs" "numbered idx cs" "\<forall>p \<in> set pages. \<exists>b \<in> set cs. PageStart b = p"
      using Cons.IH[of page idx] Cons.prems \<open>page = prev\<close> by auto
    ultimately show ?thesis using False tiles_hd[OF cs(2)] Cons.prems by auto
  qed
qed

lemma chapter_aligned_run:
  fixes n s :: int
  assumes "1 \<le> n"
  defines "s' \<equiv> (if s < 1 then 1 else s)"
  shows "\<exists>bs. chapter_loop n s' (sort (map fst (clean_outline n outline []))) 0 1 = Inr bs
    \<and> ChapterAlignedBounds outline n s = Inr bs \<and> tiles 1 n bs \<and> at_most s' bs \<and> numbered 0 bs
    \<and> (\<forall>bm \<in> set outline. \<exists>b \<in> set bs. PageStart b = clamp_page n (Page bm))"
proof -
  let ?pages = "sort (map fst (clean_outline n outline []))"
  have keys: "set ?pages = (clamp_page n \<circ> Page) ` set outline"
    using clean_outline_keys[of n outline "[]"] by simp
  have range: "\<forall>p \<in> set ?pages. 1 \<le> p \<and> p \<le> n"
    unfolding keys using clamp_page_range[OF assms(1)] by simp
  have "1 \<le> s'" by (simp add: s'_def)
  then obtain bs where bs: "chapter_loop n s' ?pages 0 1 = Inr bs" "tiles 1 n bs" "at_most s' bs"
      "numbered 0 bs" "\<forall>p \<in> set ?pages. \<exists>b \<in> set bs. PageStart b = p"
    using chapter_loop_ok[of s' 1 n ?pages 0] assms(1) range by (metis order_refl sorted_sort)
  have ok: "bs \<noteq> []" "\<forall>b \<in> set bs. \<not> PageEnd b < PageStart b"
    using bs(2) assms(1) tiles_ordered[OF bs(2)] by (auto simp: not_less)
  have "ChapterAlignedBounds outline n s = Inr bs"
    using bs(1) ok by (auto simp: ChapterAlignedBounds_def s'_def Let_def)
  moreover have "\<forall>bm \<in> set outline. \<exists>b \<in> set bs. PageStart b = clamp_page n (Page bm)"
    using bs(5) unfolding keys by simp
  ultimately show ?thesis using bs by blast
qed

section \<open>Properties\<close>

lemma fixed_bounds_run:
  assumes "1 \<le> pageCount" and "1 \<le> shardPages" and "0 \<le> overlap"
  shows "\<exists>bs. FixedBounds pageCount shardPages overlap = Inr bs \<and> numbered 0 bs
    \<and> at_most shardPages bs \<and> sorted_wrt (<) (map PageStart bs)
    \<and> (\<forall>p. covers bs p \<longleftrightarrow> 1 \<le> p \<and> p \<le> pageCount)"
proof -
  let ?bs = "fixed_loop pageCount shardPages overlap 1 0"
  have "covers ?bs p \<longleftrightarrow> 1 \<le> p \<and> p \<le> pageCount" for p
    using fixed_loop_covers[OF assms(2,3), of 1 p pageCount 0] fixed_loop_range[OF assms(2), of _ pageCount overlap 1 0]
    by (force simp: covers_def)
  then show ?thesis
    using assms by (simp add: FixedBounds_def fixed_loop_numbered fixed_loop_at_most fixed_loop_sorted)
qed

text \<open>
  C3. Fixed-window sharding loses no page and invents none: for a positive page count and
  window size and a non-negative overlap \<open>FixedBounds\<close> succeeds, its shards are numbered
  0, 1, 2, ..., start at strictly increasing pages, are at most \<open>shardPages\<close> long, and a
  page lies in some shard exactly when it is a page of the document.
\<close>

theorem FixedBounds_covers:
  assumes "1 \<le> pageCount" and "1 \<le> shardPages" and "0 \<le> overlap"
  shows "\<exists>bs. FixedBounds pageCount shardPages overlap = Inr bs \<and> numbered 0 bs
    \<and> at_most shardPages bs \<and> sorted_wrt (<) (map PageStart bs)
    \<and> (\<forall>p. covers bs p \<longleftrightarrow> 1 \<le> p \<and> p \<le> pageCount)"
  by (rule fixed_bounds_run[OF assms])

theorem FixedBounds_covers_witness:
  "\<exists>bs. FixedBounds 45 20 1 = Inr bs \<and> numbered 0 bs \<and> at_most 20 bs
    \<and> sorted_wrt (<) (map PageStart bs) \<and> (\<forall>p. covers bs p \<longleftrightarrow> 1 \<le> p \<and> p \<le> 45)"
  by (rule FixedBounds_covers) simp_all

text \<open>
  Without overlap the windows are a disjoint tiling of the document by exactly
  \<open>ceil(pageCount / shardPages)\<close> shards.
\<close>

theorem FixedBounds_disjoint:
  assumes "1 \<le> pageCount" and "1 \<le> shardPages"
  shows "\<exists>bs. FixedBounds pageCount shardPages 0 = Inr bs \<and> tiles 1 pageCount bs
    \<and> int (length bs) = (pageCount + shardPages - 1) div shardPages
    \<and> (\<forall>i j. i < j \<and> j < length bs \<longrightarrow> PageEnd (bs ! i) < PageStart (bs ! j))"
proof -
  let ?bs = "fixed_loop pageCount shardPages 0 1 0"
  have t: "tiles 1 pageCount ?bs" using fixed_loop_tiles assms by simp
  have "int (length ?bs) = (pageCount + shardPages - 1) div shardPages"
    using fixed_loop_count[of shardPages 1 pageCount 0] assms by (simp add: algebra_simps)
  with t assms show ?thesis using tiles_disjoint[OF t] by (auto simp: FixedBounds_def)
qed

theorem FixedBounds_disjoint_witness:
  "\<exists>bs. FixedBounds 45 20 0 = Inr bs \<and> tiles 1 45 bs \<and> int (length bs) = (45 + 20 - 1) div 20
    \<and> (\<forall>i j. i < j \<and> j < length bs \<longrightarrow> PageEnd (bs ! i) < PageStart (bs ! j))"
  by (rule FixedBounds_disjoint) simp_all

text \<open>
  C2. Chapter alignment: for a document with at least one page and any outline at all
  (pages out of range, unsorted, repeated), \<open>ChapterAlignedBounds\<close> returns a disjoint
  tiling of the whole document, numbered from 0, of shards of at most
  \<open>max 1 shardPages\<close> pages, in which every (clamped) bookmark target is the first page
  of a shard.
\<close>

theorem ChapterAlignedBounds_aligned:
  assumes "1 \<le> pageCount"
  shows "\<exists>bs. ChapterAlignedBounds outline pageCount shardPages = Inr bs
    \<and> tiles 1 pageCount bs \<and> at_most (max 1 shardPages) bs \<and> numbered 0 bs
    \<and> (\<forall>bm \<in> set outline. \<exists>b \<in> set bs. PageStart b = clamp_page pageCount (Page bm))"
proof -
  have "(if shardPages < 1 then 1 else shardPages) = max 1 shardPages" by auto
  then show ?thesis using chapter_aligned_run[OF assms, of shardPages outline] by auto
qed

theorem ChapterAlignedBounds_aligned_witness:
  "\<exists>bs. ChapterAlignedBounds [\<lparr>Page = 30, Title = ''B''\<rparr>, \<lparr>Page = 99, Title = []\<rparr>] 45 20 = Inr bs
    \<and> tiles 1 45 bs \<and> at_most (max 1 20) bs \<and> numbered 0 bs
    \<and> (\<forall>bm \<in> set [\<lparr>Page = 30, Title = ''B''\<rparr>, \<lparr>Page = 99, Title = []\<rparr>].
          \<exists>b \<in> set bs. PageStart b = clamp_page 45 (Page bm))"
  by (rule ChapterAlignedBounds_aligned) simp

text \<open>
  The degenerate-outline fallback of \<open>ChapterAlignedBounds\<close> is unreachable for a
  document with a page: the chapter loop never yields zero or inverted bounds, so its
  result is always the function's result.
\<close>

theorem ChapterAlignedBounds_no_fallback:
  assumes "1 \<le> pageCount"
  shows "ChapterAlignedBounds outline pageCount shardPages
    = chapter_loop pageCount (if shardPages < 1 then 1 else shardPages)
        (sort (map fst (clean_outline pageCount outline []))) 0 1"
  using chapter_aligned_run[OF assms, of shardPages outline] by auto

theorem ChapterAlignedBounds_no_fallback_witness:
  "ChapterAlignedBounds [\<lparr>Page = 1, Title = ''A''\<rparr>, \<lparr>Page = 1, Title = ''B''\<rparr>] 3 2
    = chapter_loop 3 (if (2::int) < 1 then 1 else 2)
        (sort (map fst (clean_outline 3 [\<lparr>Page = 1, Title = ''A''\<rparr>, \<lparr>Page = 1, Title = ''B''\<rparr>] []))) 0 1"
  by (rule ChapterAlignedBounds_no_fallback) simp

end
