(* ===== verification/GoText.thy ===== *)
theory GoText
  imports Prelude
begin

text \<open>
  The part of Go's \<open>strings\<close> and \<open>unicode/utf8\<close> packages the repository uses.  A Go
  string is a sequence of bytes, an Isabelle \<open>string\<close> is one too (\<open>char\<close> has 256
  values), so string lengths and indices agree.  Runes are code points, \<open>nat\<close>.
\<close>

section \<open>UTF-8\<close>

abbreviation byte :: "char \<Rightarrow> nat" where
  "byte c \<equiv> of_char c"

definition rune_error :: nat where
  "rune_error = 65533"

definition cont :: "nat \<Rightarrow> bool" where
  "cont b \<longleftrightarrow> 128 \<le> b \<and> b \<le> 191"

text \<open>\<open>utf8.RuneStart\<close>: not a continuation byte.\<close>

definition rune_start :: "char \<Rightarrow> bool" where
  "rune_start c \<longleftrightarrow> \<not> cont (byte c)"

text \<open>The admissible second bytes after a three- or four-byte lead (no overlong forms, no surrogates, at most U+10FFFF).\<close>

definition second3 :: "nat \<Rightarrow> nat \<Rightarrow> bool" where
  "second3 b0 b1 \<longleftrightarrow>
     (if b0 = 224 then 160 \<le> b1 \<and> b1 \<le> 191
      else if b0 = 237 then 128 \<le> b1 \<and> b1 \<le> 159
      else cont b1)"

definition second4 :: "nat \<Rightarrow> nat \<Rightarrow> bool" where
  "second4 b0 b1 \<longleftrightarrow>
     (if b0 = 240 then 144 \<le> b1 \<and> b1 \<le> 191
      else if b0 = 244 then 128 \<le> b1 \<and> b1 \<le> 143
      else cont b1)"

text \<open>\<open>utf8.DecodeRuneInString\<close>: the first rune and its width; \<open>(RuneError, 1)\<close> on invalid input.\<close>

definition decode2 :: "nat \<Rightarrow> string \<Rightarrow> nat \<times> nat" where
  "decode2 b0 s =
     (case s of
        c1 # _ \<Rightarrow>
          if cont (byte c1) then ((b0 - 192) * 64 + (byte c1 - 128), 2) else (rune_error, 1)
      | _ \<Rightarrow> (rune_error, 1))"

definition decode3 :: "nat \<Rightarrow> string \<Rightarrow> nat \<times> nat" where
  "decode3 b0 s =
     (case s of
        c1 # c2 # _ \<Rightarrow>
          if second3 b0 (byte c1) \<and> cont (byte c2)
          then ((b0 - 224) * 4096 + (byte c1 - 128) * 64 + (byte c2 - 128), 3)
          else (rune_error, 1)
      | _ \<Rightarrow> (rune_error, 1))"

definition decode4 :: "nat \<Rightarrow> string \<Rightarrow> nat \<times> nat" where
  "decode4 b0 s =
     (case s of
        c1 # c2 # c3 # _ \<Rightarrow>
          if second4 b0 (byte c1) \<and> cont (byte c2) \<and> cont (byte c3)
          then ((b0 - 240) * 262144 + (byte c1 - 128) * 4096 + (byte c2 - 128) * 64 + (byte c3 - 128), 4)
          else (rune_error, 1)
      | _ \<Rightarrow> (rune_error, 1))"

fun decode_rune :: "string \<Rightarrow> nat \<times> nat" where
  "decode_rune [] = (rune_error, 0)"
| "decode_rune (c # s) =
     (let b0 = byte c
      in if b0 < 128 then (b0, 1)
         else if 194 \<le> b0 \<and> b0 \<le> 223 then decode2 b0 s
         else if 224 \<le> b0 \<and> b0 \<le> 239 then decode3 b0 s
         else if 240 \<le> b0 \<and> b0 \<le> 244 then decode4 b0 s
         else (rune_error, 1))"

lemma decode_size_cases:
  "snd (decode2 b s) \<in> {1, 2}" "snd (decode3 b s) \<in> {1, 3}" "snd (decode4 b s) \<in> {1, 4}"
  "snd (decode2 b s) \<le> Suc (length s)" "snd (decode3 b s) \<le> Suc (length s)"
  "snd (decode4 b s) \<le> Suc (length s)"
  by (auto simp: decode2_def decode3_def decode4_def split: list.splits)

lemma decode_rune_size: "s \<noteq> [] \<Longrightarrow> 1 \<le> snd (decode_rune s) \<and> snd (decode_rune s) \<le> length s"
proof (cases s)
  case (Cons c t)
  then show ?thesis
    using decode_size_cases[of "byte c" t] by (auto simp: Let_def)
qed simp

lemma decode_pos: "(r, w) = decode_rune (c # s) \<Longrightarrow> 0 < w"
  using decode_rune_size[of "c # s"] by (metis Suc_le_eq One_nat_def list.distinct(1) snd_conv)

declare decode_rune.simps(2) [simp del]

text \<open>\<open>utf8.DecodeLastRuneInString\<close>, with its backward scan over at most four bytes.\<close>

function back_start :: "string \<Rightarrow> int \<Rightarrow> int \<Rightarrow> int" where
  "back_start s start lim =
     (if start \<ge> lim
      then if rune_start (s ! nat start) then start else back_start s (start - 1) lim
      else start)"
  by pat_completeness auto
termination
  by (relation "measure (\<lambda>(s, start, lim). nat (start - lim + 1))") auto

declare back_start.simps [simp del]

lemma back_start_le: "back_start s start lim \<le> start"
  by (induction s start lim rule: back_start.induct) (subst back_start.simps, auto)

definition decode_last_rune :: "string \<Rightarrow> nat \<times> nat" where
  "decode_last_rune s =
     (if s = [] then (rune_error, 0)
      else if byte (last s) < 128 then (byte (last s), 1)
      else
        let n = int (length s);
            start = max 0 (back_start s (n - 2) (max 0 (n - 4)));
            (r, size) = decode_rune (drop (nat start) s)
        in if nat start + size \<noteq> length s then (rune_error, 1) else (r, size))"

text \<open>Ranging over a string: the runes with their widths, in order.\<close>

function rune_steps :: "string \<Rightarrow> (nat \<times> nat) list" where
  "rune_steps [] = []"
| "rune_steps (c # s) =
     (let (r, size) = decode_rune (c # s) in (r, size) # rune_steps (drop size (c # s)))"
  by pat_completeness auto
termination
  by (relation "measure length") (auto dest: decode_pos)

definition runes :: "string \<Rightarrow> nat list" where
  "runes s = map fst (rune_steps s)"

text \<open>\<open>utf8.Valid\<close>: no step is an invalid byte; a literal U+FFFD has width 3.\<close>

definition valid_utf8 :: "string \<Rightarrow> bool" where
  "valid_utf8 s \<longleftrightarrow> (\<forall>(r, size) \<in> set (rune_steps s). \<not> (r = rune_error \<and> size = 1))"

text \<open>\<open>utf8.AppendRune\<close>; surrogates and values above U+10FFFF encode as U+FFFD.\<close>

definition encode_rune :: "nat \<Rightarrow> string" where
  "encode_rune r0 =
     (let r = (if 1114111 < r0 \<or> 55296 \<le> r0 \<and> r0 \<le> 57343 then rune_error else r0)
      in if r < 128 then [char_of r]
         else if r < 2048 then [char_of (192 + r div 64), char_of (128 + r mod 64)]
         else if r < 65536
           then [char_of (224 + r div 4096), char_of (128 + r div 64 mod 64), char_of (128 + r mod 64)]
         else [char_of (240 + r div 262144), char_of (128 + r div 4096 mod 64),
               char_of (128 + r div 64 mod 64), char_of (128 + r mod 64)])"

section \<open>White space\<close>

text \<open>\<open>unicode.IsSpace\<close>.\<close>

definition is_space :: "nat \<Rightarrow> bool" where
  "is_space r \<longleftrightarrow>
     9 \<le> r \<and> r \<le> 13 \<or> r = 32 \<or> r = 133 \<or> r = 160 \<or> r = 5760 \<or> 8192 \<le> r \<and> r \<le> 8202
     \<or> r = 8232 \<or> r = 8233 \<or> r = 8239 \<or> r = 8287 \<or> r = 12288"

text \<open>\<open>strings.TrimLeftFunc\<close> and \<open>TrimRightFunc\<close> with \<open>IsSpace\<close>; \<open>strings.TrimSpace\<close>.\<close>

function trim_left :: "string \<Rightarrow> string" where
  "trim_left [] = []"
| "trim_left (c # s) =
     (let (r, size) = decode_rune (c # s)
      in if is_space r then trim_left (drop size (c # s)) else c # s)"
  by pat_completeness auto
termination
  by (relation "measure length") (auto dest: decode_pos)

lemma decode_last_rune_size: "s \<noteq> [] \<Longrightarrow> 1 \<le> snd (decode_last_rune s)"
proof -
  assume ne: "s \<noteq> []"
  let ?st = "nat (max 0 (back_start s (int (length s) - 2) (max 0 (int (length s) - 4))))"
  have "?st < length s"
    using back_start_le[of s "int (length s) - 2" "max 0 (int (length s) - 4)"] ne
    by (cases "length s") auto
  then show ?thesis
    using ne decode_rune_size[of "drop ?st s"]
    by (auto simp: decode_last_rune_def Let_def split: prod.splits)
qed

lemma decode_last_pos: "(r, w) = decode_last_rune s \<Longrightarrow> s \<noteq> [] \<Longrightarrow> 0 < w"
  using decode_last_rune_size[of s] by (metis Suc_le_eq One_nat_def snd_conv)

function trim_right :: "string \<Rightarrow> string" where
  "trim_right s =
     (if s = [] then []
      else let (r, size) = decode_last_rune s
           in if is_space r then trim_right (take (length s - size) s) else s)"
  by pat_completeness auto
termination
  by (relation "measure length") (auto dest: decode_last_pos)

declare trim_right.simps [simp del]

definition trim_space :: "string \<Rightarrow> string" where
  "trim_space s = trim_right (trim_left s)"

text \<open>\<open>strings.Fields\<close>: the maximal runs of non-space runes.\<close>

function fields_from :: "string \<Rightarrow> string \<Rightarrow> string list" where
  "fields_from cur [] = (if cur = [] then [] else [cur])"
| "fields_from cur (c # s) =
     (let (r, size) = decode_rune (c # s)
      in if is_space r
         then (if cur = [] then [] else [cur]) @ fields_from [] (drop size (c # s))
         else fields_from (cur @ take size (c # s)) (drop size (c # s)))"
  by pat_completeness auto
termination
  by (relation "measure (\<lambda>(cur, s). length s)") (auto dest: decode_pos)

definition str_fields :: "string \<Rightarrow> string list" where
  "str_fields s = fields_from [] s"

text \<open>Evaluation of the text functions on literals.\<close>

lemmas text_eval = decode_rune.simps(2) Let_def decode2_def decode3_def decode4_def cont_def
  second3_def second4_def rune_error_def is_space_def

text \<open>Trimming when the byte at the end is ASCII.\<close>

lemma trim_left_ascii:
  "byte c < 128 \<Longrightarrow> \<not> is_space (byte c) \<Longrightarrow> trim_left (c # s) = c # s"
  "byte c < 128 \<Longrightarrow> is_space (byte c) \<Longrightarrow> trim_left (c # s) = trim_left s"
  by (simp_all add: decode_rune.simps(2))

lemma trim_right_ascii:
  "byte c < 128 \<Longrightarrow> \<not> is_space (byte c) \<Longrightarrow> trim_right (s @ [c]) = s @ [c]"
  "byte c < 128 \<Longrightarrow> is_space (byte c) \<Longrightarrow> trim_right (s @ [c]) = trim_right s"
  by (simp_all add: trim_right.simps[of "s @ [c]"] decode_last_rune_def)

lemma trim_right_nil [simp]: "trim_right [] = []"
  by (simp add: trim_right.simps)

lemma trim_space_ascii:
  assumes "byte (hd s) < 128" "\<not> is_space (byte (hd s))" "byte (last s) < 128" "\<not> is_space (byte (last s))"
  shows "trim_space s = s"
proof (cases s)
  case (Cons c t)
  then obtain u d where s: "s = u @ [d]" by (metis list.distinct(1) rev_exhaust)
  have "trim_left s = s" using trim_left_ascii(1)[of c t] assms Cons by simp
  then show ?thesis using trim_right_ascii(1)[of d u] assms s by (simp add: trim_space_def)
qed (simp add: trim_space_def)

section \<open>Splitting and joining\<close>

text \<open>\<open>strings.Split(s, sep)\<close> for a one-byte separator, and \<open>strings.Join\<close>.\<close>

fun split_on :: "char \<Rightarrow> string \<Rightarrow> string list" where
  "split_on sep [] = [[]]"
| "split_on sep (c # s) =
     (if c = sep then [] # split_on sep s
      else case split_on sep s of [] \<Rightarrow> [[c]] | l # ls \<Rightarrow> (c # l) # ls)"

fun join :: "string \<Rightarrow> string list \<Rightarrow> string" where
  "join sep [] = []"
| "join sep [x] = x"
| "join sep (x # y # ys) = x @ sep @ join sep (y # ys)"

definition has_prefix :: "string \<Rightarrow> string \<Rightarrow> bool" where
  "has_prefix s p \<longleftrightarrow> take (length p) s = p"

definition trim_suffix_byte :: "string \<Rightarrow> char \<Rightarrow> string" where
  "trim_suffix_byte s c = (if s \<noteq> [] \<and> last s = c then butlast s else s)"

abbreviation newline :: char where
  "newline \<equiv> CHR 0x0A"

lemma split_on_nonempty [simp]: "split_on sep s \<noteq> []"
  by (induction s) (auto split: list.splits)

lemma join_Cons: "ls \<noteq> [] \<Longrightarrow> join sep (l # ls) = l @ sep @ join sep ls"
  by (cases ls) auto

lemma join_split [simp]: "join [sep] (split_on sep s) = s"
proof (induction s)
  case (Cons c s)
  obtain l ls where "split_on sep s = l # ls" by (cases "split_on sep s") auto
  with Cons show ?case by (cases ls) (auto simp: join_Cons)
qed simp

lemma split_on_no_sep: "l \<in> set (split_on sep s) \<Longrightarrow> sep \<notin> set l"
proof (induction s arbitrary: l)
  case (Cons c s)
  obtain k ks where "split_on sep s = k # ks" by (cases "split_on sep s") auto
  with Cons show ?case by (auto split: if_splits)
qed simp

lemma length_split_on: "length (split_on sep s) = Suc (count_list s sep)"
proof (induction s)
  case (Cons c s)
  obtain k ks where "split_on sep s = k # ks" by (cases "split_on sep s") auto
  with Cons show ?case by auto
qed simp

lemma split_on_free: "sep \<notin> set l \<Longrightarrow> split_on sep l = [l]"
  by (induction l) auto

lemma split_on_append: "sep \<notin> set l \<Longrightarrow> split_on sep (l @ sep # s) = l # split_on sep s"
  by (induction l) auto

lemma split_join:
  "ls \<noteq> [] \<Longrightarrow> \<forall>l \<in> set ls. sep \<notin> set l \<Longrightarrow> split_on sep (join [sep] ls) = ls"
  by (induction ls rule: induct_list012) (auto simp: split_on_free split_on_append)

end
