(* ===== verification/Utf8.thy ===== *)
theory Utf8
  imports GoText
begin

text \<open>
  Facts about UTF-8 that the string-handling components share: decoding does not look
  beyond a boundary, a valid string is a sequence of complete rune encodings, encoding
  undoes decoding on such an encoding, and a blank always separates words.
\<close>

section \<open>Locality of UTF-8 decoding\<close>

text \<open>A boundary: the end of the string, or a byte that is not a continuation byte.\<close>

definition boundary :: "string \<Rightarrow> bool" where
  "boundary s \<longleftrightarrow> (case s of [] \<Rightarrow> True | c # _ \<Rightarrow> \<not> cont (byte c))"

lemma second_cont: "second3 b0 b1 \<Longrightarrow> cont b1" "second4 b0 b1 \<Longrightarrow> cont b1"
  by (auto simp: second3_def second4_def cont_def split: if_splits)

lemma decode_local:
  assumes "u \<noteq> []" and "boundary t"
  shows "decode_rune (u @ t) = decode_rune u"
proof -
  obtain c u' where u: "u = c # u'" using assms(1) by (cases u) auto
  have 2: "decode2 b (u' @ t) = decode2 b u'" for b
    using assms(2) by (auto simp: decode2_def boundary_def split: list.splits)
  have 3: "decode3 b (u' @ t) = decode3 b u'" for b
  proof (cases u')
    case (Cons x v)
    then show ?thesis using assms(2)
      by (cases v) (auto simp: decode3_def boundary_def split: list.splits)
  qed (use assms(2) in \<open>auto simp: decode3_def boundary_def dest: second_cont split: list.splits\<close>)
  have 4: "decode4 b (u' @ t) = decode4 b u'" for b
  proof (cases u')
    case (Cons x v)
    show ?thesis
    proof (cases v)
      case (Cons y z)
      with \<open>u' = x # v\<close> show ?thesis using assms(2)
        by (cases z) (auto simp: decode4_def boundary_def split: list.splits)
    qed (use Cons assms(2) in \<open>auto simp: decode4_def boundary_def split: list.splits\<close>)
  qed (use assms(2) in \<open>auto simp: decode4_def boundary_def dest: second_cont split: list.splits\<close>)
  show ?thesis by (simp add: u decode_rune.simps(2) Let_def 2 3 4)
qed

lemma decode_rune_append_size: "u \<noteq> [] \<Longrightarrow> boundary t \<Longrightarrow> snd (decode_rune (u @ t)) \<le> length u"
  using decode_rune_size[of u] by (simp add: decode_local)

lemma decode_blank: "decode_rune (CHR '' '' # s) = (32, 1)"
  by (simp add: decode_rune.simps(2))

text \<open>A blank separates words, whatever stands on its two sides.\<close>

lemma fields_from_blank: "fields_from acc (a @ CHR '' '' # b) = fields_from acc a @ str_fields b"
proof (induction acc a rule: fields_from.induct)
  case (1 acc)
  then show ?case by (simp add: decode_blank is_space_def str_fields_def)
next
  case (2 acc c s)
  have bd: "boundary (CHR '' '' # b)" by (simp add: boundary_def cont_def)
  obtain r w where d: "decode_rune (c # s) = (r, w)" by fastforce
  have d': "decode_rune (c # s @ CHR '' '' # b) = (r, w)"
    using decode_local[of "c # s", OF _ bd] d by simp
  have w: "w \<le> Suc (length s)" "0 < w" using decode_rune_size[of "c # s"] d by simp_all
  then obtain k where k: "w = Suc k" "k \<le> length s" by (cases w) auto
  show ?case
    using 2[OF d[symmetric] refl] k by (simp add: d d')
qed

lemma str_fields_blank: "str_fields (a @ CHR '' '' # b) = str_fields a @ str_fields b"
  by (simp add: str_fields_def fields_from_blank)

lemma str_fields_join: "str_fields (join '' '' ws) = concat (map str_fields ws)"
proof (induction ws rule: induct_list012)
  case 1
  then show ?case by (simp add: str_fields_def)
next
  case (3 x y zs)
  then show ?case using str_fields_blank[of x] by simp
qed simp

section \<open>Complete encodings\<close>

text \<open>A complete encoding of one rune (a U+FFFD spelled out has width 3).\<close>

definition rune_code :: "string \<Rightarrow> bool" where
  "rune_code ch \<longleftrightarrow> ch \<noteq> [] \<and> snd (decode_rune ch) = length ch
     \<and> \<not> (fst (decode_rune ch) = rune_error \<and> length ch = 1)"

lemma rune_code_single: "rune_code [c] \<longleftrightarrow> byte c < 128"
  by (auto simp: rune_code_def decode_rune.simps(2) Let_def decode2_def decode3_def decode4_def rune_error_def)

lemma decode_full:
  "decode2 b t = (r, Suc (length t)) \<Longrightarrow> r = rune_error \<longrightarrow> t \<noteq> [] \<Longrightarrow> \<exists>d. t = [d] \<and> cont (byte d)"
  "decode3 b t = (r, Suc (length t)) \<Longrightarrow> r = rune_error \<longrightarrow> t \<noteq> [] \<Longrightarrow>
     \<exists>d e. t = [d, e] \<and> second3 b (byte d) \<and> cont (byte e)"
  "decode4 b t = (r, Suc (length t)) \<Longrightarrow> r = rune_error \<longrightarrow> t \<noteq> [] \<Longrightarrow>
     \<exists>d e f. t = [d, e, f] \<and> second4 b (byte d) \<and> cont (byte e) \<and> cont (byte f)"
  by (auto simp: decode2_def decode3_def decode4_def split: list.splits if_splits)

lemma rune_code_cases:
  assumes "rune_code ch"
  obtains (one) c where "ch = [c]" "byte c < 128"
  | (two) c d where "ch = [c, d]" "194 \<le> byte c" "byte c \<le> 223" "cont (byte d)"
  | (three) c d e where "ch = [c, d, e]" "224 \<le> byte c" "byte c \<le> 239" "second3 (byte c) (byte d)" "cont (byte e)"
  | (four) c d e f where "ch = [c, d, e, f]" "240 \<le> byte c" "byte c \<le> 244"
      "second4 (byte c) (byte d)" "cont (byte e)" "cont (byte f)"
proof -
  obtain c t where ch: "ch = c # t" using assms by (cases ch) (auto simp: rune_code_def)
  obtain r where d: "decode_rune (c # t) = (r, Suc (length t))"
    using assms ch by (cases "decode_rune ch") (auto simp: rune_code_def)
  have ne: "r = rune_error \<longrightarrow> t \<noteq> []" using assms d ch by (auto simp: rune_code_def)
  let ?b = "byte c"
  consider "?b < 128" | "194 \<le> ?b" "?b \<le> 223" | "224 \<le> ?b" "?b \<le> 239" | "240 \<le> ?b" "?b \<le> 244"
    using d ne by (auto simp: decode_rune.simps(2) Let_def split: if_splits)
  then show ?thesis
  proof cases
    case 1
    then have "t = []" using d by (simp add: decode_rune.simps(2) Let_def)
    with 1 ch show ?thesis using one by simp
  next
    case 2
    then have "decode2 ?b t = (r, Suc (length t))" using d by (simp add: decode_rune.simps(2) Let_def)
    with 2 ch show ?thesis using decode_full(1)[OF _ ne] two by blast
  next
    case 3
    then have "decode3 ?b t = (r, Suc (length t))" using d by (simp add: decode_rune.simps(2) Let_def)
    with 3 ch show ?thesis using decode_full(2)[OF _ ne] three by blast
  next
    case 4
    then have "decode4 ?b t = (r, Suc (length t))" using d by (simp add: decode_rune.simps(2) Let_def)
    with 4 ch show ?thesis using decode_full(3)[OF _ ne] four by blast
  qed
qed

lemma rune_code_decode:
  assumes "rune_code ch"
  shows "decode_rune (ch @ t) = decode_rune ch" and "snd (decode_rune ch) = length ch"
  using assms
  by (auto elim!: rune_code_cases simp: decode_rune.simps(2) Let_def decode2_def decode3_def decode4_def)

lemma rune_code_bytes:
  assumes "rune_code ch"
  shows "rune_start (hd ch)" "c \<in> set (tl ch) \<Longrightarrow> \<not> rune_start c" "length ch \<le> 4"
    and "2 \<le> length ch \<Longrightarrow> c \<in> set ch \<Longrightarrow> 128 \<le> byte c"
  using assms
  by (auto elim!: rune_code_cases simp: rune_start_def dest: second_cont) (auto simp: cont_def dest!: second_cont)

text \<open>A proper non-empty part of an encoding decodes to an error of width 1.\<close>

lemma rune_code_part:
  assumes "rune_code ch" "0 < j" "j < length ch"
  shows "decode_rune (take j ch) = (rune_error, 1)"
  using assms
  by (auto elim!: rune_code_cases simp: less_Suc_eq decode_rune.simps(2) Let_def decode2_def decode3_def decode4_def)

lemma decode_take:
  assumes "decode_rune s = (r, w)" "s \<noteq> []"
  shows "decode_rune (take w s) = (r, w)"
proof -
  obtain c t where "s = c # t" using assms(2) by (cases s) auto
  then show ?thesis using assms(1)
    by (auto simp: decode_rune.simps(2) Let_def decode2_def decode3_def decode4_def
        split: if_splits list.splits)
qed

lemma valid_utf8_codes: "valid_utf8 s \<Longrightarrow> \<exists>chs. s = concat chs \<and> (\<forall>ch \<in> set chs. rune_code ch)"
proof (induction s rule: rune_steps.induct)
  case 1
  then show ?case by (auto intro: exI[of _ "[]"])
next
  case (2 c s)
  obtain r w where d: "decode_rune (c # s) = (r, w)" by fastforce
  have ok: "\<not> (r = rune_error \<and> w = 1)" and "valid_utf8 (drop w (c # s))"
    using 2(2) d by (auto simp: valid_utf8_def)
  then obtain chs where chs: "drop w (c # s) = concat chs" "\<forall>ch \<in> set chs. rune_code ch"
    using 2(1)[OF d[symmetric] refl] by auto
  have w: "1 \<le> w" "w \<le> length (c # s)" using decode_rune_size[of "c # s"] d by simp_all
  have "rune_code (take w (c # s))"
    using decode_take[OF d] ok w by (auto simp: rune_code_def min_def)
  then show ?case
    using chs append_take_drop_id[of w "c # s"] by (auto intro!: exI[of _ "take w (c # s) # chs"])
qed

lemma codes_valid_utf8: "\<forall>ch \<in> set chs. rune_code ch \<Longrightarrow> valid_utf8 (concat chs)"
proof (induction chs)
  case Nil
  then show ?case by (simp add: valid_utf8_def)
next
  case (Cons ch chs)
  then have rc: "rune_code ch" by simp
  obtain c t where ch: "ch = c # t" using rc by (cases ch) (auto simp: rune_code_def)
  have d: "decode_rune (c # t @ concat chs) = decode_rune (c # t)"
    using rune_code_decode(1)[OF rc, of "concat chs"] ch by simp
  obtain r w where rw: "decode_rune (c # t) = (r, w)" by fastforce
  have w: "w = length ch" using rune_code_decode(2)[OF rc] rw ch by simp
  have "\<not> (r = rune_error \<and> w = 1)" using rc rw w ch by (auto simp: rune_code_def)
  then show ?case using Cons ch d rw w by (auto simp: valid_utf8_def)
qed

section \<open>Encoding undoes decoding\<close>

lemma base64_digits:
  fixes a b c d :: nat
  assumes "b < 64" "c < 64" "d < 64"
  shows "(a * 64 + b) div 64 = a" "(a * 64 + b) mod 64 = b"
    and "(a * 4096 + b * 64 + c) div 4096 = a" "(a * 4096 + b * 64 + c) div 64 mod 64 = b"
      "(a * 4096 + b * 64 + c) mod 64 = c"
    and "(a * 262144 + b * 4096 + c * 64 + d) div 262144 = a"
      "(a * 262144 + b * 4096 + c * 64 + d) div 4096 mod 64 = b"
      "(a * 262144 + b * 4096 + c * 64 + d) div 64 mod 64 = c"
      "(a * 262144 + b * 4096 + c * 64 + d) mod 64 = d"
proof -
  have dm: "(p * 64 + q) div 64 = p" "(p * 64 + q) mod 64 = q" if "q < 64" for p q :: nat
    using that by simp_all
  show "(a * 64 + b) div 64 = a" "(a * 64 + b) mod 64 = b" using dm assms by blast+
  have 3: "p * 4096 + q * 64 + r = (p * 64 + q) * 64 + r" for p q r :: nat by simp
  have q3: "(p * 4096 + q * 64 + r) div 64 = p * 64 + q" "(p * 4096 + q * 64 + r) mod 64 = r"
    if "r < 64" for p q r :: nat unfolding 3 using dm[OF that] by blast+
  have d4096: "m div 4096 = m div 64 div 64" for m :: nat by (simp add: div_mult2_eq[symmetric])
  show "(a * 4096 + b * 64 + c) div 4096 = a" "(a * 4096 + b * 64 + c) div 64 mod 64 = b"
      "(a * 4096 + b * 64 + c) mod 64 = c"
    using q3[OF assms(2)] dm[OF assms(1)] by (simp_all only: d4096)
  have 4: "a * 262144 + b * 4096 + c * 64 + d = (a * 4096 + b * 64 + c) * 64 + d" by simp
  have q4: "(a * 262144 + b * 4096 + c * 64 + d) div 64 = a * 4096 + b * 64 + c"
      "(a * 262144 + b * 4096 + c * 64 + d) mod 64 = d"
    unfolding 4 using dm[OF assms(3)] by blast+
  have d262144: "m div 262144 = m div 64 div 64 div 64" for m :: nat
    by (simp add: div_mult2_eq[symmetric])
  show "(a * 262144 + b * 4096 + c * 64 + d) div 262144 = a"
      "(a * 262144 + b * 4096 + c * 64 + d) div 4096 mod 64 = b"
      "(a * 262144 + b * 4096 + c * 64 + d) div 64 mod 64 = c"
      "(a * 262144 + b * 4096 + c * 64 + d) mod 64 = d"
    using q4 q3[OF assms(2)] dm[OF assms(1)] by (simp_all only: d262144 d4096)
qed

lemma encode_decode:
  assumes "rune_code ch"
  shows "encode_rune (fst (decode_rune ch)) = ch"
  using assms
proof (cases rule: rune_code_cases)
  case (one c)
  then show ?thesis by (simp add: decode_rune.simps(2) encode_rune_def Let_def)
next
  case (two c d)
  define x where "x = byte c - 192" define y where "y = byte d - 128"
  have xy: "byte c = 192 + x" "byte d = 128 + y" "x < 32" "y < 64" "2 \<le> x"
    using two by (auto simp: x_def y_def cont_def)
  have r: "fst (decode_rune ch) = x * 64 + y"
    using two xy by (simp add: decode_rune.simps(2) decode2_def)
  have "char_of (byte c) = c" "char_of (byte d) = d" by simp_all
  then have "char_of (192 + x) = c" "char_of (128 + y) = d" using xy by simp_all
  then show ?thesis using two(1) xy unfolding r by (simp add: encode_rune_def Let_def)
next
  case (three c d e)
  define x where "x = byte c - 224" define y where "y = byte d - 128" define z where "z = byte e - 128"
  have cd: "cont (byte d)" using three second_cont by blast
  have xyz: "byte c = 224 + x" "byte d = 128 + y" "byte e = 128 + z" "x < 16" "y < 64" "z < 64"
    using three cd by (auto simp: x_def y_def z_def cont_def)
  have big: "2048 \<le> x * 4096 + y * 64" "\<not> (13 = x \<and> 32 \<le> y)"
    using three(4) xyz by (auto simp: second3_def cont_def split: if_splits)
  have r: "fst (decode_rune ch) = x * 4096 + y * 64 + z"
    using three cd xyz by (simp add: decode_rune.simps(2) decode3_def)
  have ns: "\<not> (55296 \<le> x * 4096 + y * 64 + z \<and> x * 4096 + y * 64 + z \<le> 57343)"
  proof
    assume h: "55296 \<le> x * 4096 + y * 64 + z \<and> x * 4096 + y * 64 + z \<le> 57343"
    with xyz have "x = 13" by simp
    with h xyz big(2) show False by simp
  qed
  have "char_of (byte c) = c" "char_of (byte d) = d" "char_of (byte e) = e" by simp_all
  then have "char_of (224 + x) = c" "char_of (128 + y) = d" "char_of (128 + z) = e" using xyz by simp_all
  moreover have "(x * 4096 + y * 64 + z) div 4096 = x" "(x * 4096 + y * 64 + z) div 64 mod 64 = y"
      "(x * 4096 + y * 64 + z) mod 64 = z"
    using base64_digits[where a = x and b = y and c = z] xyz by blast+
  moreover have "x * 4096 + y * 64 + z < 65536" using xyz by simp
  ultimately show ?thesis using three(1) big(1) ns unfolding r
    by (auto simp: encode_rune_def Let_def)
next
  case (four c d e f)
  define x where "x = byte c - 240" define y where "y = byte d - 128"
  define z where "z = byte e - 128" define w where "w = byte f - 128"
  have cd: "cont (byte d)" using four second_cont by blast
  have xyz: "byte c = 240 + x" "byte d = 128 + y" "byte e = 128 + z" "byte f = 128 + w"
      "x < 5" "y < 64" "z < 64" "w < 64"
    using four cd by (auto simp: x_def y_def z_def w_def cont_def)
  have big: "16 \<le> x * 64 + y" "x * 64 + y < 272"
    using four(4) xyz by (auto simp: second4_def cont_def split: if_splits)
  let ?r = "x * 262144 + y * 4096 + z * 64 + w"
  have r: "fst (decode_rune ch) = ?r"
    using four cd xyz by (simp add: decode_rune.simps(2) decode4_def)
  have "char_of (byte c) = c" "char_of (byte d) = d" "char_of (byte e) = e" "char_of (byte f) = f"
    by simp_all
  then have "char_of (240 + x) = c" "char_of (128 + y) = d" "char_of (128 + z) = e" "char_of (128 + w) = f"
    using xyz by simp_all
  moreover have "?r div 262144 = x" "?r div 4096 mod 64 = y" "?r div 64 mod 64 = z" "?r mod 64 = w"
    using base64_digits[where a = x and b = y and c = z and d = w] xyz by blast+
  moreover have "65536 \<le> ?r" "?r \<le> 1114111" using xyz big by simp_all
  ultimately show ?thesis using four(1) unfolding r
    by (auto simp: encode_rune_def Let_def)
qed

end
