(* ===== verification/Formats.thy ===== *)
theory Formats
  imports Utf8
begin

text \<open>
  The ingestion formats (\<open>internal/pipeline/fileformat.go\<close>): their mime types and
  extensions, and the detection of a format from the first bytes of a file and its name.
  \<open>FmtUnknown\<close> is the \<open>Format\<close> -1 the code returns beside an error or for an unknown
  extension.
\<close>

section \<open>The format table\<close>

datatype Format = FmtPDF | FmtEPUB | FmtDOCX | FmtPPTX | FmtXLSX | FmtTXT | FmtMD | FmtHTML | FmtUnknown

fun MimeType :: "Format \<Rightarrow> string" where
  "MimeType FmtPDF = ''application/pdf''"
| "MimeType FmtEPUB = ''application/epub+zip''"
| "MimeType FmtDOCX = ''application/vnd.openxmlformats-officedocument.wordprocessingml.document''"
| "MimeType FmtPPTX = ''application/vnd.openxmlformats-officedocument.presentationml.presentation''"
| "MimeType FmtXLSX = ''application/vnd.openxmlformats-officedocument.spreadsheetml.sheet''"
| "MimeType FmtMD = ''text/markdown''"
| "MimeType FmtHTML = ''text/html''"
| "MimeType _ = ''text/plain''"

fun Ext :: "Format \<Rightarrow> string" where
  "Ext FmtPDF = ''pdf''"
| "Ext FmtEPUB = ''epub''"
| "Ext FmtDOCX = ''docx''"
| "Ext FmtPPTX = ''pptx''"
| "Ext FmtXLSX = ''xlsx''"
| "Ext FmtMD = ''md''"
| "Ext FmtHTML = ''html''"
| "Ext _ = ''txt''"

definition ParseSourceName :: "Format \<Rightarrow> string" where
  "ParseSourceName f = ''source.'' @ Ext f"

definition FormatFromMime :: "string \<Rightarrow> Format" where
  "FormatFromMime mime =
     (if mime = ''application/epub+zip'' then FmtEPUB
      else if mime = ''application/vnd.openxmlformats-officedocument.wordprocessingml.document'' then FmtDOCX
      else if mime = ''application/vnd.openxmlformats-officedocument.presentationml.presentation'' then FmtPPTX
      else if mime = ''application/vnd.openxmlformats-officedocument.spreadsheetml.sheet'' then FmtXLSX
      else if mime = ''text/markdown'' then FmtMD
      else if mime = ''text/html'' then FmtHTML
      else if mime = ''text/plain'' then FmtTXT
      else FmtPDF)"

section \<open>File names\<close>

text \<open>
  \<open>filepath.Ext\<close>: from the last dot of the last path element on; the scan stops at a
  separator.
\<close>

definition file_ext :: "string \<Rightarrow> string" where
  "file_ext path =
     (let tail = takeWhile (\<lambda>c. c \<noteq> CHR ''.'' \<and> c \<noteq> CHR ''/'') (rev path);
          rest = dropWhile (\<lambda>c. c \<noteq> CHR ''.'' \<and> c \<noteq> CHR ''/'') (rev path)
      in case rest of
           c # _ \<Rightarrow> if c = CHR ''.'' then CHR ''.'' # rev tail else []
         | [] \<Rightarrow> [])"

text \<open>
  \<open>strings.ToLower\<close>, rune by rune.  Besides the capital letters of ASCII two runes lower into
  ASCII; every other rune lowers to a rune outside ASCII and is kept here, which no comparison
  with an ASCII text can tell apart.
\<close>

definition lower_rune :: "nat \<Rightarrow> nat" where
  "lower_rune r =
     (if 65 \<le> r \<and> r \<le> 90 then r + 32
      else if r = 8490 then 107
      else if r = 304 then 105
      else r)"

definition to_lower :: "string \<Rightarrow> string" where
  "to_lower s = concat (map (\<lambda>r. encode_rune (lower_rune r)) (runes s))"

definition trim_prefix :: "string \<Rightarrow> string \<Rightarrow> string" where
  "trim_prefix s p = (if has_prefix s p then drop (length p) s else s)"

definition extFormat :: "string \<Rightarrow> Format" where
  "extFormat filename =
     (let e = to_lower (trim_prefix (file_ext filename) ''.'')
      in if e = ''pdf'' then FmtPDF
         else if e = ''epub'' then FmtEPUB
         else if e = ''docx'' then FmtDOCX
         else if e = ''pptx'' then FmtPPTX
         else if e = ''xlsx'' then FmtXLSX
         else if e = ''md'' \<or> e = ''markdown'' then FmtMD
         else if e = ''htm'' \<or> e = ''html'' then FmtHTML
         else if e = ''txt'' \<or> e = ''text'' then FmtTXT
         else FmtUnknown)"

section \<open>Detection\<close>

definition printable :: "char \<Rightarrow> bool" where
  "printable b \<longleftrightarrow> byte b = 9 \<or> byte b = 10 \<or> byte b = 13 \<or> (32 \<le> byte b \<and> byte b \<noteq> 127)"

definition looksTextual :: "string \<Rightarrow> bool" where
  "looksTextual head =
     (let h = take 512 head; n = length h
      in if n = 0 then False else n * 90 \<le> length (filter printable h) * 100)"

text \<open>\<open>strings.TrimLeft\<close> with the cutset of the byte order mark and white space.\<close>

definition in_cutset :: "nat \<Rightarrow> bool" where
  "in_cutset r \<longleftrightarrow> r = 65279 \<or> r = 32 \<or> r = 9 \<or> r = 13 \<or> r = 10"

definition trim_cutset :: "string \<Rightarrow> string" where
  "trim_cutset s = drop (sum_list (map snd (takeWhile (\<lambda>(r, n). in_cutset r) (rune_steps s)))) s"

text \<open>\<open>ErrUnsupportedFormat\<close>, with what \<open>%w\<close> wrapping adds after it.\<close>

datatype format_error = ErrUnsupportedFormat string

definition zip_magic :: string where
  "zip_magic = [CHR ''P'', CHR ''K'', CHR 0x03, CHR 0x04]"

definition DetectFormat :: "string \<Rightarrow> string \<Rightarrow> format_error + Format" where
  "DetectFormat head filename =
     (if has_prefix head ''%PDF-'' then Inr FmtPDF
      else if has_prefix head zip_magic then
        (let ef = extFormat filename
         in if ef \<in> {FmtEPUB, FmtDOCX, FmtPPTX, FmtXLSX} then Inr ef
            else if 38 \<le> length head \<and> take 8 (drop 30 head) = ''mimetype'' then Inr FmtEPUB
            else Inl (ErrUnsupportedFormat '': zip container without a known extension''))
      else if valid_utf8 head \<and> looksTextual head then
        (let lower = to_lower (take 200 head);
             trimmed = trim_cutset lower
         in if has_prefix trimmed ''<!doctype html'' \<or> has_prefix trimmed ''<html'' then Inr FmtHTML
            else let ef = extFormat filename
                 in if ef = FmtMD then Inr FmtMD
                    else if ef = FmtHTML then Inr FmtHTML
                    else if ef = FmtTXT then Inr FmtTXT
                    else Inr FmtTXT)
      else Inl (ErrUnsupportedFormat []))"

section \<open>Properties\<close>

lemma to_lower_ascii:
  "\<forall>c \<in> set s. byte c < 128 \<Longrightarrow> to_lower s = map (\<lambda>c. char_of (lower_rune (byte c))) s"
proof (induction s)
  case Nil
  then show ?case by (simp add: to_lower_def runes_def)
next
  case (Cons c s)
  then have c: "byte c < 128" by simp
  then have "decode_rune (c # s) = (byte c, 1)" by (simp add: decode_rune.simps(2))
  then have "runes (c # s) = byte c # runes s" by (simp add: runes_def rune_steps.simps)
  moreover have "encode_rune (lower_rune (byte c)) = [char_of (lower_rune (byte c))]"
    using c by (simp add: encode_rune_def lower_rune_def)
  ultimately show ?case using Cons by (simp add: to_lower_def)
qed

lemma to_lower_id:
  "\<forall>c \<in> set s. byte c < 128 \<and> lower_rune (byte c) = byte c \<Longrightarrow> to_lower s = s"
  by (subst to_lower_ascii) (auto intro: map_idI)

text \<open>
  The mime type stored for a detected format routes back to that format, and the name the
  parsers are given for it has an extension that is read as the format again.
\<close>

theorem mime_roundtrip:
  "FormatFromMime (MimeType f) = (if f = FmtUnknown then FmtTXT else f)
   \<and> extFormat (ParseSourceName f) = (if f = FmtUnknown then FmtTXT else f)"
proof
  show "FormatFromMime (MimeType f) = (if f = FmtUnknown then FmtTXT else f)"
    by (cases f) (simp_all add: FormatFromMime_def)
  have "to_lower (Ext f) = Ext f"
    by (rule to_lower_id) (cases f; simp add: lower_rune_def)
  moreover have "trim_prefix (file_ext (ParseSourceName f)) ''.'' = Ext f"
    by (cases f) (simp_all add: ParseSourceName_def file_ext_def trim_prefix_def has_prefix_def)
  ultimately show "extFormat (ParseSourceName f) = (if f = FmtUnknown then FmtTXT else f)"
    by (cases f) (simp_all add: extFormat_def)
qed

text \<open>
  Detection goes by content first: a PDF header always gives PDF, whatever the name; a zip
  gives one of the container formats or is refused; a container or PDF format is never given to
  text; and a format that is given is one the pipeline has.
\<close>

theorem DetectFormat_by_content:
  "(has_prefix head ''%PDF-'' \<longleftrightarrow> DetectFormat head name = Inr FmtPDF)
   \<and> (\<forall>f. DetectFormat head name = Inr f \<longrightarrow>
        f \<noteq> FmtUnknown
        \<and> (f \<in> {FmtEPUB, FmtDOCX, FmtPPTX, FmtXLSX} \<longleftrightarrow> has_prefix head zip_magic)
        \<and> (f \<in> {FmtTXT, FmtMD, FmtHTML} \<longrightarrow> valid_utf8 head \<and> looksTextual head))"
proof -
  have d: "\<not> (has_prefix head ''%PDF-'' \<and> has_prefix head zip_magic)"
    by (cases head) (auto simp: has_prefix_def zip_magic_def)
  show ?thesis
  proof (cases "has_prefix head ''%PDF-''")
    case True
    then show ?thesis using d by (auto simp: DetectFormat_def)
  next
    case False
    then show ?thesis
      by (cases "extFormat name") (auto simp: DetectFormat_def Let_def split: if_splits)
  qed
qed

lemma DetectFormat_by_content_witness:
  "DetectFormat ''%PDF-1.7'' ''book.epub'' = Inr FmtPDF"
proof -
  have "has_prefix ''%PDF-1.7'' ''%PDF-''" by (simp add: has_prefix_def)
  then show ?thesis using conjunct1[OF DetectFormat_by_content[of "''%PDF-1.7''" "''book.epub''"]] by blast
qed

end
