(* ===== verification/Json.thy ===== *)
theory Json
  imports Utf8 "HOL-Library.AList"
begin

text \<open>
  Go's \<open>encoding/json\<close> as far as the repository uses it: \<open>Unmarshal\<close> into
  \<open>map[string]any\<close> (job payloads, the markdown wrapper of the parser) and \<open>Marshal\<close> of
  the flat job structs.  Numbers keep their literal; \<open>num_int\<close> is the value Go's
  \<open>float64\<close> conversion and the \<open>int(n)\<close> that follows give.
\<close>

section \<open>Values\<close>

datatype json =
    JNull
  | JBool bool
  | JNum string
  | JStr string
  | JArr "json list"
  | JObj "(string \<times> json) list"

section \<open>Strings\<close>

definition hex_val :: "char \<Rightarrow> nat option" where
  "hex_val c =
     (let b = byte c
      in if 48 \<le> b \<and> b \<le> 57 then Some (b - 48)
         else if 97 \<le> b \<and> b \<le> 102 then Some (b - 87)
         else if 65 \<le> b \<and> b \<le> 70 then Some (b - 55)
         else None)"

text \<open>Four hexadecimal digits (\<open>getu4\<close> after the \<open>\u\<close>).\<close>

fun hex4 :: "string \<Rightarrow> (nat \<times> string) option" where
  "hex4 (a # b # c # d # s) =
     (case (hex_val a, hex_val b, hex_val c, hex_val d) of
        (Some w, Some x, Some y, Some z) \<Rightarrow> Some (w * 4096 + x * 256 + y * 16 + z, s)
      | _ \<Rightarrow> None)"
| "hex4 _ = None"

lemma hex4_length: "hex4 s = Some (r, t) \<Longrightarrow> length s = length t + 4"
  by (induction s rule: hex4.induct) (auto split: option.splits)

definition surrogate :: "nat \<Rightarrow> bool" where
  "surrogate r \<longleftrightarrow> 55296 \<le> r \<and> r < 57344"

text \<open>\<open>utf16.DecodeRune\<close>.\<close>

definition pair_rune :: "nat \<Rightarrow> nat \<Rightarrow> nat" where
  "pair_rune r1 r2 =
     (if 55296 \<le> r1 \<and> r1 < 56320 \<and> 56320 \<le> r2 \<and> r2 < 57344
      then (r1 - 55296) * 1024 + (r2 - 56320) + 65536 else rune_error)"

text \<open>
  The rune of a \<open>\u\<close> escape and the rest: a surrogate takes a second escape with it only
  when the two form a pair, and is U+FFFD on its own.
\<close>

definition escape_u :: "string \<Rightarrow> (nat \<times> string) option" where
  "escape_u s =
     (case hex4 s of
        None \<Rightarrow> None
      | Some (r, t) \<Rightarrow>
          if \<not> surrogate r then Some (r, t)
          else case t of
                 b # u # t1 \<Rightarrow>
                   (if byte b = 92 \<and> byte u = 117
                    then case hex4 t1 of
                           Some (r2, t2) \<Rightarrow>
                             (if pair_rune r r2 \<noteq> rune_error then Some (pair_rune r r2, t2)
                              else Some (rune_error, t))
                         | None \<Rightarrow> Some (rune_error, t)
                    else Some (rune_error, t))
               | _ \<Rightarrow> Some (rune_error, t))"

lemma escape_u_length: "escape_u s = Some (r, t) \<Longrightarrow> length t < length s"
  by (auto simp: escape_u_def split: option.splits if_splits list.splits dest!: hex4_length)

definition escape_char :: "char \<Rightarrow> char option" where
  "escape_char c =
     (if byte c \<in> {34, 92, 47} then Some c
      else if byte c = 98 then Some (char_of (8::nat))
      else if byte c = 102 then Some (char_of (12::nat))
      else if byte c = 110 then Some (char_of (10::nat))
      else if byte c = 114 then Some (char_of (13::nat))
      else if byte c = 116 then Some (char_of (9::nat))
      else None)"

text \<open>The body of a string literal up to its closing quote; invalid UTF-8 becomes U+FFFD.\<close>

function string_body :: "string \<Rightarrow> (string \<times> string) option" where
  "string_body [] = None"
| "string_body (c # s) =
     (let b = byte c
      in if b = 34 then Some ([], s)
         else if b = 92
         then (case s of
                 [] \<Rightarrow> None
               | e # s' \<Rightarrow>
                   if byte e = 117
                   then (case escape_u s' of
                           None \<Rightarrow> None
                         | Some (r, t) \<Rightarrow>
                             map_option (\<lambda>(v, rest). (encode_rune r @ v, rest)) (string_body t))
                   else (case escape_char e of
                           None \<Rightarrow> None
                         | Some x \<Rightarrow> map_option (\<lambda>(v, rest). (x # v, rest)) (string_body s')))
         else if b < 32 then None
         else if b < 128 then map_option (\<lambda>(v, rest). (c # v, rest)) (string_body s)
         else let (r, w) = decode_rune (c # s)
              in map_option (\<lambda>(v, rest). (encode_rune r @ v, rest)) (string_body (drop w (c # s))))"
  by pat_completeness auto
termination
  by (relation "measure length") (auto dest: decode_pos escape_u_length)

declare string_body.simps(2) [simp del]

section \<open>Numbers and white space\<close>

definition json_space :: "char \<Rightarrow> bool" where
  "json_space c \<longleftrightarrow> byte c \<in> {32, 9, 10, 13}"

definition skip_ws :: "string \<Rightarrow> string" where
  "skip_ws s = dropWhile json_space s"

definition is_digit :: "char \<Rightarrow> bool" where
  "is_digit c \<longleftrightarrow> 48 \<le> byte c \<and> byte c \<le> 57"

text \<open>The optional parts of a number literal: each gives the text it takes and the rest.\<close>

definition int_part :: "string \<Rightarrow> (string \<times> string) option" where
  "int_part s =
     (case s of
        [] \<Rightarrow> None
      | c # t \<Rightarrow>
          if byte c = 48 then Some ([c], t)
          else if is_digit c then Some (takeWhile is_digit s, dropWhile is_digit s)
          else None)"

definition frac_part :: "string \<Rightarrow> (string \<times> string) option" where
  "frac_part s =
     (case s of
        c # t \<Rightarrow>
          if byte c = 46
          then (if takeWhile is_digit t = [] then None
                else Some (c # takeWhile is_digit t, dropWhile is_digit t))
          else Some ([], s)
      | [] \<Rightarrow> Some ([], []))"

definition exp_part :: "string \<Rightarrow> (string \<times> string) option" where
  "exp_part s =
     (case s of
        c # t \<Rightarrow>
          if byte c \<in> {101, 69}
          then let (sign, u) = (case t of d # u \<Rightarrow> if byte d \<in> {43, 45} then ([d], u) else ([], t) | [] \<Rightarrow> ([], []))
               in if takeWhile is_digit u = [] then None
                  else Some (c # sign @ takeWhile is_digit u, dropWhile is_digit u)
          else Some ([], s)
      | [] \<Rightarrow> Some ([], []))"

definition number :: "string \<Rightarrow> (string \<times> string) option" where
  "number s =
     (let (sign, s0) = (case s of c # t \<Rightarrow> if byte c = 45 then ([c], t) else ([], s) | [] \<Rightarrow> ([], []))
      in Option.bind (int_part s0) (\<lambda>(i, s1).
         Option.bind (frac_part s1) (\<lambda>(f, s2).
         Option.bind (exp_part s2) (\<lambda>(e, s3). Some (sign @ i @ f @ e, s3)))))"

section \<open>Values of any shape\<close>

text \<open>
  \<open>depth\<close> is the remaining nesting depth (Go allows 10000 levels); \<open>fuel\<close> bounds the
  number of nested calls, and \<open>Unmarshal\<close> gives more than any input needs.
\<close>

fun jvalue :: "nat \<Rightarrow> nat \<Rightarrow> string \<Rightarrow> (json \<times> string) option"
and elements :: "nat \<Rightarrow> nat \<Rightarrow> string \<Rightarrow> (json list \<times> string) option"
and members :: "nat \<Rightarrow> nat \<Rightarrow> string \<Rightarrow> ((string \<times> json) list \<times> string) option" where
  "jvalue 0 depth s = None"
| "jvalue (Suc fuel) depth s =
     (case skip_ws s of
        [] \<Rightarrow> None
      | c # t \<Rightarrow>
          if byte c = 34 then map_option (\<lambda>(v, rest). (JStr v, rest)) (string_body t)
          else if byte c = 91
          then (if depth = 0 then None
                else case skip_ws t of
                       [] \<Rightarrow> None
                     | d # u \<Rightarrow>
                         if byte d = 93 then Some (JArr [], u)
                         else map_option (\<lambda>(vs, rest). (JArr vs, rest)) (elements fuel (depth - 1) t))
          else if byte c = 123
          then (if depth = 0 then None
                else case skip_ws t of
                       [] \<Rightarrow> None
                     | d # u \<Rightarrow>
                         if byte d = 125 then Some (JObj [], u)
                         else map_option (\<lambda>(ms, rest). (JObj ms, rest)) (members fuel (depth - 1) t))
          else if has_prefix (c # t) ''true'' then Some (JBool True, drop 4 (c # t))
          else if has_prefix (c # t) ''false'' then Some (JBool False, drop 5 (c # t))
          else if has_prefix (c # t) ''null'' then Some (JNull, drop 4 (c # t))
          else map_option (\<lambda>(v, rest). (JNum v, rest)) (number (c # t)))"
| "elements 0 depth s = None"
| "elements (Suc fuel) depth s =
     (case jvalue fuel depth s of
        None \<Rightarrow> None
      | Some (v, t) \<Rightarrow>
          case skip_ws t of
            [] \<Rightarrow> None
          | c # u \<Rightarrow>
              if byte c = 44 then map_option (\<lambda>(vs, rest). (v # vs, rest)) (elements fuel depth u)
              else if byte c = 93 then Some ([v], u)
              else None)"
| "members 0 depth s = None"
| "members (Suc fuel) depth s =
     (case skip_ws s of
        [] \<Rightarrow> None
      | q # t \<Rightarrow>
          if byte q \<noteq> 34 then None
          else case string_body t of
                 None \<Rightarrow> None
               | Some (k, t1) \<Rightarrow>
                   case skip_ws t1 of
                     [] \<Rightarrow> None
                   | c1 # t2 \<Rightarrow>
                       if byte c1 \<noteq> 58 then None
                       else case jvalue fuel depth t2 of
                              None \<Rightarrow> None
                            | Some (v, t3) \<Rightarrow>
                                case skip_ws t3 of
                                  [] \<Rightarrow> None
                                | c # u \<Rightarrow>
                                    if byte c = 44
                                    then map_option (\<lambda>(ms, rest). ((k, v) # ms, rest)) (members fuel depth u)
                                    else if byte c = 125 then Some ([(k, v)], u)
                                    else None)"

text \<open>The payload map of an object: a repeated key keeps its last value.\<close>

type_synonym payload = "(string \<times> json) list"

definition last_wins :: "(string \<times> json) list \<Rightarrow> payload" where
  "last_wins ms = fold (\<lambda>(k, v) m. AList.update k v m) ms []"

text \<open>
  \<open>json.Unmarshal\<close> into a \<open>map[string]any\<close>: \<open>None\<close> is an error, \<open>Some None\<close> the nil map
  of a top-level \<open>null\<close>.
\<close>

definition unmarshal :: "string \<Rightarrow> payload option option" where
  "unmarshal s =
     (case jvalue (2 * length s + 2) 10000 s of
        None \<Rightarrow> None
      | Some (v, rest) \<Rightarrow>
          if skip_ws rest \<noteq> [] then None
          else case v of
                 JObj ms \<Rightarrow> Some (Some (last_wins ms))
               | JNull \<Rightarrow> Some None
               | _ \<Rightarrow> None)"

section \<open>Reading fields\<close>

text \<open>
  The integer a number literal stands for.  A plain integer literal of at most 15 digits is
  exact as a \<open>float64\<close>; any other literal goes through \<open>strconv.ParseFloat\<close> and Go's
  conversion to \<open>int\<close>, the parameter \<open>parse_float\<close>.
\<close>

definition plain_int :: "string \<Rightarrow> bool" where
  "plain_int lit =
     (let ds = (case lit of c # t \<Rightarrow> if byte c = 45 then t else lit | [] \<Rightarrow> [])
      in ds \<noteq> [] \<and> list_all is_digit ds \<and> length ds \<le> 15)"

definition num_int :: "(string \<Rightarrow> int) \<Rightarrow> string \<Rightarrow> int" where
  "num_int parse_float lit =
     (if plain_int lit
      then (case lit of
              c # t \<Rightarrow> if byte c = 45 then - int (digits_value t 0) else int (digits_value lit 0)
            | [] \<Rightarrow> 0)
      else parse_float lit)"

definition get_str :: "payload \<Rightarrow> string \<Rightarrow> string option" where
  "get_str m k = (case map_of m k of Some (JStr v) \<Rightarrow> Some v | _ \<Rightarrow> None)"

definition get_num :: "(string \<Rightarrow> int) \<Rightarrow> payload \<Rightarrow> string \<Rightarrow> int option" where
  "get_num pf m k = (case map_of m k of Some (JNum lit) \<Rightarrow> Some (num_int pf lit) | _ \<Rightarrow> None)"

section \<open>Marshalling flat structs\<close>

definition hex_digit :: "nat \<Rightarrow> char" where
  "hex_digit n = (if n < 10 then char_of (48 + n) else char_of (87 + n))"

definition u00 :: "nat \<Rightarrow> string" where
  "u00 b = (CHR 0x5C # ''u00'') @ [hex_digit (b div 16), hex_digit (b mod 16)]"

text \<open>\<open>json.Marshal\<close> of a string, with its HTML-safe escapes.\<close>

function quote_body :: "string \<Rightarrow> string" where
  "quote_body [] = []"
| "quote_body (c # s) =
     (let b = byte c
      in if b < 128
         then (if b = 34 \<or> b = 92 then [CHR 0x5C, c]
               else if b = 8 then (CHR 0x5C # ''b'')
               else if b = 12 then (CHR 0x5C # ''f'')
               else if b = 10 then (CHR 0x5C # ''n'')
               else if b = 13 then (CHR 0x5C # ''r'')
               else if b = 9 then (CHR 0x5C # ''t'')
               else if b < 32 \<or> b = 60 \<or> b = 62 \<or> b = 38 then u00 b
               else [c]) @ quote_body s
         else let (r, w) = decode_rune (c # s)
              in (if r = rune_error \<and> w = 1 then (CHR 0x5C # ''ufffd'')
                  else if r = 8232 then (CHR 0x5C # ''u2028'')
                  else if r = 8233 then (CHR 0x5C # ''u2029'')
                  else take w (c # s)) @ quote_body (drop w (c # s)))"
  by pat_completeness auto
termination
  by (relation "measure length") (auto dest: decode_pos)

declare quote_body.simps(2) [simp del]

definition quoted :: "string \<Rightarrow> string" where
  "quoted s = CHR 0x22 # quote_body s @ [CHR 0x22]"

datatype field = FInt int | FStr string

fun field_text :: "field \<Rightarrow> string" where
  "field_text (FInt i) = itoa i"
| "field_text (FStr s) = quoted s"

definition marshal :: "(string \<times> field) list \<Rightarrow> string" where
  "marshal fs =
     CHR ''{'' # join '','' (map (\<lambda>(k, v). quoted k @ CHR '':'' # field_text v) fs) @ ''}''"

section \<open>Reading back what was written\<close>

subsection \<open>Strings\<close>

lemma hex_val_digit: "n < 16 \<Longrightarrow> hex_val (hex_digit n) = Some n"
  by (auto simp: hex_val_def hex_digit_def Let_def)

lemma char_of_byte [simp]: "char_of (byte c) = c"
  by simp

lemma byte_eq: "byte c = n \<Longrightarrow> char_of n = c"
  by auto

abbreviation cons_to :: "string \<Rightarrow> (string \<times> string) option \<Rightarrow> (string \<times> string) option" where
  "cons_to v r \<equiv> map_option (\<lambda>(w, rest). (v @ w, rest)) r"

lemma string_body_escape:
  "escape_char e = Some x \<Longrightarrow> byte e \<noteq> 117 \<Longrightarrow>
   string_body (CHR 0x5C # e # u) = cons_to [x] (string_body u)"
  by (subst string_body.simps(2)) simp

lemma string_body_u00:
  assumes "b < 128"
  shows "string_body (u00 b @ u) = cons_to [char_of b] (string_body u)"
proof -
  have h: "hex4 (CHR ''0'' # CHR ''0'' # hex_digit (b div 16) # hex_digit (b mod 16) # u) = Some (b, u)"
    using assms by (simp add: hex_val_digit) (simp add: hex_val_def Let_def)
  have "escape_u (CHR ''0'' # CHR ''0'' # hex_digit (b div 16) # hex_digit (b mod 16) # u) = Some (b, u)"
    unfolding escape_u_def h using assms by (simp add: surrogate_def)
  then show ?thesis using assms
    by (simp add: u00_def) (subst string_body.simps(2), simp add: encode_rune_def)
qed

lemma string_body_plain:
  "byte c < 128 \<Longrightarrow> 32 \<le> byte c \<Longrightarrow> byte c \<noteq> 34 \<Longrightarrow> byte c \<noteq> 92 \<Longrightarrow>
   string_body (c # u) = cons_to [c] (string_body u)"
  by (subst string_body.simps(2)) simp

lemma quote_ascii:
  assumes "byte c < 128"
  shows "\<exists>q. quote_body (c # t) = q @ quote_body t \<and> (\<forall>u. string_body (q @ u) = cons_to [c] (string_body u))"
proof -
  let ?b = "byte c"
  consider "?b = 34 \<or> ?b = 92" | "?b \<in> {8, 9, 10, 12, 13}"
    | "?b \<notin> {8, 9, 10, 12, 13}" "?b < 32 \<or> ?b = 60 \<or> ?b = 62 \<or> ?b = 38"
    | "32 \<le> ?b" "?b \<noteq> 34" "?b \<noteq> 92" "?b \<noteq> 60" "?b \<noteq> 62" "?b \<noteq> 38"
    using linorder_not_less[of ?b 32] by blast
  then show ?thesis
  proof cases
    case 1
    then have "quote_body (c # t) = [CHR 0x5C, c] @ quote_body t"
      by (auto simp: quote_body.simps(2) Let_def)
    moreover have "string_body ([CHR 0x5C, c] @ u) = cons_to [c] (string_body u)" for u
      using 1 string_body_escape[of c c u] by (auto simp: escape_char_def)
    ultimately show ?thesis by blast
  next
    case 2
    then obtain e where e: "quote_body (c # t) = [CHR 0x5C, e] @ quote_body t"
        "escape_char e = Some c" "byte e \<noteq> 117"
      by (auto simp: quote_body.simps(2) Let_def escape_char_def dest!: byte_eq)
    moreover have "string_body ([CHR 0x5C, e] @ u) = cons_to [c] (string_body u)" for u
      using string_body_escape[OF e(2,3)] by simp
    ultimately show ?thesis by blast
  next
    case 3
    then have "quote_body (c # t) = u00 ?b @ quote_body t"
      by (auto simp: quote_body.simps(2) Let_def)
    moreover have "string_body (u00 ?b @ u) = cons_to [c] (string_body u)" for u
      using string_body_u00[OF assms, of u] by simp
    ultimately show ?thesis by blast
  next
    case 4
    then have "quote_body (c # t) = [c] @ quote_body t"
      using assms by (auto simp: quote_body.simps(2) Let_def)
    moreover have "string_body ([c] @ u) = cons_to [c] (string_body u)" for u
      using string_body_plain[of c u] 4 assms by simp
    ultimately show ?thesis by blast
  qed
qed

lemma string_body_u_literal:
  assumes "hex4 (h @ u) = Some (r, u)" "\<not> surrogate r"
  shows "string_body (CHR 0x5C # CHR ''u'' # h @ u) = cons_to (encode_rune r) (string_body u)"
  using assms by (subst string_body.simps(2)) (simp add: escape_u_def)

lemma quote_multi:
  assumes rc: "rune_code ch" and len: "2 \<le> length ch"
  shows "\<exists>q. quote_body (ch @ t) = q @ quote_body t \<and> (\<forall>u. string_body (q @ u) = cons_to ch (string_body u))"
proof -
  obtain c ch' where ch: "ch = c # ch'" using len by (cases ch) auto
  have hi: "128 \<le> byte c" using rune_code_bytes(4)[OF rc len, of c] ch by simp
  obtain r where d: "decode_rune (ch @ x) = (r, length ch)" for x
    using rune_code_decode[OF rc] by (metis prod.collapse)
  have r: "encode_rune r = ch" using encode_decode[OF rc] d[of "[]"] by simp
  have plain: "string_body (ch @ u) = cons_to ch (string_body u)" for u
    using d[of u] hi r unfolding ch append_Cons by (subst string_body.simps(2)) (simp add: Let_def)
  consider "r = 8232" | "r = 8233" | "r \<noteq> 8232" "r \<noteq> 8233" by blast
  then show ?thesis
  proof cases
    case 1
    have "quote_body (ch @ t) = (CHR 0x5C # ''u2028'') @ quote_body t"
      using d[of t] hi 1 len unfolding ch by (simp add: quote_body.simps(2) rune_error_def)
    moreover have "string_body ((CHR 0x5C # ''u2028'') @ u) = cons_to ch (string_body u)" for u
      using string_body_u_literal[of "''2028''" u 8232] r 1 by (simp add: hex_val_def surrogate_def)
    ultimately show ?thesis by blast
  next
    case 2
    have "quote_body (ch @ t) = (CHR 0x5C # ''u2029'') @ quote_body t"
      using d[of t] hi 2 len unfolding ch by (simp add: quote_body.simps(2) rune_error_def)
    moreover have "string_body ((CHR 0x5C # ''u2029'') @ u) = cons_to ch (string_body u)" for u
      using string_body_u_literal[of "''2029''" u 8233] r 2 by (simp add: hex_val_def surrogate_def)
    ultimately show ?thesis by blast
  next
    case 3
    have "quote_body (ch @ t) = ch @ quote_body t"
      using d[of t] hi 3 len unfolding ch by (auto simp: quote_body.simps(2))
    with plain show ?thesis by blast
  qed
qed

lemma string_body_quote:
  assumes "valid_utf8 s"
  shows "string_body (quote_body s @ CHR 0x22 # rest) = Some (s, rest)"
proof -
  obtain chs where "s = concat chs" and rc: "\<forall>ch \<in> set chs. rune_code ch"
    using valid_utf8_codes[OF assms] by auto
  moreover have "string_body (quote_body (concat chs) @ CHR 0x22 # rest) = Some (concat chs, rest)"
    using rc
  proof (induction chs)
    case Nil
    then show ?case by (simp add: string_body.simps(2))
  next
    case (Cons ch chs)
    then have ch: "rune_code ch" by simp
    obtain q where q: "quote_body (ch @ concat chs) = q @ quote_body (concat chs)"
        "\<forall>u. string_body (q @ u) = cons_to ch (string_body u)"
    proof (cases "2 \<le> length ch")
      case False
      moreover have "ch \<noteq> []" using ch by (auto simp: rune_code_def)
      ultimately obtain c where "ch = [c]" by (cases ch; cases "tl ch") auto
      then show ?thesis using that quote_ascii[of c "concat chs"] ch by (auto simp: rune_code_single)
    qed (use that quote_multi[OF ch] in blast)
    then show ?case using Cons by simp
  qed
  ultimately show ?thesis by simp
qed

subsection \<open>Numbers\<close>

lemma nat_digits_digit: "c \<in> set (nat_digits n) \<Longrightarrow> is_digit c"
  using nat_digits_set[of n] by (auto simp: is_digit_def)

lemma nat_digits_lead: "10 \<le> n \<Longrightarrow> hd (nat_digits n) \<noteq> CHR ''0''"
proof (induction n rule: nat_digits.induct)
  case (1 n)
  show ?case
  proof (cases "n div 10 < 10")
    case True
    have "char_of (48 + n div 10) \<noteq> CHR ''0''"
    proof
      assume "char_of (48 + n div 10) = CHR ''0''"
      then have "byte (char_of (48 + n div 10)) = byte (CHR ''0'')" by simp
      with True 1 show False by simp
    qed
    with True 1 show ?thesis by (subst nat_digits.simps, subst nat_digits.simps) simp
  next
    case False
    with 1 show ?thesis by (subst nat_digits.simps) simp
  qed
qed

text \<open>A byte that cannot continue a number.\<close>

definition ends_number :: "string \<Rightarrow> bool" where
  "ends_number s \<longleftrightarrow> (case s of [] \<Rightarrow> True | c # _ \<Rightarrow> \<not> is_digit c \<and> byte c \<notin> {46, 101, 69})"

lemma takeWhile_digits:
  assumes "\<forall>c \<in> set ds. is_digit c" "ends_number rest"
  shows "takeWhile is_digit (ds @ rest) = ds" "dropWhile is_digit (ds @ rest) = rest"
  using assms by (induction ds) (auto simp: ends_number_def split: list.splits)

lemma int_part_digits: "ends_number rest \<Longrightarrow> int_part (nat_digits n @ rest) = Some (nat_digits n, rest)"
proof (cases "n < 10")
  case True
  assume e: "ends_number rest"
  have ds: "nat_digits n = [char_of (48 + n)]" using True by (subst nat_digits.simps) simp
  show ?thesis
    using True e by (auto simp: ds int_part_def is_digit_def ends_number_def split: list.splits)
next
  case False
  assume e: "ends_number rest"
  obtain c ds where cs: "nat_digits n = c # ds" by (cases "nat_digits n") auto
  have "c \<noteq> CHR ''0''" using nat_digits_lead[of n] False cs by auto
  moreover have "byte (CHR ''0'') = 48" by simp
  ultimately have "byte c \<noteq> 48" by (metis of_char_eq_iff)
  then show ?thesis
    using takeWhile_digits[of "nat_digits n" rest] e nat_digits_digit[of _ n] cs
    by (auto simp: int_part_def)
qed

lemma number_itoa:
  assumes "ends_number rest"
  shows "number (itoa i @ rest) = Some (itoa i, rest)"
proof -
  have tail: "frac_part rest = Some ([], rest)" "exp_part rest = Some ([], rest)"
    using assms by (auto simp: frac_part_def exp_part_def ends_number_def split: list.splits)
  obtain c ds where cs: "nat_digits (nat i) = c # ds" by (cases "nat_digits (nat i)") auto
  have "byte c \<noteq> 45"
    using nat_digits_digit[of c "nat i"] cs by (auto simp: is_digit_def)
  then show ?thesis
    using int_part_digits[OF assms, of "nat i"] int_part_digits[OF assms, of "nat (- i)"] tail cs
    by (auto simp: number_def itoa_def)
qed

lemma num_int_itoa:
  assumes "\<bar>i\<bar> < 10 ^ 15"
  shows "num_int pf (itoa i) = i"
proof -
  have len: "n < 10 ^ k \<Longrightarrow> 0 < k \<Longrightarrow> length (nat_digits n) \<le> k" for n k
  proof (induction n arbitrary: k rule: nat_digits.induct)
    case (1 n)
    show ?case
    proof (cases "n < 10")
      case True
      then show ?thesis using 1 by (subst nat_digits.simps) simp
    next
      case False
      then obtain k' where k: "k = Suc k'" "0 < k'" using 1 by (cases k; cases "k - 1") auto
      then have "n div 10 < 10 ^ k'" using 1 by (simp add: div_less_iff_less_mult mult.commute)
      with 1 False k show ?thesis by (subst nat_digits.simps) simp
    qed
  qed
  have all: "list_all is_digit (nat_digits n)" for n
    using nat_digits_digit[of _ n] by (simp add: list_all_iff)
  have plain: "plain_int (nat_digits n)" "byte (hd (nat_digits n)) \<noteq> 45" if "n < 10 ^ 15" for n
  proof -
    obtain c ds where cs: "nat_digits n = c # ds" by (cases "nat_digits n") auto
    have "is_digit c" using nat_digits_digit[of c n] cs by simp
    then show "byte (hd (nat_digits n)) \<noteq> 45" by (simp add: cs is_digit_def)
    then show "plain_int (nat_digits n)"
      using all[of n] len[OF that] cs by (simp add: plain_int_def)
  qed
  show ?thesis
  proof (cases "i < 0")
    case True
    then have "nat (- i) < 10 ^ 15" using assms by simp
    then show ?thesis using True all[of "nat (- i)"] len[of "nat (- i)" 15]
      by (simp add: num_int_def itoa_def plain_int_def digits_value_digits)
  next
    case False
    then have n: "nat i < 10 ^ 15" using assms by simp
    obtain c ds where cs: "nat_digits (nat i) = c # ds" by (cases "nat_digits (nat i)") auto
    show ?thesis using False plain[OF n] digits_value_digits[of "nat i"]
      by (simp add: num_int_def itoa_def cs)
  qed
qed

subsection \<open>Flat objects\<close>

fun field_json :: "field \<Rightarrow> json" where
  "field_json (FInt i) = JNum (itoa i)"
| "field_json (FStr s) = JStr s"

fun field_ok :: "field \<Rightarrow> bool" where
  "field_ok (FInt i) = True"
| "field_ok (FStr s) = valid_utf8 s"

lemma skip_ws_Cons: "\<not> json_space c \<Longrightarrow> skip_ws (c # s) = c # s"
  by (simp add: skip_ws_def)

lemma jvalue_field:
  assumes "field_ok v" and "byte c = 44 \<or> byte c = 125"
  shows "jvalue (Suc fuel) depth (field_text v @ c # rest) = Some (field_json v, c # rest)"
proof (cases v)
  case (FStr s)
  with assms(1) show ?thesis
    by (simp add: quoted_def skip_ws_Cons json_space_def string_body_quote)
next
  case (FInt i)
  have e: "ends_number (c # rest)" using assms(2) by (auto simp: ends_number_def is_digit_def)
  obtain d ds where cs: "itoa i = d # ds" by (cases "itoa i") (auto simp: itoa_def split: if_splits)
  have d: "byte d = 45 \<or> is_digit d"
  proof (cases "i < 0")
    case False
    then have "d \<in> set (nat_digits (nat i))" using cs by (simp add: itoa_def)
    then show ?thesis using nat_digits_digit by blast
  qed (use cs in \<open>auto simp: itoa_def\<close>)
  then have first: "\<not> json_space d" "byte d \<notin> {34, 91, 123}" "d \<noteq> CHR ''t''" "d \<noteq> CHR ''f''" "d \<noteq> CHR ''n''"
    by (auto simp: json_space_def is_digit_def)
  then show ?thesis
    using number_itoa[OF e, of i] FInt cs by (simp add: skip_ws_Cons has_prefix_def)
qed

definition field_line :: "string \<times> field \<Rightarrow> string" where
  "field_line kv = (case kv of (k, v) \<Rightarrow> quoted k @ CHR '':'' # field_text v)"

lemma members_field:
  assumes "valid_utf8 k" "field_ok v" "byte c = 44 \<or> byte c = 125"
  shows "members (Suc (Suc fuel)) depth (field_line (k, v) @ c # t) =
    (if byte c = 44
     then map_option (\<lambda>(ms, rest). ((k, field_json v) # ms, rest)) (members (Suc fuel) depth t)
     else Some ([(k, field_json v)], t))"
proof -
  have "\<not> json_space c" using assms(3) by (auto simp: json_space_def)
  moreover have "field_line (k, v) @ c # t
      = CHR 0x22 # quote_body k @ CHR 0x22 # CHR '':'' # field_text v @ c # t"
    by (simp add: field_line_def quoted_def)
  ultimately show ?thesis
    using jvalue_field[OF assms(2,3), of fuel depth t] string_body_quote[OF assms(1)] assms(3)
    by (auto simp: members.simps(2)[of "Suc fuel"] skip_ws_Cons json_space_def
        simp del: members.simps jvalue.simps)
qed

lemma members_fields:
  assumes "fs \<noteq> []" "\<forall>(k, v) \<in> set fs. valid_utf8 k \<and> field_ok v" "length fs < fuel"
  shows "members fuel depth (join '','' (map field_line fs) @ ''}'' @ rest)
    = Some (map (\<lambda>(k, v). (k, field_json v)) fs, rest)"
  using assms
proof (induction fs arbitrary: fuel rule: induct_list012)
  case (2 kv)
  obtain f where "fuel = Suc (Suc f)" using 2 by (cases fuel; cases "fuel - 1") auto
  then show ?case using 2 members_field[of "fst kv" "snd kv" "CHR ''}''" f depth rest]
    by (auto simp del: members.simps)
next
  case (3 kv kv' fs)
  obtain f where fuel: "fuel = Suc (Suc f)" using 3 by (cases fuel; cases "fuel - 1") auto
  let ?t = "join '','' (map field_line (kv' # fs)) @ ''}'' @ rest"
  have "members (Suc f) depth ?t = Some (map (\<lambda>(k, v). (k, field_json v)) (kv' # fs), rest)"
    using 3 fuel by (intro "3.IH"(2)) auto
  then show ?case using 3 fuel members_field[of "fst kv" "snd kv" "CHR '',''" f depth ?t]
    by (auto simp: join_Cons split: prod.splits simp del: members.simps)
qed simp

lemma length_join: "length ls \<le> Suc (length (join '','' ls))"
  by (induction ls rule: induct_list012) auto

lemma fold_update_distinct:
  "distinct (map fst ms) \<Longrightarrow>
   map_of (fold (\<lambda>(k, v) m. AList.update k v m) ms m0) = map_of m0 ++ map_of ms"
proof (induction ms arbitrary: m0)
  case (Cons kv ms)
  obtain k v where kv: "kv = (k, v)" by fastforce
  have "map_of ms k = None" using Cons.prems kv by (simp add: map_of_eq_None_iff)
  then show ?case using Cons kv
    by (auto simp: update_conv' map_add_def fun_eq_iff split: option.splits)
qed simp

lemma last_wins_distinct: "distinct (map fst ms) \<Longrightarrow> map_of (last_wins ms) = map_of ms"
  by (simp add: last_wins_def fold_update_distinct)

lemma unmarshal_marshal:
  assumes "fs \<noteq> []" "\<forall>(k, v) \<in> set fs. valid_utf8 k \<and> field_ok v" "distinct (map fst fs)"
  shows "\<exists>m. unmarshal (marshal fs) = Some (Some m)
    \<and> map_of m = map_of (map (\<lambda>(k, v). (k, field_json v)) fs)"
proof -
  let ?ms = "map (\<lambda>(k, v). (k, field_json v)) fs" and ?body = "join '','' (map field_line fs)"
  have shape: "marshal fs = CHR ''{'' # ?body @ ''}''"
    by (simp add: marshal_def field_line_def[abs_def])
  have "length fs \<le> Suc (length ?body)" using length_join[of "map field_line fs"] by simp
  then have fuel: "length fs < Suc (2 * length (marshal fs))" by (simp add: shape)
  obtain k v gs where fs: "fs = (k, v) # gs" using assms(1) by (cases fs) auto
  have "\<exists>t. ?body = CHR 0x22 # t"
    by (cases gs) (simp_all add: fs field_line_def[of "(k, v)"] quoted_def)
  then obtain c t where ct: "?body = c # t" "byte c = 34" by auto
  define n where "n = Suc (2 * length (marshal fs))"
  have "members n 9999 (c # t @ ''}'') = Some (?ms, [])"
    using members_fields[OF assms(1,2), of n 9999 "[]"] fuel ct(1) by (simp add: n_def)
  then have "jvalue (Suc n) 10000 (CHR ''{'' # c # t @ ''}'') = Some (JObj ?ms, [])"
    using ct(2) by (simp add: skip_ws_Cons json_space_def del: members.simps)
  then have "jvalue (2 * length (marshal fs) + 2) 10000 (marshal fs) = Some (JObj ?ms, [])"
    using ct(1) shape by (simp add: n_def del: jvalue.simps)
  then have "unmarshal (marshal fs) = Some (Some (last_wins ?ms))"
    by (simp add: unmarshal_def skip_ws_def)
  moreover have "map fst ?ms = map fst fs" by (auto simp: comp_def split: prod.splits)
  ultimately show ?thesis using last_wins_distinct assms(3) by metis
qed

end
