(* ===== verification/Errors.thy ===== *)
theory Errors
  imports Prelude
begin

text \<open>
  The error taxonomy (\<open>internal/errors/errors.go\<close>), the transient database errors
  (\<open>internal/store/pgerr.go\<close>) and the missing-object errors
  (\<open>internal/objectstore/errors.go\<close>).

  A Go error is a value of \<open>goerr\<close>: the repository's own error types, the error types
  of the Postgres driver and of the object-store client the code inspects, a plain
  \<open>errors.New\<close> / \<open>fmt.Errorf\<close> text, and a \<open>%w\<close> wrapping.
\<close>

section \<open>Codes and their specifications\<close>

datatype Stage = StageSplit | StageParse | StageEmbed | StageIndex

datatype ErrorCode =
    CodePDFEncrypted | CodePDFCorrupt | CodeUnsupportedFormat | CodeShardOOM | CodeShardTimeout
  | CodeOCRFailed | CodeEmbedUnavailable | CodeEmbedDimMismatch | CodeVectorUpsertFailed
  | CodeDedupeConflict | CodeDocEmbedFailed | CodeDLQ | CodeShardResplit

text \<open>The wire value of a code (\<open>string(code)\<close>).\<close>

fun code_text :: "ErrorCode \<Rightarrow> string" where
  "code_text CodePDFEncrypted = ''PDF_ENCRYPTED''"
| "code_text CodePDFCorrupt = ''PDF_CORRUPT''"
| "code_text CodeUnsupportedFormat = ''UNSUPPORTED_FORMAT''"
| "code_text CodeShardOOM = ''SHARD_OOM''"
| "code_text CodeShardTimeout = ''SHARD_TIMEOUT''"
| "code_text CodeOCRFailed = ''OCR_FAILED''"
| "code_text CodeEmbedUnavailable = ''EMBED_UNAVAILABLE''"
| "code_text CodeEmbedDimMismatch = ''EMBED_DIM_MISMATCH''"
| "code_text CodeVectorUpsertFailed = ''VECTOR_UPSERT_FAILED''"
| "code_text CodeDedupeConflict = ''DEDUPE_CONFLICT''"
| "code_text CodeDocEmbedFailed = ''DOC_EMBED_FAILED''"
| "code_text CodeDLQ = ''DLQ''"
| "code_text CodeShardResplit = ''SHARD_RESPLIT''"

record ErrorSpec =
  spec_Code :: ErrorCode
  spec_Stage :: Stage
  spec_Retryable :: bool
  spec_UITreatment :: string

text \<open>
  \<open>ErrorSpecs\<close>, the map literal.  The two dashes of the UI texts are the UTF-8 bytes of an
  em dash in the source.
\<close>

definition em_dash :: string where
  "em_dash = [CHR 0xE2, CHR 0x80, CHR 0x94]"

definition ErrorSpecs :: "(ErrorCode \<times> ErrorSpec) list" where
  "ErrorSpecs = map (\<lambda>(c, st, r, ui). (c, \<lparr>spec_Code = c, spec_Stage = st, spec_Retryable = r, spec_UITreatment = ui\<rparr>))
     [(CodePDFEncrypted, StageSplit, False, ''Password required '' @ em_dash @ '' prompt for upload replacement''),
      (CodePDFCorrupt, StageSplit, False, ''Terminal, offer delete''),
      (CodeUnsupportedFormat, StageSplit, False, ''Terminal '' @ em_dash @ '' format not ingestible''),
      (CodeShardOOM, StageParse, True, ''Auto retry ladder, show attempt count''),
      (CodeShardTimeout, StageParse, True, ''Auto''),
      (CodeOCRFailed, StageParse, True, ''Auto, flags reduced quality''),
      (CodeEmbedUnavailable, StageEmbed, True, ''Auto, banner: Embedding service down''),
      (CodeEmbedDimMismatch, StageEmbed, False, ''Config error '' @ em_dash @ '' collection model vs. TEI model''),
      (CodeVectorUpsertFailed, StageIndex, True, ''Auto''),
      (CodeDedupeConflict, StageSplit, False, ''Link to the existing document''),
      (CodeDocEmbedFailed, StageEmbed, False, ''Terminal '' @ em_dash @ '' embed failed after max attempts, offer re-ingest'')]"

section \<open>Error values\<close>

datatype goerr =
    Plain string
  | PlatformError ErrorCode string bool     \<comment> \<open>code, detail, retryable\<close>
  | PayloadError string string              \<comment> \<open>field, message\<close>
  | PgError string string                   \<comment> \<open>SQLSTATE, message\<close>
  | NoSuchKey                               \<comment> \<open>the object store's modelled exceptions\<close>
  | S3NotFound
  | ApiError string string                  \<comment> \<open>any other API error: code, message\<close>
  | HttpError int goerr                     \<comment> \<open>a response error: status, cause\<close>
  | Wrap string goerr                       \<comment> \<open>\<open>fmt.Errorf("prefix: %w", err)\<close>, with its prefix\<close>
  | WrapAfter goerr string                  \<comment> \<open>\<open>fmt.Errorf("%w: suffix", err)\<close>, with its suffix\<close>

definition NewPlatformError :: "ErrorCode \<Rightarrow> string \<Rightarrow> goerr" where
  "NewPlatformError code detail =
     PlatformError code detail
       (case map_of ErrorSpecs code of None \<Rightarrow> True | Some spec \<Rightarrow> spec_Retryable spec)"

fun Retryable :: "goerr \<Rightarrow> bool option" where
  "Retryable (PlatformError code detail r) = Some r"
| "Retryable _ = None"

text \<open>\<open>Error()\<close>; the texts of the driver's own errors are theirs, rendered here as carried.\<close>

fun error_text :: "goerr \<Rightarrow> string" where
  "error_text (Plain m) = m"
| "error_text (PlatformError code detail r) =
     (if detail = [] then code_text code else code_text code @ '': '' @ detail)"
| "error_text (PayloadError field m) = field @ '': '' @ m"
| "error_text (PgError state m) = m @ '' (SQLSTATE '' @ state @ '')''"
| "error_text NoSuchKey = ''NoSuchKey''"
| "error_text S3NotFound = ''NotFound''"
| "error_text (ApiError c m) = ''api error '' @ c @ '': '' @ m"
| "error_text (HttpError st e) = error_text e"
| "error_text (Wrap p e) = p @ error_text e"
| "error_text (WrapAfter e m) = error_text e @ m"

text \<open>The chain \<open>errors.As\<close> walks.\<close>

fun err_chain :: "goerr \<Rightarrow> goerr list" where
  "err_chain (Wrap p e) = Wrap p e # err_chain e"
| "err_chain (WrapAfter e m) = WrapAfter e m # err_chain e"
| "err_chain (HttpError st e) = HttpError st e # err_chain e"
| "err_chain e = [e]"

section \<open>Classification\<close>

fun is_pg :: "goerr \<Rightarrow> bool" where
  "is_pg (PgError _ _) = True"
| "is_pg _ = False"

fun pg_code :: "goerr \<Rightarrow> string" where
  "pg_code (PgError c _) = c"
| "pg_code _ = []"

definition IsTransientPGError :: "goerr option \<Rightarrow> bool" where
  "IsTransientPGError err =
     (case err of
        None \<Rightarrow> False
      | Some e \<Rightarrow>
          (case find is_pg (err_chain e) of
             None \<Rightarrow> False
           | Some pe \<Rightarrow> pg_code pe \<in> {''40P01'', ''40001'', ''55P03''}))"

text \<open>The code of an API error; the modelled exceptions are API errors too.\<close>

fun api_code :: "goerr \<Rightarrow> string option" where
  "api_code NoSuchKey = Some ''NoSuchKey''"
| "api_code S3NotFound = Some ''NotFound''"
| "api_code (ApiError c m) = Some c"
| "api_code _ = None"

fun http_status :: "goerr \<Rightarrow> int option" where
  "http_status (HttpError st e) = Some st"
| "http_status _ = None"

definition IsNotFound :: "goerr option \<Rightarrow> bool" where
  "IsNotFound err =
     (case err of
        None \<Rightarrow> False
      | Some e \<Rightarrow>
          if NoSuchKey \<in> set (err_chain e) then True
          else if S3NotFound \<in> set (err_chain e) then True
          else case find (\<lambda>x. api_code x \<noteq> None) (err_chain e) of
                 Some a \<Rightarrow> the (api_code a) \<in> {''NoSuchKey'', ''NotFound''}
               | None \<Rightarrow>
                   (case find (\<lambda>x. http_status x \<noteq> None) (err_chain e) of
                      Some h \<Rightarrow> the (http_status h) = 404
                    | None \<Rightarrow> False))"

section \<open>Facts\<close>

lemma transient_PgError [simp]:
  "IsTransientPGError (Some (PgError c m)) \<longleftrightarrow> c = ''40P01'' \<or> c = ''40001'' \<or> c = ''55P03''"
  by (auto simp: IsTransientPGError_def)

lemma transient_Plain [simp]: "\<not> IsTransientPGError (Some (Plain m))"
  and transient_Platform [simp]: "\<not> IsTransientPGError (Some (PlatformError c d r))"
  and transient_Wrap [simp]: "IsTransientPGError (Some (Wrap p e)) = IsTransientPGError (Some e)"
  by (simp_all add: IsTransientPGError_def)

lemma NewPlatformError_not_transient [simp]: "\<not> IsTransientPGError (Some (NewPlatformError c d))"
  by (simp add: NewPlatformError_def)

lemma IsNotFound_Wrap [simp]: "IsNotFound (Some (Wrap p e)) = IsNotFound (Some e)"
  by (cases "find (\<lambda>x. api_code x \<noteq> None) (err_chain e)") (simp_all add: IsNotFound_def)

lemma code_text_inj: "code_text c = code_text d \<Longrightarrow> c = d"
  by (cases c; cases d) simp_all

text \<open>A server error is never taken for a missing object, whatever wraps it.\<close>

lemma IsNotFound_http:
  assumes "\<forall>x \<in> set (err_chain e). api_code x = None" and "\<forall>x \<in> set (err_chain e). http_status x = None"
  shows "IsNotFound (Some (HttpError st e)) \<longleftrightarrow> st = 404"
proof -
  have "NoSuchKey \<notin> set (err_chain e)" "S3NotFound \<notin> set (err_chain e)"
    using assms(1) by (metis api_code.simps(1,2) option.distinct(1))+
  moreover have "find (\<lambda>x. api_code x \<noteq> None) (err_chain e) = None"
    using assms(1) by (simp add: find_None_iff)
  ultimately show ?thesis by (simp add: IsNotFound_def)
qed

end
