(* ===== verification/World.thy ===== *)
theory World
  imports Complex_Main Json Errors
begin

text \<open>
  The state the workers share: the Postgres tables (\<open>internal/store/models.go\<close>,
  \<open>deploy/schema.sql\<close>) and the transaction layer over them (\<open>Tx\<close>, \<open>TxWithRetry\<close> of
  \<open>internal/store/db.go\<close>).

  A table is the list of its rows.  A statement reads the current time and the tables and
  gives an error or a result with the new tables; any statement, \<open>BEGIN\<close>, \<open>COMMIT\<close> and
  \<open>ROLLBACK\<close> included, may instead fail with whatever error the oracle \<open>faults\<close> holds for
  it.  A failed statement inside a transaction aborts it: further statements fail with
  SQLSTATE 25P02 until a rollback.  \<open>ext\<close> is the state of everything outside Postgres.
  Times are nanoseconds; vectors and floats are rationals, only stored here.
\<close>

section \<open>Rows\<close>

datatype DocState =
    StateUploaded | StateSplitting | StateParsing | StateEmbedding | StateIndexing
  | StateReady | StateFailed | StatePartial | StateArchived

datatype ShardState = ShardPending | ShardRunning | ShardDone | ShardFailed | ShardSkipped

fun doc_state_text :: "DocState \<Rightarrow> string" where
  "doc_state_text StateUploaded = ''uploaded''"
| "doc_state_text StateSplitting = ''splitting''"
| "doc_state_text StateParsing = ''parsing''"
| "doc_state_text StateEmbedding = ''embedding''"
| "doc_state_text StateIndexing = ''indexing''"
| "doc_state_text StateReady = ''ready''"
| "doc_state_text StateFailed = ''failed''"
| "doc_state_text StatePartial = ''partial''"
| "doc_state_text StateArchived = ''archived''"

text \<open>\<open>completeness\<close> is \<open>NUMERIC(5,4)\<close>: an integer number of ten-thousandths.\<close>

record Document =
  d_ID :: string
  d_CollectionID :: "string option"
  d_Title :: "string option"
  d_Author :: "string option"
  d_Filename :: "string option"
  d_ByteSize :: "int option"
  d_SourceURI :: string
  d_ContentSHA256 :: string
  d_PageCount :: "int option"
  d_MimeType :: "string option"
  d_State :: DocState
  d_ErrorCode :: "string option"
  d_ErrorDetail :: "string option"
  d_TotalShards :: "int option"
  d_ShardsDone :: int
  d_ShardsFailed :: int
  d_ChunkCount :: "int option"
  d_Completeness :: "int option"
  d_Metadata :: payload
  d_UploadedBy :: "string option"
  d_CreatedAt :: int
  d_UpdatedAt :: int
  d_ReadyAt :: "int option"

record Shard =
  s_DocID :: string
  s_Idx :: int
  s_PageStart :: int
  s_PageEnd :: int
  s_State :: ShardState
  s_Attempts :: int
  s_NeedsOCR :: bool
  s_MeanCharsPerPage :: "rat option"
  s_ParsedURI :: "string option"
  s_WorkerID :: "string option"
  s_LeaseUntil :: "int option"
  s_DurationMS :: "int option"
  s_PeakRSSMB :: "int option"
  s_DoneAt :: "int option"
  s_ErrorCode :: "string option"
  s_ErrorDetail :: "string option"
  s_CreatedAt :: int

type_synonym vector = "rat list"

record Chunk =
  c_ID :: string
  c_DocID :: string
  c_CollectionID :: string
  c_ChunkHash :: string
  c_ParentID :: "string option"
  c_IsParent :: bool
  c_Seq :: int
  c_PageStart :: "int option"
  c_PageEnd :: "int option"
  c_HeadingPath :: "string list"
  c_HeaderBreadcrumb :: "string option"
  c_Text :: string
  c_TokenCount :: int
  c_Embedding :: "vector option"
  c_EmbeddedAt :: "int option"
  c_CreatedAt :: int

record Event =
  e_DocID :: "string option"
  e_ShardIdx :: "int option"
  e_Level :: string
  e_Stage :: string
  e_Code :: "string option"
  e_Message :: string
  e_Context :: payload
  e_WorkerID :: "string option"
  e_CreatedAt :: int

record MetricsRollup =
  m_Bucket :: int
  m_PagesParsed :: "int option"
  m_ShardsDone :: "int option"
  m_ShardsFailed :: "int option"
  m_ChunksEmbedded :: "int option"
  m_ParseP50MS :: "int option"
  m_ParseP95MS :: "int option"
  m_PeakRSSP95MB :: "int option"
  m_QueueDepth :: "(string \<times> int) list"

record Collection =
  k_ID :: string
  k_Name :: string
  k_EmbeddingModel :: string
  k_VectorDim :: int
  k_EmbeddingModelID :: "string option"
  k_RerankModelID :: "string option"
  k_CreatedAt :: int

record EmbeddingModel =
  em_ID :: string
  em_Name :: string
  em_Provider :: string
  em_ModelID :: string
  em_IngestURL :: string
  em_QueryURL :: string
  em_HasAPIKey :: bool
  em_VectorDim :: int
  em_QueryPrefix :: string
  em_BatchSize :: int
  em_CtxBudget :: int
  em_TruncateChars :: int
  em_CreatedAt :: int
  em_UpdatedAt :: int

record RerankModel =
  rm_ID :: string
  rm_Name :: string
  rm_Provider :: string
  rm_ModelID :: string
  rm_QueryURL :: string
  rm_HasAPIKey :: bool
  rm_TruncateChars :: int
  rm_CreatedAt :: int
  rm_UpdatedAt :: int

record ApiKey =
  ak_ID :: string
  ak_Name :: "string option"
  ak_KeyHash :: string
  ak_Scopes :: "string list"
  ak_Collections :: "string list"
  ak_ExpiresAt :: "int option"
  ak_RevokedAt :: "int option"
  ak_LastUsedAt :: "int option"
  ak_CreatedAt :: int

record KeyUsage =
  ku_KeyID :: string
  ku_Surface :: string
  ku_Action :: string
  ku_CreatedAt :: int

text \<open>
  The registries keep their write-only \<open>api_key\<close> column beside the row, which never carries it.
  \<open>dim_indexes\<close> are the dimensions that have their partial vector index.
\<close>

record tables =
  documents :: "Document list"
  shards :: "Shard list"
  chunks :: "Chunk list"
  events :: "Event list"
  collections :: "Collection list"
  embedding_models :: "(EmbeddingModel \<times> string option) list"
  rerank_models :: "(RerankModel \<times> string option) list"
  api_keys :: "ApiKey list"
  key_usage :: "KeyUsage list"
  dim_indexes :: "int list"

definition empty_tables :: tables where
  "empty_tables = \<lparr>documents = [], shards = [], chunks = [], events = [], collections = [], embedding_models = [],
     rerank_models = [], api_keys = [], key_usage = [], dim_indexes = []\<rparr>"

text \<open>
  \<open>runner_log\<close> holds what the runner's own open transaction has written and not yet
  committed: handlers run inside it but do their work in transactions of their own, on
  other connections, which its rollback does not undo.  \<open>metrics_rollup\<close> stands apart because
  it is only ever written on the pool, whatever transaction is open.
\<close>

record 'x world =
  db :: tables
  runner_log :: "tables \<Rightarrow> tables"
  aborted :: bool
  faults :: "nat \<Rightarrow> goerr option"
  nstmt :: nat
  clock :: int
  rollups :: "MetricsRollup list"
  ext :: 'x

section \<open>Statements\<close>

type_synonym 'a stmt = "int \<Rightarrow> tables \<Rightarrow> (goerr + 'a) \<times> tables"

definition next_fault :: "('x world, goerr, unit) prog" where
  "next_fault w =
     ((case faults w (nstmt w) of None \<Rightarrow> Inr () | Some e \<Rightarrow> Inl e), w\<lparr>nstmt := Suc (nstmt w)\<rparr>)"

definition run_stmt :: "'a stmt \<Rightarrow> ('x world, goerr, 'a) prog" where
  "run_stmt st w =
     (case st (clock w) (db w) of
        (Inl e, t) \<Rightarrow> (Inl e, w)
      | (Inr x, t) \<Rightarrow> (Inr x, w\<lparr>db := t\<rparr>))"

text \<open>On the pool: a transaction of its own.\<close>

definition pool_stmt :: "'a stmt \<Rightarrow> ('x world, goerr, 'a) prog" where
  "pool_stmt st = bnd next_fault (\<lambda>_. run_stmt st)"

definition tx_aborted_error :: goerr where
  "tx_aborted_error = PgError ''25P02'' ''current transaction is aborted, commands ignored until end of transaction block''"

text \<open>Inside an open transaction.\<close>

definition tx_stmt :: "'a stmt \<Rightarrow> ('x world, goerr, 'a) prog" where
  "tx_stmt st w =
     (if aborted w then (Inl tx_aborted_error, w)
      else case pool_stmt st w of
             (Inl e, t) \<Rightarrow> (Inl e, t\<lparr>aborted := True\<rparr>)
           | (Inr x, t) \<Rightarrow> (Inr x, t))"

text \<open>In the runner's transaction: the write becomes visible when the runner commits.\<close>

definition runner_stmt :: "(int \<Rightarrow> tables \<Rightarrow> tables) \<Rightarrow> ('x world, goerr, unit) prog" where
  "runner_stmt upd =
     bnd next_fault (\<lambda>_. modify (\<lambda>w. w\<lparr>runner_log := upd (clock w) \<circ> runner_log w\<rparr>))"

abbreviation query :: "(tables \<Rightarrow> 'a) \<Rightarrow> 'a stmt" where
  "query f \<equiv> (\<lambda>now t. (Inr (f t), t))"

abbreviation exec :: "(int \<Rightarrow> tables \<Rightarrow> tables) \<Rightarrow> unit stmt" where
  "exec f \<equiv> (\<lambda>now t. (Inr (), f now t))"

section \<open>Transactions\<close>

definition tx_commit_rollback :: goerr where
  "tx_commit_rollback = Plain ''commit unexpectedly resulted in rollback''"

definition rollback_failed :: "goerr \<Rightarrow> goerr \<Rightarrow> goerr" where
  "rollback_failed e rb =
     Plain (''tx failed ('' @ error_text e @ ''); rollback also failed ('' @ error_text rb @ '')'')"

definition Tx :: "('x world, goerr, 'a) prog \<Rightarrow> ('x world, goerr, 'a) prog" where
  "Tx fn w =
     (case next_fault w of
        (Inl e, w1) \<Rightarrow> (Inl e, w1)
      | (Inr _, w1) \<Rightarrow>
          (case fn (w1\<lparr>aborted := False\<rparr>) of
             (Inl e, w2) \<Rightarrow>
               (case next_fault w2 of
                  (Inl rb, w3) \<Rightarrow> (Inl (rollback_failed e rb), w3\<lparr>db := db w, aborted := False\<rparr>)
                | (Inr _, w3) \<Rightarrow> (Inl e, w3\<lparr>db := db w, aborted := False\<rparr>))
           | (Inr x, w2) \<Rightarrow>
               (case next_fault w2 of
                  (Inl e, w3) \<Rightarrow> (Inl e, w3\<lparr>db := db w, aborted := False\<rparr>)
                | (Inr _, w3) \<Rightarrow>
                    if aborted w3 then (Inl tx_commit_rollback, w3\<lparr>db := db w, aborted := False\<rparr>)
                    else (Inr x, w3))))"

text \<open>
  \<open>txWithRetryLoop\<close> with \<open>n\<close> attempts left; the backoff sleep changes no state here.
\<close>

fun retry_loop :: "nat \<Rightarrow> ('x world, goerr, 'a) prog \<Rightarrow> goerr option \<Rightarrow> ('x world, goerr, 'a) prog" where
  "retry_loop 0 tx lastErr w = (Inl (the lastErr), w)"
| "retry_loop (Suc n) tx lastErr w =
     (case tx w of
        (Inr x, w1) \<Rightarrow> (Inr x, w1)
      | (Inl e, w1) \<Rightarrow> if \<not> IsTransientPGError (Some e) then (Inl e, w1) else retry_loop n tx (Some e) w1)"

definition txWithRetryLoop :: "int \<Rightarrow> ('x world, goerr, 'a) prog \<Rightarrow> ('x world, goerr, 'a) prog" where
  "txWithRetryLoop attempts tx = retry_loop (nat (max 1 attempts)) tx None"

definition TxWithRetry :: "int \<Rightarrow> ('x world, goerr, 'a) prog \<Rightarrow> ('x world, goerr, 'a) prog" where
  "TxWithRetry attempts fn = txWithRetryLoop attempts (Tx fn)"

text \<open>
  The backoff before retry \<open>k\<close> (nanoseconds); \<open>j\<close> is \<open>rand.Intn(51)\<close>.
\<close>

fun backoff_base :: "nat \<Rightarrow> int \<Rightarrow> int" where
  "backoff_base 0 base = base"
| "backoff_base (Suc k) base =
     (if base * 2 > 2000000000 then 2000000000 else backoff_base k (base * 2))"

definition retryBackoff :: "int \<Rightarrow> int \<Rightarrow> int" where
  "retryBackoff k j =
     (let base = backoff_base (nat (k - 1)) 50000000;
          jitter = go_div (base * (j - 25)) 100;
          d0 = base + jitter;
          d1 = (if d0 < 0 then 0 else d0)
      in if d1 > 4000000000 then 4000000000 else d1)"

text \<open>
  The runner's transaction around a handler: commit what the handler wrote through it, or
  drop it.
\<close>

definition RunnerTx :: "('x world, goerr, unit) prog \<Rightarrow> ('x world, goerr, unit) prog" where
  "RunnerTx handler w =
     (case next_fault w of
        (Inl e, w1) \<Rightarrow> (Inl e, w1)
      | (Inr _, w1) \<Rightarrow>
          (case handler (w1\<lparr>runner_log := id\<rparr>) of
             (Inl e, w2) \<Rightarrow>
               (case next_fault w2 of
                  (Inl rb, w3) \<Rightarrow> (Inl (rollback_failed e rb), w3\<lparr>runner_log := id\<rparr>)
                | (Inr _, w3) \<Rightarrow> (Inl e, w3\<lparr>runner_log := id\<rparr>))
           | (Inr x, w2) \<Rightarrow>
               (case next_fault w2 of
                  (Inl e, w3) \<Rightarrow> (Inl e, w3\<lparr>runner_log := id\<rparr>)
                | (Inr _, w3) \<Rightarrow> (Inr x, w3\<lparr>db := runner_log w3 (db w3), runner_log := id\<rparr>))))"

section \<open>Reasoning about statements and transactions\<close>

lemma next_fault_apply: "next_fault w =
    ((case faults w (nstmt w) of None \<Rightarrow> Inr () | Some e \<Rightarrow> Inl e), w\<lparr>nstmt := Suc (nstmt w)\<rparr>)"
  by (simp add: next_fault_def)

lemma next_fault_Inr:
  "next_fault w = (Inr u, w') \<longleftrightarrow> faults w (nstmt w) = None \<and> w' = w\<lparr>nstmt := Suc (nstmt w)\<rparr>"
  by (auto simp: next_fault_def split: option.splits)

lemma next_fault_Inl:
  "next_fault w = (Inl e, w') \<longleftrightarrow> faults w (nstmt w) = Some e \<and> w' = w\<lparr>nstmt := Suc (nstmt w)\<rparr>"
  by (auto simp: next_fault_def split: option.splits)

lemma run_stmt_Inr:
  "run_stmt st w = (Inr x, w') \<longleftrightarrow> (\<exists>t. st (clock w) (db w) = (Inr x, t) \<and> w' = w\<lparr>db := t\<rparr>)"
  by (auto simp: run_stmt_def split: prod.splits sum.splits)

lemma run_stmt_Inl: "run_stmt st w = (Inl e, w') \<Longrightarrow> w' = w"
  by (auto simp: run_stmt_def split: prod.splits sum.splits)

lemma pool_stmt_Inr:
  "pool_stmt st w = (Inr x, w') \<longleftrightarrow>
   (\<exists>t. faults w (nstmt w) = None \<and> st (clock w) (db w) = (Inr x, t)
       \<and> w' = w\<lparr>nstmt := Suc (nstmt w), db := t\<rparr>)"
  by (auto simp: pool_stmt_def bnd_eq_Inr next_fault_Inr run_stmt_Inr)

lemma pool_stmt_Inl:
  assumes "pool_stmt st w = (Inl e, w')"
  shows "w' = w\<lparr>nstmt := Suc (nstmt w)\<rparr>"
proof (cases "faults w (nstmt w)")
  case None
  then have "run_stmt st (w\<lparr>nstmt := Suc (nstmt w)\<rparr>) = (Inl e, w')"
    using assms by (simp add: pool_stmt_def bnd_def next_fault_apply)
  then show ?thesis by (rule run_stmt_Inl)
qed (use assms in \<open>simp add: pool_stmt_def bnd_def next_fault_apply\<close>)

lemma tx_stmt_Inr:
  "tx_stmt st w = (Inr x, w') \<longleftrightarrow> \<not> aborted w \<and> pool_stmt st w = (Inr x, w')"
  by (auto simp: tx_stmt_def split: prod.splits sum.splits)

lemma tx_stmt_Inl:
  assumes "tx_stmt st w = (Inl e, w')"
  shows "\<exists>n b. w' = w\<lparr>nstmt := n, aborted := b\<rparr>"
proof (cases "aborted w")
  case True
  then have "w' = w\<lparr>nstmt := nstmt w, aborted := aborted w\<rparr>" using assms by (simp add: tx_stmt_def)
  then show ?thesis by blast
next
  case False
  then obtain w1 where "pool_stmt st w = (Inl e, w1)" "w' = w1\<lparr>aborted := True\<rparr>"
    using assms by (auto simp: tx_stmt_def split: prod.splits sum.splits)
  then have "w' = w\<lparr>nstmt := Suc (nstmt w), aborted := True\<rparr>" using pool_stmt_Inl by fastforce
  then show ?thesis by blast
qed

subsection \<open>What database work leaves alone\<close>

text \<open>Database work does not touch the outside world, the clock or the runner's transaction.\<close>

definition frame :: "('x world, goerr, 'a) prog \<Rightarrow> bool" where
  "frame m \<longleftrightarrow>
     (\<forall>w. ext (snd (m w)) = ext w \<and> clock (snd (m w)) = clock w \<and> faults (snd (m w)) = faults w
        \<and> runner_log (snd (m w)) = runner_log w)"

text \<open>
  \<open>post m R\<close>: database work whose every success takes the tables as \<open>R\<close> says, given the
  time, the tables before, the result and the tables after.
\<close>

definition post :: "('x world, goerr, 'a) prog \<Rightarrow> (int \<Rightarrow> tables \<Rightarrow> 'a \<Rightarrow> tables \<Rightarrow> bool) \<Rightarrow> bool" where
  "post m R \<longleftrightarrow> frame m \<and> (\<forall>w x w'. m w = (Inr x, w') \<longrightarrow> R (clock w) (db w) x (db w'))"

named_theorems post_rules \<open>composition of the successes of database work\<close>

lemma frameD:
  assumes "frame m" "m w = (r, w')"
  shows "ext w' = ext w" "clock w' = clock w" "faults w' = faults w" "runner_log w' = runner_log w"
  using assms unfolding frame_def by (metis snd_conv)+

lemma frameI:
  assumes "\<And>w r w'. m w = (r, w') \<Longrightarrow>
    ext w' = ext w \<and> clock w' = clock w \<and> faults w' = faults w \<and> runner_log w' = runner_log w"
  shows "frame m"
  using assms unfolding frame_def by (metis prod.collapse)

lemma frame_ret [post_rules]: "frame (ret x)" and frame_raise [post_rules]: "frame (raise e)"
  and frame_of_sum [post_rules]: "frame (of_sum v)"
  by (simp_all add: frame_def)

lemma frame_bnd [post_rules]:
  assumes "frame m" "\<And>x. frame (f x)"
  shows "frame (bnd m f)"
  unfolding frame_def
proof (intro allI)
  fix w
  obtain r w1 where m: "m w = (r, w1)" by fastforce
  show "ext (snd (bnd m f w)) = ext w \<and> clock (snd (bnd m f w)) = clock w
      \<and> faults (snd (bnd m f w)) = faults w \<and> runner_log (snd (bnd m f w)) = runner_log w"
  proof (cases r)
    case (Inl e)
    then show ?thesis using m frameD[OF assms(1) m] by (simp add: bnd_def)
  next
    case (Inr x)
    obtain r2 w2 where f: "f x w1 = (r2, w2)" by fastforce
    show ?thesis using Inr m f frameD[OF assms(1) m] frameD[OF assms(2) f] by (simp add: bnd_def)
  qed
qed

lemma frame_attempt [post_rules]: "frame m \<Longrightarrow> frame (attempt m)"
  by (simp add: frame_def attempt_apply)

lemma frame_pool_stmt [post_rules]: "frame (pool_stmt st)"
proof (rule frameI)
  fix w :: "'a world" and r w'
  assume p: "pool_stmt st w = (r, w')"
  show "ext w' = ext w \<and> clock w' = clock w \<and> faults w' = faults w \<and> runner_log w' = runner_log w"
  proof (cases r)
    case (Inl e)
    then show ?thesis using p pool_stmt_Inl by fastforce
  qed (use p in \<open>auto simp: pool_stmt_Inr\<close>)
qed

lemma frame_tx_stmt [post_rules]: "frame (tx_stmt st)"
proof (rule frameI)
  fix w :: "'a world" and r w'
  assume p: "tx_stmt st w = (r, w')"
  show "ext w' = ext w \<and> clock w' = clock w \<and> faults w' = faults w \<and> runner_log w' = runner_log w"
  proof (cases r)
    case (Inl e)
    then obtain n b where "w' = w\<lparr>nstmt := n, aborted := b\<rparr>" using p tx_stmt_Inl by blast
    then show ?thesis by simp
  qed (use p in \<open>auto simp: tx_stmt_Inr pool_stmt_Inr\<close>)
qed

lemma frame_for_each [post_rules]: "(\<And>x. frame (f x)) \<Longrightarrow> frame (for_each f xs)"
  by (induction xs) (auto intro: post_rules)

lemma frame_fold_each [post_rules]: "(\<And>x a. frame (f x a)) \<Longrightarrow> frame (fold_each f xs a)"
  by (induction xs arbitrary: a) (auto intro: post_rules)

lemma frame_if [post_rules]: "frame m \<Longrightarrow> frame n \<Longrightarrow> frame (if b then m else n)"
  by simp

lemma frame_case_sum [post_rules]:
  "(\<And>e. frame (g e)) \<Longrightarrow> (\<And>x. frame (f x)) \<Longrightarrow> frame (case v of Inl e \<Rightarrow> g e | Inr x \<Rightarrow> f x)"
  by (cases v) simp_all

lemma frame_case_option [post_rules]:
  "frame m \<Longrightarrow> (\<And>x. frame (f x)) \<Longrightarrow> frame (case v of None \<Rightarrow> m | Some x \<Rightarrow> f x)"
  by (cases v) simp_all

subsection \<open>Transactions\<close>

lemma Tx_Inr:
  assumes "Tx fn w = (Inr x, w')"
  obtains w2 where "fn (w\<lparr>nstmt := Suc (nstmt w), aborted := False\<rparr>) = (Inr x, w2)"
    and "w' = w2\<lparr>nstmt := Suc (nstmt w2)\<rparr>" and "\<not> aborted w2"
  using assms by (auto simp: Tx_def next_fault_def split: prod.splits sum.splits option.splits if_splits)

lemma Tx_Inl:
  assumes "Tx fn w = (Inl e, w')"
  shows "db w' = db w"
  using assms by (auto simp: Tx_def next_fault_def split: prod.splits sum.splits option.splits if_splits)

lemma frame_Tx [post_rules]:
  assumes "frame fn"
  shows "frame (Tx fn)"
  unfolding frame_def
proof (intro allI)
  fix w
  obtain r w2 where f: "fn (w\<lparr>nstmt := Suc (nstmt w), aborted := False\<rparr>) = (r, w2)" by fastforce
  note fr = frameD[OF assms f]
  show "ext (snd (Tx fn w)) = ext w \<and> clock (snd (Tx fn w)) = clock w
      \<and> faults (snd (Tx fn w)) = faults w \<and> runner_log (snd (Tx fn w)) = runner_log w"
    using f fr by (cases r) (auto simp: Tx_def next_fault_def split: option.splits)
qed

lemma frame_retry_loop: "frame tx \<Longrightarrow> frame (retry_loop n tx lastErr)"
proof (induction n arbitrary: lastErr)
  case (Suc n)
  show ?case
    unfolding frame_def
  proof (intro allI)
    fix w
    obtain r w1 where t: "tx w = (r, w1)" by fastforce
    note fr = frameD[OF Suc.prems t]
    show "ext (snd (retry_loop (Suc n) tx lastErr w)) = ext w \<and> clock (snd (retry_loop (Suc n) tx lastErr w)) = clock w
        \<and> faults (snd (retry_loop (Suc n) tx lastErr w)) = faults w
        \<and> runner_log (snd (retry_loop (Suc n) tx lastErr w)) = runner_log w"
    proof (cases r)
      case (Inl e)
      obtain r2 w2 where l: "retry_loop n tx (Some e) w1 = (r2, w2)" by fastforce
      show ?thesis using t fr Inl l frameD[OF Suc.IH[OF Suc.prems] l] by simp
    qed (use t fr in simp)
  qed
qed (simp add: frame_def)

lemma frame_TxWithRetry [post_rules]: "frame fn \<Longrightarrow> frame (TxWithRetry n fn)"
  by (simp add: TxWithRetry_def txWithRetryLoop_def frame_retry_loop frame_Tx)

text \<open>A retried transaction that succeeds succeeded once, on the tables it started from.\<close>

lemma retry_loop_Inr:
  assumes "retry_loop n (Tx fn) lastErr w = (Inr x, w')" "frame fn"
  shows "\<exists>w1. Tx fn w1 = (Inr x, w') \<and> db w1 = db w \<and> clock w1 = clock w \<and> ext w1 = ext w
    \<and> runner_log w1 = runner_log w \<and> faults w1 = faults w"
  using assms
proof (induction n arbitrary: lastErr w)
  case (Suc n)
  obtain r w1 where t: "Tx fn w = (r, w1)" by fastforce
  show ?case
  proof (cases r)
    case (Inl e)
    then have "retry_loop n (Tx fn) (Some e) w1 = (Inr x, w')" using Suc.prems(1) t by (simp split: if_splits)
    then show ?thesis
      using Suc.IH[OF _ Suc.prems(2)] frameD[OF frame_Tx[OF Suc.prems(2)] t] Tx_Inl[of fn w e w1] t Inl
      by metis
  qed (use Suc.prems(1) t in auto)
qed simp

lemma retry_loop_Inl:
  assumes "retry_loop n (Tx fn) lastErr w = (Inl e, w')"
  shows "db w' = db w"
  using assms
proof (induction n arbitrary: lastErr w)
  case (Suc n)
  obtain r w1 where t: "Tx fn w = (r, w1)" by fastforce
  then obtain e1 where r: "r = Inl e1" using Suc.prems by (cases r) simp_all
  then have 1: "db w1 = db w" using t Tx_Inl by metis
  show ?case
  proof (cases "IsTransientPGError (Some e1)")
    case True
    then have "retry_loop n (Tx fn) (Some e1) w1 = (Inl e, w')" using Suc.prems t r by simp
    then show ?thesis using Suc.IH 1 by simp
  qed (use Suc.prems t r 1 in simp)
qed simp

lemma TxWithRetry_Inr:
  assumes "TxWithRetry n fn w = (Inr x, w')" "frame fn"
  obtains w1 w2 where "fn w1 = (Inr x, w2)" "db w1 = db w" "clock w1 = clock w" "ext w1 = ext w"
    "\<not> aborted w1" "\<not> aborted w2" "db w' = db w2"
proof -
  obtain w0 where "Tx fn w0 = (Inr x, w')" "db w0 = db w" "clock w0 = clock w" "ext w0 = ext w"
    using retry_loop_Inr[OF assms(1)[unfolded TxWithRetry_def txWithRetryLoop_def] assms(2)] by (elim exE conjE)
  then obtain w2 where "fn (w0\<lparr>nstmt := Suc (nstmt w0), aborted := False\<rparr>) = (Inr x, w2)"
    "w' = w2\<lparr>nstmt := Suc (nstmt w2)\<rparr>" "\<not> aborted w2"
    by (elim Tx_Inr)
  then show ?thesis
    using that[of "w0\<lparr>nstmt := Suc (nstmt w0), aborted := False\<rparr>" w2]
      \<open>db w0 = db w\<close> \<open>clock w0 = clock w\<close> \<open>ext w0 = ext w\<close> by simp
qed

lemma TxWithRetry_Inl: "TxWithRetry n fn w = (Inl e, w') \<Longrightarrow> db w' = db w"
  unfolding TxWithRetry_def txWithRetryLoop_def by (rule retry_loop_Inl)

subsection \<open>Composition of effects\<close>

lemma postD: "post m R \<Longrightarrow> m w = (Inr x, w') \<Longrightarrow> R (clock w) (db w) x (db w')"
  by (simp add: post_def)

lemma post_frame: "post m R \<Longrightarrow> frame m"
  by (simp add: post_def)

lemma post_weaken: "post m R \<Longrightarrow> (\<And>now t x u. R now t x u \<Longrightarrow> S now t x u) \<Longrightarrow> post m S"
  by (simp add: post_def)

lemma post_ret [post_rules]: "post (ret x) (\<lambda>now t y u. y = x \<and> u = t)"
  and post_raise [post_rules]: "post (raise e) (\<lambda>now t y u. False)"
  by (simp_all add: post_def frame_ret frame_raise)

lemma post_of_sum [post_rules]: "post (of_sum v) (\<lambda>now t y u. v = Inr y \<and> u = t)"
  by (auto simp: post_def frame_of_sum)

lemma post_bnd [post_rules]:
  assumes "post m R" "\<And>x. post (f x) (S x)"
  shows "post (bnd m f) (\<lambda>now t y u. \<exists>x s. R now t x s \<and> S x now s y u)"
  unfolding post_def
proof (intro conjI allI impI)
  show "frame (bnd m f)" using assms by (intro frame_bnd) (simp_all add: post_def)
next
  fix w y w'
  assume "bnd m f w = (Inr y, w')"
  then obtain x w1 where "m w = (Inr x, w1)" "f x w1 = (Inr y, w')" by (rule bnd_InrE)
  then show "\<exists>x s. R (clock w) (db w) x s \<and> S x (clock w) s y (db w')"
    using postD[OF assms(1)] postD[OF assms(2)] frameD(2)[OF post_frame[OF assms(1)]] by metis
qed

lemma post_tx_stmt [post_rules]: "post (tx_stmt st) (\<lambda>now t x u. st now t = (Inr x, u))"
  by (auto simp: post_def frame_tx_stmt tx_stmt_Inr pool_stmt_Inr)

lemma post_pool_stmt [post_rules]: "post (pool_stmt st) (\<lambda>now t x u. st now t = (Inr x, u))"
  by (auto simp: post_def frame_pool_stmt pool_stmt_Inr)

lemma post_Tx [post_rules]: "post fn R \<Longrightarrow> post (Tx fn) R"
  unfolding post_def
proof (intro conjI allI impI)
  fix w x w'
  assume a: "frame fn \<and> (\<forall>w x w'. fn w = (Inr x, w') \<longrightarrow> R (clock w) (db w) x (db w'))"
    and t: "Tx fn w = (Inr x, w')"
  show "R (clock w) (db w) x (db w')" using t a by (elim Tx_Inr) force
qed (simp add: frame_Tx)

lemma post_TxWithRetry [post_rules]: "post fn R \<Longrightarrow> post (TxWithRetry n fn) R"
  unfolding post_def
proof (intro conjI allI impI)
  fix w x w'
  assume a: "frame fn \<and> (\<forall>w x w'. fn w = (Inr x, w') \<longrightarrow> R (clock w) (db w) x (db w'))"
    and t: "TxWithRetry n fn w = (Inr x, w')"
  show "R (clock w) (db w) x (db w')" using TxWithRetry_Inr[OF t] a by metis
qed (simp add: frame_TxWithRetry)

lemma post_if [post_rules]:
  "post m R \<Longrightarrow> post n S \<Longrightarrow> post (if b then m else n) (\<lambda>now t x u. if b then R now t x u else S now t x u)"
  by simp

subsection \<open>Work that succeeds when the database does\<close>

definition healthy :: "'x world \<Rightarrow> bool" where
  "healthy w \<longleftrightarrow> faults w = (\<lambda>_. None) \<and> \<not> aborted w"

text \<open>\<open>succeeds m\<close>: with no statement failing, \<open>m\<close> returns a result.\<close>

definition succeeds :: "('x world, goerr, 'a) prog \<Rightarrow> bool" where
  "succeeds m \<longleftrightarrow> (\<forall>w. healthy w \<longrightarrow> (\<exists>x w'. m w = (Inr x, w') \<and> healthy w'))"

named_theorems succ_rules \<open>composition of successful work\<close>

lemma succeedsE:
  assumes "succeeds m" "healthy w"
  obtains x w' where "m w = (Inr x, w')" "healthy w'"
  using assms unfolding succeeds_def by blast

lemma succeeds_ret [succ_rules]: "succeeds (ret x)"
  by (simp add: succeeds_def)

lemma succeedsI: "(\<And>w. healthy w \<Longrightarrow> \<exists>x w'. m w = (Inr x, w') \<and> healthy w') \<Longrightarrow> succeeds m"
  by (simp add: succeeds_def)

lemma succeeds_bnd [succ_rules]:
  assumes "succeeds m" "\<And>x. succeeds (f x)"
  shows "succeeds (bnd m f)"
proof (rule succeedsI, goal_cases)
  case (1 w)
  obtain x w1 where "m w = (Inr x, w1)" "healthy w1" by (rule succeedsE[OF assms(1) 1])
  moreover obtain y w2 where "f x w1 = (Inr y, w2)" "healthy w2"
    by (rule succeedsE[OF assms(2) calculation(2)])
  ultimately show ?case by (auto simp: bnd_eq_Inr)
qed

lemma succeeds_pool_stmt [succ_rules]:
  "(\<And>now t. \<exists>x u. st now t = (Inr x, u)) \<Longrightarrow> succeeds (pool_stmt st)"
  by (fastforce simp: succeeds_def healthy_def pool_stmt_Inr)

lemma succeeds_tx_stmt [succ_rules]:
  "(\<And>now t. \<exists>x u. st now t = (Inr x, u)) \<Longrightarrow> succeeds (tx_stmt st)"
  by (fastforce simp: succeeds_def healthy_def pool_stmt_Inr tx_stmt_Inr)

lemma succeeds_if [succ_rules]: "succeeds m \<Longrightarrow> succeeds n \<Longrightarrow> succeeds (if b then m else n)"
  by simp

lemma succeeds_case_option [succ_rules]:
  "succeeds m \<Longrightarrow> (\<And>x. succeeds (f x)) \<Longrightarrow> succeeds (case v of None \<Rightarrow> m | Some x \<Rightarrow> f x)"
  by (cases v) simp_all

lemma succeeds_for_each [succ_rules]: "(\<And>x. succeeds (f x)) \<Longrightarrow> succeeds (for_each f xs)"
  by (induction xs) (auto intro: succ_rules)

lemma succeeds_Tx [succ_rules]:
  assumes "succeeds fn"
  shows "succeeds (Tx fn)"
proof (rule succeedsI, goal_cases)
  case (1 w)
  then have "healthy (w\<lparr>nstmt := Suc (nstmt w), aborted := False\<rparr>)" by (simp add: healthy_def)
  then obtain x w2 where "fn (w\<lparr>nstmt := Suc (nstmt w), aborted := False\<rparr>) = (Inr x, w2)" "healthy w2"
    by (rule succeedsE[OF assms])
  then show ?case using 1 by (simp add: Tx_def next_fault_def healthy_def)
qed

lemma succeeds_TxWithRetry [succ_rules]:
  assumes "succeeds fn"
  shows "succeeds (TxWithRetry n fn)"
proof (rule succeedsI, goal_cases)
  case (1 w)
  obtain x w' where t: "Tx fn w = (Inr x, w')" "healthy w'"
    by (rule succeedsE[OF succeeds_Tx[OF assms] 1])
  obtain k where "nat (max 1 n) = Suc k" by (cases "nat (max 1 n)") auto
  then show ?case using t by (simp add: TxWithRetry_def txWithRetryLoop_def)
qed

section \<open>Properties of the transaction layer\<close>

lemma backoff_base_bounds:
  "50000000 \<le> base \<Longrightarrow> base \<le> 2000000000 \<Longrightarrow>
   50000000 \<le> backoff_base k base \<and> backoff_base k base \<le> 2000000000"
  by (induction k base rule: backoff_base.induct) auto

lemma go_div_100: "- 25 * b \<le> a \<Longrightarrow> a \<le> 25 * b \<Longrightarrow> 0 \<le> b \<Longrightarrow> - b \<le> 4 * go_div a 100 \<and> 4 * go_div a 100 \<le> b"
proof -
  assume a: "- 25 * b \<le> a" "a \<le> 25 * b" "0 \<le> b"
  define q where "q = \<bar>a\<bar> div 100"
  have "100 * q = \<bar>a\<bar> - \<bar>a\<bar> mod 100" by (simp add: q_def minus_mod_eq_mult_div)
  moreover have "0 \<le> \<bar>a\<bar> mod 100" "0 \<le> q" by (simp_all add: q_def)
  ultimately have "100 * q \<le> 25 * b" "0 \<le> q" using a by linarith+
  moreover have "go_div a 100 = q \<or> go_div a 100 = - q" by (simp add: go_div_def q_def Let_def)
  ultimately show ?thesis by auto
qed

text \<open>
  The backoff of the retry loop stays within 25 per cent of a base between 50 ms and 2 s
  for every jitter \<open>rand.Intn(51)\<close> can give, so it is positive, at most 2.5 s, and neither
  final clamp ever applies.
\<close>

theorem retryBackoff_bounds:
  assumes "0 \<le> j" "j \<le> 50"
  shows "37500000 \<le> retryBackoff k j \<and> retryBackoff k j \<le> 2500000000
    \<and> 3 * backoff_base (nat (k - 1)) 50000000 \<le> 4 * retryBackoff k j
    \<and> 4 * retryBackoff k j \<le> 5 * backoff_base (nat (k - 1)) 50000000"
proof -
  let ?b = "backoff_base (nat (k - 1)) 50000000"
  have b: "50000000 \<le> ?b" "?b \<le> 2000000000" using backoff_base_bounds[of 50000000] by auto
  have "?b * - 25 \<le> ?b * (j - 25)" "?b * (j - 25) \<le> ?b * 25"
    using b assms by (intro mult_left_mono; simp)+
  then have "- 25 * ?b \<le> ?b * (j - 25)" "?b * (j - 25) \<le> 25 * ?b" by (simp_all add: mult.commute)
  from go_div_100[OF this] b show ?thesis by (simp add: retryBackoff_def Let_def)
qed

lemma retryBackoff_bounds_witness: "37500000 \<le> retryBackoff 3 0 \<and> retryBackoff 3 0 = 150000000"
proof -
  have "retryBackoff 3 0 = 150000000"
    by (simp add: retryBackoff_def go_div_def numeral_2_eq_2)
  with retryBackoff_bounds[of 0 3] show ?thesis by simp
qed

lemma retry_loop_last:
  "retry_loop (Suc n) tx lastErr w = (Inl e, w') \<Longrightarrow> \<exists>w1. tx w1 = (Inl e, w')"
proof (induction n arbitrary: lastErr w)
  case 0
  obtain r w1 where "tx w = (r, w1)" by fastforce
  then show ?case using 0 by (intro exI[of _ w]) (auto split: sum.splits if_splits)
next
  case (Suc n)
  obtain r w1 where t: "tx w = (r, w1)" by fastforce
  then obtain e1 where r: "r = Inl e1" using Suc.prems by (cases r) simp_all
  show ?case
  proof (cases "IsTransientPGError (Some e1)")
    case True
    then have "retry_loop (Suc n) tx (Some e1) w1 = (Inl e, w')"
      using Suc.prems t r by (simp only: retry_loop.simps prod.case sum.case simp_thms if_False)
    then show ?thesis by (rule Suc.IH)
  qed (use Suc.prems t r in auto)
qed

text \<open>
  C8. A retried transaction is atomic, whatever statements fail: on an error the tables are as
  they were, and the error is the last attempt's own, not wrapped; a result comes from one run
  of the body over the unchanged tables, all of whose writes are there.
\<close>

theorem TxWithRetry_atomic:
  assumes "frame fn" "TxWithRetry n fn w = (r, w')"
  shows "(\<exists>e w1. r = Inl e \<and> db w' = db w \<and> Tx fn w1 = (Inl e, w'))
    \<or> (\<exists>x w1 w2. r = Inr x \<and> fn w1 = (Inr x, w2) \<and> db w1 = db w \<and> clock w1 = clock w
         \<and> ext w1 = ext w \<and> \<not> aborted w2 \<and> db w' = db w2)"
proof (cases r)
  case (Inl e)
  obtain k where k: "nat (max 1 n) = Suc k" by (cases "nat (max 1 n)") auto
  have "\<exists>w1. Tx fn w1 = (Inl e, w')"
    using assms(2) Inl retry_loop_last[of k "Tx fn" None w e w']
    by (simp only: TxWithRetry_def txWithRetryLoop_def k)
  then show ?thesis using TxWithRetry_Inl[of n fn w e w'] assms(2) Inl by blast
next
  case (Inr x)
  obtain w1 w2 where "fn w1 = (Inr x, w2)" "db w1 = db w" "clock w1 = clock w" "ext w1 = ext w"
    "\<not> aborted w1" "\<not> aborted w2" "db w' = db w2"
    by (rule TxWithRetry_Inr[OF assms(2)[unfolded Inr] assms(1)])
  then show ?thesis using Inr by blast
qed

lemma TxWithRetry_atomic_witness:
  "\<exists>w'. TxWithRetry 3 (tx_stmt (exec (\<lambda>now t. t\<lparr>events := []\<rparr>)))
       \<lparr>db = empty_tables, runner_log = id, aborted = False,
        faults = (\<lambda>n. if n = 1 then Some (PgError ''40P01'' ''deadlock detected'') else None), nstmt = 0,
        clock = 7, rollups = [], ext = ()\<rparr> = (Inr (), w')
     \<and> db w' = empty_tables"
proof -
  let ?fn = "tx_stmt (exec (\<lambda>now t. t\<lparr>events := []\<rparr>)) :: (unit world, goerr, unit) prog"
  let ?w = "\<lparr>db = empty_tables, runner_log = id, aborted = False,
        faults = (\<lambda>n. if n = 1 then Some (PgError ''40P01'' ''deadlock detected'') else None), nstmt = 0,
        clock = 7, rollups = [], ext = ()\<rparr>"
  obtain w' where run: "TxWithRetry 3 ?fn ?w = (Inr (), w')"
    by (simp add: TxWithRetry_def txWithRetryLoop_def numeral_3_eq_3 Tx_def next_fault_def tx_stmt_def pool_stmt_def
        bnd_def run_stmt_def IsTransientPGError_def)
  show ?thesis using TxWithRetry_atomic[OF frame_tx_stmt run] run
    by (auto simp: tx_stmt_Inr pool_stmt_Inr empty_tables_def)
qed

end
