(* ===== verification/Parsing.thy ===== *)
theory Parsing
  imports Formats World Shards
begin

text \<open>
  Parsing one shard: the PDF helpers around the pdfcpu library (\<open>internal/pipeline/pdfcpu.go\<close>,
  \<open>gate.go\<close>, \<open>internal/service/bookmarks.go\<close>), the request and result types (\<open>types.go\<close>), the
  two-tier parser with its tiers (\<open>parser.go\<close>, \<open>anydoc.go\<close>) and the source cache.

  A path is represented by what reading the file there gives: an error or the bytes
  (\<open>None\<close> is the empty path).  pdfcpu and the anydoc binding are parameters: functions of the
  bytes.  Means are exact rationals; comparing one with an integer threshold gives what the
  code's float division gives.  A Go panic is the error \<open>go_panic\<close>.
\<close>

type_synonym gofile = "(goerr + string) option"

definition read_file :: "gofile \<Rightarrow> goerr + string" where
  "read_file p = (case p of None \<Rightarrow> Inl (Plain ''open : no such file or directory'') | Some r \<Rightarrow> r)"

definition go_panic :: "string \<Rightarrow> goerr" where
  "go_panic m = Plain (''panic: '' @ m)"

section \<open>PDF helpers\<close>

datatype outline_node = Outline int string "outline_node list"   \<comment> \<open>page, title, children\<close>

record pdf_lib =
  ReadAndValidate :: "string \<Rightarrow> goerr + int"            \<comment> \<open>page count, relaxed validation\<close>
  ReadValidateAndOptimize :: "string \<Rightarrow> goerr + int"
  ExtractPageContent :: "string \<Rightarrow> int \<Rightarrow> goerr + string"
  Bookmarks :: "string \<Rightarrow> goerr + outline_node list"
  TrimFile :: "string \<Rightarrow> string \<Rightarrow> goerr + string"    \<comment> \<open>source, page selection\<close>

definition pdf_space :: "char \<Rightarrow> bool" where
  "pdf_space c \<longleftrightarrow> byte c = 32 \<or> byte c = 9 \<or> byte c = 10 \<or> byte c = 13"

text \<open>The scan from one position: \<open>b\<close> is what is left of the file there.\<close>

function countPDFPageObjects :: "string \<Rightarrow> nat" where
  "countPDFPageObjects b =
     (if length b \<le> 10 then 0
      else
        let r = dropWhile pdf_space (drop 5 b)
        in if has_prefix b ''/Type'' \<and> 5 < length r \<and> has_prefix r ''/Page'' \<and> r ! 5 \<noteq> CHR ''s''
           then Suc (countPDFPageObjects (drop 6 r))
           else countPDFPageObjects (tl b))"
  by pat_completeness auto
termination
proof (relation "measure length")
  fix b r :: string
  assume a: "\<not> length b \<le> 10" "r = dropWhile pdf_space (drop 5 b)"
  have "length r \<le> length (drop 5 b)" unfolding a(2) by (rule length_dropWhile_le)
  then show "(drop 6 r, b) \<in> measure length" using a(1) by simp
qed auto

declare countPDFPageObjects.simps [simp del]

definition PageCountBytes :: "pdf_lib \<Rightarrow> string \<Rightarrow> goerr + int" where
  "PageCountBytes P b =
     (case ReadAndValidate P b of
        Inr n \<Rightarrow>
          if 0 < n then Inr n
          else let c = int (countPDFPageObjects b) in if 0 < c then Inr c else Inr 1
      | Inl e \<Rightarrow>
          let c = int (countPDFPageObjects b) in if 0 < c then Inr c else Inl e)"

definition PageCount :: "pdf_lib \<Rightarrow> gofile \<Rightarrow> goerr + int" where
  "PageCount P path = (case read_file path of Inl e \<Rightarrow> Inl e | Inr b \<Rightarrow> PageCountBytes P b)"

text \<open>
  Character counts of pages \<open>pageStart\<close> to \<open>pageEnd\<close>; \<open>make\<close> panics on a negative capacity,
  when the range starts more than a page past the end of the document.
\<close>

definition PageTextChars :: "pdf_lib \<Rightarrow> gofile \<Rightarrow> int \<Rightarrow> int \<Rightarrow> goerr + int list" where
  "PageTextChars P path pageStart pageEnd0 =
     (case read_file path of
        Inl e \<Rightarrow> Inl e
      | Inr b \<Rightarrow>
          (case ReadValidateAndOptimize P b of
             Inl e \<Rightarrow> Inl e
           | Inr count \<Rightarrow>
               let pageEnd = (if count < pageEnd0 then count else pageEnd0)
               in if pageEnd - pageStart + 1 < 0 then Inl (go_panic ''makeslice: cap out of range'')
                  else Inr (map (\<lambda>p. case ExtractPageContent P b p of Inl _ \<Rightarrow> 0 | Inr c \<Rightarrow> int (length c))
                              [pageStart..pageEnd])))"

text \<open>The slice's bytes and its page count.\<close>

definition SlicePDF :: "pdf_lib \<Rightarrow> gofile \<Rightarrow> int \<Rightarrow> int \<Rightarrow> goerr + string \<times> int" where
  "SlicePDF P src pageStart pageEnd =
     (if pageStart < 1 \<or> pageEnd < pageStart
      then Inl (Plain (''slice: invalid page range '' @ itoa pageStart @ ''-'' @ itoa pageEnd))
      else case PageCount P src of
             Inl e \<Rightarrow> Inl e
           | Inr n \<Rightarrow>
               if n < pageEnd
               then Inl (Plain (''slice: page range '' @ itoa pageStart @ ''-'' @ itoa pageEnd
                                @ '' exceeds '' @ itoa n @ '' pages''))
               else case read_file src of
                      Inl e \<Rightarrow> Inl e
                    | Inr b \<Rightarrow>
                        (case TrimFile P b (itoa pageStart @ ''-'' @ itoa pageEnd) of
                           Inl e \<Rightarrow> Inl e
                         | Inr dst \<Rightarrow>
                             (case PageCount P (Some (Inr dst)) of
                                Inl e \<Rightarrow> Inl e
                              | Inr k \<Rightarrow> Inr (dst, k))))"

definition pdf_fold_byte :: "char \<Rightarrow> nat" where
  "pdf_fold_byte c = (if 97 \<le> byte c \<and> byte c \<le> 122 then byte c - 32 else byte c)"

definition equalFold :: "string \<Rightarrow> string \<Rightarrow> bool" where
  "equalFold a b \<longleftrightarrow> map pdf_fold_byte a = map pdf_fold_byte b"

definition pdf_containsFold :: "string \<Rightarrow> string \<Rightarrow> bool" where
  "pdf_containsFold s sub \<longleftrightarrow>
     (\<exists>i \<in> set [0..<Suc (length s)]. i + length sub \<le> length s \<and> equalFold (take (length sub) (drop i s)) sub)"

definition ClassifyPDFError :: "goerr option \<Rightarrow> string" where
  "ClassifyPDFError err =
     (case err of
        None \<Rightarrow> []
      | Some e \<Rightarrow>
          if pdf_containsFold (error_text e) ''password'' \<or> pdf_containsFold (error_text e) ''encrypt''
          then ''PDF_ENCRYPTED'' else ''PDF_CORRUPT'')"

text \<open>\<open>ExtractBookmarks\<close>: a preorder walk that keeps the nodes with a page.\<close>

fun walk :: "outline_node list \<Rightarrow> bookmark list" where
  "walk [] = []"
| "walk (Outline page title kids # nodes) =
     (if 0 < page then [\<lparr>Page = page, Title = title\<rparr>] else []) @ walk kids @ walk nodes"

definition ExtractBookmarks :: "pdf_lib \<Rightarrow> gofile \<Rightarrow> bookmark list" where
  "ExtractBookmarks P path =
     (case read_file path of
        Inl _ \<Rightarrow> []
      | Inr b \<Rightarrow> (case Bookmarks P b of Inl _ \<Rightarrow> [] | Inr bms \<Rightarrow> walk bms))"

section \<open>The OCR gate and the yield check\<close>

record OCRVerdict =
  v_NeedsOCR :: bool
  v_MeanCharsPerPage :: rat

definition NeedsOCR :: "pdf_lib \<Rightarrow> gofile \<Rightarrow> int \<Rightarrow> int \<Rightarrow> int \<Rightarrow> goerr + OCRVerdict" where
  "NeedsOCR P path pageStart pageEnd minCharsPerPage =
     (case PageTextChars P path pageStart pageEnd of
        Inl e \<Rightarrow> Inl e
      | Inr counts \<Rightarrow>
          if counts = [] then Inr \<lparr>v_NeedsOCR = True, v_MeanCharsPerPage = 0\<rparr>
          else let mean = of_int (sum_list counts) / of_int (int (length counts))
               in Inr \<lparr>v_NeedsOCR = mean < of_int minCharsPerPage, v_MeanCharsPerPage = mean\<rparr>)"

definition YieldOK :: "string \<Rightarrow> int \<Rightarrow> int \<Rightarrow> bool" where
  "YieldOK markdown pages0 minYield \<longleftrightarrow>
     (let pages = (if pages0 \<le> 0 then 1 else pages0)
      in markdown \<noteq> [] \<and> minYield \<le> go_div (int (length markdown)) pages)"

section \<open>Requests and results\<close>

record ParseRequest =
  pr_PDFPath :: gofile
  pr_PDFBytes :: string
  pr_PageStart :: int
  pr_PageEnd :: int
  pr_Attempt :: int
  pr_ShardPages :: int
  pr_TextOnly :: bool
  pr_NeedOCR :: bool
  pr_DocFormat :: Format

definition IsSynthetic :: "ParseRequest \<Rightarrow> bool" where
  "IsSynthetic r \<longleftrightarrow> pr_DocFormat r \<noteq> FmtPDF"

record ParseResult =
  pt_Markdown :: string
  pt_NeedsOCR :: bool
  pt_MeanCharsPerPage :: rat
  pt_DurationMS :: int
  pt_PeakRSSMB :: int
  pt_Engine :: string

text \<open>The machine: elapsed milliseconds since a call started, and the resident size.\<close>

record 'x host =
  ElapsedMS :: "('x world, goerr, int) prog"
  CurrentRSSMB :: "('x world, goerr, int) prog"

section \<open>The engines\<close>

text \<open>The \<open>Parser\<close> interface.\<close>

record 'x parser_ops =
  p_Parse :: "ParseRequest \<Rightarrow> ('x world, goerr, ParseResult) prog"
  p_Available :: bool
  p_Supports :: "Format \<Rightarrow> bool"

text \<open>The anydoc binding: its extension table and its conversion.\<close>

record anydoc_binding =
  FormatFromExtension :: "string \<Rightarrow> string option"
  ToMarkdownBytes :: "string \<Rightarrow> string \<Rightarrow> goerr + string"

definition anydocFormatFor :: "anydoc_binding \<Rightarrow> Format \<Rightarrow> string option" where
  "anydocFormatFor B f =
     (if f = FmtTXT \<or> f = FmtMD \<or> f = FmtHTML then None else FormatFromExtension B (Ext f))"

definition ErrAnyDocUnavailable :: goerr where
  "ErrAnyDocUnavailable = Plain ''anydoc: not available in this build''"

definition AnyDocParser :: "'x host \<Rightarrow> anydoc_binding \<Rightarrow> 'x parser_ops" where
  "AnyDocParser H B =
     \<lparr>p_Parse = (\<lambda>req.
        bnd (of_sum (if pr_PDFBytes req = [] then read_file (pr_PDFPath req) else Inr (pr_PDFBytes req))) (\<lambda>src.
        case anydocFormatFor B (pr_DocFormat req) of
          None \<Rightarrow> raise (Plain ''anydoc: format has no fast path'')
        | Some format \<Rightarrow>
            bnd (of_sum (ToMarkdownBytes B src format)) (\<lambda>md.
            bnd (ElapsedMS H) (\<lambda>ms.
            ret \<lparr>pt_Markdown = md, pt_NeedsOCR = False, pt_MeanCharsPerPage = 0, pt_DurationMS = ms,
                 pt_PeakRSSMB = 0, pt_Engine = ''anydoc''\<rparr>)))),
      p_Available = True,
      p_Supports = (\<lambda>f. anydocFormatFor B f \<noteq> None)\<rparr>"

definition unavailableParser :: "'x parser_ops" where
  "unavailableParser =
     \<lparr>p_Parse = (\<lambda>_. raise ErrAnyDocUnavailable), p_Available = False, p_Supports = (\<lambda>_. False)\<rparr>"

text \<open>\<open>ConvertNamed\<close> of the docling client: path, file name, table structure.\<close>

type_synonym 'x docling = "gofile \<Rightarrow> string \<Rightarrow> bool \<Rightarrow> ('x world, goerr, string) prog"

definition Convert :: "'x docling \<Rightarrow> gofile \<Rightarrow> bool \<Rightarrow> ('x world, goerr, string) prog" where
  "Convert D path tables = D path ''shard.pdf'' tables"

record 'x two_tier =
  AnyDoc :: "'x parser_ops"
  Docling :: "'x docling"
  MinYieldCharsPerPage :: int
  OCRMinCharsPerPage :: int

definition NewTwoTierParser ::
  "'x host \<Rightarrow> anydoc_binding \<Rightarrow> 'x docling \<Rightarrow> int \<Rightarrow> int \<Rightarrow> bool \<Rightarrow> 'x two_tier" where
  "NewTwoTierParser H B D minYield ocrMin anydocEnabled =
     (let anydoc = AnyDocParser H B
      in \<lparr>AnyDoc = (if \<not> anydocEnabled \<or> \<not> p_Available anydoc then unavailableParser else anydoc),
          Docling = D, MinYieldCharsPerPage = minYield, OCRMinCharsPerPage = ocrMin\<rparr>)"

section \<open>The two tiers\<close>

definition anydocEligible :: "'x two_tier \<Rightarrow> ParseRequest \<Rightarrow> bool" where
  "anydocEligible t req \<longleftrightarrow>
     \<not> pr_NeedOCR req \<and> p_Available (AnyDoc t) \<and> p_Supports (AnyDoc t) (pr_DocFormat req)"

definition request_pages :: "ParseRequest \<Rightarrow> int" where
  "request_pages req =
     (let pages = pr_PageEnd req - pr_PageStart req + 1 in if pages < 1 then 1 else pages)"

text \<open>The gate's verdict and mean; an error of the gate leaves the request's own flag.\<close>

definition gate :: "pdf_lib \<Rightarrow> 'x two_tier \<Rightarrow> ParseRequest \<Rightarrow> goerr + bool \<times> rat" where
  "gate P t req =
     (if pr_DocFormat req = FmtPDF \<and> \<not> pr_NeedOCR req \<and> pr_PDFPath req \<noteq> None
      then case NeedsOCR P (pr_PDFPath req) (pr_PageStart req) (pr_PageEnd req) (OCRMinCharsPerPage t) of
             Inl e \<Rightarrow> if e = go_panic ''makeslice: cap out of range'' then Inl e else Inr (pr_NeedOCR req, 0)
           | Inr v \<Rightarrow> Inr (v_NeedsOCR v, v_MeanCharsPerPage v)
      else Inr (pr_NeedOCR req, 0))"

definition result_of ::
  "'x host \<Rightarrow> string \<Rightarrow> bool \<Rightarrow> rat \<Rightarrow> string \<Rightarrow> ('x world, goerr, ParseResult) prog" where
  "result_of H md needOCR meanChars engine =
     bnd (ElapsedMS H) (\<lambda>ms. bnd (CurrentRSSMB H) (\<lambda>rss.
     ret \<lparr>pt_Markdown = md, pt_NeedsOCR = needOCR, pt_MeanCharsPerPage = meanChars,
          pt_DurationMS = ms, pt_PeakRSSMB = rss, pt_Engine = engine\<rparr>))"

definition docling_named ::
  "'x host \<Rightarrow> 'x two_tier \<Rightarrow> ParseRequest \<Rightarrow> bool \<Rightarrow> rat \<Rightarrow> ('x world, goerr, ParseResult) prog" where
  "docling_named H t req needOCR meanChars =
     bnd (Docling t (pr_PDFPath req) (ParseSourceName (pr_DocFormat req)) (\<not> pr_TextOnly req)) (\<lambda>md.
     result_of H md needOCR meanChars ''docling'')"

definition docling_tier ::
  "'x host \<Rightarrow> 'x two_tier \<Rightarrow> ParseRequest \<Rightarrow> bool \<Rightarrow> rat \<Rightarrow> ('x world, goerr, ParseResult) prog" where
  "docling_tier H t req needOCR meanChars =
     (if IsSynthetic req then docling_named H t req needOCR meanChars
      else bnd (Convert (Docling t) (pr_PDFPath req) (\<not> pr_TextOnly req)) (\<lambda>md.
           result_of H md needOCR meanChars ''docling''))"

definition anydoc_tier ::
  "'x host \<Rightarrow> 'x two_tier \<Rightarrow> ParseRequest \<Rightarrow> bool \<Rightarrow> rat \<Rightarrow> ('x world, goerr, ParseResult) prog" where
  "anydoc_tier H t req needOCR meanChars =
     bnd (attempt (p_Parse (AnyDoc t) req)) (\<lambda>r.
     case r of
       Inr res \<Rightarrow>
         if YieldOK (pt_Markdown res) (request_pages req) (MinYieldCharsPerPage t)
         then bnd (ElapsedMS H) (\<lambda>ms.
              ret (res\<lparr>pt_NeedsOCR := False, pt_MeanCharsPerPage := meanChars,
                       pt_DurationMS := (if pt_DurationMS res = 0 then ms else pt_DurationMS res)\<rparr>))
         else docling_tier H t req needOCR meanChars
     | Inl _ \<Rightarrow> docling_tier H t req needOCR meanChars)"

definition Parse ::
  "'x host \<Rightarrow> pdf_lib \<Rightarrow> 'x two_tier \<Rightarrow> ParseRequest \<Rightarrow> ('x world, goerr, ParseResult) prog" where
  "Parse H P t req =
     bnd (of_sum (gate P t req)) (\<lambda>(needOCR, meanChars).
     if pr_DocFormat req = FmtTXT \<or> pr_DocFormat req = FmtMD then
       (case read_file (pr_PDFPath req) of
          Inr md \<Rightarrow>
            if YieldOK md (request_pages req) (MinYieldCharsPerPage t)
            then result_of H md False meanChars ''text''
            else docling_named H t req needOCR meanChars
        | Inl _ \<Rightarrow> docling_named H t req needOCR meanChars)
     else if pr_DocFormat req = FmtHTML then docling_named H t req needOCR meanChars
     else if anydocEligible t req then anydoc_tier H t req needOCR meanChars
     else docling_tier H t req needOCR meanChars)"

section \<open>The source cache\<close>

text \<open>The file system under the cache directory; only its effects outside the worker matter.\<close>

record 'x fs_ops =
  MkdirAll :: "string \<Rightarrow> ('x world, goerr, unit) prog"
  WriteFile :: "string \<Rightarrow> string \<Rightarrow> ('x world, goerr, unit) prog"
  ReadPath :: "string \<Rightarrow> ('x world, goerr, string) prog"
  StatPath :: "string \<Rightarrow> ('x world, goerr, unit) prog"
  Rename :: "string \<Rightarrow> string \<Rightarrow> ('x world, goerr, unit) prog"
  RemovePath :: "string \<Rightarrow> ('x world, goerr, unit) prog"

definition PDFCachePath :: "string \<Rightarrow> string \<Rightarrow> string" where
  "PDFCachePath cacheDir docID = cacheDir @ ''/'' @ docID @ ''.pdf''"

definition StorePDFCache :: "'x fs_ops \<Rightarrow> string \<Rightarrow> string \<Rightarrow> string \<Rightarrow> ('x world, goerr, unit) prog" where
  "StorePDFCache F cacheDir docID src =
     (if cacheDir = [] then ret ()
      else
        bnd (attempt (MkdirAll F cacheDir)) (\<lambda>r0. case r0 of Inl _ \<Rightarrow> ret () | Inr _ \<Rightarrow>
        let dst = PDFCachePath cacheDir docID; tmp = dst @ ''.tmp''
        in bnd (attempt (WriteFile F tmp src)) (\<lambda>r1. case r1 of Inl _ \<Rightarrow> ret () | Inr _ \<Rightarrow>
           bnd (attempt (Rename F tmp dst)) (\<lambda>r2. case r2 of
             Inr _ \<Rightarrow> ret ()
           | Inl _ \<Rightarrow> bnd (attempt (RemovePath F tmp)) (\<lambda>_. ret ())))))"

section \<open>Properties\<close>

lemma PageCountBytes_positive_core: "PageCountBytes P b = Inr n \<Longrightarrow> 1 \<le> n"
  by (auto simp: PageCountBytes_def Let_def split: sum.splits if_splits)

text \<open>
  A page count that is returned is at least one, however damaged the file: the sharding
  that follows never sees an empty document.
\<close>

theorem PageCountBytes_positive:
  assumes "PageCountBytes P b = Inr n"
  shows "1 \<le> n"
  using assms by (rule PageCountBytes_positive_core)

definition damaged_lib :: pdf_lib where
  "damaged_lib = \<lparr>ReadAndValidate = (\<lambda>_. Inl (Plain ''xref'')), ReadValidateAndOptimize = (\<lambda>_. Inl (Plain ''xref'')),
     ExtractPageContent = (\<lambda>_ _. Inl (Plain ''xref'')), Bookmarks = (\<lambda>_. Inl (Plain ''xref'')),
     TrimFile = (\<lambda>_ _. Inl (Plain ''xref''))\<rparr>"

lemma PageCountBytes_positive_witness:
  "PageCountBytes damaged_lib ''/Type /Page /Type/Pages /Type /Page>'' = Inr 2 \<and> (1::int) \<le> 2"
proof -
  have "countPDFPageObjects ''/Type /Page /Type/Pages /Type /Page>'' = 2"
    by (simp add: countPDFPageObjects.simps has_prefix_def pdf_space_def Let_def)
  then have run: "PageCountBytes damaged_lib ''/Type /Page /Type/Pages /Type /Page>'' = Inr 2"
    by (simp add: PageCountBytes_def damaged_lib_def)
  then show ?thesis using PageCountBytes_positive[OF run] by simp
qed

text \<open>
  Slicing only cuts ranges inside the document, and a slice has a page.
\<close>

theorem SlicePDF_in_range:
  assumes "SlicePDF P src a b = Inr (dst, k)"
  shows "1 \<le> a \<and> a \<le> b \<and> 1 \<le> k \<and> (\<exists>n. PageCount P src = Inr n \<and> b \<le> n)"
proof -
  have "PageCount P (Some (Inr dst)) = Inr k" "1 \<le> a" "a \<le> b" "\<exists>n. PageCount P src = Inr n \<and> b \<le> n"
    using assms by (auto simp: SlicePDF_def split: sum.splits if_splits)
  then show ?thesis using PageCountBytes_positive_core[of P dst k] by (simp add: PageCount_def read_file_def)
qed

definition page_bytes_lib :: pdf_lib where
  "page_bytes_lib = \<lparr>ReadAndValidate = (\<lambda>b. Inr (int (length b))), ReadValidateAndOptimize = (\<lambda>b. Inr (int (length b))),
     ExtractPageContent = (\<lambda>_ _. Inr ''ab''), Bookmarks = (\<lambda>_. Inr []), TrimFile = (\<lambda>b _. Inr (take 2 b))\<rparr>"

lemma SlicePDF_in_range_witness:
  "SlicePDF page_bytes_lib (Some (Inr ''xxxxx'')) 2 3 = Inr (''xx'', 2) \<and> (3::int) \<le> 5"
proof -
  have run: "SlicePDF page_bytes_lib (Some (Inr ''xxxxx'')) 2 3 = Inr (''xx'', 2)"
    by (simp add: SlicePDF_def PageCount_def PageCountBytes_def read_file_def page_bytes_lib_def)
  have "PageCount page_bytes_lib (Some (Inr ''xxxxx'')) = Inr 5"
    by (simp add: PageCount_def PageCountBytes_def read_file_def page_bytes_lib_def)
  then show ?thesis using SlicePDF_in_range[OF run] run by simp
qed

lemma result_of_Inr:
  "result_of H md b mean engine w = (Inr res, w') \<Longrightarrow>
   pt_Engine res = engine \<and> pt_Markdown res = md \<and> pt_NeedsOCR res = b"
  by (auto simp: result_of_def bnd_eq_Inr)

lemma docling_tier_engine:
  "docling_named H t req b mean w = (Inr res, w') \<Longrightarrow> pt_Engine res = ''docling''"
  "docling_tier H t req b mean w = (Inr res, w') \<Longrightarrow> pt_Engine res = ''docling''"
  by (auto simp: docling_tier_def docling_named_def bnd_eq_Inr dest: result_of_Inr split: if_splits)


definition sample_host :: "'x host" where
  "sample_host = \<lparr>ElapsedMS = ret 5, CurrentRSSMB = ret 64\<rparr>"

definition sample_anydoc :: anydoc_binding where
  "sample_anydoc = \<lparr>FormatFromExtension = (\<lambda>e. Some e), ToMarkdownBytes = (\<lambda>b f. Inr ''# T'')\<rparr>"

definition sample_two_tier :: "'x two_tier" where
  "sample_two_tier = NewTwoTierParser sample_host sample_anydoc (\<lambda>p n tables. ret ''ocr text'') 2 20 True"

definition sample_request :: ParseRequest where
  "sample_request = \<lparr>pr_PDFPath = Some (Inr ''xxxxx''), pr_PDFBytes = [], pr_PageStart = 1, pr_PageEnd = 1,
     pr_Attempt = 1, pr_ShardPages = 16, pr_TextOnly = False, pr_NeedOCR = False, pr_DocFormat = FmtPDF\<rparr>"

lemmas sample_parse_defs = sample_request_def sample_two_tier_def sample_anydoc_def sample_host_def
  NewTwoTierParser_def AnyDocParser_def anydocFormatFor_def read_file_def

lemma sample_anydoc_run:
  "p_Parse (AnyDoc sample_two_tier) sample_request w
   = (Inr \<lparr>pt_Markdown = ''# T'', pt_NeedsOCR = False, pt_MeanCharsPerPage = 0, pt_DurationMS = 5,
           pt_PeakRSSMB = 0, pt_Engine = ''anydoc''\<rparr>, w)"
  by (simp add: sample_parse_defs bnd_def)

definition idle_world :: "unit world" where
  "idle_world = \<lparr>db = empty_tables, runner_log = id, aborted = False,
     faults = (\<lambda>_. None), nstmt = 0, clock = 0, rollups = [], ext = ()\<rparr>"

lemma sample_facts:
  "pr_DocFormat sample_request = FmtPDF" "anydocEligible sample_two_tier sample_request"
  "ElapsedMS sample_host = ret 5" "MinYieldCharsPerPage sample_two_tier = 2" "request_pages sample_request = 1"
  by (simp_all add: anydocEligible_def request_pages_def sample_parse_defs)


text \<open>
  The gate's verdict does not keep a scanned shard away from the fast path: eligibility
  reads the request's own flag, so a PDF the gate found to need OCR still goes through anydoc,
  and when its output yields enough the shard is recorded as not needing OCR.
\<close>

theorem gate_verdict_ignored:
  assumes "pr_DocFormat req = FmtPDF" "\<not> pr_NeedOCR req" "pr_PDFPath req \<noteq> None"
    and "p_Available (AnyDoc t)" "p_Supports (AnyDoc t) FmtPDF"
    and "NeedsOCR P (pr_PDFPath req) (pr_PageStart req) (pr_PageEnd req) (OCRMinCharsPerPage t) = Inr v" "v_NeedsOCR v"
    and "p_Parse (AnyDoc t) req w = (Inr res, w1)" "ElapsedMS H w1 = (Inr ms, w2)"
    and "YieldOK (pt_Markdown res) (request_pages req) (MinYieldCharsPerPage t)"
  shows "\<exists>res'. Parse H P t req w = (Inr res', w2) \<and> pt_Engine res' = pt_Engine res
    \<and> pt_Markdown res' = pt_Markdown res \<and> \<not> pt_NeedsOCR res'"
proof -
  have "gate P t req = Inr (True, v_MeanCharsPerPage v)" using assms by (simp add: gate_def)
  then show ?thesis
    using assms by (simp add: Parse_def bnd_def anydocEligible_def anydoc_tier_def attempt_apply)
qed

lemma gate_verdict_ignored_witness:
  "v_NeedsOCR \<lparr>v_NeedsOCR = True, v_MeanCharsPerPage = 2\<rparr>
   \<and> (\<exists>res'. Parse sample_host page_bytes_lib sample_two_tier sample_request idle_world = (Inr res', idle_world)
        \<and> pt_Engine res' = ''anydoc'' \<and> \<not> pt_NeedsOCR res')"
proof -
  let ?v = "\<lparr>v_NeedsOCR = True, v_MeanCharsPerPage = 2\<rparr>"
  have v: "NeedsOCR page_bytes_lib (pr_PDFPath sample_request) (pr_PageStart sample_request) (pr_PageEnd sample_request)
      (OCRMinCharsPerPage (sample_two_tier :: unit two_tier)) = Inr ?v"
    by (simp add: NeedsOCR_def PageTextChars_def page_bytes_lib_def sample_parse_defs)
  have f: "pr_DocFormat sample_request = FmtPDF" "\<not> pr_NeedOCR sample_request" "pr_PDFPath sample_request \<noteq> None"
    "p_Available (AnyDoc (sample_two_tier :: unit two_tier))"
    "p_Supports (AnyDoc (sample_two_tier :: unit two_tier)) FmtPDF"
    by (simp_all add: sample_parse_defs)
  have y: "YieldOK ''# T'' (request_pages sample_request) (MinYieldCharsPerPage (sample_two_tier :: unit two_tier))"
    by (simp add: YieldOK_def request_pages_def sample_parse_defs)
  have e: "ElapsedMS sample_host idle_world = (Inr 5, idle_world)" by (simp add: sample_host_def)
  show ?thesis
    using gate_verdict_ignored[OF f v _ sample_anydoc_run e] y by simp blast
qed

end
