(* ===== verification/Jobs.thy ===== *)
theory Jobs
  imports Json Errors
begin

text \<open>
  The versioned job payloads of the three streams (\<open>internal/queue/contracts.go\<close>), how
  the handlers read their fields back (\<open>jobString\<close>, \<open>jobInt\<close> of \<open>internal/service\<close>), and the
  keys the janitor's dedup scans derive from a payload (\<open>internal/worker/janitor.go\<close>).
  \<open>pf\<close> is \<open>strconv.ParseFloat\<close> followed by the conversion to \<open>int\<close>, used for literals that
  are not short plain integers.
\<close>

section \<open>Payloads\<close>

definition SchemaVersion :: int where
  "SchemaVersion = 1"

record SplitJob =
  sj_SchemaVersion :: int
  sj_DocID :: string
  sj_SourceURI :: string

record ParseJob =
  pj_SchemaVersion :: int
  pj_DocID :: string
  pj_Idx :: int
  pj_PageStart :: int
  pj_PageEnd :: int
  pj_SourceURI :: string

record EmbedJob =
  ej_SchemaVersion :: int
  ej_DocID :: string

definition ValidatePages :: "ParseJob \<Rightarrow> goerr option" where
  "ValidatePages j =
     (if pj_PageEnd j < pj_PageStart j
      then Some (PayloadError ''page_end'' ''page_end < page_start'') else None)"

text \<open>The struct fields in order, under their JSON tags.\<close>

definition split_fields :: "SplitJob \<Rightarrow> (string \<times> field) list" where
  "split_fields j =
     [(''schema_version'', FInt (sj_SchemaVersion j)), (''doc_id'', FStr (sj_DocID j)),
      (''source_uri'', FStr (sj_SourceURI j))]"

definition parse_fields :: "ParseJob \<Rightarrow> (string \<times> field) list" where
  "parse_fields j =
     [(''schema_version'', FInt (pj_SchemaVersion j)), (''doc_id'', FStr (pj_DocID j)),
      (''idx'', FInt (pj_Idx j)), (''page_start'', FInt (pj_PageStart j)),
      (''page_end'', FInt (pj_PageEnd j)), (''source_uri'', FStr (pj_SourceURI j))]"

definition embed_fields :: "EmbedJob \<Rightarrow> (string \<times> field) list" where
  "embed_fields j =
     [(''schema_version'', FInt (ej_SchemaVersion j)), (''doc_id'', FStr (ej_DocID j))]"

text \<open>\<open>MarshalJob\<close> never fails on these structs.\<close>

definition MarshalJob :: "(string \<times> field) list \<Rightarrow> string" where
  "MarshalJob fs = marshal fs"

section \<open>Reading a payload\<close>

text \<open>\<open>%q\<close> of a field name, which is plain ASCII, is the name in quotes.\<close>

definition missing_field :: "string \<Rightarrow> goerr" where
  "missing_field key = Plain (''job field '' @ quoted key @ '' missing'')"

definition jobString :: "payload \<Rightarrow> string \<Rightarrow> goerr + string" where
  "jobString job key =
     (case get_str job key of
        Some v \<Rightarrow> if v = [] then Inl (missing_field key) else Inr v
      | None \<Rightarrow> Inl (missing_field key))"

definition jobInt :: "(string \<Rightarrow> int) \<Rightarrow> payload \<Rightarrow> string \<Rightarrow> int \<times> bool" where
  "jobInt pf job key = (case get_num pf job key of Some n \<Rightarrow> (n, True) | None \<Rightarrow> (0, False))"

section \<open>Dedup keys\<close>

definition parseJobKeyOf :: "string \<Rightarrow> int \<Rightarrow> string" where
  "parseJobKeyOf docID idx = docID @ ''|'' @ itoa idx"

definition parseJobKey :: "(string \<Rightarrow> int) \<Rightarrow> payload \<Rightarrow> string option" where
  "parseJobKey pf payload =
     (case get_str payload ''doc_id'' of
        None \<Rightarrow> None
      | Some docID \<Rightarrow>
          if docID = [] then None
          else case get_num pf payload ''idx'' of
                 None \<Rightarrow> None
               | Some n \<Rightarrow> Some (parseJobKeyOf docID n))"

definition docIDKey :: "payload \<Rightarrow> string option" where
  "docIDKey payload =
     (case get_str payload ''doc_id'' of
        None \<Rightarrow> None
      | Some s \<Rightarrow> if s = [] then None else Some s)"

text \<open>\<open>payloadKeyOf\<close>: unwrap the stream field \<open>job\<close> (\<open>raw\<close> is its text, empty when absent).\<close>

definition payloadKeyOf :: "string \<Rightarrow> (payload \<Rightarrow> string option) \<Rightarrow> string option" where
  "payloadKeyOf raw keyOf =
     (case unmarshal raw of
        Some (Some payload) \<Rightarrow> keyOf payload
      | _ \<Rightarrow> None)"

section \<open>Lemmas\<close>

lemma parseJobKeyOf_inj: "parseJobKeyOf d i = parseJobKeyOf e j \<longleftrightarrow> d = e \<and> i = j"
proof
  assume eq: "parseJobKeyOf d i = parseJobKeyOf e j"
  have tail: "takeWhile (\<lambda>c. c \<noteq> CHR ''|'') (rev (parseJobKeyOf d i)) = rev (itoa i)" for d i
    using itoa_no_bar[of i] by (auto simp: parseJobKeyOf_def takeWhile_append)
  have "rev (itoa i) = rev (itoa j)" using tail[of d i] tail[of e j] eq by simp
  then have "i = j" by (simp add: itoa_inj)
  with eq show "d = e \<and> i = j" by (simp add: parseJobKeyOf_def)
qed simp

text \<open>Field names are ASCII.\<close>

lemma ascii_valid: "list_all (\<lambda>c. byte c < 128) s \<Longrightarrow> valid_utf8 s"
proof (induction s)
  case (Cons c s)
  then show ?case by (auto simp: valid_utf8_def decode_rune.simps(2) rune_error_def)
qed (simp add: valid_utf8_def)

lemma field_names_valid [simp]:
  "valid_utf8 ''schema_version''" "valid_utf8 ''doc_id''" "valid_utf8 ''idx''"
  "valid_utf8 ''page_start''" "valid_utf8 ''page_end''" "valid_utf8 ''source_uri''"
  by (simp_all add: ascii_valid)

text \<open>What a consumer reads back from the marshalled structs.\<close>

lemma parse_payload:
  assumes "valid_utf8 (pj_DocID j)" "valid_utf8 (pj_SourceURI j)"
  obtains m where "unmarshal (MarshalJob (parse_fields j)) = Some (Some m)"
    and "map_of m = map_of (map (\<lambda>(k, v). (k, field_json v)) (parse_fields j))"
  using unmarshal_marshal[of "parse_fields j"] assms by (force simp: parse_fields_def MarshalJob_def)

lemma split_payload:
  assumes "valid_utf8 (sj_DocID j)" "valid_utf8 (sj_SourceURI j)"
  obtains m where "unmarshal (MarshalJob (split_fields j)) = Some (Some m)"
    and "map_of m = map_of (map (\<lambda>(k, v). (k, field_json v)) (split_fields j))"
  using unmarshal_marshal[of "split_fields j"] assms by (force simp: split_fields_def MarshalJob_def)

lemma embed_payload:
  assumes "valid_utf8 (ej_DocID j)"
  obtains m where "unmarshal (MarshalJob (embed_fields j)) = Some (Some m)"
    and "map_of m = map_of (map (\<lambda>(k, v). (k, field_json v)) (embed_fields j))"
  using unmarshal_marshal[of "embed_fields j"] assms by (force simp: embed_fields_def MarshalJob_def)

text \<open>
  C14. What a producer enqueues is what the parser reads: for a job with a document id and
  numbers below 10^15, unmarshalling the marshalled payload gives back every field the
  handler reads, and the payload's dedup key is the one the janitor derives from the row.
\<close>

theorem ParseJob_roundtrip:
  assumes "valid_utf8 (pj_DocID j)" "valid_utf8 (pj_SourceURI j)" "pj_DocID j \<noteq> []"
    and "\<bar>pj_Idx j\<bar> < 10 ^ 15" "\<bar>pj_PageStart j\<bar> < 10 ^ 15" "\<bar>pj_PageEnd j\<bar> < 10 ^ 15"
  shows "\<exists>m. unmarshal (MarshalJob (parse_fields j)) = Some (Some m)
    \<and> jobString m ''doc_id'' = Inr (pj_DocID j) \<and> jobInt pf m ''idx'' = (pj_Idx j, True)
    \<and> jobInt pf m ''page_start'' = (pj_PageStart j, True) \<and> jobInt pf m ''page_end'' = (pj_PageEnd j, True)
    \<and> payloadKeyOf (MarshalJob (parse_fields j)) (parseJobKey pf) = Some (parseJobKeyOf (pj_DocID j) (pj_Idx j))"
proof -
  obtain m where m: "unmarshal (MarshalJob (parse_fields j)) = Some (Some m)"
    "map_of m = map_of (map (\<lambda>(k, v). (k, field_json v)) (parse_fields j))"
    using parse_payload[OF assms(1,2)] .
  have "get_str m ''doc_id'' = Some (pj_DocID j)" "get_num pf m ''idx'' = Some (pj_Idx j)"
    "get_num pf m ''page_start'' = Some (pj_PageStart j)" "get_num pf m ''page_end'' = Some (pj_PageEnd j)"
    using assms(4-6) by (simp_all add: get_str_def get_num_def m(2) parse_fields_def num_int_itoa)
  then show ?thesis using m(1) assms(3)
    by (simp add: jobString_def jobInt_def payloadKeyOf_def parseJobKey_def)
qed

lemma ParseJob_roundtrip_witness:
  "\<exists>m. unmarshal (MarshalJob (parse_fields
       \<lparr>pj_SchemaVersion = 1, pj_DocID = ''d'', pj_Idx = 2, pj_PageStart = 9, pj_PageEnd = 16, pj_SourceURI = ''s3://raw/d''\<rparr>))
     = Some (Some m) \<and> jobInt (\<lambda>_. 0) m ''page_end'' = (16, True)"
  using ParseJob_roundtrip[of "\<lparr>pj_SchemaVersion = 1, pj_DocID = ''d'', pj_Idx = 2, pj_PageStart = 9, pj_PageEnd = 16, pj_SourceURI = ''s3://raw/d''\<rparr>" "\<lambda>_. 0"]
  by (auto simp: ascii_valid)

end
