(* ===== verification/Streams.thy ===== *)
theory Streams
  imports Jobs World
begin

text \<open>
  The Redis Streams primitives (\<open>internal/queue/streams.go\<close>).  The Redis commands
  themselves are the parameter \<open>R\<close>: each takes the state \<open>'x\<close> of the outside world and
  gives an error or a reply with the new state.  A message is its id with the text of its
  \<open>job\<close> field, empty when the field is absent.
\<close>

type_synonym msg = "string \<times> string"

record group_info =
  g_Name :: string
  g_Lag :: int                    \<comment> \<open>negative when Redis reports nil\<close>
  g_LastDeliveredID :: string

record 'x redis_ops =
  XGroupCreateMkStream :: "string \<Rightarrow> string \<Rightarrow> string \<Rightarrow> 'x \<Rightarrow> (goerr + unit) \<times> 'x"
  XAdd :: "string \<Rightarrow> string \<Rightarrow> 'x \<Rightarrow> (goerr + string) \<times> 'x"
  XReadGroup :: "string \<Rightarrow> string \<Rightarrow> int \<Rightarrow> int \<Rightarrow> 'x \<Rightarrow> (goerr + msg list option) \<times> 'x"
     \<comment> \<open>\<open>None\<close> is \<open>redis.Nil\<close>: nothing within the block time\<close>
  XAck :: "string \<Rightarrow> string \<Rightarrow> 'x \<Rightarrow> (goerr + unit) \<times> 'x"
  XDel :: "string \<Rightarrow> string \<Rightarrow> 'x \<Rightarrow> (goerr + unit) \<times> 'x"
  XAutoClaim :: "string \<Rightarrow> string \<Rightarrow> int \<Rightarrow> int \<Rightarrow> 'x \<Rightarrow> (goerr + msg list) \<times> 'x"
  XInfoGroups :: "string \<Rightarrow> 'x \<Rightarrow> (goerr + group_info list) \<times> 'x"
  XRange :: "string \<Rightarrow> string \<Rightarrow> string \<Rightarrow> 'x \<Rightarrow> (goerr + msg list) \<times> 'x"
  XPending :: "string \<Rightarrow> 'x \<Rightarrow> (goerr + int) \<times> 'x"
  XPendingExt :: "string \<Rightarrow> string \<Rightarrow> string \<Rightarrow> int \<Rightarrow> 'x \<Rightarrow> (goerr + (string \<times> int) list) \<times> 'x"
     \<comment> \<open>entry id and delivery count\<close>
  Incr :: "string \<Rightarrow> 'x \<Rightarrow> (goerr + int) \<times> 'x"
  Expire :: "string \<Rightarrow> int \<Rightarrow> 'x \<Rightarrow> (goerr + unit) \<times> 'x"
  Del :: "string \<Rightarrow> 'x \<Rightarrow> (goerr + unit) \<times> 'x"
  Patience :: nat     \<comment> \<open>pages a scan reads before its context is cancelled\<close>

section \<open>Names\<close>

definition StreamSplit :: string where "StreamSplit = ''doc.split''"
definition StreamParse :: string where "StreamParse = ''doc.parse''"
definition StreamEmbed :: string where "StreamEmbed = ''doc.embed''"

definition AllStreams :: "string list" where
  "AllStreams = [StreamSplit, StreamParse, StreamEmbed]"

definition ConsumerGroup :: string where
  "ConsumerGroup = ''rag-workers''"

definition NewConsumerName :: "string \<Rightarrow> string \<Rightarrow> string" where
  "NewConsumerName prefix randomHex8 = prefix @ ''-'' @ randomHex8"

section \<open>Creating groups\<close>

definition fold_byte :: "char \<Rightarrow> nat" where
  "fold_byte c = (if 97 \<le> byte c \<and> byte c \<le> 122 then byte c - 32 else byte c)"

text \<open>ASCII case-insensitive substring test.\<close>

fun fold_match :: "string \<Rightarrow> string \<Rightarrow> bool" where
  "fold_match s [] = True"
| "fold_match [] (b # sub) = False"
| "fold_match (a # s) (b # sub) = (fold_byte a = fold_byte b \<and> fold_match s sub)"

fun containsFold :: "string \<Rightarrow> string \<Rightarrow> bool" where
  "containsFold [] sub = (sub = [])"
| "containsFold (c # s) sub = (fold_match (c # s) sub \<or> containsFold s sub)"

definition isBusyGroup :: "goerr \<Rightarrow> bool" where
  "isBusyGroup err = containsFold (error_text err) ''BUSYGROUP''"

fun ensure_each :: "'x redis_ops \<Rightarrow> string list \<Rightarrow> ('x, goerr, unit) prog" where
  "ensure_each R [] = ret ()"
| "ensure_each R (name # names) =
     bnd (attempt (XGroupCreateMkStream R name ConsumerGroup ''0'')) (\<lambda>r.
     case r of
       Inl e \<Rightarrow> if \<not> isBusyGroup e then raise e else ensure_each R names
     | Inr _ \<Rightarrow> ensure_each R names)"

definition EnsureStreams :: "'x redis_ops \<Rightarrow> string list \<Rightarrow> ('x, goerr, unit) prog" where
  "EnsureStreams R streams = ensure_each R (if streams = [] then AllStreams else streams)"

section \<open>Producing, reading, acknowledging\<close>

definition XAddJob :: "'x redis_ops \<Rightarrow> string \<Rightarrow> (string \<times> field) list \<Rightarrow> ('x, goerr, string) prog" where
  "XAddJob R stream payload = XAdd R stream (MarshalJob payload)"

text \<open>A call whose error is dropped.\<close>

definition ignore :: "('s, goerr, 'a) prog \<Rightarrow> ('s, goerr, unit) prog" where
  "ignore m = bnd (attempt m) (\<lambda>_. ret ())"

record StreamEntry =
  se_ID :: string
  se_Job :: "payload option"   \<comment> \<open>\<open>None\<close> is the nil map\<close>
  se_RawJob :: string

text \<open>An entry whose job does not parse is acknowledged and deleted.\<close>

fun read_entries :: "'x redis_ops \<Rightarrow> string \<Rightarrow> msg list \<Rightarrow> ('x, goerr, StreamEntry list) prog" where
  "read_entries R stream [] = ret []"
| "read_entries R stream ((eid, raw) # ms) =
     (case unmarshal raw of
        None \<Rightarrow>
          bnd (ignore (XAck R stream eid)) (\<lambda>_.
          bnd (ignore (XDel R stream eid)) (\<lambda>_.
          read_entries R stream ms))
      | Some job \<Rightarrow>
          bnd (read_entries R stream ms) (\<lambda>out.
          ret (\<lparr>se_ID = eid, se_Job = job, se_RawJob = raw\<rparr> # out)))"

definition ReadJobs ::
  "'x redis_ops \<Rightarrow> string \<Rightarrow> string \<Rightarrow> int \<Rightarrow> int \<Rightarrow> ('x, goerr, StreamEntry list) prog" where
  "ReadJobs R stream consumer count blockMs =
     bnd (XReadGroup R stream consumer count blockMs) (\<lambda>groups.
     case groups of None \<Rightarrow> ret [] | Some ms \<Rightarrow> read_entries R stream ms)"

definition Ack :: "'x redis_ops \<Rightarrow> string \<Rightarrow> string \<Rightarrow> ('x, goerr, unit) prog" where
  "Ack R stream entryID =
     bnd (ignore (XAck R stream entryID)) (\<lambda>_. ignore (XDel R stream entryID))"

text \<open>Unlike \<open>ReadJobs\<close>, an entry that does not parse is acknowledged only.\<close>

fun claim_entries :: "'x redis_ops \<Rightarrow> string \<Rightarrow> msg list \<Rightarrow> ('x, goerr, StreamEntry list) prog" where
  "claim_entries R stream [] = ret []"
| "claim_entries R stream ((eid, raw) # ms) =
     (case unmarshal raw of
        None \<Rightarrow> bnd (ignore (XAck R stream eid)) (\<lambda>_. claim_entries R stream ms)
      | Some job \<Rightarrow>
          bnd (claim_entries R stream ms) (\<lambda>out.
          ret (\<lparr>se_ID = eid, se_Job = job, se_RawJob = raw\<rparr> # out)))"

definition ClaimStale ::
  "'x redis_ops \<Rightarrow> string \<Rightarrow> string \<Rightarrow> int \<Rightarrow> int \<Rightarrow> ('x, goerr, StreamEntry list) prog" where
  "ClaimStale R stream consumer minIdleMS count =
     bnd (XAutoClaim R stream consumer minIdleMS count) (claim_entries R stream)"

section \<open>Scans\<close>

definition scanPageKeys :: nat where
  "scanPageKeys = 500"

definition ctx_cancelled :: goerr where
  "ctx_cancelled = Plain ''context canceled''"

text \<open>
  The paged \<open>XRANGE (cursor +\<close> scans.  Both loops read a page, stop on a short one and go
  on after the last id of a full one; they collect the messages read.  A scan that is not
  done within \<open>Patience\<close> pages ends when its context does.
\<close>

fun scan_tail :: "'x redis_ops \<Rightarrow> nat \<Rightarrow> string \<Rightarrow> string \<Rightarrow> ('x, goerr, msg list) prog" where
  "scan_tail R 0 stream start = raise ctx_cancelled"
| "scan_tail R (Suc pages) stream start =
     bnd (XRange R stream start ''+'') (\<lambda>page.
     if length page < scanPageKeys then ret page
     else bnd (scan_tail R pages stream (CHR ''('' # fst (last page))) (\<lambda>rest. ret (page @ rest)))"

definition scanUndeliveredTail :: "'x redis_ops \<Rightarrow> string \<Rightarrow> string \<Rightarrow> ('x, goerr, int) prog" where
  "scanUndeliveredTail R stream lastDeliveredID =
     bnd (scan_tail R (Patience R) stream (CHR ''('' # lastDeliveredID)) (\<lambda>ms. ret (int (length ms)))"

definition find_group :: "group_info list \<Rightarrow> group_info option" where
  "find_group gs = find (\<lambda>g. g_Name g = ConsumerGroup) gs"

definition or_origin :: "string \<Rightarrow> string" where
  "or_origin cursor = (if cursor = [] then ''0-0'' else cursor)"

fun contains :: "string \<Rightarrow> string \<Rightarrow> bool" where
  "contains [] sub = (sub = [])"
| "contains (c # s) sub = (has_prefix (c # s) sub \<or> contains s sub)"

definition UndeliveredCount :: "'x redis_ops \<Rightarrow> string \<Rightarrow> ('x, goerr, int) prog" where
  "UndeliveredCount R stream =
     bnd (attempt (XInfoGroups R stream)) (\<lambda>r.
     case r of
       Inl e \<Rightarrow> if contains (error_text e) ''no such key'' then ret 0 else raise e
     | Inr gs \<Rightarrow>
         (case find_group gs of
            None \<Rightarrow> ret 0
          | Some g \<Rightarrow>
              if 0 \<le> g_Lag g then ret (g_Lag g)
              else scanUndeliveredTail R stream (or_origin (g_LastDeliveredID g))))"

definition QueueDepth :: "'x redis_ops \<Rightarrow> string \<Rightarrow> ('x, goerr, int) prog" where
  "QueueDepth R stream =
     bnd (attempt (XPending R stream)) (\<lambda>r.
     let pcount = (case r of Inl _ \<Rightarrow> 0 | Inr n \<Rightarrow> n)
     in bnd (UndeliveredCount R stream) (\<lambda>undelivered. ret (undelivered + pcount)))"

text \<open>The dedup scan: keys of the undelivered messages and of the pending entries list.\<close>

definition keys_of :: "(payload \<Rightarrow> string option) \<Rightarrow> msg list \<Rightarrow> string list" where
  "keys_of keyOf ms = List.map_filter (\<lambda>(i, raw). payloadKeyOf raw keyOf) ms"

text \<open>An \<open>XRANGE\<close> failure on one pending entry skips that entry.\<close>

fun pel_messages :: "'x redis_ops \<Rightarrow> string \<Rightarrow> (string \<times> int) list \<Rightarrow> ('x, goerr, msg list) prog" where
  "pel_messages R stream [] = ret []"
| "pel_messages R stream ((eid, n) # ps) =
     bnd (attempt (XRange R stream eid eid)) (\<lambda>r.
     bnd (pel_messages R stream ps) (\<lambda>rest.
     ret ((case r of Inl _ \<Rightarrow> [] | Inr ms \<Rightarrow> ms) @ rest)))"

definition PendingJobKeys ::
  "'x redis_ops \<Rightarrow> string \<Rightarrow> (payload \<Rightarrow> string option) \<Rightarrow> ('x, goerr, string list) prog" where
  "PendingJobKeys R stream keyOf =
     bnd (XInfoGroups R stream) (\<lambda>gs.
     case find_group gs of
       None \<Rightarrow> ret []
     | Some g \<Rightarrow>
         bnd (scan_tail R (Patience R) stream (CHR ''('' # or_origin (g_LastDeliveredID g))) (\<lambda>tail.
         bnd (XPendingExt R stream ''-'' ''+'' (int scanPageKeys)) (\<lambda>pel.
         bnd (pel_messages R stream pel) (\<lambda>ms.
         ret (keys_of keyOf tail @ keys_of keyOf ms)))))"

section \<open>Quarantine\<close>

text \<open>The document and shard a raw job names, when it parses.\<close>

definition quarantine_ids :: "(string \<Rightarrow> int) \<Rightarrow> string \<Rightarrow> string option \<times> int option" where
  "quarantine_ids pf rawJob =
     (case unmarshal rawJob of
        Some (Some payload) \<Rightarrow>
          ((case get_str payload ''doc_id'' of Some v \<Rightarrow> if v \<noteq> [] then Some v else None | None \<Rightarrow> None),
           get_num pf payload ''idx'')
      | _ \<Rightarrow> (None, None))"

definition Quarantine ::
  "'x redis_ops \<Rightarrow> (string \<Rightarrow> int) \<Rightarrow> string \<Rightarrow> string \<Rightarrow> string \<Rightarrow> string
   \<Rightarrow> (string option \<Rightarrow> int option \<Rightarrow> payload \<Rightarrow> ('x, goerr, unit) prog) \<Rightarrow> ('x, goerr, unit) prog" where
  "Quarantine R pf stream entryID rawJob lastError writeEvent =
     (let (docID, idx) = quarantine_ids pf rawJob;
          detail = (''detail'', JStr rawJob) # (if lastError \<noteq> [] then [(''last_error'', JStr lastError)] else [])
      in bnd (writeEvent docID idx detail) (\<lambda>_.
         bnd (ignore (XAck R stream entryID)) (\<lambda>_.
         ignore (XDel R stream entryID))))"

end
