(* ===== verification/Store.thy ===== *)
theory Store
  imports World Jobs
begin

text \<open>
  The query layer over the documents, shards and events tables
  (\<open>internal/store/documents.go\<close>, \<open>janitor.go\<close>, \<open>events.go\<close>).  Each SQL statement is the
  function on tables it denotes: \<open>UPDATE ... WHERE\<close> maps over the rows that match,
  \<open>SELECT ... WHERE\<close> filters, \<open>RowsAffected\<close> counts, constraint violations are errors with
  the SQLSTATE Postgres gives them.  \<open>NOW()\<close> and \<open>time.Now()\<close> are the same clock.
\<close>

section \<open>Rows by key\<close>

definition doc_by_id :: "string \<Rightarrow> tables \<Rightarrow> Document option" where
  "doc_by_id docID t = find (\<lambda>d. d_ID d = docID) (documents t)"

definition shard_by_key :: "string \<Rightarrow> int \<Rightarrow> tables \<Rightarrow> Shard option" where
  "shard_by_key docID idx t = find (\<lambda>s. s_DocID s = docID \<and> s_Idx s = idx) (shards t)"

definition update_docs :: "(Document \<Rightarrow> bool) \<Rightarrow> (Document \<Rightarrow> Document) \<Rightarrow> tables \<Rightarrow> tables" where
  "update_docs p f t = t\<lparr>documents := map (\<lambda>d. if p d then f d else d) (documents t)\<rparr>"

definition update_shards :: "(Shard \<Rightarrow> bool) \<Rightarrow> (Shard \<Rightarrow> Shard) \<Rightarrow> tables \<Rightarrow> tables" where
  "update_shards p f t = t\<lparr>shards := map (\<lambda>s. if p s then f s else s) (shards t)\<rparr>"

abbreviation doc_is :: "string \<Rightarrow> Document \<Rightarrow> bool" where
  "doc_is docID \<equiv> (\<lambda>d. d_ID d = docID)"

abbreviation shard_is :: "string \<Rightarrow> int \<Rightarrow> Shard \<Rightarrow> bool" where
  "shard_is docID idx \<equiv> (\<lambda>s. s_DocID s = docID \<and> s_Idx s = idx)"

definition count_shards :: "string \<Rightarrow> ShardState \<Rightarrow> tables \<Rightarrow> int" where
  "count_shards docID st t = int (length (filter (\<lambda>s. s_DocID s = docID \<and> s_State s = st) (shards t)))"

definition terminal_state :: "DocState \<Rightarrow> bool" where
  "terminal_state st \<longleftrightarrow> st \<in> {StateReady, StateFailed, StateArchived, StatePartial}"

section \<open>Documents\<close>

definition GetDocument :: "string \<Rightarrow> ('x world, goerr, Document option) prog" where
  "GetDocument docID = pool_stmt (query (doc_by_id docID))"

definition GetDocumentTx :: "string \<Rightarrow> ('x world, goerr, Document option) prog" where
  "GetDocumentTx docID = tx_stmt (query (doc_by_id docID))"

definition delete_doc_chunks :: "string \<Rightarrow> tables \<Rightarrow> tables" where
  "delete_doc_chunks docID t = t\<lparr>chunks := filter (\<lambda>c. c_DocID c \<noteq> docID) (chunks t)\<rparr>"

definition delete_doc_shards :: "string \<Rightarrow> tables \<Rightarrow> tables" where
  "delete_doc_shards docID t = t\<lparr>shards := filter (\<lambda>s. s_DocID s \<noteq> docID) (shards t)\<rparr>"

definition ResetDocForFullRetry :: "string \<Rightarrow> ('x world, goerr, unit) prog" where
  "ResetDocForFullRetry docID =
     bnd (tx_stmt (exec (\<lambda>now. delete_doc_chunks docID))) (\<lambda>_.
     bnd (tx_stmt (exec (\<lambda>now. delete_doc_shards docID))) (\<lambda>_.
     tx_stmt (exec (\<lambda>now. update_docs (doc_is docID) (\<lambda>d. d\<lparr>
       d_State := StateUploaded, d_TotalShards := None, d_ShardsDone := 0, d_ShardsFailed := 0,
       d_ChunkCount := None, d_Completeness := None, d_ErrorCode := None, d_ErrorDetail := None,
       d_ReadyAt := None, d_UpdatedAt := now\<rparr>)))))"

definition ResetDocForRechunk :: "string \<Rightarrow> ('x world, goerr, unit) prog" where
  "ResetDocForRechunk docID =
     bnd (tx_stmt (exec (\<lambda>now. delete_doc_chunks docID))) (\<lambda>_.
     tx_stmt (exec (\<lambda>now. update_docs (doc_is docID) (\<lambda>d. d\<lparr>
       d_State := StateEmbedding, d_ChunkCount := None, d_Completeness := None,
       d_ErrorCode := None, d_ErrorDetail := None, d_ReadyAt := None, d_UpdatedAt := now\<rparr>))))"

definition FindDuplicate :: "string \<Rightarrow> string \<Rightarrow> ('x world, goerr, Document option) prog" where
  "FindDuplicate collectionID sha =
     pool_stmt (query (\<lambda>t. find (\<lambda>d. d_CollectionID d = Some collectionID \<and> d_ContentSHA256 d = sha) (documents t)))"

definition set_doc_state ::
  "string \<Rightarrow> DocState \<Rightarrow> string option \<Rightarrow> string option \<Rightarrow> int \<Rightarrow> tables \<Rightarrow> tables" where
  "set_doc_state docID st code detail now =
     update_docs (doc_is docID)
       (\<lambda>d. d\<lparr>d_State := st, d_ErrorCode := code, d_ErrorDetail := detail, d_UpdatedAt := now\<rparr>)"

definition SetDocState ::
  "string \<Rightarrow> DocState \<Rightarrow> string option \<Rightarrow> string option \<Rightarrow> ('x world, goerr, unit) prog" where
  "SetDocState docID st code detail = tx_stmt (exec (set_doc_state docID st code detail))"

definition SetDocStatePool ::
  "string \<Rightarrow> DocState \<Rightarrow> string option \<Rightarrow> string option \<Rightarrow> ('x world, goerr, unit) prog" where
  "SetDocStatePool docID st code detail = pool_stmt (exec (set_doc_state docID st code detail))"

text \<open>
  \<open>INSERT INTO documents\<close>: the primary key, \<open>uq_doc_content\<close> (null collections never
  collide) and the collection it names.  The columns it does not list take their defaults.
\<close>

definition InsertDocument :: "Document \<Rightarrow> ('x world, goerr, unit) prog" where
  "InsertDocument doc = pool_stmt (\<lambda>now t.
     if \<exists>d \<in> set (documents t). d_ID d = d_ID doc
     then (Inl (PgError ''23505'' ''documents_pkey''), t)
     else if \<exists>d \<in> set (documents t). d_CollectionID d \<noteq> None
               \<and> d_CollectionID d = d_CollectionID doc \<and> d_ContentSHA256 d = d_ContentSHA256 doc
     then (Inl (PgError ''23505'' ''uq_doc_content''), t)
     else if (case d_CollectionID doc of None \<Rightarrow> False | Some cid \<Rightarrow> \<forall>c \<in> set (collections t). k_ID c \<noteq> cid)
     then (Inl (PgError ''23503'' ''documents_collection_id_fkey''), t)
     else (Inr (), t\<lparr>documents := documents t @
       [doc\<lparr>d_Filename := None, d_PageCount := None, d_ErrorCode := None, d_ErrorDetail := None,
            d_TotalShards := None, d_ShardsDone := 0, d_ShardsFailed := 0, d_ChunkCount := None,
            d_Completeness := None, d_CreatedAt := now, d_UpdatedAt := now, d_ReadyAt := None\<rparr>]\<rparr>))"

definition delete_docs :: "(string \<Rightarrow> bool) \<Rightarrow> tables \<Rightarrow> tables" where
  "delete_docs p t = t\<lparr>documents := filter (\<lambda>d. \<not> p (d_ID d)) (documents t),
     shards := filter (\<lambda>s. \<not> p (s_DocID s)) (shards t),
     chunks := filter (\<lambda>c. \<not> p (c_DocID c)) (chunks t)\<rparr>"

definition DeleteDocument :: "string \<Rightarrow> ('x world, goerr, unit) prog" where
  "DeleteDocument docID = pool_stmt (exec (\<lambda>now. delete_docs (\<lambda>i. i = docID)))"

definition DeleteDocumentsBatch :: "string list \<Rightarrow> ('x world, goerr, int) prog" where
  "DeleteDocumentsBatch ids =
     (if ids = [] then ret 0
      else pool_stmt (\<lambda>now t.
        (Inr (int (length (filter (\<lambda>d. d_ID d \<in> set ids) (documents t)))), delete_docs (\<lambda>i. i \<in> set ids) t)))"

definition CountDocChunks :: "string \<Rightarrow> ('x world, goerr, int) prog" where
  "CountDocChunks docID =
     pool_stmt (query (\<lambda>t. int (length (filter (\<lambda>c. c_DocID c = docID) (chunks t)))))"

definition UpdateEmbedding :: "string \<Rightarrow> vector \<Rightarrow> ('x world, goerr, unit) prog" where
  "UpdateEmbedding chunkID vec = pool_stmt (exec (\<lambda>now t. t\<lparr>chunks :=
     map (\<lambda>c. if c_ID c = chunkID then c\<lparr>c_Embedding := Some vec, c_EmbeddedAt := Some now\<rparr> else c) (chunks t)\<rparr>))"

section \<open>Shards\<close>

definition GetShard :: "string \<Rightarrow> int \<Rightarrow> ('x world, goerr, Shard option) prog" where
  "GetShard docID idx = pool_stmt (query (shard_by_key docID idx))"

definition GetShards :: "string \<Rightarrow> ('x world, goerr, Shard list) prog" where
  "GetShards docID =
     pool_stmt (query (\<lambda>t. sort_key s_Idx (filter (\<lambda>s. s_DocID s = docID) (shards t))))"

text \<open>\<open>max(idx)\<close> is NULL on no rows.\<close>

definition next_shard_idx :: "string \<Rightarrow> tables \<Rightarrow> int" where
  "next_shard_idx docID t =
     (let idxs = map s_Idx (filter (\<lambda>s. s_DocID s = docID) (shards t))
      in if idxs = [] then 0 else Max (set idxs) + 1)"

definition NextShardIdx :: "string \<Rightarrow> ('x world, goerr, int) prog" where
  "NextShardIdx docID = tx_stmt (query (next_shard_idx docID))"

text \<open>The row \<open>INSERT INTO shards (doc_id, idx, page_start, page_end)\<close> makes, defaults included.\<close>

definition new_shard :: "string \<Rightarrow> int \<Rightarrow> int \<Rightarrow> int \<Rightarrow> int \<Rightarrow> Shard" where
  "new_shard docID idx a b now =
     \<lparr>s_DocID = docID, s_Idx = idx, s_PageStart = a, s_PageEnd = b, s_State = ShardPending,
      s_Attempts = 0, s_NeedsOCR = False, s_MeanCharsPerPage = None, s_ParsedURI = None,
      s_WorkerID = None, s_LeaseUntil = None, s_DurationMS = None, s_PeakRSSMB = None,
      s_DoneAt = None, s_ErrorCode = None, s_ErrorDetail = None, s_CreatedAt = now\<rparr>"

definition insert_shard :: "string \<Rightarrow> int \<Rightarrow> int \<times> int \<Rightarrow> unit stmt" where
  "insert_shard docID idx b now t =
     (if \<exists>s \<in> set (shards t). s_DocID s = docID \<and> s_Idx s = idx
      then (Inl (PgError ''23505'' ''shards_pkey''), t)
      else if \<not> (\<exists>d \<in> set (documents t). d_ID d = docID)
      then (Inl (PgError ''23503'' ''shards_doc_id_fkey''), t)
      else (Inr (), t\<lparr>shards := shards t @ [new_shard docID idx (fst b) (snd b) now]\<rparr>))"

fun insert_shards_from :: "string \<Rightarrow> (int \<times> int) list \<Rightarrow> int \<Rightarrow> ('x world, goerr, unit) prog" where
  "insert_shards_from docID [] idx = ret ()"
| "insert_shards_from docID (b # bs) idx =
     bnd (tx_stmt (insert_shard docID idx b)) (\<lambda>_. insert_shards_from docID bs (idx + 1))"

definition InsertShards :: "string \<Rightarrow> (int \<times> int) list \<Rightarrow> int \<Rightarrow> ('x world, goerr, int) prog" where
  "InsertShards docID bounds startIdx =
     bnd (insert_shards_from docID bounds startIdx) (\<lambda>_. ret (int (length bounds)))"

definition shard_not_found :: "string \<Rightarrow> int \<Rightarrow> goerr" where
  "shard_not_found docID idx = Plain (''shard '' @ docID @ ''/'' @ itoa idx @ '' not found'')"

definition SkipShard :: "string \<Rightarrow> int \<Rightarrow> ('x world, goerr, unit) prog" where
  "SkipShard docID idx =
     bnd (tx_stmt (\<lambda>now t.
        (Inr (length (filter (shard_is docID idx) (shards t))),
         update_shards (shard_is docID idx) (\<lambda>s. s\<lparr>s_State := ShardSkipped\<rparr>) t))) (\<lambda>affected.
     if affected = 0 then raise (shard_not_found docID idx) else ret ())"

definition second :: int where
  "second = 1000000000"

definition claimable :: "string \<Rightarrow> int \<Rightarrow> Shard \<Rightarrow> bool" where
  "claimable docID idx s \<longleftrightarrow>
     s_DocID s = docID \<and> s_Idx s = idx \<and> s_State s \<in> {ShardPending, ShardFailed}"

definition claim_row :: "string \<Rightarrow> int \<Rightarrow> Shard \<Rightarrow> Shard" where
  "claim_row workerID leaseUntil s =
     s\<lparr>s_State := ShardRunning, s_Attempts := s_Attempts s + 1, s_WorkerID := Some workerID,
       s_LeaseUntil := Some leaseUntil\<rparr>"

text \<open>\<open>UPDATE ... RETURNING\<close> with the first row, \<open>None\<close> when no row matched.\<close>

definition ClaimShard :: "string \<Rightarrow> int \<Rightarrow> string \<Rightarrow> int \<Rightarrow> ('x world, goerr, Shard option) prog" where
  "ClaimShard docID idx workerID leaseSeconds =
     tx_stmt (\<lambda>now t.
       let claim = claim_row workerID (now + leaseSeconds * second);
           rows = map claim (filter (claimable docID idx) (shards t))
       in (Inr (case rows of [] \<Rightarrow> None | s # _ \<Rightarrow> Some s),
           update_shards (claimable docID idx) claim t))"

definition bump_done :: "string \<Rightarrow> int \<Rightarrow> tables \<Rightarrow> tables" where
  "bump_done docID now =
     update_docs (doc_is docID) (\<lambda>d. d\<lparr>d_ShardsDone := d_ShardsDone d + 1, d_UpdatedAt := now\<rparr>)"

definition done_row :: "int \<Rightarrow> int \<Rightarrow> int \<Rightarrow> string \<Rightarrow> bool \<Rightarrow> rat option \<Rightarrow> Shard \<Rightarrow> Shard" where
  "done_row now durationMS peakRSSMB parsedURI needsOCR meanChars s =
     s\<lparr>s_State := ShardDone, s_DoneAt := Some now, s_NeedsOCR := needsOCR,
       s_DurationMS := Some durationMS, s_PeakRSSMB := Some peakRSSMB, s_ParsedURI := Some parsedURI,
       s_LeaseUntil := None, s_MeanCharsPerPage := meanChars, s_ErrorCode := None,
       s_ErrorDetail := None\<rparr>"

definition MarkShardDone ::
  "string \<Rightarrow> int \<Rightarrow> int \<Rightarrow> int \<Rightarrow> string \<Rightarrow> bool \<Rightarrow> rat option \<Rightarrow> ('x world, goerr, unit) prog" where
  "MarkShardDone docID idx durationMS peakRSSMB parsedURI needsOCR meanChars =
     bnd (tx_stmt (exec (\<lambda>now. update_shards (shard_is docID idx)
            (done_row now durationMS peakRSSMB parsedURI needsOCR meanChars)))) (\<lambda>_.
     tx_stmt (exec (bump_done docID)))"

definition MarkShardFailed :: "string \<Rightarrow> int \<Rightarrow> string \<Rightarrow> string \<Rightarrow> ('x world, goerr, unit) prog" where
  "MarkShardFailed docID idx code detail =
     bnd (tx_stmt (exec (\<lambda>now. update_shards (shard_is docID idx)
            (\<lambda>s. s\<lparr>s_State := ShardFailed, s_ErrorCode := Some code, s_ErrorDetail := Some detail,
                  s_LeaseUntil := None\<rparr>)))) (\<lambda>_.
     tx_stmt (exec (\<lambda>now. update_docs (doc_is docID)
            (\<lambda>d. d\<lparr>d_ShardsFailed := d_ShardsFailed d + 1, d_UpdatedAt := now\<rparr>))))"

definition BookSettled :: "Document \<Rightarrow> bool" where
  "BookSettled doc \<longleftrightarrow>
     (let total = (case d_TotalShards doc of Some n \<Rightarrow> n | None \<Rightarrow> 0)
      in 0 < total \<and> total \<le> d_ShardsDone doc + d_ShardsFailed doc)"

text \<open>\<open>lease_until < NOW()\<close> is not true of a NULL lease.\<close>

definition expired :: "int \<Rightarrow> Shard \<Rightarrow> bool" where
  "expired now s \<longleftrightarrow>
     s_State s = ShardRunning \<and> (case s_LeaseUntil s of Some l \<Rightarrow> l < now | None \<Rightarrow> False)"

definition reap_row :: "Shard \<Rightarrow> Shard" where
  "reap_row s = s\<lparr>s_State := ShardPending, s_WorkerID := None, s_LeaseUntil := None\<rparr>"

definition RequeueExpiredLeases :: "('x world, goerr, int) prog" where
  "RequeueExpiredLeases = pool_stmt (\<lambda>now t.
     (Inr (int (length (filter (expired now) (shards t)))),
      update_shards (expired now) reap_row t))"

end
