(* ===== verification/StoreSweeps.thy ===== *)
theory StoreSweeps
  imports Store
begin

text \<open>
  The events writer (\<open>internal/store/events.go\<close>) and the queries behind the janitor, the
  retry scopes and the embedder's finalisation (\<open>internal/store/janitor.go\<close>).
\<close>

section \<open>Events\<close>

text \<open>A nil context is written as the empty object.\<close>

definition new_event ::
  "string \<Rightarrow> string \<Rightarrow> string \<Rightarrow> string option \<Rightarrow> int option \<Rightarrow> string option \<Rightarrow> string option \<Rightarrow> payload
   \<Rightarrow> int \<Rightarrow> Event" where
  "new_event level stage message docID idx code workerID context now =
     \<lparr>e_DocID = docID, e_ShardIdx = idx, e_Level = level, e_Stage = stage, e_Code = code,
      e_Message = message, e_Context = context, e_WorkerID = workerID, e_CreatedAt = now\<rparr>"

definition insert_event ::
  "string \<Rightarrow> string \<Rightarrow> string \<Rightarrow> string option \<Rightarrow> int option \<Rightarrow> string option \<Rightarrow> string option \<Rightarrow> payload
   \<Rightarrow> int \<Rightarrow> tables \<Rightarrow> tables" where
  "insert_event level stage message docID idx code workerID context now t =
     t\<lparr>events := events t @ [new_event level stage message docID idx code workerID context now]\<rparr>"

definition WriteEvent ::
  "string \<Rightarrow> string \<Rightarrow> string \<Rightarrow> string option \<Rightarrow> int option \<Rightarrow> string option \<Rightarrow> string option \<Rightarrow> payload
   \<Rightarrow> ('x world, goerr, unit) prog" where
  "WriteEvent level stage message docID idx code workerID context =
     tx_stmt (exec (insert_event level stage message docID idx code workerID context))"

definition WriteEventPool ::
  "string \<Rightarrow> string \<Rightarrow> string \<Rightarrow> string option \<Rightarrow> int option \<Rightarrow> string option \<Rightarrow> string option \<Rightarrow> payload
   \<Rightarrow> ('x world, goerr, unit) prog" where
  "WriteEventPool level stage message docID idx code workerID context =
     Tx (WriteEvent level stage message docID idx code workerID context)"

section \<open>Escalation\<close>

record EscalatedShard =
  es_DocID :: string
  es_Idx :: int
  es_Attempts :: int

definition stuck :: "int \<Rightarrow> Shard \<Rightarrow> bool" where
  "stuck maxAttempts s \<longleftrightarrow> s_State s = ShardPending \<and> maxAttempts \<le> s_Attempts s"

definition escalate_row :: "int \<Rightarrow> Shard \<Rightarrow> Shard" where
  "escalate_row now s =
     s\<lparr>s_State := ShardFailed, s_DoneAt := Some now, s_ErrorCode := Some ''SHARD_TIMEOUT'',
       s_ErrorDetail := Some (''escalated after '' @ itoa (s_Attempts s) @ '' attempts'')\<rparr>"

definition escalated_of :: "Shard \<Rightarrow> EscalatedShard" where
  "escalated_of s = \<lparr>es_DocID = s_DocID s, es_Idx = s_Idx s, es_Attempts = s_Attempts s\<rparr>"

text \<open>The \<open>deltas\<close> map: how many shards of each document were escalated.\<close>

definition shard_deltas :: "EscalatedShard list \<Rightarrow> (string \<times> int) list" where
  "shard_deltas es =
     map (\<lambda>d. (d, int (length (filter (\<lambda>e. es_DocID e = d) es)))) (remdups (map es_DocID es))"

text \<open>\<open>bumpShardsFailedSQL\<close> joins the documents with the deltas; no statement when there are none.\<close>

definition bump_failed :: "(string \<times> int) list \<Rightarrow> int \<Rightarrow> tables \<Rightarrow> tables" where
  "bump_failed deltas now =
     update_docs (\<lambda>d. map_of deltas (d_ID d) \<noteq> None)
       (\<lambda>d. d\<lparr>d_ShardsFailed := d_ShardsFailed d + the (map_of deltas (d_ID d)), d_UpdatedAt := now\<rparr>)"

definition BumpShardsFailed :: "(string \<times> int) list \<Rightarrow> ('x world, goerr, unit) prog" where
  "BumpShardsFailed deltas =
     (if deltas = [] then ret () else tx_stmt (exec (bump_failed deltas)))"

definition EscalateStuckShards :: "int \<Rightarrow> ('x world, goerr, EscalatedShard list) prog" where
  "EscalateStuckShards maxAttempts =
     bnd (tx_stmt (\<lambda>now t. (Inr (map escalated_of (filter (stuck maxAttempts) (shards t))),
                            update_shards (stuck maxAttempts) (escalate_row now) t))) (\<lambda>out.
     bnd (BumpShardsFailed (shard_deltas out)) (\<lambda>_. ret out))"

section \<open>Sweep inputs\<close>

definition NonTerminalDocs :: "('x world, goerr, Document list) prog" where
  "NonTerminalDocs =
     pool_stmt (query (\<lambda>t. filter (\<lambda>d. \<not> terminal_state (d_State d)) (documents t)))"

record StalePendingShard =
  st_DocID :: string
  st_Idx :: int
  st_PageStart :: int
  st_PageEnd :: int
  st_SourceURI :: string

text \<open>The join on the document's key gives at most one row per shard; ordered by document and index.\<close>

definition never_attempted :: "int \<Rightarrow> tables \<Rightarrow> StalePendingShard list" where
  "never_attempted olderThan t =
     concat (map (\<lambda>s.
       if s_State s = ShardPending \<and> s_Attempts s = 0
       then (case doc_by_id (s_DocID s) t of
               Some d \<Rightarrow>
                 if \<not> terminal_state (d_State d) \<and> d_UpdatedAt d < olderThan
                 then [\<lparr>st_DocID = s_DocID s, st_Idx = s_Idx s, st_PageStart = s_PageStart s,
                        st_PageEnd = s_PageEnd s, st_SourceURI = d_SourceURI d\<rparr>]
                 else []
             | None \<Rightarrow> [])
       else []) (shards t))"

text \<open>The order of the text type is the parameter \<open>ord\<close>: a sort of the rows by the collation.\<close>

definition NeverAttemptedShards ::
  "(StalePendingShard list \<Rightarrow> StalePendingShard list) \<Rightarrow> int \<Rightarrow> ('x world, goerr, StalePendingShard list) prog" where
  "NeverAttemptedShards ord olderThan = pool_stmt (query (\<lambda>t. ord (never_attempted olderThan t)))"

definition SettledParsingDocs :: "('x world, goerr, Document list) prog" where
  "SettledParsingDocs = pool_stmt (query (\<lambda>t. filter (\<lambda>d. d_State d = StateParsing
     \<and> (case d_TotalShards d of None \<Rightarrow> False | Some n \<Rightarrow> n \<le> d_ShardsDone d + d_ShardsFailed d)) (documents t)))"

definition StuckDocs :: "int \<Rightarrow> ('x world, goerr, Document list) prog" where
  "StuckDocs cutoff = pool_stmt (query (\<lambda>t.
     filter (\<lambda>d. \<not> terminal_state (d_State d) \<and> d_UpdatedAt d < cutoff) (documents t)))"

definition SettledShards :: "string \<Rightarrow> ('x world, goerr, Shard list) prog" where
  "SettledShards docID = pool_stmt (query (\<lambda>t.
     sort_key s_PageStart (filter (\<lambda>s. s_DocID s = docID \<and> s_State s = ShardDone) (shards t))))"

definition FailedShards :: "string \<Rightarrow> ('x world, goerr, Shard list) prog" where
  "FailedShards docID = pool_stmt (query (\<lambda>t.
     sort_key s_Idx (filter (\<lambda>s. s_DocID s = docID \<and> s_State s = ShardFailed) (shards t))))"

definition failed_of :: "string \<Rightarrow> Shard \<Rightarrow> bool" where
  "failed_of docID s \<longleftrightarrow> s_DocID s = docID \<and> s_State s = ShardFailed"

definition requeue_row :: "Shard \<Rightarrow> Shard" where
  "requeue_row s = s\<lparr>s_State := ShardPending, s_ErrorCode := None, s_ErrorDetail := None\<rparr>"

definition RequeueFailedShards :: "string \<Rightarrow> ('x world, goerr, int) prog" where
  "RequeueFailedShards docID =
     bnd (tx_stmt (\<lambda>now t. (Inr (int (length (filter (failed_of docID) (shards t)))),
            update_shards (failed_of docID) requeue_row t))) (\<lambda>n.
     bnd (if n > 0
          then tx_stmt (exec (\<lambda>now. update_docs (doc_is docID)
                 (\<lambda>d. d\<lparr>d_ShardsFailed := d_ShardsFailed d - n, d_UpdatedAt := now\<rparr>)))
          else ret ()) (\<lambda>_. ret n))"

section \<open>Finalisation and repair\<close>

text \<open>
  \<open>round(LEAST(1, GREATEST(0, (total - failed)::numeric / total)), 4)\<close> in ten-thousandths;
  \<open>NUMERIC\<close> rounds half away from zero.
\<close>

definition completeness_of :: "int option \<Rightarrow> int \<Rightarrow> int option" where
  "completeness_of tot failed =
     (case tot of
        None \<Rightarrow> None
      | Some n \<Rightarrow>
          if n = 0 then None
          else let (num, den) = (if n > 0 then (n - failed, n) else (failed - n, - n));
                   c = min den (max 0 num)
               in Some ((20000 * c + den) div (2 * den)))"

definition SetChunkCountAndCompleteness :: "string \<Rightarrow> int \<Rightarrow> ('x world, goerr, unit) prog" where
  "SetChunkCountAndCompleteness docID chunkCount =
     bnd (tx_stmt (exec (\<lambda>now. update_docs (doc_is docID) (\<lambda>d. d\<lparr>d_ChunkCount := Some chunkCount,
            d_Completeness := completeness_of (d_TotalShards d) (d_ShardsFailed d)\<rparr>)))) (\<lambda>_.
     tx_stmt (exec (\<lambda>now. update_docs (doc_is docID) (\<lambda>d. d\<lparr>
            d_State := (if d_ShardsFailed d > 0 then StatePartial else StateReady),
            d_ReadyAt := Some now, d_UpdatedAt := now\<rparr>))))"

definition drifted :: "tables \<Rightarrow> Document \<Rightarrow> bool" where
  "drifted t d \<longleftrightarrow>
     d_ShardsDone d \<noteq> count_shards (d_ID d) ShardDone t
     \<or> d_ShardsFailed d \<noteq> count_shards (d_ID d) ShardFailed t"

definition DriftedDocs :: "nat \<Rightarrow> ('x world, goerr, string list) prog" where
  "DriftedDocs limit = pool_stmt (query (\<lambda>t.
     map d_ID (take limit (sort_key d_CreatedAt (filter (drifted t) (documents t))))))"

definition RepairDocCounters :: "string \<Rightarrow> ('x world, goerr, int \<times> int) prog" where
  "RepairDocCounters docID =
     bnd (tx_stmt (query (\<lambda>t. (count_shards docID ShardDone t, count_shards docID ShardFailed t)))) (\<lambda>(n_done, failed).
     bnd (tx_stmt (exec (\<lambda>now. update_docs (doc_is docID)
            (\<lambda>d. d\<lparr>d_ShardsDone := n_done, d_ShardsFailed := failed, d_UpdatedAt := now\<rparr>)))) (\<lambda>_.
     bnd (tx_stmt (query (\<lambda>t. int (length (filter (\<lambda>c. c_DocID c = docID \<and> \<not> c_IsParent c) (chunks t)))))) (\<lambda>chunkCount.
     if chunkCount = 0 then ret (n_done, failed)
     else bnd (SetChunkCountAndCompleteness docID chunkCount) (\<lambda>_. ret (n_done, failed)))))"

section \<open>Dashboards\<close>

record MetricsSnapshotRow =
  ms_DocsReady :: int
  ms_DocsParsing :: int
  ms_DocsFailed :: int
  ms_DocsTotal :: int
  ms_DocsAwaitingEmbed :: int
  ms_DocsParsingActive :: int
  ms_ShardsDone :: int
  ms_ShardsPending :: int
  ms_ShardsFailed :: int
  ms_ShardsRunning :: int
  ms_ShardsTotal :: int
  ms_States :: "(string \<times> int) list"

definition count_docs :: "(Document \<Rightarrow> bool) \<Rightarrow> tables \<Rightarrow> int" where
  "count_docs p t = int (length (filter p (documents t)))"

definition count_by_state :: "ShardState \<Rightarrow> tables \<Rightarrow> int" where
  "count_by_state st t = int (length (filter (\<lambda>s. s_State s = st) (shards t)))"

definition reaches_total :: "Document \<Rightarrow> bool" where
  "reaches_total d \<longleftrightarrow> (case d_TotalShards d of None \<Rightarrow> False | Some n \<Rightarrow> n \<le> d_ShardsDone d)"

text \<open>Four statements on the pool, so four snapshots of the tables.\<close>

definition MetricsSnapshot :: "('x world, goerr, MetricsSnapshotRow) prog" where
  "MetricsSnapshot =
     bnd (pool_stmt (query (\<lambda>t. (count_docs (\<lambda>d. d_State d = StateReady) t,
        count_docs (\<lambda>d. d_State d = StateParsing) t, count_docs (\<lambda>d. d_State d = StateFailed) t,
        count_docs (\<lambda>d. True) t)))) (\<lambda>(ready, parsing, failed, tot).
     bnd (pool_stmt (query (\<lambda>t. (count_docs (\<lambda>d. d_State d = StateParsing \<and> reaches_total d) t,
        count_docs (\<lambda>d. d_State d = StateParsing \<and> \<not> reaches_total d) t)))) (\<lambda>(awaiting, active).
     bnd (pool_stmt (query (\<lambda>t. (count_by_state ShardDone t, count_by_state ShardPending t,
        count_by_state ShardFailed t, count_by_state ShardRunning t, int (length (shards t)))))) (\<lambda>(sd, sp, sf, sr, stot).
     bnd (pool_stmt (query (\<lambda>t. map (\<lambda>st. (doc_state_text st, count_docs (\<lambda>d. d_State d = st) t))
        (remdups (map d_State (documents t)))))) (\<lambda>states.
     ret \<lparr>ms_DocsReady = ready, ms_DocsParsing = parsing, ms_DocsFailed = failed, ms_DocsTotal = tot,
       ms_DocsAwaitingEmbed = awaiting, ms_DocsParsingActive = active, ms_ShardsDone = sd,
       ms_ShardsPending = sp, ms_ShardsFailed = sf, ms_ShardsRunning = sr, ms_ShardsTotal = stot,
       ms_States = states\<rparr>))))"

record ShardRollupRow =
  rr_PageStart :: int
  rr_PageEnd :: int
  rr_DurationMS :: int
  rr_PeakRSSMB :: int
  rr_State :: ShardState

definition or_zero :: "int option \<Rightarrow> int" where
  "or_zero v = (case v of Some n \<Rightarrow> n | None \<Rightarrow> 0)"

definition done_between :: "int \<Rightarrow> int \<Rightarrow> Shard \<Rightarrow> bool" where
  "done_between a b s \<longleftrightarrow> (case s_DoneAt s of Some v \<Rightarrow> a \<le> v \<and> v < b | None \<Rightarrow> False)"

definition ShardsDoneBetween :: "int \<Rightarrow> int \<Rightarrow> ('x world, goerr, ShardRollupRow list) prog" where
  "ShardsDoneBetween a b = pool_stmt (query (\<lambda>t.
     map (\<lambda>s. \<lparr>rr_PageStart = s_PageStart s, rr_PageEnd = s_PageEnd s,
               rr_DurationMS = or_zero (s_DurationMS s), rr_PeakRSSMB = or_zero (s_PeakRSSMB s),
               rr_State = s_State s\<rparr>) (filter (done_between a b) (shards t))))"

definition EmbeddedChunksSince :: "int \<Rightarrow> int \<Rightarrow> ('x world, goerr, int) prog" where
  "EmbeddedChunksSince a b = pool_stmt (query (\<lambda>t. int (length (filter (\<lambda>c.
     case c_EmbeddedAt c of Some v \<Rightarrow> a \<le> v \<and> v < b | None \<Rightarrow> False) (chunks t)))))"

text \<open>On the pool even when called inside a transaction; idempotent on the bucket.\<close>

definition UpsertMetricsRollup :: "MetricsRollup \<Rightarrow> ('x world, goerr, unit) prog" where
  "UpsertMetricsRollup row =
     bnd next_fault (\<lambda>_. modify (\<lambda>w. w\<lparr>rollups :=
       (if \<exists>r \<in> set (rollups w). m_Bucket r = m_Bucket row
        then map (\<lambda>r. if m_Bucket r = m_Bucket row then row else r) (rollups w)
        else rollups w @ [row])\<rparr>))"

end
