(* ===== verification/Counters.thy ===== *)
theory Counters
  imports StoreSweeps
begin

text \<open>
  The counters a document keeps about its shards (\<open>shards_done\<close>, \<open>shards_failed\<close>) against
  the shards table: which operations of the store keep them exact, what makes them drift,
  and what repairs them.  Exactness is the negation of what \<open>DriftedDocs\<close> looks for.
\<close>

section \<open>Well-formed tables\<close>

text \<open>The primary keys and the foreign key of the schema.\<close>

definition keys_ok :: "tables \<Rightarrow> bool" where
  "keys_ok t \<longleftrightarrow>
     distinct (map d_ID (documents t)) \<and> distinct (map (\<lambda>s. (s_DocID s, s_Idx s)) (shards t))
     \<and> (\<forall>s \<in> set (shards t). \<exists>d \<in> set (documents t). d_ID d = s_DocID s)"

definition exact :: "tables \<Rightarrow> bool" where
  "exact t \<longleftrightarrow> (\<forall>d \<in> set (documents t). \<not> drifted t d)"

definition all_shards :: "string \<Rightarrow> tables \<Rightarrow> int" where
  "all_shards docID t = int (length (filter (\<lambda>s. s_DocID s = docID) (shards t)))"

section \<open>Counting after an update\<close>

lemma update_docs_sel [simp]:
  "shards (update_docs p f t) = shards t" "chunks (update_docs p f t) = chunks t"
  "events (update_docs p f t) = events t"
  "documents (update_docs p f t) = map (\<lambda>d. if p d then f d else d) (documents t)"
  by (simp_all add: update_docs_def)

lemma update_shards_sel [simp]:
  "documents (update_shards p f t) = documents t" "chunks (update_shards p f t) = chunks t"
  "events (update_shards p f t) = events t"
  "shards (update_shards p f t) = map (\<lambda>s. if p s then f s else s) (shards t)"
  by (simp_all add: update_shards_def)

lemma count_update_docs [simp]: "count_shards d st (update_docs p f t) = count_shards d st t"
  by (simp add: count_shards_def)

lemma count_update_shards:
  assumes "\<And>s. s_DocID (f s) = s_DocID s" "\<And>s. s_State (f s) = st'"
  shows "count_shards d st (update_shards p f t) = count_shards d st t
    - int (length (filter (\<lambda>s. s_DocID s = d \<and> s_State s = st \<and> p s) (shards t)))
    + (if st = st' then int (length (filter (\<lambda>s. s_DocID s = d \<and> p s) (shards t))) else 0)"
proof -
  have "int (length (filter (\<lambda>s. s_DocID s = d \<and> s_State s = st) (map (\<lambda>s. if p s then f s else s) ss)))
    = int (length (filter (\<lambda>s. s_DocID s = d \<and> s_State s = st) ss))
    - int (length (filter (\<lambda>s. s_DocID s = d \<and> s_State s = st \<and> p s) ss))
    + (if st = st' then int (length (filter (\<lambda>s. s_DocID s = d \<and> p s) ss)) else 0)" for ss
  proof (induction ss)
    case (Cons s ss)
    show ?case
      using Cons.IH assms[of s] by (cases "p s"; cases "s_DocID s = d"; cases "s_State s = st"; cases "st = st'")
        (simp_all del: filter_map)
  qed simp
  then show ?thesis by (simp add: count_shards_def)
qed

text \<open>A key selects at most one row.\<close>

lemma filter_key:
  assumes "distinct (map k xs)" "find (\<lambda>x. k x = key) xs = Some y"
  shows "filter (\<lambda>x. k x = key) xs = [y]"
  using assms
proof (induction xs)
  case (Cons x xs)
  show ?case
  proof (cases "k x = key")
    case True
    then have "key \<notin> set (map k xs)" using Cons.prems(1) by auto
    then have "filter (\<lambda>x. k x = key) xs = []" by (auto simp: filter_empty_conv)
    then show ?thesis using True Cons.prems(2) by simp
  qed (use Cons in simp)
qed simp

lemma shard_filter:
  assumes "keys_ok t" "shard_by_key docID idx t = Some s"
  shows "filter (shard_is docID idx) (shards t) = [s]"
  using filter_key[of "\<lambda>s. (s_DocID s, s_Idx s)" "shards t" "(docID, idx)" s] assms
  by (simp add: keys_ok_def shard_by_key_def)

lemma shard_key_eq:
  "shard_by_key docID idx t = Some s \<Longrightarrow> s_DocID s = docID \<and> s_Idx s = idx \<and> s \<in> set (shards t)"
  by (auto simp: shard_by_key_def find_Some_iff)

text \<open>Filters below a key: a further condition keeps the row or not.\<close>

lemma shard_filter_and:
  assumes "keys_ok t" "shard_by_key docID idx t = Some s"
  shows "filter (\<lambda>x. s_DocID x = d \<and> s_State x = st \<and> shard_is docID idx x) (shards t)
      = (if d = docID \<and> s_State s = st then [s] else [])"
    and "filter (\<lambda>x. s_DocID x = d \<and> shard_is docID idx x) (shards t) = (if d = docID then [s] else [])"
proof -
  have "filter Q (filter (shard_is docID idx) (shards t)) = filter Q [s]" for Q
    using shard_filter[OF assms] by simp
  from this[of "\<lambda>x. s_DocID x = d \<and> s_State x = st"] this[of "\<lambda>x. s_DocID x = d"] shard_key_eq[OF assms(2)]
  show "filter (\<lambda>x. s_DocID x = d \<and> s_State x = st \<and> shard_is docID idx x) (shards t)
      = (if d = docID \<and> s_State s = st then [s] else [])"
    and "filter (\<lambda>x. s_DocID x = d \<and> shard_is docID idx x) (shards t) = (if d = docID then [s] else [])"
    by (auto simp: conj_ac)
qed

text \<open>Moving one shard to a state.\<close>

lemma count_move:
  assumes "keys_ok t" "shard_by_key docID idx t = Some s"
    and "\<And>s. s_DocID (f s) = s_DocID s" "\<And>s. s_State (f s) = st'"
  shows "count_shards d st (update_shards (shard_is docID idx) f t) = count_shards d st t
    - (if d = docID \<and> s_State s = st then 1 else 0) + (if d = docID \<and> st' = st then 1 else 0)"
  using count_update_shards[of f st' d st "shard_is docID idx" t] assms(3,4) shard_filter_and[OF assms(1,2)]
    shard_filter[OF assms(1,2)]
  by auto

section \<open>Exactness\<close>

lemma exact_def2:
  "exact t \<longleftrightarrow> (\<forall>d \<in> set (documents t). d_ShardsDone d = count_shards (d_ID d) ShardDone t
     \<and> d_ShardsFailed d = count_shards (d_ID d) ShardFailed t)"
  by (auto simp: exact_def drifted_def)

lemma exact_after:
  assumes "exact t" "documents u = map g (documents t)" "\<And>d. d_ID (g d) = d_ID d"
    and "\<And>d. d \<in> set (documents t) \<Longrightarrow>
      d_ShardsDone (g d) - d_ShardsDone d = count_shards (d_ID d) ShardDone u - count_shards (d_ID d) ShardDone t
      \<and> d_ShardsFailed (g d) - d_ShardsFailed d = count_shards (d_ID d) ShardFailed u - count_shards (d_ID d) ShardFailed t"
  shows "exact u"
  unfolding exact_def2 assms(2)
proof
  fix d'
  assume "d' \<in> set (map g (documents t))"
  then obtain d where d: "d \<in> set (documents t)" "d' = g d" by auto
  then show "d_ShardsDone d' = count_shards (d_ID d') ShardDone u \<and> d_ShardsFailed d' = count_shards (d_ID d') ShardFailed u"
    using assms(1) assms(4)[OF d(1)] assms(3)[of d] unfolding exact_def2 by fastforce
qed

lemma keys_ok_after:
  assumes "keys_ok t" "map d_ID (documents u) = map d_ID (documents t)"
    "map (\<lambda>s. (s_DocID s, s_Idx s)) (shards u) = map (\<lambda>s. (s_DocID s, s_Idx s)) (shards t)"
  shows "keys_ok u"
proof -
  have "d_ID ` set (documents u) = d_ID ` set (documents t)" using assms(2) by (metis list.set_map)
  moreover have "(\<lambda>s. (s_DocID s, s_Idx s)) ` set (shards u) = (\<lambda>s. (s_DocID s, s_Idx s)) ` set (shards t)"
    using assms(3) by (metis list.set_map)
  then have "s_DocID ` set (shards u) = s_DocID ` set (shards t)"
    by (metis (no_types, lifting) fst_conv image_cong image_image)
  moreover have fk: "(\<forall>s \<in> set (shards v). \<exists>d \<in> set (documents v). d_ID d = s_DocID s)
      \<longleftrightarrow> s_DocID ` set (shards v) \<subseteq> d_ID ` set (documents v)" for v
  proof -
    have "x \<in> d_ID ` S \<longleftrightarrow> (\<exists>d \<in> S. d_ID d = x)" for x and S :: "Document set" by auto
    then show ?thesis by (simp add: image_subset_iff)
  qed
  ultimately show ?thesis using assms unfolding keys_ok_def fk by simp
qed

lemma keys_ok_update_docs: "keys_ok t \<Longrightarrow> (\<And>d. d_ID (f d) = d_ID d) \<Longrightarrow> keys_ok (update_docs p f t)"
  by (erule keys_ok_after) (auto simp: comp_def)

lemma keys_ok_update_shards:
  "keys_ok t \<Longrightarrow> (\<And>s. s_DocID (f s) = s_DocID s \<and> s_Idx (f s) = s_Idx s) \<Longrightarrow> keys_ok (update_shards p f t)"
  by (erule keys_ok_after) (auto simp: comp_def)

section \<open>What each store operation does to the tables\<close>

named_theorems store_posts \<open>the tables after a store operation succeeds\<close>

lemma post_MarkShardDone [store_posts]:
  "post (MarkShardDone docID idx ms rss uri ocr chars) (\<lambda>now t x u.
     u = bump_done docID now (update_shards (shard_is docID idx) (done_row now ms rss uri ocr chars) t))"
  unfolding MarkShardDone_def by (rule post_weaken, (rule post_rules)+, auto)

lemma post_ClaimShard [store_posts]:
  "post (ClaimShard docID idx worker lease) (\<lambda>now t x u.
     x = map_option (claim_row worker (now + lease * second)) (find (claimable docID idx) (shards t))
     \<and> u = update_shards (claimable docID idx) (claim_row worker (now + lease * second)) t)"
proof -
  have "(case map f (filter p xs) of [] \<Rightarrow> None | s # _ \<Rightarrow> Some s) = map_option f (find p xs)" for f p xs
    by (induction xs) auto
  then show ?thesis
    unfolding ClaimShard_def by (intro post_weaken[OF post_tx_stmt]) (auto simp: Let_def)
qed

lemma post_MarkShardFailed [store_posts]:
  "post (MarkShardFailed docID idx code detail) (\<lambda>now t x u.
     u = update_docs (doc_is docID) (\<lambda>d. d\<lparr>d_ShardsFailed := d_ShardsFailed d + 1, d_UpdatedAt := now\<rparr>)
           (update_shards (shard_is docID idx) (\<lambda>s. s\<lparr>s_State := ShardFailed, s_ErrorCode := Some code,
              s_ErrorDetail := Some detail, s_LeaseUntil := None\<rparr>) t))"
  unfolding MarkShardFailed_def by (rule post_weaken, (rule post_rules)+, auto)

lemma post_RequeueExpiredLeases [store_posts]:
  "post RequeueExpiredLeases (\<lambda>now t x u.
     u = update_shards (expired now) reap_row t
     \<and> x = int (length (filter (expired now) (shards t))))"
  unfolding RequeueExpiredLeases_def by (rule post_weaken, (rule post_rules)+, auto)

lemma post_EscalateStuckShards [store_posts]:
  "post (EscalateStuckShards m) (\<lambda>now t x u.
     x = map escalated_of (filter (stuck m) (shards t))
     \<and> u = (let v = update_shards (stuck m) (escalate_row now) t
            in if x = [] then v else bump_failed (shard_deltas x) now v))"
proof -
  have "shard_deltas es = [] \<longleftrightarrow> es = []" for es
    by (cases es) (auto simp: shard_deltas_def)
  then show ?thesis
    unfolding EscalateStuckShards_def BumpShardsFailed_def
    by (intro post_weaken[OF post_bnd[OF post_tx_stmt post_bnd[OF post_if[OF post_ret post_tx_stmt] post_ret]]])
      (auto simp: Let_def split: if_splits)
qed

lemma post_RequeueFailedShards [store_posts]:
  "post (RequeueFailedShards docID) (\<lambda>now t x u.
     x = int (length (filter (failed_of docID) (shards t)))
     \<and> u = (let v = update_shards (failed_of docID) requeue_row t
            in if x > 0 then update_docs (doc_is docID)
                 (\<lambda>d. d\<lparr>d_ShardsFailed := d_ShardsFailed d - x, d_UpdatedAt := now\<rparr>) v else v))"
  unfolding RequeueFailedShards_def
  by (intro post_weaken[OF post_bnd[OF post_tx_stmt post_bnd[OF post_if[OF post_tx_stmt post_ret] post_ret]]])
    (auto simp: Let_def split: if_splits)

lemma post_SetChunkCountAndCompleteness [store_posts]:
  "post (SetChunkCountAndCompleteness docID n) (\<lambda>now t x u.
     u = update_docs (doc_is docID) (\<lambda>d. d\<lparr>d_ChunkCount := Some n,
            d_Completeness := completeness_of (d_TotalShards d) (d_ShardsFailed d),
            d_State := (if d_ShardsFailed d > 0 then StatePartial else StateReady),
            d_ReadyAt := Some now, d_UpdatedAt := now\<rparr>) t)"
  unfolding SetChunkCountAndCompleteness_def
  by (intro post_weaken[OF post_bnd[OF post_tx_stmt post_tx_stmt]])
    (auto simp: update_docs_def comp_def)

lemma post_RepairDocCounters [store_posts]:
  "post (RepairDocCounters docID) (\<lambda>now t x u.
     x = (count_shards docID ShardDone t, count_shards docID ShardFailed t)
     \<and> (\<exists>f. u = update_docs (doc_is docID) f t
          \<and> (\<forall>d. d_ID (f d) = d_ID d \<and> d_ShardsDone (f d) = fst x \<and> d_ShardsFailed (f d) = snd x)))"
proof -
  let ?g = "\<lambda>now t d. d\<lparr>d_ShardsDone := count_shards docID ShardDone t,
              d_ShardsFailed := count_shards docID ShardFailed t, d_UpdatedAt := now\<rparr>"
  let ?h = "\<lambda>now n d. d\<lparr>d_ChunkCount := Some n,
            d_Completeness := completeness_of (d_TotalShards d) (d_ShardsFailed d),
            d_State := (if d_ShardsFailed d > 0 then StatePartial else StateReady),
            d_ReadyAt := Some now, d_UpdatedAt := now\<rparr>"
  have comp: "update_docs (doc_is docID) (?h now n) (update_docs (doc_is docID) (?g now t) t)
      = update_docs (doc_is docID) (?h now n \<circ> ?g now t) t" for now n t
    by (simp add: update_docs_def comp_def)
  show ?thesis
    unfolding RepairDocCounters_def split_def
  proof (rule post_weaken[OF post_bnd[OF post_tx_stmt post_bnd[OF post_tx_stmt post_bnd[OF post_tx_stmt
            post_if[OF post_ret post_bnd[OF post_SetChunkCountAndCompleteness post_ret]]]]]], goal_cases)
    case (1 now t x u)
    then have "x = (count_shards docID ShardDone t, count_shards docID ShardFailed t)"
      and "u = update_docs (doc_is docID) (?g now t) t
        \<or> (\<exists>n. u = update_docs (doc_is docID) (?h now n \<circ> ?g now t) t)"
      by (auto simp: comp split: if_splits)
    then show ?case by (elim disjE exE) (auto intro!: exI)
  qed
qed

section \<open>Which operations keep the counters exact\<close>

lemma row_states [simp]:
  "s_DocID (done_row now a b c d e s) = s_DocID s" "s_State (done_row now a b c d e s) = ShardDone"
  "s_DocID (claim_row wk l s) = s_DocID s" "s_State (claim_row wk l s) = ShardRunning"
  "s_DocID (escalate_row now s) = s_DocID s" "s_State (escalate_row now s) = ShardFailed"
  "s_Idx (done_row now a b c d e s) = s_Idx s" "s_Idx (claim_row wk l s) = s_Idx s"
  "s_Idx (escalate_row now s) = s_Idx s"
  "s_DocID (reap_row s) = s_DocID s" "s_State (reap_row s) = ShardPending" "s_Idx (reap_row s) = s_Idx s"
  "s_DocID (requeue_row s) = s_DocID s" "s_State (requeue_row s) = ShardPending"
  "s_Idx (requeue_row s) = s_Idx s"
  by (simp_all add: done_row_def claim_row_def escalate_row_def reap_row_def requeue_row_def)

lemma doc_of_shard:
  assumes "keys_ok t" "shard_by_key docID idx t = Some s"
  obtains d where "d \<in> set (documents t)" "d_ID d = docID"
  using assms shard_key_eq[OF assms(2)] by (auto simp: keys_ok_def)

text \<open>A counter moves with the rows of its document exactly when the update says so.\<close>

lemma exact_iff_delta:
  assumes "exact t" "documents u = map g (documents t)" "\<And>d. d_ID (g d) = d_ID d"
  shows "exact u \<longleftrightarrow> (\<forall>d \<in> set (documents t).
      d_ShardsDone (g d) - d_ShardsDone d = count_shards (d_ID d) ShardDone u - count_shards (d_ID d) ShardDone t
      \<and> d_ShardsFailed (g d) - d_ShardsFailed d = count_shards (d_ID d) ShardFailed u - count_shards (d_ID d) ShardFailed t)"
  using assms unfolding exact_def2 by auto

lemma done_exact_iff:
  assumes "keys_ok t" "exact t" "shard_by_key docID idx t = Some s"
  shows "exact (bump_done docID now (update_shards (shard_is docID idx) (done_row now a b c d e) t))
    \<longleftrightarrow> s_State s \<notin> {ShardDone, ShardFailed}"
proof -
  let ?u = "bump_done docID now (update_shards (shard_is docID idx) (done_row now a b c d e) t)"
  let ?g = "\<lambda>x. if d_ID x = docID then x\<lparr>d_ShardsDone := d_ShardsDone x + 1, d_UpdatedAt := now\<rparr> else x"
  obtain dd where dd: "dd \<in> set (documents t)" "d_ID dd = docID" using doc_of_shard[OF assms(1,3)] .
  have cnt: "count_shards i st ?u = count_shards i st t
     - (if i = docID \<and> s_State s = st then 1 else 0) + (if i = docID \<and> ShardDone = st then 1 else 0)" for i st
    using count_move[OF assms(1,3), of "done_row now a b c d e" ShardDone i st] by (simp add: bump_done_def)
  show ?thesis
    by (subst exact_iff_delta[OF assms(2), of ?u ?g])
      (use dd cnt in \<open>auto simp: bump_done_def comp_def split: if_splits\<close>)
qed

lemma claim_pred:
  assumes "keys_ok t" "shard_by_key docID idx t = Some s" "s_State s \<in> {ShardPending, ShardFailed}"
  shows "update_shards (claimable docID idx) f t = update_shards (shard_is docID idx) f t"
    and "find (claimable docID idx) (shards t) = Some s"
proof -
  have only: "x = s" if "x \<in> set (shards t)" "s_DocID x = docID" "s_Idx x = idx" for x
  proof -
    have "x \<in> set (filter (shard_is docID idx) (shards t))" using that by simp
    then show ?thesis using shard_filter[OF assms(1,2)] by simp
  qed
  have s: "s \<in> set (shards t)" "s_DocID s = docID" "s_Idx s = idx" using shard_key_eq[OF assms(2)] by auto
  have eq: "claimable docID idx x = shard_is docID idx x" if "x \<in> set (shards t)" for x
    using only[OF that] assms(3) by (auto simp: claimable_def)
  then show "update_shards (claimable docID idx) f t = update_shards (shard_is docID idx) f t"
    by (auto simp: update_shards_def)
  have "find (claimable docID idx) (shards t) = find (shard_is docID idx) (shards t)"
    using eq by (induction "shards t" arbitrary: t) (auto cong: find_cong intro!: find_cong)
  then show "find (claimable docID idx) (shards t) = Some s"
    using assms(2) by (simp add: shard_by_key_def)
qed

lemma claim_exact_iff:
  assumes "keys_ok t" "exact t" "shard_by_key docID idx t = Some s" "s_State s \<in> {ShardPending, ShardFailed}"
  shows "exact (update_shards (claimable docID idx) (claim_row wk l) t) \<longleftrightarrow> s_State s = ShardPending"
proof -
  let ?u = "update_shards (shard_is docID idx) (claim_row wk l) t"
  obtain dd where dd: "dd \<in> set (documents t)" "d_ID dd = docID" using doc_of_shard[OF assms(1,3)] .
  have cnt: "count_shards i st ?u = count_shards i st t
     - (if i = docID \<and> s_State s = st then 1 else 0) + (if i = docID \<and> ShardRunning = st then 1 else 0)" for i st
    using count_move[OF assms(1,3), of "claim_row wk l" ShardRunning i st] by simp
  show ?thesis unfolding claim_pred(1)[OF assms(1,3,4)]
    by (subst exact_iff_delta[OF assms(2), of ?u id]) (use dd cnt assms(4) in \<open>auto split: if_splits\<close>)
qed

lemma escalate_exact:
  assumes "exact t" "x = map escalated_of (filter (stuck m) (shards t))"
  shows "exact (let v = update_shards (stuck m) (escalate_row now) t
            in if x = [] then v else bump_failed (shard_deltas x) now v)"
proof -
  let ?v = "update_shards (stuck m) (escalate_row now) t"
  define n where "n = (\<lambda>d. int (length (filter (\<lambda>s. s_DocID s = d \<and> stuck m s) (shards t))))"
  have 0: "filter (\<lambda>s. s_DocID s = d \<and> s_State s = st \<and> stuck m s) (shards t) = []"
    if "st \<noteq> ShardPending" for d st
    using that by (auto simp: filter_empty_conv stuck_def)
  have cnt: "count_shards d st ?v = count_shards d st t + (if st = ShardFailed then n d else 0)"
    if "st \<noteq> ShardPending" for d st
    using count_update_shards[of "escalate_row now" ShardFailed d st "stuck m" t] 0[OF that, of d] by (simp add: n_def)
  have xs: "int (length (filter (\<lambda>e. es_DocID e = d) x)) = n d" for d
    unfolding assms(2) n_def by (simp add: comp_def escalated_of_def conj_commute)
  have deltas: "map_of (shard_deltas x) d = (if d \<in> es_DocID ` set x then Some (n d) else None)" for d
    by (simp add: shard_deltas_def map_of_map_restrict xs comp_def)
  have none: "n d = 0" if "d \<notin> es_DocID ` set x" for d
  proof -
    have "filter (\<lambda>e. es_DocID e = d) x = []" using that by (auto simp: filter_empty_conv)
    then show ?thesis using xs[of d] by simp
  qed
  show ?thesis
  proof (cases "x = []")
    case True
    then have "n d = 0" for d using none by simp
    then show ?thesis using True cnt assms(1) by (simp add: exact_def2 Let_def)
  next
    case False
    have "exact (bump_failed (shard_deltas x) now ?v)"
      by (rule exact_after[OF assms(1), of _ "\<lambda>d. if map_of (shard_deltas x) (d_ID d) \<noteq> None
            then d\<lparr>d_ShardsFailed := d_ShardsFailed d + the (map_of (shard_deltas x) (d_ID d)), d_UpdatedAt := now\<rparr> else d"])
        (auto simp: bump_failed_def cnt deltas none)
    then show ?thesis using False by (simp add: Let_def)
  qed
qed

lemma reaper_exact:
  assumes "exact t"
  shows "exact (update_shards (expired now) reap_row t)"
proof -
  have "filter (\<lambda>s. s_DocID s = d \<and> s_State s = st \<and> expired now s) (shards t) = []"
    if "st \<noteq> ShardRunning" for d st
    using that by (auto simp: filter_empty_conv expired_def)
  then show ?thesis
    using assms count_update_shards[of reap_row ShardPending _ _ "expired now" t]
    by (simp add: exact_def2)
qed

lemma requeue_exact:
  assumes "exact t"
    and u: "u = (let v = update_shards (failed_of docID) requeue_row t
            in if x > 0 then update_docs (doc_is docID)
                 (\<lambda>d. d\<lparr>d_ShardsFailed := d_ShardsFailed d - x, d_UpdatedAt := now\<rparr>) v else v)"
    and x: "x = int (length (filter (failed_of docID) (shards t)))"
  shows "exact u"
proof -
  let ?f = requeue_row
  let ?v = "update_shards (failed_of docID) ?f t"
  have sel: "filter (\<lambda>s. s_DocID s = d \<and> s_State s = st \<and> failed_of docID s) (shards t)
      = (if d = docID \<and> st = ShardFailed then filter (failed_of docID) (shards t) else [])" for d st
    by (auto simp: filter_empty_conv failed_of_def intro!: filter_cong)
  have cnt: "count_shards d st ?v = count_shards d st t - (if d = docID \<and> st = ShardFailed then x else 0)"
    if "st \<noteq> ShardPending" for d st
    using count_update_shards[of ?f ShardPending d st "failed_of docID" t] that sel x by simp
  show ?thesis
    by (rule exact_after[OF assms(1), of _ "\<lambda>d. if x > 0 \<and> d_ID d = docID
            then d\<lparr>d_ShardsFailed := d_ShardsFailed d - x, d_UpdatedAt := now\<rparr> else d"])
      (use x in \<open>auto simp: u Let_def cnt\<close>)
qed

section \<open>Settled books\<close>

lemma all_shards_split:
  "all_shards d t = count_shards d ShardPending t + count_shards d ShardRunning t
     + count_shards d ShardDone t + count_shards d ShardFailed t + count_shards d ShardSkipped t"
proof -
  have "int (length (filter (\<lambda>s. s_DocID s = d) ss)) =
      int (length (filter (\<lambda>s. s_DocID s = d \<and> s_State s = ShardPending) ss))
    + int (length (filter (\<lambda>s. s_DocID s = d \<and> s_State s = ShardRunning) ss))
    + int (length (filter (\<lambda>s. s_DocID s = d \<and> s_State s = ShardDone) ss))
    + int (length (filter (\<lambda>s. s_DocID s = d \<and> s_State s = ShardFailed) ss))
    + int (length (filter (\<lambda>s. s_DocID s = d \<and> s_State s = ShardSkipped) ss))" for ss
  proof (induction ss)
    case (Cons s ss)
    then show ?case by (cases "s_State s"; cases "s_DocID s = d") simp_all
  qed simp
  then show ?thesis by (simp add: all_shards_def count_shards_def)
qed

lemma count_nonneg [simp]: "0 \<le> count_shards d st t"
  by (simp add: count_shards_def)

lemma count_zero: "count_shards d st t = 0 \<longleftrightarrow> (\<forall>s \<in> set (shards t). s_DocID s = d \<longrightarrow> s_State s \<noteq> st)"
  by (auto simp: count_shards_def filter_empty_conv)

lemma settled_iff:
  assumes "exact t" "doc \<in> set (documents t)" "d_TotalShards doc = Some (all_shards (d_ID doc) t)"
    and "0 < all_shards (d_ID doc) t"
  shows "BookSettled doc \<longleftrightarrow>
    (\<forall>s \<in> set (shards t). s_DocID s = d_ID doc \<longrightarrow> s_State s \<in> {ShardDone, ShardFailed})"
proof -
  have "BookSettled doc \<longleftrightarrow> count_shards (d_ID doc) ShardPending t = 0
      \<and> count_shards (d_ID doc) ShardRunning t = 0 \<and> count_shards (d_ID doc) ShardSkipped t = 0"
    using assms all_shards_split[of "d_ID doc" t] count_nonneg[of "d_ID doc" _ t]
    by (auto simp: BookSettled_def exact_def2 intro: antisym) (smt (verit) count_nonneg)+
  also have "\<dots> \<longleftrightarrow> (\<forall>s \<in> set (shards t). s_DocID s = d_ID doc \<longrightarrow> s_State s \<in> {ShardDone, ShardFailed})"
    unfolding count_zero by (auto; metis ShardState.exhaust)
  finally show ?thesis .
qed

section \<open>Properties\<close>

subsection \<open>Concrete rows\<close>

definition sample_doc :: Document where
  "sample_doc = \<lparr>d_ID = ''d'', d_CollectionID = Some ''c'', d_Title = None, d_Author = None,
     d_Filename = None, d_ByteSize = None, d_SourceURI = ''s3://raw/d'', d_ContentSHA256 = ''h'',
     d_PageCount = Some 16, d_MimeType = Some ''application/pdf'', d_State = StateParsing,
     d_ErrorCode = None, d_ErrorDetail = None, d_TotalShards = Some 2, d_ShardsDone = 0,
     d_ShardsFailed = 1, d_ChunkCount = None, d_Completeness = None, d_Metadata = [],
     d_UploadedBy = None, d_CreatedAt = 0, d_UpdatedAt = 0, d_ReadyAt = None\<rparr>"

definition sample_tables :: "ShardState \<Rightarrow> tables" where
  "sample_tables st =
     empty_tables\<lparr>documents := [sample_doc],
      shards := [(new_shard ''d'' 0 1 8 0)\<lparr>s_State := ShardFailed, s_Attempts := 4\<rparr>,
                (new_shard ''d'' 1 9 16 0)\<lparr>s_State := st, s_Attempts := 1\<rparr>]\<rparr>"

definition sample_world :: "tables \<Rightarrow> 'x \<Rightarrow> 'x world" where
  "sample_world t x = \<lparr>db = t, runner_log = id, aborted = False, faults = (\<lambda>_. None), nstmt = 0,
     clock = 100, rollups = [], ext = x\<rparr>"

lemma sample_healthy [simp]: "healthy (sample_world t x)"
  by (simp add: sample_world_def healthy_def)

lemma sample_world_sel [simp]:
  "db (sample_world t x) = t" "clock (sample_world t x) = 100" "aborted (sample_world t x) = False"
  "faults (sample_world t x) = (\<lambda>_. None)" "ext (sample_world t x) = x"
  by (simp_all add: sample_world_def)

lemmas sample_defs = sample_tables_def sample_doc_def new_shard_def empty_tables_def

text \<open>Store operations that only fail when the database does.\<close>

lemma store_succeeds [succ_rules]:
  "succeeds (MarkShardDone docID idx ms rss uri ocr chars)"
  "succeeds (ClaimShard docID idx worker lease)"
  "succeeds (RequeueFailedShards docID)" "succeeds RequeueExpiredLeases"
  "succeeds (SetChunkCountAndCompleteness docID n)" "succeeds (EscalateStuckShards m)"
  "succeeds (SetDocState docID st code detail)"
  by (auto simp: MarkShardDone_def ClaimShard_def RequeueFailedShards_def RequeueExpiredLeases_def
      SetChunkCountAndCompleteness_def EscalateStuckShards_def BumpShardsFailed_def SetDocState_def Let_def
      intro!: succ_rules)

lemma repair_succeeds [succ_rules]: "succeeds (RepairDocCounters docID)"
  by (auto simp: RepairDocCounters_def split_def intro!: succ_rules)

lemma sample_ok: "keys_ok (sample_tables st)" "exact (sample_tables st) \<longleftrightarrow> st \<notin> {ShardDone, ShardFailed}"
  by (auto simp: keys_ok_def exact_def2 count_shards_def sample_defs)

lemma sample_key: "shard_by_key ''d'' 1 (sample_tables st)
    = Some ((new_shard ''d'' 1 9 16 0)\<lparr>s_State := st, s_Attempts := 1\<rparr>)"
  by (simp add: shard_by_key_def sample_defs)

text \<open>
  C12. Marking a shard done has no guard on the shard's state.  From exact counters it keeps
  them exact precisely when the shard was neither done nor failed: a second completion of
  the same shard (its lease having expired and been claimed again), or the completion of a
  shard already escalated to failed, leaves the document's counters wrong for good.
\<close>

theorem MarkShardDone_exact:
  assumes "keys_ok (db w)" "exact (db w)" "shard_by_key docID idx (db w) = Some s"
    and "MarkShardDone docID idx ms rss uri ocr chars w = (Inr (), w')"
  shows "exact (db w') \<longleftrightarrow> s_State s \<notin> {ShardDone, ShardFailed}"
  using postD[OF post_MarkShardDone assms(4)] done_exact_iff[OF assms(1-3)] by simp

lemma MarkShardDone_exact_witness:
  "\<exists>w'. MarkShardDone ''d'' 1 900 512 ''s3://parsed/d/1.md'' False None (sample_world (sample_tables ShardRunning) ())
      = (Inr (), w') \<and> exact (db w')"
proof -
  let ?w = "sample_world (sample_tables ShardRunning) ()"
  obtain w' where run: "MarkShardDone ''d'' 1 900 512 ''s3://parsed/d/1.md'' False None ?w = (Inr (), w')"
    by (rule succeedsE[OF store_succeeds(1) sample_healthy]) auto
  have "exact (db w')"
    using MarkShardDone_exact[OF _ _ _ run] sample_ok[of ShardRunning] sample_key[of ShardRunning]
    by (simp add: sample_world_def new_shard_def)
  with run show ?thesis by blast
qed

text \<open>
  C13. The claim is exclusive and is the only way into \<open>running\<close>: it succeeds exactly on a
  pending or failed shard, hands out that shard's row with the attempt counted and the lease
  taken, and a second claim of the same shard gets nothing.  It keeps the document's
  counters exact only when the shard was pending: claiming a failed shard leaves it counted
  as failed while it runs.
\<close>

theorem ClaimShard_exclusive:
  assumes "keys_ok (db w)" "exact (db w)" "shard_by_key docID idx (db w) = Some s"
    and "ClaimShard docID idx worker lease w = (Inr r, w')"
  shows "(r \<noteq> None \<longleftrightarrow> s_State s \<in> {ShardPending, ShardFailed})
    \<and> (\<forall>row. r = Some row \<longrightarrow> row = claim_row worker (clock w + lease * second) s
          \<and> shard_by_key docID idx (db w') = Some row
          \<and> (exact (db w') \<longleftrightarrow> s_State s = ShardPending)
          \<and> (\<forall>r2 w2. ClaimShard docID idx worker2 lease2 w' = (Inr r2, w2) \<longrightarrow> r2 = None))"
proof -
  let ?f = "claim_row worker (clock w + lease * second)"
  have p: "r = map_option ?f (find (claimable docID idx) (shards (db w)))"
    "db w' = update_shards (claimable docID idx) ?f (db w)"
    using postD[OF post_ClaimShard assms(4)] by auto
  note k = shard_key_eq[OF assms(3)]
  show ?thesis
  proof (cases "s_State s \<in> {ShardPending, ShardFailed}")
    case True
    note c = claim_pred[OF assms(1,3) True]
    have row: "r = Some (?f s)" using p(1) c(2) by simp
    have find_map: "find (shard_is docID idx) (map (\<lambda>x. if shard_is docID idx x then ?f x else x) xs)
        = map_option ?f (find (shard_is docID idx) xs)" for xs
      by (induction xs) auto
    have key: "shard_by_key docID idx (db w') = Some (?f s)"
      using assms(3) find_map by (simp add: p(2) c(1) shard_by_key_def)
    have keys: "keys_ok (db w')" unfolding p(2) by (rule keys_ok_update_shards[OF assms(1)]) simp
    have none: "find (claimable docID idx) (shards (db w')) = None"
    proof -
      have "s_State x = ShardRunning" if "x \<in> set (shards (db w'))" "shard_is docID idx x" for x
      proof -
        have "x \<in> set (filter (shard_is docID idx) (shards (db w')))" using that by simp
        then show ?thesis using shard_filter[OF keys key] by simp
      qed
      then show ?thesis by (force simp: find_None_iff claimable_def)
    qed
    have "r2 = None" if "ClaimShard docID idx worker2 lease2 w' = (Inr r2, w2)" for r2 w2
      using postD[OF post_ClaimShard that] none by simp
    then show ?thesis using row key True claim_exact_iff[OF assms(1-3) True, of worker "clock w + lease * second"]
      by (auto simp: p(2))
  next
    case False
    have "\<not> claimable docID idx x" if "x \<in> set (shards (db w))" for x
    proof
      assume c: "claimable docID idx x"
      then have "x \<in> set (filter (shard_is docID idx) (shards (db w)))" using that by (simp add: claimable_def)
      then have "x = s" using shard_filter[OF assms(1,3)] by simp
      then show False using c False by (simp add: claimable_def)
    qed
    then have "find (claimable docID idx) (shards (db w)) = None" by (simp add: find_None_iff)
    then show ?thesis using p(1) False by simp
  qed
qed

lemma ClaimShard_exclusive_witness:
  "\<exists>row w'. ClaimShard ''d'' 1 ''parser-1'' 900 (sample_world (sample_tables ShardPending) ()) = (Inr (Some row), w')
     \<and> s_Attempts row = 2 \<and> exact (db w')"
proof -
  let ?w = "sample_world (sample_tables ShardPending) ()"
  obtain r w' where run: "ClaimShard ''d'' 1 ''parser-1'' 900 ?w = (Inr r, w')"
    by (rule succeedsE[OF store_succeeds(2) sample_healthy])
  note c = ClaimShard_exclusive[OF _ _ _ run]
  show ?thesis
    using c sample_ok[of ShardPending] sample_key[of ShardPending] run
    by (cases r) (simp_all add: new_shard_def claim_row_def)
qed

lemma shards_if: "shards (if b then t else u) = (if b then shards t else shards u)"
  by simp



text \<open>
  The counter repair makes the document's counters agree with a recount of its shards,
  whatever they were before, and leaves every other document's row alone.
\<close>

theorem RepairDocCounters_exact:
  assumes "RepairDocCounters docID w = (Inr r, w')"
  shows "r = (count_shards docID ShardDone (db w), count_shards docID ShardFailed (db w))
    \<and> shards (db w') = shards (db w)
    \<and> (\<forall>d \<in> set (documents (db w')). d_ID d = docID \<longrightarrow> \<not> drifted (db w') d)
    \<and> filter (\<lambda>d. d_ID d \<noteq> docID) (documents (db w')) = filter (\<lambda>d. d_ID d \<noteq> docID) (documents (db w))"
proof -
  obtain f where f: "r = (count_shards docID ShardDone (db w), count_shards docID ShardFailed (db w))"
    "db w' = update_docs (doc_is docID) f (db w)"
    "\<forall>d. d_ID (f d) = d_ID d \<and> d_ShardsDone (f d) = fst r \<and> d_ShardsFailed (f d) = snd r"
    using postD[OF post_RepairDocCounters assms] by blast
  have "filter (\<lambda>d. d_ID d \<noteq> docID) (map (\<lambda>d. if d_ID d = docID then f d else d) ds)
      = filter (\<lambda>d. d_ID d \<noteq> docID) ds" for ds
    using f(3) by (induction ds) auto
  then show ?thesis using f by (auto simp: drifted_def count_shards_def)
qed

lemma RepairDocCounters_exact_witness:
  "\<exists>w'. RepairDocCounters ''d'' (sample_world (sample_tables ShardDone) ()) = (Inr (1, 1), w')
     \<and> \<not> drifted (db w') (hd (documents (db w')))"
proof -
  let ?w = "sample_world (sample_tables ShardDone) ()"
  obtain r w' where run: "RepairDocCounters ''d'' ?w = (Inr r, w')"
    by (rule succeedsE[OF repair_succeeds sample_healthy])
  obtain f where "db w' = update_docs (doc_is ''d'') f (sample_tables ShardDone)" "\<forall>d. d_ID (f d) = d_ID d"
    using postD[OF post_RepairDocCounters run] by auto
  then have d: "documents (db w') \<noteq> []" "d_ID (hd (documents (db w'))) = ''d''" by (simp_all add: sample_defs)
  have "count_shards ''d'' ShardDone (db ?w) = 1" "count_shards ''d'' ShardFailed (db ?w) = 1"
    by (simp_all add: count_shards_def sample_defs)
  then show ?thesis using RepairDocCounters_exact[OF run] run d list.set_sel(1)[OF d(1)] by simp
qed

text \<open>
  With exact counters and \<open>total_shards\<close> equal to the number of the document's shard
  rows, a book counts as settled exactly when every one of its shards is done or failed.  A
  skipped row is neither: a book that has one is never settled.
\<close>

theorem BookSettled_iff:
  assumes "exact t" "doc \<in> set (documents t)" "d_TotalShards doc = Some (all_shards (d_ID doc) t)"
    and "0 < all_shards (d_ID doc) t"
  shows "BookSettled doc \<longleftrightarrow>
    (\<forall>s \<in> set (shards t). s_DocID s = d_ID doc \<longrightarrow> s_State s \<in> {ShardDone, ShardFailed})"
  by (rule settled_iff[OF assms])

lemma BookSettled_iff_witness:
  "exact (sample_tables ShardRunning) \<and> \<not> BookSettled sample_doc"
proof -
  have "\<not> BookSettled sample_doc"
    using BookSettled_iff[of "sample_tables ShardRunning" sample_doc] sample_ok[of ShardRunning]
    by (simp add: sample_defs all_shards_def)
  then show ?thesis using sample_ok[of ShardRunning] by simp
qed

end
