(* ===== verification/Janitor.thy ===== *)
theory Janitor
  imports Streams Counters
begin

text \<open>
  The janitor (\<open>internal/worker/janitor.go\<close>): one pass is a sequence of short
  transactions with all Redis work between them.  \<open>R\<close> is Redis, \<open>pf\<close> the conversion of
  JSON numbers, \<open>ord\<close> the order of the never-attempted shard query.
\<close>

section \<open>Redis work inside the world\<close>

definition on_ext :: "('x, goerr, 'a) prog \<Rightarrow> ('x world, goerr, 'a) prog" where
  "on_ext m w = (case m (ext w) of (r, x) \<Rightarrow> (r, w\<lparr>ext := x\<rparr>))"

definition now_is :: "('x world, goerr, int) prog" where
  "now_is = gets clock"

definition minute :: int where
  "minute = 60 * second"

section \<open>State\<close>

record Settings =
  StuckMinutes :: int
  MaxShardAttempts :: int

record stats =
  RequeuedLeases :: int
  Escalated :: int
  Reenqueued :: int
  EmbedSwept :: int
  Reclaimed :: int
  Quarantined :: int
  ParseRescued :: int
  StuckWarned :: int
  Rollup :: int

record quarantineEvent =
  q_Level :: string
  q_Stage :: string
  q_Message :: string
  q_DocID :: "string option"
  q_ShardIdx :: "int option"
  q_Code :: "string option"
  q_WorkerID :: "string option"
  q_Context :: payload

definition write_quarantine :: "quarantineEvent \<Rightarrow> ('x world, goerr, unit) prog" where
  "write_quarantine q =
     WriteEvent (q_Level q) (q_Stage q) (q_Message q) (q_DocID q) (q_ShardIdx q) (q_Code q)
       (q_WorkerID q) (q_Context q)"

section \<open>Escalation and requeue\<close>

text \<open>The events' errors are dropped; an error still aborts the transaction.\<close>

definition escalate :: "Settings \<Rightarrow> ('x world, goerr, int) prog" where
  "escalate cfg =
     bnd (EscalateStuckShards (MaxShardAttempts cfg)) (\<lambda>rows.
     bnd (for_each (\<lambda>e. ignore (WriteEvent ''error'' ''parse''
            (''shard escalated to failed after '' @ itoa (es_Attempts e) @ '' attempts'')
            (Some (es_DocID e)) (Some (es_Idx e)) (Some ''SHARD_TIMEOUT'') None [])) rows) (\<lambda>_.
     ret (int (length rows))))"

definition PendingJobDocIDs :: "'x redis_ops \<Rightarrow> string \<Rightarrow> ('x, goerr, string list) prog" where
  "PendingJobDocIDs R stream = PendingJobKeys R stream docIDKey"

definition split_job_of :: "Document \<Rightarrow> SplitJob" where
  "split_job_of doc =
     \<lparr>sj_SchemaVersion = SchemaVersion, sj_DocID = d_ID doc, sj_SourceURI = d_SourceURI doc\<rparr>"

fun requeue_docs :: "'x redis_ops \<Rightarrow> string list \<Rightarrow> Document list \<Rightarrow> int \<Rightarrow> ('x, goerr, int) prog" where
  "requeue_docs R queued [] n = ret n"
| "requeue_docs R queued (doc # docs) n =
     (if d_State doc \<noteq> StateUploaded then requeue_docs R queued docs n
      else if d_ID doc \<in> set queued then requeue_docs R queued docs n
      else bnd (XAddJob R StreamSplit (split_fields (split_job_of doc))) (\<lambda>_.
           requeue_docs R queued docs (n + 1)))"

text \<open>A failed scan skips the sweep: nothing is added blindly.\<close>

definition requeueSweep :: "'x redis_ops \<Rightarrow> Document list \<Rightarrow> ('x, goerr, int) prog" where
  "requeueSweep R docs =
     bnd (attempt (PendingJobDocIDs R StreamSplit)) (\<lambda>r.
     case r of Inl _ \<Rightarrow> ret 0 | Inr queued \<Rightarrow> requeue_docs R queued docs 0)"

section \<open>Reclaim\<close>

datatype reclaimDecision = reclaimKept | reclaimReadded | reclaimQuarantined quarantineEvent

definition quarantineEventOf :: "(string \<Rightarrow> int) \<Rightarrow> string \<Rightarrow> string \<Rightarrow> int \<Rightarrow> quarantineEvent" where
  "quarantineEventOf pf stream rawJob timesDelivered =
     \<lparr>q_Level = ''error'', q_Stage = ''dlq'',
      q_Message = ''job quarantined from '' @ stream @ '' after '' @ itoa timesDelivered @ '' deliveries'',
      q_DocID = fst (quarantine_ids pf rawJob), q_ShardIdx = snd (quarantine_ids pf rawJob),
      q_Code = Some ''DLQ'', q_WorkerID = None, q_Context = [(''detail'', JStr rawJob)]\<rparr>"

text \<open>The delivery count of one entry, \<open>-1\<close> when it cannot be read.\<close>

definition times_delivered :: "'x redis_ops \<Rightarrow> string \<Rightarrow> string \<Rightarrow> ('x, goerr, int) prog" where
  "times_delivered R stream entryID =
     bnd (attempt (XPendingExt R stream entryID entryID 1)) (\<lambda>r.
     ret (case r of Inr ((_, n) # _) \<Rightarrow> n | _ \<Rightarrow> - 1))"

definition reclaimDecide ::
  "'x redis_ops \<Rightarrow> (string \<Rightarrow> int) \<Rightarrow> string \<Rightarrow> string \<Rightarrow> string \<Rightarrow> int \<Rightarrow> ('x, goerr, reclaimDecision) prog" where
  "reclaimDecide R pf stream entryID rawJob deliveryCap =
     (if rawJob = [] then bnd (Ack R stream entryID) (\<lambda>_. ret reclaimKept)
      else
        bnd (times_delivered R stream entryID) (\<lambda>timesDelivered.
        if 0 \<le> timesDelivered \<and> deliveryCap \<le> timesDelivered
        then bnd (Ack R stream entryID) (\<lambda>_.
             ret (reclaimQuarantined (quarantineEventOf pf stream rawJob timesDelivered)))
        else bnd (XAdd R stream rawJob) (\<lambda>_.
             bnd (Ack R stream entryID) (\<lambda>_. ret reclaimReadded))))"

fun reclaim_entries ::
  "'x redis_ops \<Rightarrow> (string \<Rightarrow> int) \<Rightarrow> int \<Rightarrow> string \<Rightarrow> StreamEntry list \<Rightarrow> int \<times> quarantineEvent list
   \<Rightarrow> ('x, goerr, int \<times> quarantineEvent list) prog" where
  "reclaim_entries R pf cap stream [] acc = ret acc"
| "reclaim_entries R pf cap stream (entry # es) (reclaimed, qs) =
     bnd (reclaimDecide R pf stream (se_ID entry) (se_RawJob entry) cap) (\<lambda>decided.
     reclaim_entries R pf cap stream es
       (case decided of
          reclaimQuarantined q \<Rightarrow> (reclaimed, qs @ [q])
        | reclaimReadded \<Rightarrow> (reclaimed + 1, qs)
        | reclaimKept \<Rightarrow> (reclaimed, qs)))"

text \<open>A stream whose claim fails is passed over.\<close>

fun reclaim_streams ::
  "'x redis_ops \<Rightarrow> (string \<Rightarrow> int) \<Rightarrow> int \<Rightarrow> string list \<Rightarrow> int \<times> quarantineEvent list
   \<Rightarrow> ('x, goerr, int \<times> quarantineEvent list) prog" where
  "reclaim_streams R pf cap [] acc = ret acc"
| "reclaim_streams R pf cap (stream # streams) acc =
     bnd (attempt (ClaimStale R stream ''janitor-reclaim'' (20 * 60 * 1000) 50)) (\<lambda>r.
     case r of
       Inl _ \<Rightarrow> reclaim_streams R pf cap streams acc
     | Inr entries \<Rightarrow>
         bnd (reclaim_entries R pf cap stream entries acc) (reclaim_streams R pf cap streams))"

definition delivery_cap :: "Settings \<Rightarrow> int" where
  "delivery_cap cfg = (if MaxShardAttempts cfg + 1 < 5 then 5 else MaxShardAttempts cfg + 1)"

definition reclaim ::
  "'x redis_ops \<Rightarrow> (string \<Rightarrow> int) \<Rightarrow> Settings \<Rightarrow> ('x, goerr, int \<times> quarantineEvent list) prog" where
  "reclaim R pf cfg = reclaim_streams R pf (delivery_cap cfg) AllStreams (0, [])"

section \<open>Embed sweep\<close>

definition embed_job_of :: "string \<Rightarrow> EmbedJob" where
  "embed_job_of docID = \<lparr>ej_SchemaVersion = SchemaVersion, ej_DocID = docID\<rparr>"

definition embed_due :: "string list \<Rightarrow> Document \<Rightarrow> bool" where
  "embed_due queued doc \<longleftrightarrow>
     d_State doc = StateParsing \<and> BookSettled doc \<and> d_ID doc \<notin> set queued"

text \<open>On an error of \<open>XADD\<close> the jobs added so far stay added, and no event is written.\<close>

fun embed_docs :: "'x redis_ops \<Rightarrow> string list \<Rightarrow> Document list \<Rightarrow> ('x, goerr, string list) prog" where
  "embed_docs R queued [] = ret []"
| "embed_docs R queued (doc # docs) =
     (if \<not> embed_due queued doc then embed_docs R queued docs
      else bnd (XAddJob R StreamEmbed (embed_fields (embed_job_of (d_ID doc)))) (\<lambda>_.
           bnd (embed_docs R queued docs) (\<lambda>ids. ret (d_ID doc # ids))))"

definition embed_event :: "string \<Rightarrow> quarantineEvent" where
  "embed_event docID =
     \<lparr>q_Level = ''warn'', q_Stage = ''janitor'',
      q_Message = ''settled book found without embed job '' @ em_dash @ '' re-enqueued'',
      q_DocID = Some docID, q_ShardIdx = None, q_Code = Some ''EMBED_RESCUE'', q_WorkerID = None,
      q_Context = []\<rparr>"

definition embedSweep :: "'x redis_ops \<Rightarrow> Document list \<Rightarrow> ('x world, goerr, int) prog" where
  "embedSweep R docs =
     bnd (attempt (on_ext (PendingJobDocIDs R StreamEmbed))) (\<lambda>r.
     case r of
       Inl _ \<Rightarrow> ret 0
     | Inr queued \<Rightarrow>
         bnd (on_ext (embed_docs R queued docs)) (\<lambda>ids.
         bnd (if ids = [] then ret ()
              else TxWithRetry 3 (for_each (\<lambda>i. write_quarantine (embed_event i)) ids)) (\<lambda>_.
         ret (int (length ids)))))"

section \<open>Pending shard sweep\<close>

definition shardSweepGrace :: int where
  "shardSweepGrace = 2 * minute"

definition rescue_job :: "StalePendingShard \<Rightarrow> ParseJob" where
  "rescue_job s =
     \<lparr>pj_SchemaVersion = SchemaVersion, pj_DocID = st_DocID s, pj_Idx = st_Idx s,
      pj_PageStart = st_PageStart s, pj_PageEnd = st_PageEnd s, pj_SourceURI = st_SourceURI s\<rparr>"

definition missingParseJobs :: "StalePendingShard list \<Rightarrow> string list \<Rightarrow> ParseJob list" where
  "missingParseJobs ss queued =
     map rescue_job (filter (\<lambda>s. parseJobKeyOf (st_DocID s) (st_Idx s) \<notin> set queued) ss)"

definition countJobs :: "ParseJob list \<Rightarrow> string \<Rightarrow> int" where
  "countJobs jobs docID = int (length (filter (\<lambda>j. pj_DocID j = docID) jobs))"

definition enqueue_parse :: "'x redis_ops \<Rightarrow> ParseJob \<Rightarrow> ('x world, goerr, unit) prog" where
  "enqueue_parse R j = bnd (on_ext (XAddJob R StreamParse (parse_fields j))) (\<lambda>_. ret ())"

text \<open>
  Go ranges over \<open>rescuedByDoc\<close> in no particular order; here the events are written in the
  order the documents first appear.
\<close>

definition rescue_event :: "ParseJob list \<Rightarrow> string \<Rightarrow> ('x world, goerr, unit) prog" where
  "rescue_event jobs docID =
     WriteEvent ''warn'' ''janitor''
       (itoa (countJobs jobs docID) @ '' never-attempted shard(s) re-enqueued '' @ em_dash @ '' R-32 rescue'')
       (Some docID) None (Some ''PARSE_RESCUE'') None []"

definition rescue_shards ::
  "'x redis_ops \<Rightarrow> (string \<Rightarrow> int) \<Rightarrow> StalePendingShard list \<Rightarrow> ('x world, goerr, int) prog" where
  "rescue_shards R pf ss =
     bnd (attempt (on_ext (PendingJobKeys R StreamParse (parseJobKey pf)))) (\<lambda>r.
     case r of
       Inl _ \<Rightarrow> ret 0
     | Inr queued \<Rightarrow>
         let jobs = missingParseJobs ss queued
         in if jobs = [] then ret 0
            else bnd (for_each (enqueue_parse R) jobs) (\<lambda>_.
                 bnd (TxWithRetry 3 (for_each (rescue_event jobs) (remdups (map pj_DocID jobs)))) (\<lambda>_.
                 ret (int (length jobs)))))"

definition pendingShardSweep ::
  "'x redis_ops \<Rightarrow> (string \<Rightarrow> int) \<Rightarrow> (StalePendingShard list \<Rightarrow> StalePendingShard list) \<Rightarrow> int
   \<Rightarrow> ('x world, goerr, int) prog" where
  "pendingShardSweep R pf ord now =
     bnd (attempt (NeverAttemptedShards ord (now - shardSweepGrace))) (\<lambda>r0.
     case r0 of
       Inl e \<Rightarrow> raise (Wrap ''never-attempted shard query failed: '' e)
     | Inr ss \<Rightarrow> if ss = [] then ret 0 else rescue_shards R pf ss)"

section \<open>Stuck documents and the metrics rollup\<close>

definition stuckWarn :: "Settings \<Rightarrow> int \<Rightarrow> ('x world, goerr, int) prog" where
  "stuckWarn cfg now =
     bnd (StuckDocs (now - StuckMinutes cfg * minute)) (\<lambda>docs.
     if docs = [] then ret 0
     else bnd (TxWithRetry 3 (for_each (\<lambda>doc. WriteEvent ''warn'' ''janitor''
                 (''document non-terminal for over '' @ itoa (StuckMinutes cfg) @ '' min (state=''
                    @ doc_state_text (d_State doc) @ '')'')
                 (Some (d_ID doc)) None (Some ''STUCK_DOCUMENT'') None []) docs)) (\<lambda>_.
          ret (int (length docs))))"

text \<open>Nearest rank on the sorted values.\<close>

definition pct :: "int list \<Rightarrow> int \<Rightarrow> int option" where
  "pct xs p =
     (if xs = [] then None
      else let i = go_div ((int (length xs) - 1) * p) 100;
               j = (if i < 0 then 0 else i)
           in Some (sort xs ! nat j))"

fun queue_depths :: "'x redis_ops \<Rightarrow> string list \<Rightarrow> ('x, goerr, (string \<times> int) list) prog" where
  "queue_depths R [] = ret []"
| "queue_depths R (name # names) =
     bnd (attempt (QueueDepth R name)) (\<lambda>r.
     bnd (queue_depths R names) (\<lambda>rest.
     ret (case r of Inl _ \<Rightarrow> rest | Inr depth \<Rightarrow> (name, depth) # rest)))"

text \<open>The upsert runs on the pool although a transaction is opened around it.\<close>

definition rollup_row ::
  "int \<Rightarrow> ShardRollupRow list \<Rightarrow> int \<Rightarrow> (string \<times> int) list \<Rightarrow> MetricsRollup" where
  "rollup_row bucket rows chunksEmbedded qd =
     (let done_rows = filter (\<lambda>r. rr_State r = ShardDone) rows
      in \<lparr>m_Bucket = bucket,
          m_PagesParsed = Some (sum_list (map (\<lambda>r. rr_PageEnd r - rr_PageStart r + 1) rows)),
          m_ShardsDone = Some (int (length rows)),
          m_ShardsFailed = Some (int (length (filter (\<lambda>r. rr_State r = ShardFailed) rows))),
          m_ChunksEmbedded = Some chunksEmbedded,
          m_ParseP50MS = pct (map rr_DurationMS done_rows) 50,
          m_ParseP95MS = pct (map rr_DurationMS done_rows) 95,
          m_PeakRSSP95MB = pct (map rr_PeakRSSMB done_rows) 95,
          m_QueueDepth = qd\<rparr>)"

text \<open>Returns 0 or 1 and the new \<open>lastRollupBucket\<close>.\<close>

definition rollup ::
  "'x redis_ops \<Rightarrow> int option \<Rightarrow> int \<Rightarrow> ('x world, goerr, int \<times> int option) prog" where
  "rollup R lastBucket now =
     (let bucket = now - now mod minute
      in if (case lastBucket of Some b \<Rightarrow> bucket \<le> b | None \<Rightarrow> False) then ret (0, lastBucket)
         else
           bnd (ShardsDoneBetween (bucket - minute) bucket) (\<lambda>rows.
           if rows = [] \<and> lastBucket = Some bucket then ret (0, lastBucket)
           else
             bnd (on_ext (queue_depths R AllStreams)) (\<lambda>qd.
             bnd (attempt (EmbeddedChunksSince (bucket - minute) bucket)) (\<lambda>r.
             bnd (TxWithRetry 3 (UpsertMetricsRollup
                    (rollup_row bucket rows (case r of Inr n \<Rightarrow> n | Inl _ \<Rightarrow> 0) qd))) (\<lambda>_.
             ret (1, Some bucket))))))"

section \<open>One pass\<close>

definition Pass ::
  "'x redis_ops \<Rightarrow> (string \<Rightarrow> int) \<Rightarrow> (StalePendingShard list \<Rightarrow> StalePendingShard list) \<Rightarrow> Settings
   \<Rightarrow> int option \<Rightarrow> ('x world, goerr, stats \<times> int option) prog" where
  "Pass R pf ord cfg lastBucket =
     bnd now_is (\<lambda>now.
     bnd (attempt RequeueExpiredLeases) (\<lambda>r0.
     case r0 of
       Inl e \<Rightarrow> raise (Wrap ''reaper: '' e)
     | Inr requeued \<Rightarrow>
     bnd (TxWithRetry 3 (escalate cfg)) (\<lambda>escalated.
     bnd NonTerminalDocs (\<lambda>docs.
     bnd (on_ext (requeueSweep R docs)) (\<lambda>reenqueued.
     bnd (on_ext (reclaim R pf cfg)) (\<lambda>(reclaimed, qs).
     bnd (if qs = [] then ret () else TxWithRetry 3 (for_each write_quarantine qs)) (\<lambda>_.
     bnd (embedSweep R docs) (\<lambda>swept.
     bnd (pendingShardSweep R pf ord now) (\<lambda>rescued.
     bnd (stuckWarn cfg now) (\<lambda>warned.
     bnd (rollup R lastBucket now) (\<lambda>(rolled, lastBucket').
     ret (\<lparr>RequeuedLeases = requeued, Escalated = escalated, Reenqueued = reenqueued,
           EmbedSwept = swept, Reclaimed = reclaimed, Quarantined = int (length qs),
           ParseRescued = rescued, StuckWarned = warned, Rollup = rolled\<rparr>, lastBucket'))))))))))))"

end
