(* ===== verification/Rules.thy ===== *)
theory Rules
  imports Janitor
begin

text \<open>
  Triples over the state-and-error computations: what holds afterwards on success and on
  error.  Used for statements about every outcome of a handler, where the transactions give
  the all-or-nothing steps (\<open>atomic\<close>) and the Redis calls change only the outside world.
\<close>

definition triple ::
  "('s \<Rightarrow> bool) \<Rightarrow> ('s, 'e, 'a) prog \<Rightarrow> ('a \<Rightarrow> 's \<Rightarrow> bool) \<Rightarrow> ('s \<Rightarrow> bool) \<Rightarrow> bool" where
  "triple P m Q E \<longleftrightarrow>
     (\<forall>w r w'. P w \<and> m w = (r, w') \<longrightarrow> (case r of Inl e \<Rightarrow> E w' | Inr x \<Rightarrow> Q x w'))"

named_theorems triple_rules \<open>composition of triples\<close>

lemma tripleD:
  assumes "triple P m Q E" "P w"
  shows "m w = (Inr x, w') \<Longrightarrow> Q x w'" and "m w = (Inl e, w') \<Longrightarrow> E w'"
  using assms unfolding triple_def by (metis old.sum.simps(6), metis old.sum.simps(5))

lemma tripleI:
  assumes "\<And>w x w'. P w \<Longrightarrow> m w = (Inr x, w') \<Longrightarrow> Q x w'"
    and "\<And>w e w'. P w \<Longrightarrow> m w = (Inl e, w') \<Longrightarrow> E w'"
  shows "triple P m Q E"
  using assms by (auto simp: triple_def split: sum.splits)

lemma triple_ret [triple_rules]: "(\<And>w. P w \<Longrightarrow> Q x w) \<Longrightarrow> triple P (ret x) Q E"
  and triple_raise [triple_rules]: "(\<And>w. P w \<Longrightarrow> E w) \<Longrightarrow> triple P (raise e) Q E"
  by (auto intro!: tripleI)

lemma triple_of_sum: "(\<And>w. P w \<Longrightarrow> E w) \<Longrightarrow> (\<And>x w. v = Inr x \<Longrightarrow> P w \<Longrightarrow> Q x w) \<Longrightarrow> triple P (of_sum v) Q E"
  by (auto intro!: tripleI)

lemma triple_bnd [triple_rules]:
  assumes "triple P m S E" "\<And>x. triple (S x) (f x) Q E"
  shows "triple P (bnd m f) Q E"
  unfolding triple_def
proof (intro allI impI, elim conjE)
  fix w r w' assume p: "P w" and b: "bnd m f w = (r, w')"
  obtain r1 w1 where m: "m w = (r1, w1)" by fastforce
  show "case r of Inl e \<Rightarrow> E w' | Inr x \<Rightarrow> Q x w'"
  proof (cases r1)
    case (Inl e)
    then show ?thesis using tripleD(2)[OF assms(1) p] b m by (auto simp: bnd_def)
  next
    case (Inr x)
    then have "S x w1" "f x w1 = (r, w')" using tripleD(1)[OF assms(1) p] b m by (simp_all add: bnd_def)
    then show ?thesis using assms(2)[of x] by (auto simp: triple_def)
  qed
qed

lemma triple_attempt:
  assumes "triple P m Q E"
  shows "triple P (attempt m) (\<lambda>r w. case r of Inl e \<Rightarrow> E w | Inr x \<Rightarrow> Q x w) F"
  using assms by (auto simp: triple_def attempt_apply split: sum.splits prod.splits)

lemma triple_conseq:
  "triple P m Q E \<Longrightarrow> (\<And>w. P' w \<Longrightarrow> P w) \<Longrightarrow> (\<And>x w. Q x w \<Longrightarrow> Q' x w) \<Longrightarrow> (\<And>w. E w \<Longrightarrow> E' w)
   \<Longrightarrow> triple P' m Q' E'"
  by (rule tripleI) (blast dest: tripleD)+

lemma triple_if [triple_rules]:
  "triple P m Q E \<Longrightarrow> triple P n Q E \<Longrightarrow> triple P (if b then m else n) Q E"
  by simp

lemma triple_for_each [triple_rules]:
  "(\<And>x. x \<in> set xs \<Longrightarrow> triple P (f x) (\<lambda>_. P) E) \<Longrightarrow> triple P (for_each f xs) (\<lambda>_. P) E"
proof (induction xs)
  case (Cons x xs)
  show ?case unfolding for_each.simps
    by (rule triple_bnd[OF Cons.prems Cons.IH]) (use Cons.prems in auto)
qed (simp add: triple_ret)

lemma triple_keeps: "triple P m (\<lambda>_. P) P \<longleftrightarrow> keeps P m"
proof
  assume a: "triple P m (\<lambda>_. P) P"
  show "keeps P m"
  proof (rule keepsI)
    fix s assume "P s"
    obtain r t where "m s = (r, t)" by fastforce
    then show "P (snd (m s))" using tripleD[OF a \<open>P s\<close>] by (cases r) auto
  qed
qed (auto simp: keeps_def triple_def split: sum.splits)

section \<open>All-or-nothing database work\<close>

definition atomic :: "('x world, goerr, 'a) prog \<Rightarrow> bool" where
  "atomic m \<longleftrightarrow> (\<forall>w e w'. m w = (Inl e, w') \<longrightarrow> db w' = db w)"

lemma atomic_pool_stmt: "atomic (pool_stmt st)"
  unfolding atomic_def by (auto dest: pool_stmt_Inl)

lemma atomic_tx_stmt: "atomic (tx_stmt st)"
  unfolding atomic_def by (auto dest: tx_stmt_Inl)

lemma atomic_Tx: "atomic (Tx fn)"
  unfolding atomic_def by (auto dest: Tx_Inl)

lemma atomic_TxWithRetry: "atomic (TxWithRetry n fn)"
  unfolding atomic_def by (auto dest: TxWithRetry_Inl)

lemmas atomic_rules = atomic_pool_stmt atomic_tx_stmt atomic_Tx atomic_TxWithRetry

text \<open>A transaction seen through the tables and the outside world.\<close>

lemma triple_db:
  assumes "post m R" "atomic m"
    and "\<And>now t x u y. p t y \<Longrightarrow> R now t x u \<Longrightarrow> q x u y"
  shows "triple (\<lambda>w. p (db w) (ext w)) m (\<lambda>x w. q x (db w) (ext w)) (\<lambda>w. p (db w) (ext w))"
proof (rule tripleI)
  fix w x w' assume a: "p (db w) (ext w)" and m: "m w = (Inr x, w')"
  show "q x (db w') (ext w')"
    using assms(3)[OF a postD[OF assms(1) m]] frameD(1)[OF post_frame[OF assms(1)] m] by simp
next
  fix w e w' assume a: "p (db w) (ext w)" and m: "m w = (Inl e, w')"
  show "p (db w') (ext w')"
    using a m assms(2) frameD(1)[OF post_frame[OF assms(1)] m] by (simp add: atomic_def)
qed

lemma triple_query:
  "triple (\<lambda>w. p (db w) (ext w)) (pool_stmt (query f)) (\<lambda>x w. x = f (db w) \<and> p (db w) (ext w)) (\<lambda>w. p (db w) (ext w))"
  by (rule triple_db[OF post_pool_stmt atomic_pool_stmt]) auto

text \<open>A Redis call seen through the tables and the outside world.\<close>

lemma triple_on_ext:
  assumes "\<And>t y r y'. p t y \<Longrightarrow> m y = (r, y') \<Longrightarrow> (case r of Inl e \<Rightarrow> e' t y' | Inr x \<Rightarrow> q x t y')"
  shows "triple (\<lambda>w. p (db w) (ext w)) (on_ext m) (\<lambda>x w. q x (db w) (ext w)) (\<lambda>w. e' (db w) (ext w))"
  using assms by (auto simp: triple_def on_ext_def split: prod.splits)

end
