(* ===== verification/MemRedis.thy ===== *)
theory MemRedis
  imports Janitor
begin

text \<open>
  The documented behaviour of the Redis commands the dedup scans and the reclaim rely on,
  stated as hypotheses on the parameter \<open>R\<close>, and an in-memory stream that has it, used to
  instantiate \<open>R\<close> in examples.
\<close>

section \<open>What is relied on\<close>

text \<open>
  In the states \<open>ok\<close>: \<open>und x s\<close> is the messages of stream \<open>s\<close> after the group's last-delivered id; \<open>ent x s i\<close>
  the message with id \<open>i\<close>, if still in the stream; \<open>pel x s\<close> the messages of the first page
  of the pending entries list.
\<close>

definition redis_view ::
  "'x redis_ops \<Rightarrow> ('x \<Rightarrow> bool) \<Rightarrow> ('x \<Rightarrow> string \<Rightarrow> msg list) \<Rightarrow> ('x \<Rightarrow> string \<Rightarrow> string \<Rightarrow> msg list)
   \<Rightarrow> ('x \<Rightarrow> string \<Rightarrow> msg list) \<Rightarrow> bool" where
  "redis_view R ok und ent pel \<longleftrightarrow>
     2 \<le> Patience R
     \<and> (\<forall>x s. ok x \<longrightarrow>
          (\<exists>gs g. XInfoGroups R s x = (Inr gs, x) \<and> find_group gs = Some g
             \<and> XRange R s (CHR ''('' # or_origin (g_LastDeliveredID g)) ''+'' x = (Inr (und x s), x))
          \<and> (und x s \<noteq> [] \<longrightarrow> XRange R s (CHR ''('' # fst (last (und x s))) ''+'' x = (Inr [], x))
          \<and> (\<exists>ps. XPendingExt R s ''-'' ''+'' (int scanPageKeys) x = (Inr ps, x)
               \<and> (\<forall>(i, n) \<in> set ps. XRange R s i i x = (Inr (ent x s i), x))
               \<and> pel x s = concat (map (\<lambda>(i, n). ent x s i) ps))
          \<and> (\<forall>raw i x'. XAdd R s raw x = (Inr i, x') \<longrightarrow> ok x' \<and> pel x' = pel x
               \<and> und x' s = und x s @ [(i, raw)] \<and> (\<forall>s'. s' \<noteq> s \<longrightarrow> und x' s' = und x s')))"

text \<open>
  \<open>cnt x s i\<close>: how often entry \<open>i\<close> of the pending entries list was delivered, 0 when it is not
  in it.  A claim delivers once more, an acknowledgement succeeds and removes, nothing else
  changes it.
\<close>

definition delivery_view :: "'x redis_ops \<Rightarrow> ('x \<Rightarrow> string \<Rightarrow> string \<Rightarrow> int) \<Rightarrow> bool" where
  "delivery_view R cnt \<longleftrightarrow>
     (\<forall>x s c idle n ms x'. XAutoClaim R s c idle n x = (Inr ms, x') \<longrightarrow>
        (\<forall>s' i. cnt x' s' i = cnt x s' i + (if s' = s \<and> i \<in> fst ` set ms then 1 else 0)))
     \<and> (\<forall>x s c idle n e x'. XAutoClaim R s c idle n x = (Inl e, x') \<longrightarrow> cnt x' = cnt x)
     \<and> (\<forall>x s i. \<exists>x'. XAck R s i x = (Inr (), x') \<and>
        (\<forall>s' j. cnt x' s' j = (if s' = s \<and> j = i then 0 else cnt x s' j)))
     \<and> (\<forall>x s i. cnt (snd (XDel R s i x)) = cnt x)
     \<and> (\<forall>x s raw. cnt (snd (XAdd R s raw x)) = cnt x)
     \<and> (\<forall>x s i r x'. XPendingExt R s i i 1 x = (r, x') \<longrightarrow>
        cnt x' = cnt x \<and> (\<forall>j n ps. r = Inr ((j, n) # ps) \<longrightarrow> n = cnt x s i))"

section \<open>An in-memory stream\<close>

record mem =
  mem_log :: "string \<Rightarrow> (nat \<times> string) list"
  mem_seen :: "string \<Rightarrow> nat"
  mem_pel :: "string \<Rightarrow> (nat \<times> int) list"
  mem_next :: nat
  mem_cnt :: "string \<Rightarrow> int"

definition id_text :: "nat \<Rightarrow> string" where
  "id_text n = nat_digits n @ ''-0''"

definition id_num :: "string \<Rightarrow> nat" where
  "id_num t = digits_value (takeWhile (\<lambda>c. c \<noteq> CHR ''-'') t) 0"

lemma id_num_text [simp]: "id_num (id_text n) = n"
proof -
  have "\<forall>c \<in> set (nat_digits n). c \<noteq> CHR ''-''" using nat_digits_chars(1) by blast
  then have "takeWhile (\<lambda>c. c \<noteq> CHR ''-'') (id_text n) = nat_digits n"
    by (simp add: id_text_def takeWhile_append)
  then show ?thesis by (simp add: id_num_def digits_value_digits)
qed

lemma id_text_inj [simp]: "id_text m = id_text n \<longleftrightarrow> m = n"
  by (metis id_num_text)

definition as_msg :: "nat \<times> string \<Rightarrow> msg" where
  "as_msg e = (id_text (fst e), snd e)"

definition mem_after :: "mem \<Rightarrow> string \<Rightarrow> nat \<Rightarrow> msg list" where
  "mem_after x s n = map as_msg (filter (\<lambda>e. n < fst e) (mem_log x s))"

definition mem_entry :: "mem \<Rightarrow> string \<Rightarrow> nat \<Rightarrow> msg list" where
  "mem_entry x s n = map as_msg (filter (\<lambda>e. fst e = n) (mem_log x s))"

text \<open>Ids only ever grow past everything in the log and the cursors.\<close>

definition mem_add :: "string \<Rightarrow> string \<Rightarrow> mem \<Rightarrow> (goerr + string) \<times> mem" where
  "mem_add s raw x =
     (let n = Suc (Max (set (mem_next x # mem_seen x s # map fst (mem_log x s) @ map fst (mem_pel x s))))
      in (Inr (id_text n), x\<lparr>mem_log := (mem_log x)(s := mem_log x s @ [(n, raw)]), mem_next := n\<rparr>))"

definition mem_range :: "string \<Rightarrow> string \<Rightarrow> string \<Rightarrow> mem \<Rightarrow> (goerr + msg list) \<times> mem" where
  "mem_range s start stop x =
     (case start of
        c # cursor \<Rightarrow>
          if c = CHR ''('' then (Inr (mem_after x s (id_num cursor)), x)
          else (Inr (mem_entry x s (id_num start)), x)
      | [] \<Rightarrow> (Inr [], x))"

definition mem_info :: "string \<Rightarrow> mem \<Rightarrow> (goerr + group_info list) \<times> mem" where
  "mem_info s x =
     (Inr [\<lparr>g_Name = ConsumerGroup, g_Lag = int (length (mem_after x s (mem_seen x s))),
            g_LastDeliveredID = id_text (mem_seen x s)\<rparr>], x)"

definition mem_pending :: "string \<Rightarrow> string \<Rightarrow> string \<Rightarrow> int \<Rightarrow> mem \<Rightarrow> (goerr + (string \<times> int) list) \<times> mem" where
  "mem_pending s a b n x =
     (if a = ''-'' \<and> b = ''+'' then (Inr (map (\<lambda>(i, k). (id_text i, k)) (take (nat n) (mem_pel x s))), x)
      else (Inr (map (\<lambda>(i, k). (id_text i, k)) (filter (\<lambda>(i, k). id_text i = a) (mem_pel x s))), x))"

text \<open>Delivery of what the group has not seen; every undelivered entry at once when \<open>n\<close> allows.\<close>

definition mem_read :: "string \<Rightarrow> string \<Rightarrow> int \<Rightarrow> int \<Rightarrow> mem \<Rightarrow> (goerr + msg list option) \<times> mem" where
  "mem_read s c n blk x =
     (let es = take (nat n) (filter (\<lambda>e. mem_seen x s < fst e) (mem_log x s))
      in if es = [] then (Inr None, x)
         else (Inr (Some (map as_msg es)),
               x\<lparr>mem_seen := (mem_seen x)(s := fst (last es)),
                 mem_pel := (mem_pel x)(s := mem_pel x s @ map (\<lambda>e. (fst e, 1)) es)\<rparr>))"

definition mem_ack :: "string \<Rightarrow> string \<Rightarrow> mem \<Rightarrow> (goerr + unit) \<times> mem" where
  "mem_ack s i x = (Inr (), x\<lparr>mem_pel := (mem_pel x)(s := filter (\<lambda>(j, k). id_text j \<noteq> i) (mem_pel x s))\<rparr>)"

definition mem_del :: "string \<Rightarrow> string \<Rightarrow> mem \<Rightarrow> (goerr + unit) \<times> mem" where
  "mem_del s i x = (Inr (), x\<lparr>mem_log := (mem_log x)(s := filter (\<lambda>e. id_text (fst e) \<noteq> i) (mem_log x s))\<rparr>)"

text \<open>Every pending entry still in the stream counts as idle long enough.\<close>

definition mem_claim :: "string \<Rightarrow> string \<Rightarrow> int \<Rightarrow> int \<Rightarrow> mem \<Rightarrow> (goerr + msg list) \<times> mem" where
  "mem_claim s c idle n x =
     (let ms = filter (\<lambda>e. fst e \<in> fst ` set (mem_pel x s)) (mem_log x s)
      in (Inr (map as_msg ms),
          x\<lparr>mem_pel := (mem_pel x)(s := map (\<lambda>(i, k). (i, if i \<in> fst ` set ms then k + 1 else k)) (mem_pel x s))\<rparr>))"

definition mem_redis :: "mem redis_ops" where
  "mem_redis = \<lparr>
     XGroupCreateMkStream = (\<lambda>s g i x. (Inr (), x)),
     XAdd = mem_add, XReadGroup = mem_read, XAck = mem_ack, XDel = mem_del, XAutoClaim = mem_claim,
     XInfoGroups = mem_info, XRange = mem_range,
     XPending = (\<lambda>s x. (Inr (int (length (mem_pel x s))), x)),
     XPendingExt = mem_pending,
     Incr = (\<lambda>k x. (Inr (mem_cnt x k + 1), x\<lparr>mem_cnt := (mem_cnt x)(k := mem_cnt x k + 1)\<rparr>)),
     Expire = (\<lambda>k t x. (Inr (), x)),
     Del = (\<lambda>k x. (Inr (), x\<lparr>mem_cnt := (mem_cnt x)(k := 0)\<rparr>)),
     Patience = 2\<rparr>"

lemma mem_redis_sel [simp]:
  "XAdd mem_redis = mem_add" "XReadGroup mem_redis = mem_read" "XAck mem_redis = mem_ack"
  "XDel mem_redis = mem_del" "XAutoClaim mem_redis = mem_claim" "XInfoGroups mem_redis = mem_info"
  "XRange mem_redis = mem_range" "XPendingExt mem_redis = mem_pending" "Patience mem_redis = 2"
  by (simp_all add: mem_redis_def)

definition mem_empty :: mem where
  "mem_empty = \<lparr>mem_log = (\<lambda>_. []), mem_seen = (\<lambda>_. 0), mem_pel = (\<lambda>_. []), mem_next = 0, mem_cnt = (\<lambda>_. 0)\<rparr>"

section \<open>The in-memory stream has the documented behaviour\<close>

definition mem_und :: "mem \<Rightarrow> string \<Rightarrow> msg list" where
  "mem_und x s = mem_after x s (mem_seen x s)"

definition mem_ok :: "mem \<Rightarrow> bool" where
  "mem_ok x \<longleftrightarrow> (\<forall>s. sorted_wrt (<) (map fst (mem_log x s)))"

definition mem_ent :: "mem \<Rightarrow> string \<Rightarrow> string \<Rightarrow> msg list" where
  "mem_ent x s i = mem_entry x s (id_num i)"

definition mem_pelv :: "mem \<Rightarrow> string \<Rightarrow> msg list" where
  "mem_pelv x s = concat (map (\<lambda>(i, n). mem_entry x s i) (take scanPageKeys (mem_pel x s)))"

lemma after_last:
  fixes es :: "(nat \<times> string) list"
  assumes "sorted_wrt (<) (map fst es)" "filter (\<lambda>e. n < fst e) es \<noteq> []"
  shows "filter (\<lambda>e. fst (last (filter (\<lambda>e. n < fst e) es)) < fst e) es = []"
proof -
  let ?f = "filter (\<lambda>e. n < fst e) es"
  have s: "sorted_wrt (\<lambda>a b. fst a < fst b) ?f" using assms(1) by (simp add: sorted_wrt_map sorted_wrt_filter)
  have "fst e \<le> fst (last ?f)" if "e \<in> set ?f" for e
  proof -
    obtain u where u: "?f = u @ [last ?f]" using assms(2) by (metis append_butlast_last_id)
    then have "sorted_wrt (\<lambda>a b. fst a < fst b) (u @ [last ?f])" using s by metis
    moreover have "e \<in> set u \<or> e = last ?f" using that u by (metis Un_iff empty_iff insert_iff list.set set_append)
    ultimately show ?thesis by (auto simp: sorted_wrt_append intro: less_imp_le)
  qed
  moreover have "n < fst (last ?f)" using assms(2) last_in_set[of ?f] by simp
  ultimately show ?thesis by (auto simp: filter_empty_conv not_less) (metis le_less_trans less_imp_le not_less)
qed

lemma mem_add_props:
  assumes "mem_ok x" "mem_add s raw x = (Inr i, x')"
  shows "mem_ok x'" "mem_pelv x' = mem_pelv x" "mem_und x' s = mem_und x s @ [(i, raw)]"
    and "s' \<noteq> s \<Longrightarrow> mem_und x' s' = mem_und x s'"
proof -
  define m where "m = Max (set (mem_next x # mem_seen x s # map fst (mem_log x s) @ map fst (mem_pel x s)))"
  have x': "i = id_text (Suc m)" "x' = x\<lparr>mem_log := (mem_log x)(s := mem_log x s @ [(Suc m, raw)]), mem_next := Suc m\<rparr>"
    using assms(2) by (simp_all add: mem_add_def m_def Let_def)
  have le: "k \<le> m" if "k \<in> set (mem_next x # mem_seen x s # map fst (mem_log x s) @ map fst (mem_pel x s))" for k
    unfolding m_def using that by (intro Max_ge) auto
  have old: "fst e < Suc m" if "e \<in> set (mem_log x s)" for e using le[of "fst e"] that by auto
  show "mem_ok x'" using assms(1) old by (auto simp: mem_ok_def x' sorted_wrt_append)
  have "mem_seen x s < Suc m" using le[of "mem_seen x s"] by simp
  then show "mem_und x' s = mem_und x s @ [(i, raw)]" by (simp add: mem_und_def mem_after_def x' as_msg_def)
  show "s' \<noteq> s \<Longrightarrow> mem_und x' s' = mem_und x s'" by (simp add: mem_und_def mem_after_def x')
  have pel: "p < Suc m" if "p \<in> fst ` set (mem_pel x s)" for p using le[of p] that by auto
  have ent: "mem_entry x' s' p = mem_entry x s' p" if "p \<in> fst ` set (mem_pel x s')" for s' p
  proof (cases "s' = s")
    case True
    then have "p \<noteq> Suc m" using that pel by blast
    then show ?thesis by (auto simp: mem_entry_def x')
  qed (simp add: mem_entry_def x')
  have "mem_pelv x' s' = mem_pelv x s'" for s'
  proof -
    have "map (\<lambda>(i, n). mem_entry x' s' i) (take scanPageKeys (mem_pel x s'))
        = map (\<lambda>(i, n). mem_entry x s' i) (take scanPageKeys (mem_pel x s'))"
      using ent by (force dest: in_set_takeD)
    moreover have "mem_pel x' = mem_pel x" by (simp add: x')
    ultimately show ?thesis by (simp only: mem_pelv_def)
  qed
  then show "mem_pelv x' = mem_pelv x" by (rule ext)
qed

lemma text_not_special:
  "id_text n \<noteq> ''-''" "hd (id_text n) \<noteq> CHR ''(''" "id_text n \<noteq> []"
proof -
  obtain c ds where cs: "nat_digits n = c # ds" by (cases "nat_digits n") auto
  obtain d :: nat where d: "d < 10" "c = char_of (48 + d)"
    using nat_digits_set[of n] cs by auto
  have "(of_char c :: nat) = 48 + d" using d by simp
  then have "c \<noteq> CHR ''(''" using d(1) by auto
  then show "id_text n \<noteq> ''-''" "hd (id_text n) \<noteq> CHR ''(''" "id_text n \<noteq> []"
    using cs by (simp_all add: id_text_def)
qed

lemma mem_range_after: "mem_range s (CHR ''('' # id_text n) b x = (Inr (mem_after x s n), x)"
  by (simp add: mem_range_def)

lemma mem_range_entry: "mem_range s (id_text n) b x = (Inr (mem_ent x s (id_text n)), x)"
  using text_not_special[of n] by (cases "id_text n") (auto simp: mem_range_def mem_ent_def)

lemma mem_redis_view: "redis_view mem_redis mem_ok mem_und mem_ent mem_pelv"
  unfolding redis_view_def
proof (intro conjI allI impI)
  fix x s
  assume ok: "mem_ok x"
  show "\<exists>gs g. XInfoGroups mem_redis s x = (Inr gs, x) \<and> find_group gs = Some g
      \<and> XRange mem_redis s (CHR ''('' # or_origin (g_LastDeliveredID g)) ''+'' x = (Inr (mem_und x s), x)"
    by (simp add: mem_info_def find_group_def or_origin_def text_not_special mem_range_after mem_und_def)
  show "\<exists>ps. XPendingExt mem_redis s ''-'' ''+'' (int scanPageKeys) x = (Inr ps, x)
      \<and> (\<forall>(i, n) \<in> set ps. XRange mem_redis s i i x = (Inr (mem_ent x s i), x))
      \<and> mem_pelv x s = concat (map (\<lambda>(i, n). mem_ent x s i) ps)"
    by (auto simp: mem_pending_def mem_range_entry mem_pelv_def mem_ent_def comp_def split_def)
  show "XRange mem_redis s (CHR ''('' # fst (last (mem_und x s))) ''+'' x = (Inr [], x)" if ne: "mem_und x s \<noteq> []"
  proof -
    let ?f = "filter (\<lambda>e. mem_seen x s < fst e) (mem_log x s)"
    have "?f \<noteq> []" using ne by (simp add: mem_und_def mem_after_def)
    then have "last (mem_und x s) = as_msg (last ?f)" by (simp add: mem_und_def mem_after_def last_map)
    moreover have "mem_after x s (fst (last ?f)) = []"
      using after_last[OF _ \<open>?f \<noteq> []\<close>] ok by (simp add: mem_after_def mem_ok_def)
    ultimately show ?thesis by (simp add: as_msg_def mem_range_after)
  qed
  fix raw i x'
  assume "XAdd mem_redis s raw x = (Inr i, x')"
  then have add: "mem_add s raw x = (Inr i, x')" by simp
  note p = mem_add_props[OF ok add]
  show "mem_ok x'" "mem_pelv x' = mem_pelv x" "mem_und x' s = mem_und x s @ [(i, raw)]" by (rule p)+
  show "mem_und x' s' = mem_und x s'" if "s' \<noteq> s" for s' by (rule p(4)[OF that])
qed simp

definition mem_count :: "mem \<Rightarrow> string \<Rightarrow> string \<Rightarrow> int" where
  "mem_count x s i = (case find (\<lambda>(j, k). id_text j = i) (mem_pel x s) of Some (j, k) \<Rightarrow> k | None \<Rightarrow> 0)"

lemma find_map_key:
  "(\<And>j k. g (j, k) = (j, h j k)) \<Longrightarrow>
   find (\<lambda>(j, k). P j) (map g xs) = map_option g (find (\<lambda>(j, k). P j) xs)"
  by (induction xs) auto

lemma mem_count_claim:
  assumes "mem_claim s c idle n x = (Inr ms, x')"
  shows "mem_count x' s' i = mem_count x s' i + (if s' = s \<and> i \<in> fst ` set ms then 1 else 0)"
proof -
  let ?es = "filter (\<lambda>e. fst e \<in> fst ` set (mem_pel x s)) (mem_log x s)"
  let ?g = "\<lambda>(j, k). (j, if j \<in> fst ` set ?es then k + 1 else k)"
  have x': "ms = map as_msg ?es" "x' = x\<lparr>mem_pel := (mem_pel x)(s := map ?g (mem_pel x s))\<rparr>"
    using assms by (simp_all add: mem_claim_def Let_def)
  show ?thesis
  proof (cases "s' = s")
    case True
    have f: "find (\<lambda>(j, k). id_text j = i) (map ?g (mem_pel x s)) = map_option ?g (find (\<lambda>(j, k). id_text j = i) (mem_pel x s))"
      by (rule find_map_key) simp
    show ?thesis
    proof (cases "find (\<lambda>(j, k). id_text j = i) (mem_pel x s)")
      case None
      then have "i \<notin> fst ` set ms" by (force simp: find_None_iff x' as_msg_def)
      then show ?thesis using None f True by (simp add: mem_count_def x')
    next
      case (Some jk)
      obtain j k where jk: "jk = (j, k)" by fastforce
      then have "id_text j = i" using Some by (auto simp: find_Some_iff)
      then have "i \<in> fst ` set ms \<longleftrightarrow> j \<in> fst ` set ?es" by (force simp: x' as_msg_def)
      then show ?thesis using Some f True jk by (simp add: mem_count_def x')
    qed
  qed (simp add: mem_count_def x')
qed

lemma find_filter_other:
  "find (\<lambda>(j, k). id_text j = i) (filter (\<lambda>(j, k). id_text j \<noteq> a) xs)
   = (if i = a then None else find (\<lambda>(j, k). id_text j = i) xs)"
  by (induction xs) auto

lemma mem_delivery_view: "delivery_view mem_redis mem_count"
  unfolding delivery_view_def
proof (intro conjI allI impI)
  show "mem_count x' s' i = mem_count x s' i + (if s' = s \<and> i \<in> fst ` set ms then 1 else 0)"
    if "XAutoClaim mem_redis s c idle n x = (Inr ms, x')" for x s c idle n ms x' s' i
    using mem_count_claim that by simp
  show "mem_count x' = mem_count x" if "XAutoClaim mem_redis s c idle n x = (Inl e, x')" for x s c idle n e x'
    using that by (simp add: mem_claim_def Let_def)
  show "\<exists>x'. XAck mem_redis s i x = (Inr (), x')
      \<and> (\<forall>s' j. mem_count x' s' j = (if s' = s \<and> j = i then 0 else mem_count x s' j))" for x s i
    by (auto simp: mem_ack_def mem_count_def find_filter_other)
  show "mem_count (snd (XDel mem_redis s i x)) = mem_count x" for x s i
    by (simp add: mem_del_def mem_count_def fun_eq_iff)
  show "mem_count (snd (XAdd mem_redis s raw x)) = mem_count x" for x s raw
    by (simp add: mem_add_def mem_count_def fun_eq_iff Let_def)
  fix x s i r x'
  assume p: "XPendingExt mem_redis s i i 1 x = (r, x')"
  show "mem_count x' = mem_count x" using p by (simp add: mem_pending_def split: if_splits)
  fix j n ps
  assume r: "r = Inr ((j, n) # ps)"
  have hd: "find (\<lambda>(j, k). id_text j = i) xs = Some (hd (filter (\<lambda>(j, k). id_text j = i) xs))"
    if "filter (\<lambda>(j, k). id_text j = i) xs \<noteq> []" for xs
    using that by (induction xs) auto
  have m: "map (\<lambda>(i, k). (id_text i, k)) (filter (\<lambda>(j, k). id_text j = i) (mem_pel x s)) = (j, n) # ps"
    using p r by (auto simp: mem_pending_def split: if_splits)
  then obtain a where "hd (filter (\<lambda>(j, k). id_text j = i) (mem_pel x s)) = (a, n)"
    "filter (\<lambda>(j, k). id_text j = i) (mem_pel x s) \<noteq> []"
    by (cases "filter (\<lambda>(j, k). id_text j = i) (mem_pel x s)") auto
  then have "find (\<lambda>(j, k). id_text j = i) (mem_pel x s) = Some (a, n)" using hd by metis
  then show "n = mem_count x s i" by (simp add: mem_count_def)
qed

end
