(* ===== verification/Dedup.thy ===== *)
theory Dedup
  imports MemRedis
begin

text \<open>
  What the janitor's sweeps and its reclaim promise, over any Redis with the documented
  behaviour: the dedup scans see every undelivered job and the first page of pending ones,
  so a sweep never enqueues a job twice; and a reclaimed entry starts over as a fresh one.
\<close>

section \<open>What a dedup scan sees\<close>

lemma on_ext_Inr: "on_ext m w = (Inr a, w') \<longleftrightarrow> (\<exists>x. m (ext w) = (Inr a, x) \<and> w' = w\<lparr>ext := x\<rparr>)"
  by (auto simp: on_ext_def split: prod.splits)

lemma keys_of_append: "keys_of f (xs @ ys) = keys_of f xs @ keys_of f ys"
  by (simp add: keys_of_def List.map_filter_def)

lemma keys_of_mem: "k \<in> set (keys_of f ms) \<longleftrightarrow> (\<exists>(i, raw) \<in> set ms. payloadKeyOf raw f = Some k)"
  by (induction ms) (auto simp: keys_of_def List.map_filter_simps split: option.splits)

lemma redis_viewD:
  assumes "redis_view R ok und ent pel" "ok x"
  shows "2 \<le> Patience R"
    and "\<exists>gs g. XInfoGroups R s x = (Inr gs, x) \<and> find_group gs = Some g
             \<and> XRange R s (CHR ''('' # or_origin (g_LastDeliveredID g)) ''+'' x = (Inr (und x s), x)"
    and "und x s \<noteq> [] \<Longrightarrow> XRange R s (CHR ''('' # fst (last (und x s))) ''+'' x = (Inr [], x)"
    and "\<exists>ps. XPendingExt R s ''-'' ''+'' (int scanPageKeys) x = (Inr ps, x)
               \<and> (\<forall>(i, n) \<in> set ps. XRange R s i i x = (Inr (ent x s i), x))
               \<and> pel x s = concat (map (\<lambda>(i, n). ent x s i) ps)"
    and "XAdd R s raw x = (Inr i, x') \<Longrightarrow> ok x' \<and> pel x' = pel x
               \<and> und x' s = und x s @ [(i, raw)] \<and> (\<forall>s'. s' \<noteq> s \<longrightarrow> und x' s' = und x s')"
  using assms unfolding redis_view_def by blast+

lemma pel_messages_view:
  "\<forall>(i, n) \<in> set ps. XRange R s i i x = (Inr (e i), x) \<Longrightarrow>
   pel_messages R s ps x = (Inr (concat (map (\<lambda>(i, n). e i) ps)), x)"
  by (induction ps) (auto simp: bnd_def attempt_def)

lemma pending_keys:
  assumes "redis_view R ok und ent pel" "ok x"
  shows "PendingJobKeys R s keyOf x = (Inr (keys_of keyOf (und x s @ pel x s)), x)"
proof -
  note v = redis_viewD[OF assms]
  obtain gs g where g: "XInfoGroups R s x = (Inr gs, x)" "find_group gs = Some g"
    "XRange R s (CHR ''('' # or_origin (g_LastDeliveredID g)) ''+'' x = (Inr (und x s), x)" using v(2)[of s] by blast
  obtain ps where ps: "XPendingExt R s ''-'' ''+'' (int scanPageKeys) x = (Inr ps, x)"
    "\<forall>(i, n) \<in> set ps. XRange R s i i x = (Inr (ent x s i), x)"
    "pel x s = concat (map (\<lambda>(i, n). ent x s i) ps)" using v(4)[of s] by blast
  obtain k where k: "Patience R = Suc (Suc k)" using v(1) by (metis add_2_eq_Suc le_Suc_ex)
  have tail: "scan_tail R (Patience R) s (CHR ''('' # or_origin (g_LastDeliveredID g)) x = (Inr (und x s), x)"
  proof (cases "length (und x s) < scanPageKeys")
    case True
    then show ?thesis using g(3) by (simp add: k bnd_def)
  next
    case False
    then have "und x s \<noteq> []" by (auto simp: scanPageKeys_def)
    then show ?thesis using g(3) v(3)[of s] False by (simp add: k bnd_def scanPageKeys_def)
  qed
  show ?thesis
    using g tail ps pel_messages_view[of ps R s x "ent x s"]
    by (simp add: PendingJobKeys_def bnd_def keys_of_append)
qed

section \<open>Adding jobs\<close>

text \<open>\<open>x'\<close> is \<open>x\<close> with messages \<open>raws\<close> added to stream \<open>s\<close>.\<close>

definition added ::
  "('x \<Rightarrow> bool) \<Rightarrow> ('x \<Rightarrow> string \<Rightarrow> msg list) \<Rightarrow> ('x \<Rightarrow> string \<Rightarrow> msg list) \<Rightarrow> string \<Rightarrow> string list \<Rightarrow> 'x \<Rightarrow> 'x \<Rightarrow> bool" where
  "added ok und pel s raws x x' \<longleftrightarrow>
     ok x' \<and> pel x' = pel x \<and> (\<exists>ids. length ids = length raws \<and> und x' s = und x s @ zip ids raws)
     \<and> (\<forall>s'. s' \<noteq> s \<longrightarrow> und x' s' = und x s')"

lemma added_none: "ok x \<Longrightarrow> added ok und pel s [] x x"
  by (simp add: added_def)

lemma added_step:
  assumes "redis_view R ok und ent pel" "ok x" "XAdd R s raw x = (Inr i, x1)" "added ok und pel s raws x1 x'"
  shows "added ok und pel s (raw # raws) x x'"
proof -
  note a = redis_viewD(5)[OF assms(1-3)]
  obtain ids where "length ids = length raws" "und x' s = und x1 s @ zip ids raws"
    using assms(4) by (auto simp: added_def)
  then have "length (i # ids) = length (raw # raws)" "und x' s = und x s @ zip (i # ids) (raw # raws)"
    using a by simp_all
  then show ?thesis using a assms(4) unfolding added_def by metis
qed

lemma added_keys:
  assumes "added ok und pel s raws x x'"
  shows "set (keys_of f (und x' s @ pel x' s))
    = set (keys_of f (und x s @ pel x s)) \<union> {k. \<exists>raw \<in> set raws. payloadKeyOf raw f = Some k}"
proof -
  obtain ids where ids: "length ids = length raws" "und x' s = und x s @ zip ids raws" "pel x' = pel x"
    using assms by (auto simp: added_def)
  have "set (keys_of f (zip ids raws)) = {k. \<exists>raw \<in> set raws. payloadKeyOf raw f = Some k}"
  proof -
    have "snd ` set (zip ids raws) = set raws" using ids(1) by (metis list.set_map map_snd_zip)
    then show ?thesis by (force simp: keys_of_mem image_iff)
  qed
  then show ?thesis by (auto simp: ids keys_of_append)
qed

lemma added_raws:
  "added ok und pel s raws x x' \<Longrightarrow> map snd (und x' s) = map snd (und x s) @ raws"
  by (auto simp: added_def)

text \<open>The keys of the payloads the sweeps produce.\<close>

lemma split_key:
  assumes "valid_utf8 (d_ID d)" "valid_utf8 (d_SourceURI d)" "d_ID d \<noteq> []"
  shows "payloadKeyOf (MarshalJob (split_fields (split_job_of d))) docIDKey = Some (d_ID d)"
proof -
  obtain m where "unmarshal (MarshalJob (split_fields (split_job_of d))) = Some (Some m)"
    "map_of m = map_of (map (\<lambda>(k, v). (k, field_json v)) (split_fields (split_job_of d)))"
    using split_payload[of "split_job_of d"] assms by (auto simp: split_job_of_def)
  then show ?thesis using assms(3)
    by (simp add: payloadKeyOf_def docIDKey_def get_str_def split_fields_def split_job_of_def)
qed

lemma embed_key:
  assumes "valid_utf8 i" "i \<noteq> []"
  shows "payloadKeyOf (MarshalJob (embed_fields (embed_job_of i))) docIDKey = Some i"
proof -
  obtain m where "unmarshal (MarshalJob (embed_fields (embed_job_of i))) = Some (Some m)"
    "map_of m = map_of (map (\<lambda>(k, v). (k, field_json v)) (embed_fields (embed_job_of i)))"
    using embed_payload[of "embed_job_of i"] assms by (auto simp: embed_job_of_def)
  then show ?thesis using assms(2)
    by (simp add: payloadKeyOf_def docIDKey_def get_str_def embed_fields_def embed_job_of_def)
qed

lemma parse_key:
  assumes "valid_utf8 (pj_DocID j)" "valid_utf8 (pj_SourceURI j)" "pj_DocID j \<noteq> []" "\<bar>pj_Idx j\<bar> < 10 ^ 15"
  shows "payloadKeyOf (MarshalJob (parse_fields j)) (parseJobKey pf) = Some (parseJobKeyOf (pj_DocID j) (pj_Idx j))"
proof -
  obtain m where m: "unmarshal (MarshalJob (parse_fields j)) = Some (Some m)"
    "map_of m = map_of (map (\<lambda>(k, v). (k, field_json v)) (parse_fields j))"
    using parse_payload[OF assms(1,2)] .
  have "get_str m ''doc_id'' = Some (pj_DocID j)" "get_num pf m ''idx'' = Some (pj_Idx j)"
    using assms(4) by (simp_all add: get_str_def get_num_def m(2) parse_fields_def num_int_itoa)
  then show ?thesis using m(1) assms(3) by (simp add: payloadKeyOf_def parseJobKey_def)
qed

section \<open>The split requeue\<close>

definition split_due :: "string list \<Rightarrow> Document \<Rightarrow> bool" where
  "split_due queued d \<longleftrightarrow> d_State d = StateUploaded \<and> d_ID d \<notin> set queued"

lemma requeue_docs_added:
  assumes "redis_view R ok und ent pel" "ok x" "requeue_docs R queued docs n x = (Inr k, x')"
  shows "k = n + int (length (filter (split_due queued) docs))
    \<and> added ok und pel StreamSplit (map (\<lambda>d. MarshalJob (split_fields (split_job_of d))) (filter (split_due queued) docs)) x x'"
  using assms
proof (induction docs arbitrary: n x)
  case (Cons d docs)
  show ?case
  proof (cases "split_due queued d")
    case True
    then obtain i x1 where add: "XAdd R StreamSplit (MarshalJob (split_fields (split_job_of d))) x = (Inr i, x1)"
      and rest: "requeue_docs R queued docs (n + 1) x1 = (Inr k, x')"
      using Cons.prems(3) by (auto simp: split_due_def XAddJob_def bnd_eq_Inr)
    have "ok x1" using redis_viewD(5)[OF Cons.prems(1,2) add] by blast
    note ih = Cons.IH[OF Cons.prems(1) this rest]
    show ?thesis using ih added_step[OF Cons.prems(1,2) add conjunct2[OF ih]] True by simp
  next
    case False
    then have "requeue_docs R queued docs n x = (Inr k, x')"
      using Cons.prems(3) by (auto simp: split_due_def split: if_splits)
    then show ?thesis using Cons.IH[OF Cons.prems(1,2)] False by simp
  qed
qed (simp add: added_none)

lemma requeue_docs_none:
  "\<forall>d \<in> set docs. \<not> split_due queued d \<Longrightarrow> requeue_docs R queued docs n = ret n"
  by (induction docs) (auto simp: split_due_def)

text \<open>
  C10. The split requeue enqueues exactly one split job for each uploaded document without
  one among the undelivered and (first page of) pending jobs, and running it again at once
  enqueues nothing.
\<close>

theorem requeueSweep_once:
  assumes "redis_view R ok und ent pel" "ok x"
    and "\<forall>d \<in> set docs. valid_utf8 (d_ID d) \<and> valid_utf8 (d_SourceURI d) \<and> d_ID d \<noteq> []"
    and "requeueSweep R docs x = (Inr n, x')"
  shows "(let due = filter (split_due (keys_of docIDKey (und x StreamSplit @ pel x StreamSplit))) docs
          in n = int (length due)
             \<and> map snd (und x' StreamSplit) = map snd (und x StreamSplit)
                 @ map (\<lambda>d. MarshalJob (split_fields (split_job_of d))) due)
    \<and> requeueSweep R docs x' = (Inr 0, x')"
proof -
  let ?q = "keys_of docIDKey (und x StreamSplit @ pel x StreamSplit)"
  have run: "requeue_docs R ?q docs 0 x = (Inr n, x')"
    using assms(4) pending_keys[OF assms(1,2)]
    by (simp add: requeueSweep_def PendingJobDocIDs_def bnd_def attempt_def)
  note a = requeue_docs_added[OF assms(1,2) run]
  let ?raws = "map (\<lambda>d. MarshalJob (split_fields (split_job_of d))) (filter (split_due ?q) docs)"
  have okx: "ok x'" using a by (simp add: added_def)
  let ?q' = "keys_of docIDKey (und x' StreamSplit @ pel x' StreamSplit)"
  have "\<not> split_due ?q' d" if "d \<in> set docs" for d
  proof
    assume due: "split_due ?q' d"
    have "set ?q' = set ?q \<union> {k. \<exists>raw \<in> set ?raws. payloadKeyOf raw docIDKey = Some k}"
      by (rule added_keys[OF conjunct2[OF a]])
    moreover have "payloadKeyOf (MarshalJob (split_fields (split_job_of d))) docIDKey = Some (d_ID d)"
      using split_key assms(3) that by blast
    ultimately show False using due that by (auto simp: split_due_def)
  qed
  then have "requeueSweep R docs x' = (Inr 0, x')"
    using pending_keys[OF assms(1) okx] requeue_docs_none[of docs ?q' R 0]
    by (simp add: requeueSweep_def PendingJobDocIDs_def bnd_def attempt_def)
  then show ?thesis using a added_raws[OF conjunct2[OF a]] by (simp add: Let_def)
qed

lemma requeueSweep_once_witness:
  "\<exists>x'. requeueSweep mem_redis [sample_doc\<lparr>d_State := StateUploaded\<rparr>] mem_empty = (Inr 1, x')
     \<and> requeueSweep mem_redis [sample_doc\<lparr>d_State := StateUploaded\<rparr>] x' = (Inr 0, x')"
proof -
  let ?d = "sample_doc\<lparr>d_State := StateUploaded\<rparr>"
  have ok: "mem_ok mem_empty" by (simp add: mem_ok_def mem_empty_def)
  have e: "mem_und mem_empty s = []" "mem_pelv mem_empty s = []" for s
    by (simp_all add: mem_und_def mem_pelv_def mem_after_def mem_empty_def)
  have v: "\<forall>d \<in> set [?d]. valid_utf8 (d_ID d) \<and> valid_utf8 (d_SourceURI d) \<and> d_ID d \<noteq> []"
    by (simp add: sample_doc_def ascii_valid)
  obtain n x' where run: "requeueSweep mem_redis [?d] mem_empty = (Inr n, x')"
    using pending_keys[OF mem_redis_view ok]
    by (simp add: e keys_of_def List.map_filter_def requeueSweep_def PendingJobDocIDs_def bnd_def attempt_def
        XAddJob_def mem_add_def Let_def)
  show ?thesis using requeueSweep_once[OF mem_redis_view ok v run] run
    by (simp add: e keys_of_def List.map_filter_def split_due_def Let_def)
qed

section \<open>The embed sweep\<close>

lemma embed_docs_added:
  assumes "redis_view R ok und ent pel" "ok x" "embed_docs R queued docs x = (Inr ids, x')"
  shows "ids = map d_ID (filter (embed_due queued) docs)
    \<and> added ok und pel StreamEmbed (map (\<lambda>i. MarshalJob (embed_fields (embed_job_of i))) ids) x x'"
  using assms
proof (induction docs arbitrary: ids x)
  case (Cons d docs)
  show ?case
  proof (cases "embed_due queued d")
    case True
    then obtain i x1 ids1 where add: "XAdd R StreamEmbed (MarshalJob (embed_fields (embed_job_of (d_ID d)))) x = (Inr i, x1)"
      and rest: "embed_docs R queued docs x1 = (Inr ids1, x')" and ids: "ids = d_ID d # ids1"
      using Cons.prems(3) by (auto simp: XAddJob_def bnd_eq_Inr)
    have "ok x1" using redis_viewD(5)[OF Cons.prems(1,2) add] by blast
    note ih = Cons.IH[OF Cons.prems(1) this rest]
    show ?thesis using ih added_step[OF Cons.prems(1,2) add conjunct2[OF ih]] True ids by simp
  next
    case False
    then have "embed_docs R queued docs x = (Inr ids, x')" using Cons.prems(3) by simp
    then show ?thesis using Cons.IH[OF Cons.prems(1,2)] False by (simp only: filter.simps if_False)
  qed
qed (simp add: added_none)

lemma embed_docs_none:
  "\<forall>d \<in> set docs. \<not> embed_due queued d \<Longrightarrow> embed_docs R queued docs = ret []"
  by (induction docs) auto

text \<open>Event rows written one by one.\<close>

lemma post_events:
  "post (for_each (\<lambda>i. tx_stmt (exec (\<lambda>now t. t\<lparr>events := events t @ [ev i now]\<rparr>))) xs)
     (\<lambda>now t x u. u = t\<lparr>events := events t @ map (\<lambda>i. ev i now) xs\<rparr>)"
proof (induction xs)
  case Nil
  show ?case unfolding for_each.simps by (rule post_weaken[OF post_ret]) simp
next
  case (Cons i xs)
  show ?case unfolding for_each.simps
    by (rule post_weaken[OF post_bnd[OF post_tx_stmt Cons.IH]]) auto
qed

lemma write_event_stmt:
  "WriteEvent level stage msg d i c wk cx = tx_stmt (exec (\<lambda>now t. t\<lparr>events := events t @ [new_event level stage msg d i c wk cx now]\<rparr>))"
  by (simp add: WriteEvent_def insert_event_def[abs_def])

text \<open>
  The embed sweep enqueues exactly one embed job, and writes one rescue event, for each
  document in parsing that is settled and has none undelivered or pending; run again at once
  it enqueues nothing and writes nothing.
\<close>

theorem embedSweep_once:
  assumes "redis_view R ok und ent pel" "ok (ext w)"
    and "\<forall>d \<in> set docs. valid_utf8 (d_ID d) \<and> d_ID d \<noteq> []"
    and "embedSweep R docs w = (Inr n, w')"
  shows "(let due = filter (embed_due (keys_of docIDKey (und (ext w) StreamEmbed @ pel (ext w) StreamEmbed))) docs
          in n = int (length due)
             \<and> map snd (und (ext w') StreamEmbed) = map snd (und (ext w) StreamEmbed)
                 @ map (\<lambda>d. MarshalJob (embed_fields (embed_job_of (d_ID d)))) due
             \<and> documents (db w') = documents (db w) \<and> shards (db w') = shards (db w)
             \<and> length (events (db w')) = length (events (db w)) + length due)
    \<and> embedSweep R docs w' = (Inr 0, w')"
proof -
  let ?q = "keys_of docIDKey (und (ext w) StreamEmbed @ pel (ext w) StreamEmbed)"
  let ?due = "filter (embed_due ?q) docs"
  note scan = pending_keys[OF assms(1)]
  have att: "on_ext (PendingJobDocIDs R StreamEmbed) w = (Inr ?q, w)"
    using scan[OF assms(2)] by (simp add: on_ext_def PendingJobDocIDs_def)
  obtain ids w1 where run: "on_ext (embed_docs R ?q docs) w = (Inr ids, w1)"
    and rest: "bnd (if ids = [] then ret ()
              else TxWithRetry 3 (for_each (\<lambda>i. write_quarantine (embed_event i)) ids)) (\<lambda>_. ret (int (length ids))) w1 = (Inr n, w')"
    using assms(4) unfolding embedSweep_def bnd_attempt[of "on_ext (PendingJobDocIDs R StreamEmbed)" w, OF att] sum.case by (erule bnd_InrE)
  obtain x1 where x1: "embed_docs R ?q docs (ext w) = (Inr ids, x1)" "w1 = w\<lparr>ext := x1\<rparr>"
    using run by (auto simp: on_ext_Inr)
  note a = embed_docs_added[OF assms(1,2) x1(1)]
  have ev: "ext w' = x1 \<and> documents (db w') = documents (db w) \<and> shards (db w') = shards (db w)
      \<and> length (events (db w')) = length (events (db w)) + length ids \<and> n = int (length ids)"
  proof (cases "ids = []")
    case False
    then have tx: "TxWithRetry 3 (for_each (\<lambda>i. write_quarantine (embed_event i)) ids) w1 = (Inr (), w')" "n = int (length ids)"
      using rest by (auto simp: bnd_eq_Inr)
    have p: "post (TxWithRetry 3 (for_each (\<lambda>i. write_quarantine (embed_event i)) ids))
       (\<lambda>now t x u. \<exists>evs. u = t\<lparr>events := events t @ evs\<rparr> \<and> length evs = length ids)"
      unfolding write_quarantine_def write_event_stmt
      by (rule post_weaken[OF post_TxWithRetry[OF post_events]]) auto
    show ?thesis using postD[OF p tx(1)] frameD(1)[OF post_frame[OF p] tx(1)] x1(2) tx(2) by auto
  qed (use rest x1 in auto)
  have raws: "map (\<lambda>i. MarshalJob (embed_fields (embed_job_of i))) ids
      = map (\<lambda>d. MarshalJob (embed_fields (embed_job_of (d_ID d)))) ?due"
    using a by (simp add: comp_def)
  have okx: "ok (ext w')" using a ev by (simp add: added_def)
  let ?q' = "keys_of docIDKey (und (ext w') StreamEmbed @ pel (ext w') StreamEmbed)"
  have "\<not> embed_due ?q' d" if "d \<in> set docs" for d
  proof
    assume due: "embed_due ?q' d"
    have "set ?q' = set ?q \<union> {k. \<exists>raw \<in> set (map (\<lambda>i. MarshalJob (embed_fields (embed_job_of i))) ids). payloadKeyOf raw docIDKey = Some k}"
      using added_keys[OF conjunct2[OF a]] ev by simp
    moreover have "payloadKeyOf (MarshalJob (embed_fields (embed_job_of (d_ID d)))) docIDKey = Some (d_ID d)"
      using embed_key assms(3) that by blast
    ultimately show False using due that a by (auto simp: embed_due_def)
  qed
  then have none: "embed_docs R ?q' docs = ret []" by (intro embed_docs_none) blast
  have att': "on_ext (PendingJobDocIDs R StreamEmbed) w' = (Inr ?q', w')"
    using scan[OF okx] by (simp add: on_ext_def PendingJobDocIDs_def)
  have "on_ext (ret ([] :: string list)) w' = (Inr [], w')" by (simp add: on_ext_def)
  then have "embedSweep R docs w' = (Inr 0, w')"
    unfolding embedSweep_def bnd_attempt[of "on_ext (PendingJobDocIDs R StreamEmbed)" w', OF att'] sum.case none by (simp add: bnd_def)
  then show ?thesis using a ev raws added_raws[OF conjunct2[OF a]] by (simp add: Let_def)
qed

lemma embedSweep_once_witness:
  "\<exists>w'. embedSweep mem_redis [sample_doc\<lparr>d_ShardsDone := 1\<rparr>] (sample_world (sample_tables ShardDone) mem_empty)
       = (Inr 1, w') \<and> embedSweep mem_redis [sample_doc\<lparr>d_ShardsDone := 1\<rparr>] w' = (Inr 0, w')"
proof -
  let ?d = "sample_doc\<lparr>d_ShardsDone := 1\<rparr>" and ?w = "sample_world (sample_tables ShardDone) mem_empty"
  have ok: "mem_ok (ext ?w)" by (simp add: mem_ok_def mem_empty_def)
  have e: "mem_und (ext ?w) s = []" "mem_pelv (ext ?w) s = []" for s
    by (simp_all add: mem_und_def mem_pelv_def mem_after_def mem_empty_def)
  have v: "\<forall>d \<in> set [?d]. valid_utf8 (d_ID d) \<and> d_ID d \<noteq> []" by (simp add: sample_doc_def ascii_valid)
  have q: "keys_of docIDKey [] = []" by (simp add: keys_of_def List.map_filter_def)
  have due: "embed_due [] ?d" by (simp add: embed_due_def sample_doc_def BookSettled_def)
  have att: "on_ext (PendingJobDocIDs mem_redis StreamEmbed) ?w = (Inr [], ?w)"
    using pending_keys[OF mem_redis_view ok] by (simp add: on_ext_def PendingJobDocIDs_def e q del: sample_world_sel(5))
  obtain x1 where x1: "on_ext (embed_docs mem_redis [] [?d]) ?w = (Inr [d_ID ?d], ?w\<lparr>ext := x1\<rparr>)"
    using due by (simp add: on_ext_def bnd_def XAddJob_def mem_add_def Let_def)
  have "healthy (?w\<lparr>ext := x1\<rparr>)" by (simp add: healthy_def)
  moreover have "succeeds (TxWithRetry 3 (for_each (\<lambda>i. write_quarantine (embed_event i)) [d_ID ?d]))"
    unfolding write_quarantine_def WriteEvent_def by (intro succ_rules) auto
  ultimately obtain w' where w': "TxWithRetry 3 (for_each (\<lambda>i. write_quarantine (embed_event i)) [d_ID ?d]) (?w\<lparr>ext := x1\<rparr>) = (Inr (), w')"
    by (metis succeedsE unit.exhaust)
  then have run: "embedSweep mem_redis [?d] ?w = (Inr 1, w')"
    unfolding embedSweep_def bnd_attempt[of "on_ext (PendingJobDocIDs mem_redis StreamEmbed)" ?w, OF att] sum.case
      bnd_Inr[of "on_ext (embed_docs mem_redis [] [?d])" ?w, OF x1] by (simp add: bnd_def)
  show ?thesis using embedSweep_once[OF mem_redis_view ok v run] run by blast
qed

section \<open>The pending shard sweep\<close>

definition stale_key :: "StalePendingShard \<Rightarrow> string" where
  "stale_key s = parseJobKeyOf (st_DocID s) (st_Idx s)"

lemma for_each_added:
  assumes "redis_view R ok und ent pel" "ok (ext w)"
    and "for_each (enqueue_parse R) jobs w = (Inr (), w')"
  shows "\<exists>x'. w' = w\<lparr>ext := x'\<rparr> \<and> added ok und pel StreamParse (map (\<lambda>j. MarshalJob (parse_fields j)) jobs) (ext w) x'"
  using assms
proof (induction jobs arbitrary: w)
  case (Cons j jobs)
  obtain w1 where e: "enqueue_parse R j w = (Inr (), w1)"
    and rest1: "for_each (enqueue_parse R) jobs w1 = (Inr (), w')"
    using Cons.prems(3) unfolding for_each.simps by (elim bnd_InrE) simp
  obtain i x1 where add: "XAdd R StreamParse (MarshalJob (parse_fields j)) (ext w) = (Inr i, x1)" and w1: "w1 = w\<lparr>ext := x1\<rparr>"
    using e by (auto simp: enqueue_parse_def XAddJob_def bnd_eq_Inr on_ext_Inr)
  note rest = rest1[unfolded w1]
  have "ok (ext (w\<lparr>ext := x1\<rparr>))" using redis_viewD(5)[OF Cons.prems(1,2) add] by simp
  then obtain x' where "w' = w\<lparr>ext := x1\<rparr>\<lparr>ext := x'\<rparr>"
    "added ok und pel StreamParse (map (\<lambda>j. MarshalJob (parse_fields j)) jobs) x1 x'"
    using Cons.IH[OF Cons.prems(1) _ rest] by auto
  then show ?case using added_step[OF Cons.prems(1,2) add] by (intro exI[of _ x']) simp
next
  case Nil
  then show ?case by (intro exI[of _ "ext w"]) (simp add: added_none)
qed

lemma rescue_shards_once:
  assumes "redis_view R ok und ent pel" "ok (ext w)" "rescue_shards R pf ss w = (Inr n, w')"
    and "jobs = missingParseJobs ss (keys_of (parseJobKey pf) (und (ext w) StreamParse @ pel (ext w) StreamParse))"
  shows "n = int (length jobs) \<and> documents (db w') = documents (db w) \<and> shards (db w') = shards (db w)
    \<and> added ok und pel StreamParse (map (\<lambda>j. MarshalJob (parse_fields j)) jobs) (ext w) (ext w')"
proof -
  have att: "on_ext (PendingJobKeys R StreamParse (parseJobKey pf)) w
      = (Inr (keys_of (parseJobKey pf) (und (ext w) StreamParse @ pel (ext w) StreamParse)), w)"
    using pending_keys[OF assms(1,2)] by (simp add: on_ext_def)
  note run = assms(3)[unfolded rescue_shards_def
    bnd_attempt[of "on_ext (PendingJobKeys R StreamParse (parseJobKey pf))" w, OF att] sum.case Let_def assms(4)[symmetric]]
  show ?thesis
  proof (cases "jobs = []")
    case False
    then obtain w1 where adds: "for_each (enqueue_parse R) jobs w = (Inr (), w1)"
      and tx: "TxWithRetry 3 (for_each (rescue_event jobs) (remdups (map pj_DocID jobs))) w1 = (Inr (), w')"
      and n: "n = int (length jobs)"
      using run by (auto simp: bnd_eq_Inr)
    obtain x1 where a: "w1 = w\<lparr>ext := x1\<rparr>"
      "added ok und pel StreamParse (map (\<lambda>j. MarshalJob (parse_fields j)) jobs) (ext w) x1"
      using for_each_added[OF assms(1,2) adds] by blast
    have p: "post (TxWithRetry 3 (for_each (rescue_event jobs) (remdups (map pj_DocID jobs))))
        (\<lambda>now t x u. \<exists>evs. u = t\<lparr>events := events t @ evs\<rparr>)"
      unfolding rescue_event_def write_event_stmt by (rule post_weaken[OF post_TxWithRetry[OF post_events]]) auto
    then have "db w1 = db w" "ext w1 = x1" using a(1) by simp_all
    then show ?thesis using postD[OF p tx] frameD(1)[OF post_frame[OF p] tx] a n by auto
  qed (use run added_none[of ok "ext w"] assms(2) in auto)
qed

lemma sweep_query:
  assumes "pendingShardSweep R pf ord now v = (Inr m, v')"
  shows "\<exists>w1. ext w1 = ext v \<and> db w1 = db v
    \<and> (let ss = ord (never_attempted (now - shardSweepGrace) (db v))
       in if ss = [] then m = 0 \<and> v' = w1 else rescue_shards R pf ss w1 = (Inr m, v'))"
proof -
  let ?q = "NeverAttemptedShards ord (now - shardSweepGrace)"
  have nas: "post ?q (\<lambda>now' t x u. x = ord (never_attempted (now - shardSweepGrace) t) \<and> u = t)"
    unfolding NeverAttemptedShards_def by (rule post_weaken[OF post_pool_stmt]) auto
  obtain r w1 where r: "?q v = (r, w1)" by fastforce
  note eq = assms[unfolded pendingShardSweep_def bnd_attempt[of ?q v, OF r]]
  obtain ss where ss: "r = Inr ss" using eq by (cases r) auto
  have "ss = ord (never_attempted (now - shardSweepGrace) (db v))" "db w1 = db v" "ext w1 = ext v"
    using postD[OF nas] frameD(1)[OF post_frame[OF nas]] r ss by auto
  then show ?thesis using eq ss by (intro exI[of _ w1]) (auto simp: Let_def split: if_splits)
qed

lemma parse_keys_added:
  assumes "added ok und pel StreamParse (map (\<lambda>j. MarshalJob (parse_fields j)) (missingParseJobs ss q)) x x'"
    and "q = keys_of (parseJobKey pf) (und x StreamParse @ pel x StreamParse)"
    and "\<forall>s \<in> set ss. valid_utf8 (st_DocID s) \<and> valid_utf8 (st_SourceURI s) \<and> st_DocID s \<noteq> [] \<and> \<bar>st_Idx s\<bar> < 10 ^ 15"
  shows "missingParseJobs ss (keys_of (parseJobKey pf) (und x' StreamParse @ pel x' StreamParse)) = []"
proof -
  let ?q' = "keys_of (parseJobKey pf) (und x' StreamParse @ pel x' StreamParse)"
  have sub: "set ?q' = set q \<union> {k. \<exists>raw \<in> set (map (\<lambda>j. MarshalJob (parse_fields j)) (missingParseJobs ss q)). payloadKeyOf raw (parseJobKey pf) = Some k}"
    using added_keys[OF assms(1)] assms(2) by simp
  have "parseJobKeyOf (st_DocID s) (st_Idx s) \<in> set ?q'" if s: "s \<in> set ss" for s
  proof (cases "parseJobKeyOf (st_DocID s) (st_Idx s) \<in> set q")
    case False
    then have "rescue_job s \<in> set (missingParseJobs ss q)" using s by (auto simp: missingParseJobs_def)
    moreover have "payloadKeyOf (MarshalJob (parse_fields (rescue_job s))) (parseJobKey pf)
        = Some (parseJobKeyOf (st_DocID s) (st_Idx s))"
      using parse_key[of "rescue_job s" pf] assms(3) s by (simp add: rescue_job_def)
    ultimately show ?thesis unfolding sub by auto
  qed (simp add: sub)
  then show ?thesis by (simp add: missingParseJobs_def filter_empty_conv)
qed

text \<open>
  C9. The pending-shard sweep re-enqueues exactly the never-attempted shards of live
  documents whose key is on the parse stream neither undelivered nor pending, with the page
  range of the row; run again at the same moment it enqueues nothing.
\<close>

theorem pendingShardSweep_once:
  assumes "redis_view R ok und ent pel" "ok (ext w)"
    and "\<forall>s \<in> set (ord (never_attempted (now - shardSweepGrace) (db w))).
       valid_utf8 (st_DocID s) \<and> valid_utf8 (st_SourceURI s) \<and> st_DocID s \<noteq> [] \<and> \<bar>st_Idx s\<bar> < 10 ^ 15"
    and "pendingShardSweep R pf ord now w = (Inr n, w')"
  shows "(let jobs = missingParseJobs (ord (never_attempted (now - shardSweepGrace) (db w)))
                       (keys_of (parseJobKey pf) (und (ext w) StreamParse @ pel (ext w) StreamParse))
          in n = int (length jobs)
             \<and> map snd (und (ext w') StreamParse) = map snd (und (ext w) StreamParse)
                 @ map (\<lambda>j. MarshalJob (parse_fields j)) jobs
             \<and> documents (db w') = documents (db w) \<and> shards (db w') = shards (db w))
    \<and> (\<forall>m w2. pendingShardSweep R pf ord now w' = (Inr m, w2) \<longrightarrow> m = 0 \<and> ext w2 = ext w')"
proof -
  let ?k = "parseJobKey pf" and ?ss = "ord (never_attempted (now - shardSweepGrace) (db w))"
  let ?q = "keys_of ?k (und (ext w) StreamParse @ pel (ext w) StreamParse)"
  let ?jobs = "missingParseJobs ?ss ?q"
  obtain w1 where w1: "ext w1 = ext w" "db w1 = db w"
    "let ss = ?ss in if ss = [] then n = 0 \<and> w' = w1 else rescue_shards R pf ss w1 = (Inr n, w')"
    using sweep_query[OF assms(4)] by blast
  have first: "n = int (length ?jobs) \<and> documents (db w') = documents (db w) \<and> shards (db w') = shards (db w)
    \<and> added ok und pel StreamParse (map (\<lambda>j. MarshalJob (parse_fields j)) ?jobs) (ext w) (ext w')"
  proof (cases "?ss = []")
    case True
    then show ?thesis using w1 added_none[of ok "ext w"] assms(2) by (simp add: missingParseJobs_def)
  next
    case False
    then show ?thesis using w1 rescue_shards_once[OF assms(1) _ _ refl, of w1 pf ?ss n w'] assms(2) by simp
  qed
  have "never_attempted t0 (db w') = never_attempted t0 (db w)" for t0
    using first by (simp add: never_attempted_def doc_by_id_def cong: if_cong)
  then have "m = 0 \<and> ext w2 = ext w'" if hyp: "pendingShardSweep R pf ord now w' = (Inr m, w2)" for m w2
  proof -
    obtain w3 where w3: "ext w3 = ext w'" "let ss = ?ss in if ss = [] then m = 0 \<and> w2 = w3 else rescue_shards R pf ss w3 = (Inr m, w2)"
      using sweep_query[OF hyp] \<open>\<And>t0. never_attempted t0 (db w') = never_attempted t0 (db w)\<close> by auto
    have ok': "ok (ext w3)" using first w3(1) by (simp add: added_def)
    have none: "missingParseJobs ?ss (keys_of ?k (und (ext w3) StreamParse @ pel (ext w3) StreamParse)) = []"
      using parse_keys_added[OF conjunct2[OF conjunct2[OF conjunct2[OF first]]] refl assms(3)] w3(1) by simp
    have att: "on_ext (PendingJobKeys R StreamParse ?k) w3
        = (Inr (keys_of ?k (und (ext w3) StreamParse @ pel (ext w3) StreamParse)), w3)"
      using pending_keys[OF assms(1) ok'] by (simp add: on_ext_def)
    have "rescue_shards R pf ?ss w3 = (Inr 0, w3)"
      unfolding rescue_shards_def bnd_attempt[of "on_ext (PendingJobKeys R StreamParse ?k)" w3, OF att] sum.case Let_def none
      by simp
    then show ?thesis using w3 by (cases "?ss = []") (simp_all only: Let_def if_True if_False simp_thms prod.inject sum.inject)
  qed
  moreover have "map snd (und (ext w') StreamParse) = map snd (und (ext w) StreamParse)
      @ map (\<lambda>j. MarshalJob (parse_fields j)) ?jobs"
    by (rule added_raws[OF conjunct2[OF conjunct2[OF conjunct2[OF first]]]])
  ultimately show ?thesis using first unfolding Let_def by blast
qed

section \<open>Work on the outside world that succeeds\<close>

lemma succeeds_attempt_ext:
  "(\<And>r. succeeds (f r)) \<Longrightarrow> succeeds (bnd (attempt (on_ext m)) f)"
  by (rule succeedsI) (force simp: bnd_def attempt_def on_ext_def healthy_def succeeds_def split: prod.splits)

lemma succeeds_attempt:
  assumes "succeeds m" "\<And>x. succeeds (f (Inr x))"
  shows "succeeds (bnd (attempt m) f)"
proof (rule succeedsI, goal_cases)
  case (1 w)
  obtain x w1 where m: "m w = (Inr x, w1)" "healthy w1" by (rule succeedsE[OF assms(1) 1])
  obtain y w2 where "f (Inr x) w1 = (Inr y, w2)" "healthy w2" by (rule succeedsE[OF assms(2) m(2)])
  then show ?case using m by (simp add: bnd_def attempt_def)
qed

lemma succeeds_on_ext:
  assumes "\<And>x. \<exists>a x'. m x = (Inr a, x')"
  shows "succeeds (on_ext m)"
proof (rule succeedsI, goal_cases)
  case (1 w)
  obtain a x' where "m (ext w) = (Inr a, x')" using assms by blast
  then show ?case using 1 by (simp add: on_ext_def healthy_def)
qed

lemma mem_sweep_succeeds: "succeeds (pendingShardSweep mem_redis pf ord now)"
proof -
  have "succeeds (enqueue_parse mem_redis j)" for j
    unfolding enqueue_parse_def XAddJob_def
    by (intro succ_rules succeeds_on_ext) (simp add: mem_add_def Let_def)
  moreover have "succeeds (rescue_event jobs d)" for jobs d
    unfolding rescue_event_def WriteEvent_def by (intro succ_rules) auto
  ultimately have rescue: "succeeds (rescue_shards mem_redis pf ss)" for ss
    unfolding rescue_shards_def
    by (intro succeeds_attempt_ext) (auto split: sum.splits simp: Let_def intro!: succ_rules)
  have "succeeds (NeverAttemptedShards ord t)" for t
    unfolding NeverAttemptedShards_def by (intro succ_rules) auto
  then show ?thesis
    unfolding pendingShardSweep_def by (intro succeeds_attempt) (auto intro!: succ_rules rescue)
qed

definition fresh_tables :: tables where
  "fresh_tables = (sample_tables ShardPending)\<lparr>shards := [new_shard ''d'' 1 9 16 0]\<rparr>"

lemma pendingShardSweep_once_witness:
  "\<exists>w'. pendingShardSweep mem_redis (\<lambda>_. 0) (\<lambda>ss. ss) (10 * minute) (sample_world (fresh_tables) mem_empty) = (Inr 1, w')
     \<and> (\<forall>m w2. pendingShardSweep mem_redis (\<lambda>_. 0) (\<lambda>ss. ss) (10 * minute) w' = (Inr m, w2) \<longrightarrow> m = 0 \<and> ext w2 = ext w')"
proof -
  let ?w = "sample_world (fresh_tables) mem_empty"
  have ok: "mem_ok (ext ?w)" by (simp add: mem_ok_def mem_empty_def)
  have e: "mem_und (ext ?w) s = []" "mem_pelv (ext ?w) s = []" for s
    by (simp_all add: mem_und_def mem_pelv_def mem_after_def mem_empty_def)
  have k: "keys_of (parseJobKey pf) [] = []" for pf by (simp add: keys_of_def List.map_filter_def)
  let ?ss = "never_attempted (10 * minute - shardSweepGrace) (fresh_tables)"
  have len: "length ?ss = 1" "\<forall>s \<in> set ?ss. valid_utf8 (st_DocID s) \<and> valid_utf8 (st_SourceURI s)
      \<and> st_DocID s \<noteq> [] \<and> \<bar>st_Idx s\<bar> < 10 ^ 15"
    by (simp_all add: never_attempted_def doc_by_id_def fresh_tables_def sample_defs terminal_state_def minute_def second_def
        shardSweepGrace_def ascii_valid)
  obtain n w' where run: "pendingShardSweep mem_redis (\<lambda>_. 0) (\<lambda>ss. ss) (10 * minute) ?w = (Inr n, w')"
    by (rule succeedsE[OF mem_sweep_succeeds sample_healthy])
  have v: "\<forall>s \<in> set ((\<lambda>ss. ss) (never_attempted (10 * minute - shardSweepGrace) (db ?w))).
      valid_utf8 (st_DocID s) \<and> valid_utf8 (st_SourceURI s) \<and> st_DocID s \<noteq> [] \<and> \<bar>st_Idx s\<bar> < 10 ^ 15"
    using len(2) by simp
  note o = pendingShardSweep_once[OF mem_redis_view ok v run]
  have "n = 1" using conjunct1[OF o] len(1) by (simp add: Let_def e[simplified] k missingParseJobs_def)
  then show ?thesis using conjunct2[OF o] run by blast
qed

section \<open>Reclaim\<close>

text \<open>
  Against the counts at the start of a stream's turn, only the entries claimed and not yet
  settled count one delivery more.
\<close>

definition one_more :: "('x \<Rightarrow> string \<Rightarrow> string \<Rightarrow> int) \<Rightarrow> string \<Rightarrow> string set \<Rightarrow> 'x \<Rightarrow> 'x \<Rightarrow> bool" where
  "one_more cnt s S x0 x \<longleftrightarrow>
     (\<forall>s' i. 0 \<le> cnt x s' i \<and> cnt x s' i \<le> cnt x0 s' i + (if s' = s \<and> i \<in> S then 1 else 0))"

lemma one_moreD: "one_more cnt s S x0 x \<Longrightarrow>
    0 \<le> cnt x s' i \<and> cnt x s' i \<le> cnt x0 s' i + (if s' = s \<and> i \<in> S then 1 else 0)"
  by (simp add: one_more_def)

lemma one_more_mono: "one_more cnt s S x0 x \<Longrightarrow> S \<subseteq> T \<Longrightarrow> one_more cnt s T x0 x"
  unfolding one_more_def by (intro allI) (smt (verit) subsetD)

lemma delivery_viewD:
  assumes "delivery_view R cnt"
  shows "XAutoClaim R s c idle n x = (Inr ms, x') \<Longrightarrow>
      cnt x' s' i = cnt x s' i + (if s' = s \<and> i \<in> fst ` set ms then 1 else 0)"
    and "XAutoClaim R s c idle n x = (Inl e, x') \<Longrightarrow> cnt x' = cnt x"
    and "\<exists>x'. XAck R s i x = (Inr (), x') \<and> (\<forall>s' j. cnt x' s' j = (if s' = s \<and> j = i then 0 else cnt x s' j))"
    and "cnt (snd (XDel R s i x)) = cnt x"
    and "cnt (snd (XAdd R s raw x)) = cnt x"
    and "XPendingExt R s i i 1 x = (r, x') \<Longrightarrow> cnt x' = cnt x \<and> (\<forall>j k ps. r = Inr ((j, k) # ps) \<longrightarrow> k = cnt x s i)"
  using assms unfolding delivery_view_def by simp_all

lemma one_more_ack:
  assumes "delivery_view R cnt" "one_more cnt s S x0 x" "one_more cnt s {} x0 x0"
  obtains x' where "XAck R s i x = (Inr (), x')" "one_more cnt s (S - {i}) x0 x'"
proof -
  obtain x' where x': "XAck R s i x = (Inr (), x')" "\<forall>s' j. cnt x' s' j = (if s' = s \<and> j = i then 0 else cnt x s' j)"
    using delivery_viewD(3)[OF assms(1)] by blast
  moreover have "one_more cnt s (S - {i}) x0 x'"
    unfolding one_more_def
  proof (intro allI)
    fix s' j
    show "0 \<le> cnt x' s' j \<and> cnt x' s' j \<le> cnt x0 s' j + (if s' = s \<and> j \<in> S - {i} then 1 else 0)"
      using one_moreD[OF assms(2), of s' j] one_moreD[OF assms(3), of s' j] x'(2)[THEN spec, THEN spec, of s' j]
      by (auto split: if_splits)
  qed
  ultimately show thesis using that by blast
qed

lemma one_more_Ack:
  assumes "delivery_view R cnt" "one_more cnt s S x0 x" "one_more cnt s {} x0 x0"
  obtains x' where "Ack R s i x = (Inr (), x')" "one_more cnt s (S - {i}) x0 x'"
proof -
  obtain x1 where x1: "XAck R s i x = (Inr (), x1)" "one_more cnt s (S - {i}) x0 x1"
    by (rule one_more_ack[OF assms])
  have "one_more cnt s (S - {i}) x0 (snd (XDel R s i x1))"
    using x1(2) delivery_viewD(4)[OF assms(1)] by (simp add: one_more_def)
  then show thesis using that x1(1) by (simp add: Ack_def ignore_def bnd_def attempt_apply)
qed

lemma claim_entries_one_more:
  assumes "delivery_view R cnt" "one_more cnt s {} x0 x0" "one_more cnt s (S \<union> fst ` set ms) x0 x"
  obtains es x' where "claim_entries R s ms x = (Inr es, x')" "one_more cnt s (S \<union> se_ID ` set es) x0 x'"
  using assms(3)
proof (induction ms arbitrary: S x thesis)
  case Nil
  then show ?case by simp
next
  case (Cons m ms)
  obtain eid raw where m: "m = (eid, raw)" by fastforce
  show ?case
  proof (cases "unmarshal raw")
    case None
    obtain x1 where x1: "XAck R s eid x = (Inr (), x1)" "one_more cnt s ((S \<union> fst ` set (m # ms)) - {eid}) x0 x1"
      by (rule one_more_ack[OF assms(1) Cons.prems(2) assms(2)])
    then have "one_more cnt s (S \<union> fst ` set ms) x0 x1" by (elim one_more_mono) (auto simp: m)
    then obtain es x' where "claim_entries R s ms x1 = (Inr es, x')" "one_more cnt s (S \<union> se_ID ` set es) x0 x'"
      using Cons.IH by blast
    then show ?thesis using Cons.prems(1) None x1(1) by (simp add: m ignore_def bnd_def attempt_apply)
  next
    case (Some job)
    have "one_more cnt s (insert eid S \<union> fst ` set ms) x0 x" using Cons.prems(2) by (simp add: m)
    then obtain es x' where "claim_entries R s ms x = (Inr es, x')" "one_more cnt s (insert eid S \<union> se_ID ` set es) x0 x'"
      using Cons.IH by blast
    then show ?thesis using Cons.prems(1) Some by (simp add: m bnd_def)
  qed
qed

lemma reclaimDecide_one_more:
  assumes "delivery_view R cnt" "\<forall>s i. 0 \<le> cnt x0 s i \<and> cnt x0 s i + 1 < cap"
    and "one_more cnt s (insert i S) x0 x" "reclaimDecide R pf s i raw cap x = (Inr d, x')"
  shows "one_more cnt s S x0 x' \<and> d \<in> {reclaimKept, reclaimReadded}"
proof -
  have base: "one_more cnt s {} x0 x0" using assms(2) by (simp add: one_more_def)
  note ack = one_more_Ack[OF assms(1) _ base]
  have weak: "one_more cnt s (insert i S - {i}) x0 y \<Longrightarrow> one_more cnt s S x0 y" for y
    by (erule one_more_mono) auto
  show ?thesis
  proof (cases "raw = []")
    case True
    obtain x1 where "Ack R s i x = (Inr (), x1)" "one_more cnt s (insert i S - {i}) x0 x1" by (rule ack[OF assms(3)])
    then show ?thesis using assms(4) True weak by (auto simp: reclaimDecide_def bnd_def)
  next
    case False
    obtain r x1 where p: "XPendingExt R s i i 1 x = (r, x1)" by fastforce
    note q = delivery_viewD(6)[OF assms(1) p]
    let ?n = "case r of Inr ((j, k) # ps) \<Rightarrow> k | _ \<Rightarrow> - 1"
    have t: "times_delivered R s i x = (Inr ?n, x1)"
      using p by (simp add: times_delivered_def bnd_def attempt_def split: sum.splits list.splits)
    have "cnt x s i \<le> cnt x0 s i + 1" using one_moreD[OF assms(3), of s i] by simp
    then have lt: "\<not> (0 \<le> ?n \<and> cap \<le> ?n)"
      using q assms(2)[THEN spec, THEN spec, of s i] by (auto split: sum.splits list.splits)
    obtain i' x2 where add: "XAdd R s raw x1 = (Inr i', x2)"
      using assms(4) lt False unfolding reclaimDecide_def by (auto simp: bnd_eq_Inr t)
    have "cnt x2 = cnt x" using q delivery_viewD(5)[OF assms(1), of s raw x1] add by simp
    then have om: "one_more cnt s (insert i S) x0 x2" using assms(3) by (simp add: one_more_def)
    obtain x3 where x3: "Ack R s i x2 = (Inr (), x3)" "one_more cnt s (insert i S - {i}) x0 x3"
      by (rule ack[OF om])
    have "d = reclaimReadded" "x' = x3"
      using assms(4) lt False add x3(1) unfolding reclaimDecide_def by (auto simp: bnd_eq_Inr t)
    then show ?thesis using x3(2) weak by simp
  qed
qed

lemma reclaim_entries_one_more:
  assumes "delivery_view R cnt" "\<forall>s i. 0 \<le> cnt x0 s i \<and> cnt x0 s i + 1 < cap"
    and "one_more cnt s (se_ID ` set es) x0 x" "reclaim_entries R pf cap s es (n, []) x = (Inr (m, qs), x')"
  shows "one_more cnt s {} x0 x' \<and> qs = []"
  using assms(3,4)
proof (induction es arbitrary: n x)
  case (Cons e es)
  obtain d x1 where d: "reclaimDecide R pf s (se_ID e) (se_RawJob e) cap x = (Inr d, x1)"
    and rest: "reclaim_entries R pf cap s es
       (case d of reclaimQuarantined q \<Rightarrow> (n, [] @ [q]) | reclaimReadded \<Rightarrow> (n + 1, []) | reclaimKept \<Rightarrow> (n, [])) x1
       = (Inr (m, qs), x')"
    using Cons.prems(2) by (auto simp: bnd_eq_Inr)
  have "one_more cnt s (insert (se_ID e) (se_ID ` set es)) x0 x" using Cons.prems(1) by simp
  note o = reclaimDecide_one_more[OF assms(1,2) this d]
  show ?case using Cons.IH[of x1] o rest by auto
qed simp

lemma reclaim_streams_counts:
  assumes "delivery_view R cnt" "\<forall>s i. 0 \<le> cnt x s i \<and> cnt x s i + 1 < cap"
    and "reclaim_streams R pf cap ss (n, []) x = (Inr (m, qs), x')"
  shows "(\<forall>s i. 0 \<le> cnt x' s i \<and> cnt x' s i \<le> cnt x s i) \<and> qs = []"
  using assms(2,3)
proof (induction ss arbitrary: n x)
  case (Cons s ss)
  have base: "one_more cnt s {} x x" using Cons.prems(1) by (simp add: one_more_def)
  obtain r x1 where claim: "XAutoClaim R s ''janitor-reclaim'' (20 * 60 * 1000) 50 x = (r, x1)" by fastforce
  show ?case
  proof (cases r)
    case (Inl e)
    then have c: "cnt x1 = cnt x" using delivery_viewD(2)[OF assms(1)] claim by blast
    have "ClaimStale R s ''janitor-reclaim'' (20 * 60 * 1000) 50 x = (Inl e, x1)"
      using claim Inl by (simp add: ClaimStale_def bnd_def)
    then have "reclaim_streams R pf cap ss (n, []) x1 = (Inr (m, qs), x')"
      using Cons.prems(2) by (simp add: bnd_def attempt_def)
    then show ?thesis using Cons.IH[of x1 n] Cons.prems(1) c by simp
  next
    case (Inr ms)
    have "one_more cnt s ({} \<union> fst ` set ms) x x1"
      using delivery_viewD(1)[OF assms(1) claim[unfolded Inr]] Cons.prems(1) by (simp add: one_more_def)
    then obtain es x2 where es: "claim_entries R s ms x1 = (Inr es, x2)" "one_more cnt s ({} \<union> se_ID ` set es) x x2"
      by (rule claim_entries_one_more[OF assms(1) base])
    then have "ClaimStale R s ''janitor-reclaim'' (20 * 60 * 1000) 50 x = (Inr es, x2)"
      using claim Inr by (simp add: ClaimStale_def bnd_def)
    then obtain k qs1 x3 where e: "reclaim_entries R pf cap s es (n, []) x2 = (Inr (k, qs1), x3)"
      and rest: "reclaim_streams R pf cap ss (k, qs1) x3 = (Inr (m, qs), x')"
      using Cons.prems(2) by (auto simp: bnd_eq_Inr attempt_def)
    have o: "one_more cnt s {} x x3 \<and> qs1 = []"
      by (rule reclaim_entries_one_more[OF assms(1) Cons.prems(1) _ e]) (use es(2) in simp)
    then have le: "\<forall>s i. 0 \<le> cnt x3 s i \<and> cnt x3 s i \<le> cnt x s i" by (simp add: one_more_def)
    then have "\<forall>s i. 0 \<le> cnt x3 s i \<and> cnt x3 s i + 1 < cap" using Cons.prems(1) by (meson add_right_mono le_less_trans)
    then have "(\<forall>s i. 0 \<le> cnt x' s i \<and> cnt x' s i \<le> cnt x3 s i) \<and> qs = []"
      using Cons.IH[of x3 k] rest o by blast
    then show ?thesis using le by (meson order_trans)
  qed
qed simp

text \<open>
  C11. The reclaim starts every entry it touches over: as long as no pending entry is within
  two deliveries of the cap, a pass quarantines nothing and leaves every delivery count at
  most what it was, so by itself it never brings an entry nearer the cap, however often it
  runs: a job that is only ever claimed by the janitor is re-added for ever.
\<close>

theorem reclaim_never_quarantines:
  assumes "delivery_view R cnt" "\<forall>s i. 0 \<le> cnt x s i \<and> cnt x s i \<le> delivery_cap cfg - 2"
    and "reclaim R pf cfg x = (Inr (n, qs), x')"
  shows "qs = [] \<and> (\<forall>s i. 0 \<le> cnt x' s i \<and> cnt x' s i \<le> cnt x s i)"
proof -
  have "\<forall>s i. 0 \<le> cnt x s i \<and> cnt x s i + 1 < delivery_cap cfg" using assms(2) by (intro allI) (smt (verit))
  from reclaim_streams_counts[OF assms(1) this assms(3)[unfolded reclaim_def]] show ?thesis by blast
qed

definition sample_cfg :: Settings where
  "sample_cfg = \<lparr>StuckMinutes = 30, MaxShardAttempts = 3\<rparr>"

definition mem_stuck :: mem where
  "mem_stuck = mem_empty\<lparr>mem_log := (\<lambda>_. [])(StreamEmbed := [(1, ''{}'')]),
     mem_seen := (\<lambda>_. 0)(StreamEmbed := 1), mem_pel := (\<lambda>_. [])(StreamEmbed := [(1, 2)]), mem_next := 1\<rparr>"

lemma mem_claim_entries: "\<exists>es x'. claim_entries mem_redis s ms x = (Inr es, x')"
proof (induction ms arbitrary: x)
  case (Cons m ms)
  obtain eid raw where m: "m = (eid, raw)" by fastforce
  show ?case
  proof (cases "unmarshal raw")
    case None
    then show ?thesis using Cons.IH by (simp add: m ignore_def bnd_def attempt_apply)
  next
    case (Some j)
    obtain es x' where "claim_entries mem_redis s ms x = (Inr es, x')" using Cons.IH by blast
    then show ?thesis using Some by (simp add: m bnd_def)
  qed
qed simp

lemma mem_Ack: "\<exists>x'. Ack mem_redis s i x = (Inr (), x')"
  by (simp add: Ack_def ignore_def bnd_def attempt_apply)

lemma mem_decide: "\<exists>d x'. reclaimDecide mem_redis pf s i raw cap x = (Inr d, x')"
proof (cases "raw = []")
  case True
  then show ?thesis using mem_Ack[of s i x] by (auto simp: reclaimDecide_def bnd_def)
next
  case False
  obtain k x1 where t: "times_delivered mem_redis s i x = (Inr k, x1)"
    by (simp add: times_delivered_def bnd_def attempt_apply)
  obtain j x2 where a: "XAdd mem_redis s raw x1 = (Inr j, x2)" by (simp add: mem_add_def Let_def)
  obtain x3 x4 where "Ack mem_redis s i x1 = (Inr (), x3)" "Ack mem_redis s i x2 = (Inr (), x4)" using mem_Ack by blast
  then show ?thesis using False t a by (simp add: reclaimDecide_def bnd_def)
qed

lemma mem_reclaim_entries: "\<exists>n qs x'. reclaim_entries mem_redis pf cap s es acc x = (Inr (n, qs), x')"
proof (induction es arbitrary: acc x)
  case (Cons e es)
  obtain d x1 where "reclaimDecide mem_redis pf s (se_ID e) (se_RawJob e) cap x = (Inr d, x1)" using mem_decide by blast
  then show ?case using Cons.IH by (cases acc) (simp add: bnd_def)
qed (cases acc, simp)

lemma mem_reclaim_streams: "\<exists>n qs x'. reclaim_streams mem_redis pf cap ss acc x = (Inr (n, qs), x')"
proof (induction ss arbitrary: acc x)
  case (Cons s ss)
  obtain es x1 where c: "ClaimStale mem_redis s ''janitor-reclaim'' (20 * 60 * 1000) 50 x = (Inr es, x1)"
  proof -
    obtain ms x0 where m: "XAutoClaim mem_redis s ''janitor-reclaim'' (20 * 60 * 1000) 50 x = (Inr ms, x0)"
      by (simp add: mem_claim_def Let_def)
    obtain es x1 where "claim_entries mem_redis s ms x0 = (Inr es, x1)" using mem_claim_entries by blast
    then show thesis using that m by (simp add: ClaimStale_def bnd_def)
  qed
  obtain n qs x2 where "reclaim_entries mem_redis pf cap s es acc x1 = (Inr (n, qs), x2)"
    using mem_reclaim_entries by blast
  then show ?case using Cons.IH[of "(n, qs)" x2] c by (simp add: bnd_def attempt_def)
qed (cases acc, simp)

lemma reclaim_never_quarantines_witness:
  "mem_count mem_stuck StreamEmbed ''1-0'' = 2
   \<and> (\<exists>n x'. reclaim mem_redis (\<lambda>_. 0) sample_cfg mem_stuck = (Inr (n, []), x')
        \<and> mem_count x' StreamEmbed ''1-0'' \<le> 2)"
proof -
  have one: "id_text (Suc 0) = ''1-0''" by (simp add: id_text_def nat_digits.simps char_of_def bit_0)
  have c: "mem_count mem_stuck s i = (if s = StreamEmbed \<and> i = ''1-0'' then 2 else 0)" for s i
    by (auto simp: mem_count_def mem_stuck_def mem_empty_def one)
  then have "\<forall>s i. 0 \<le> mem_count mem_stuck s i \<and> mem_count mem_stuck s i \<le> delivery_cap sample_cfg - 2"
    by (simp add: delivery_cap_def sample_cfg_def)
  moreover obtain n qs x' where run: "reclaim mem_redis (\<lambda>_. 0) sample_cfg mem_stuck = (Inr (n, qs), x')"
    unfolding reclaim_def using mem_reclaim_streams by blast
  ultimately have r: "qs = [] \<and> (\<forall>s i. 0 \<le> mem_count x' s i \<and> mem_count x' s i \<le> mem_count mem_stuck s i)"
    by (intro reclaim_never_quarantines[OF mem_delivery_view])
  then have "mem_count x' StreamEmbed ''1-0'' \<le> mem_count mem_stuck StreamEmbed ''1-0''" by blast
  then show ?thesis using run r c by auto
qed

end
