(* ===== verification/SplitHandler.thy ===== *)
theory SplitHandler
  imports Parsing Rules Dedup
begin

text \<open>
  The splitter handler (\<open>internal/service/splitter.go\<close>) with what the handlers share
  (\<open>Deps\<close>, \<open>failDocTerminal\<close>, the job payloads).  The handler runs inside the runner's
  transaction, but its writes are in transactions of its own; only the idempotent branch
  writes through the runner's.  The object store, temporary directories and the parser are
  parameters: computations on the whole world, so that anything may happen to it meanwhile
  (other workers run during a download), constrained by named hypotheses where a property
  needs it.
\<close>

section \<open>Dependencies\<close>

record config =
  S3BucketRaw :: string
  S3BucketParsed :: string
  ShardPages :: int
  ShardLeaseSeconds :: int
  ParserPDFCacheDir :: string
  ParentChunkSize :: int
  ChildChunkSize :: int
  ChunkSize :: int
  ChunkOverlap :: int
  ChunkStrategy :: string

record 'x deps =
  Config :: config
  Redis :: "'x redis_ops"
  ParseFloat :: "string \<Rightarrow> int"
  PdfLib :: pdf_lib
  MkdirTemp :: "('x world, goerr, unit) prog"
  DownloadTo :: "string \<Rightarrow> string \<Rightarrow> ('x world, goerr, string) prog"     \<comment> \<open>bucket, key: the bytes\<close>
  UploadText :: "string \<Rightarrow> string \<Rightarrow> string \<Rightarrow> string \<Rightarrow> ('x world, goerr, unit) prog"
  GetText :: "string \<Rightarrow> string \<Rightarrow> ('x world, goerr, string) prog"
  ShortID :: "('x world, goerr, string) prog"
  Host :: "'x host"
  Fs :: "'x fs_ops"
  Parser :: "'x two_tier"

definition RawKey :: "string \<Rightarrow> string" where
  "RawKey docID = ''raw/'' @ docID @ ''.pdf''"

definition ParsedKey :: "string \<Rightarrow> int \<Rightarrow> string" where
  "ParsedKey docID shardIdx = ''parsed/'' @ docID @ ''/'' @ itoa shardIdx @ ''.md''"

definition derefStr :: "string option \<Rightarrow> string" where
  "derefStr p = (case p of None \<Rightarrow> [] | Some s \<Rightarrow> s)"

definition derefInt :: "int option \<Rightarrow> int" where
  "derefInt p = (case p of None \<Rightarrow> 0 | Some n \<Rightarrow> n)"

section \<open>Terminal failure\<close>

definition terminal_write :: "string \<Rightarrow> ErrorCode \<Rightarrow> string \<Rightarrow> ('x world, goerr, unit) prog" where
  "terminal_write docID code detail =
     bnd (SetDocState docID StateFailed (Some (code_text code)) (Some detail)) (\<lambda>_.
     WriteEvent ''error'' ''embed'' detail (Some docID) None (Some (code_text code)) None [])"

definition failDocTerminal :: "string \<Rightarrow> ErrorCode \<Rightarrow> string \<Rightarrow> ('x world, goerr, unit) prog" where
  "failDocTerminal docID code detail =
     bnd (attempt (TxWithRetry 3 (terminal_write docID code detail))) (\<lambda>r.
     case r of
       Inl e \<Rightarrow> raise (Wrap (''terminal doc write failed (doc '' @ docID @ ''): '') e)
     | Inr _ \<Rightarrow> ret ())"

section \<open>The split\<close>

definition toBoundPairs :: "shard_bound list \<Rightarrow> (int \<times> int) list" where
  "toBoundPairs bounds = map (\<lambda>b. (PageStart b, PageEnd b)) bounds"

definition parse_job :: "string \<Rightarrow> string \<Rightarrow> int \<Rightarrow> int \<times> int \<Rightarrow> ParseJob" where
  "parse_job docID sourceURI i b =
     \<lparr>pj_SchemaVersion = SchemaVersion, pj_DocID = docID, pj_Idx = i, pj_PageStart = fst b,
      pj_PageEnd = snd b, pj_SourceURI = sourceURI\<rparr>"

definition parseJobsFor :: "string \<Rightarrow> string \<Rightarrow> (int \<times> int) list \<Rightarrow> ParseJob list" where
  "parseJobsFor docID sourceURI bounds =
     map (\<lambda>(i, b). parse_job docID sourceURI (int i) b) (enumerate 0 bounds)"

definition updateSplitMeta :: "string \<Rightarrow> int \<Rightarrow> int \<Rightarrow> ('x world, goerr, unit) prog" where
  "updateSplitMeta docID totalShards pageCount =
     tx_stmt (exec (\<lambda>now. update_docs (doc_is docID)
       (\<lambda>d. d\<lparr>d_TotalShards := Some totalShards, d_PageCount := Some pageCount, d_UpdatedAt := now\<rparr>)))"

definition split_tx :: "string \<Rightarrow> (int \<times> int) list \<Rightarrow> int \<Rightarrow> ('x world, goerr, unit) prog" where
  "split_tx docID bounds pageCount =
     bnd (SetDocState docID StateParsing None None) (\<lambda>_.
     bnd (updateSplitMeta docID (int (length bounds)) pageCount) (\<lambda>_.
     bnd (InsertShards docID bounds 0) (\<lambda>_. ret ())))"

definition commitSplit :: "string \<Rightarrow> (int \<times> int) list \<Rightarrow> int \<Rightarrow> ('x world, goerr, unit) prog" where
  "commitSplit docID bounds pageCount = Tx (split_tx docID bounds pageCount)"

definition enqueue_all :: "'x redis_ops \<Rightarrow> ParseJob list \<Rightarrow> ('x world, goerr, unit) prog" where
  "enqueue_all R jobs = for_each (enqueue_parse R) jobs"

text \<open>A write through the runner's transaction, in the idempotent branch.\<close>

definition SetDocStateRunner ::
  "string \<Rightarrow> DocState \<Rightarrow> string option \<Rightarrow> string option \<Rightarrow> ('x world, goerr, unit) prog" where
  "SetDocStateRunner docID st code detail = runner_stmt (set_doc_state docID st code detail)"

definition already_split :: "Document \<Rightarrow> ('x world, goerr, unit) prog" where
  "already_split doc =
     (if d_State doc = StateUploaded then SetDocStateRunner (d_ID doc) StateParsing None None
      else ret ())"

definition splitSingleShard :: "'x deps \<Rightarrow> Document \<Rightarrow> ('x world, goerr, unit) prog" where
  "splitSingleShard D doc =
     bnd (GetShard (d_ID doc) 0) (\<lambda>already.
     if already \<noteq> None then already_split doc
     else
       bnd (commitSplit (d_ID doc) [(1, 1)] 1) (\<lambda>_.
       enqueue_all (Redis D) (parseJobsFor (d_ID doc) (d_SourceURI doc) [(1, 1)])))"

definition split_bounds :: "bookmark list \<Rightarrow> int \<Rightarrow> int \<Rightarrow> goerr + shard_bound list" where
  "split_bounds outline pageCount shardPages =
     (case (if outline \<noteq> [] then ChapterAlignedBounds outline pageCount shardPages
            else FixedBounds pageCount shardPages 1) of
        Inl m \<Rightarrow> Inl (Plain m)
      | Inr bs \<Rightarrow> Inr bs)"

definition split_pdf :: "'x deps \<Rightarrow> Document \<Rightarrow> string \<Rightarrow> ('x world, goerr, unit) prog" where
  "split_pdf D doc bytes =
     (case PageCount (PdfLib D) (Some (Inr bytes)) of
        Inl e \<Rightarrow>
          if ClassifyPDFError (Some e) = ''PDF_ENCRYPTED''
          then raise (NewPlatformError CodePDFEncrypted ''source PDF is encrypted'')
          else raise (NewPlatformError CodePDFCorrupt (''cannot open PDF: '' @ error_text e))
      | Inr pageCount \<Rightarrow>
          bnd (of_sum (split_bounds (ExtractBookmarks (PdfLib D) (Some (Inr bytes))) pageCount (ShardPages (Config D))))
            (\<lambda>bounds.
          let pairs = toBoundPairs bounds
          in bnd (commitSplit (d_ID doc) pairs pageCount) (\<lambda>_.
             enqueue_all (Redis D) (parseJobsFor (d_ID doc) (d_SourceURI doc) pairs))))"

definition split_source :: "'x deps \<Rightarrow> Document \<Rightarrow> ('x world, goerr, unit) prog" where
  "split_source D doc =
     bnd (MkdirTemp D) (\<lambda>_.
     bnd (attempt (DownloadTo D (S3BucketRaw (Config D)) (RawKey (d_ID doc)))) (\<lambda>r.
     case r of
       Inl e \<Rightarrow>
         if IsNotFound (Some e)
         then failDocTerminal (d_ID doc) CodePDFCorrupt (''raw source object vanished: '' @ error_text e)
         else raise (NewPlatformError CodePDFCorrupt (''source missing: '' @ error_text e))
     | Inr bytes \<Rightarrow>
         if d_MimeType doc \<noteq> Some (MimeType FmtPDF) then splitSingleShard D doc
         else split_pdf D doc bytes))"

definition HandleSplit :: "'x deps \<Rightarrow> payload \<Rightarrow> ('x world, goerr, unit) prog" where
  "HandleSplit D job =
     bnd (of_sum (jobString job ''doc_id'')) (\<lambda>docID.
     bnd (GetDocument docID) (\<lambda>d.
     case d of
       None \<Rightarrow> ret ()
     | Some doc \<Rightarrow>
         bnd (GetShard docID 0) (\<lambda>already.
         if already \<noteq> None then already_split doc
         else split_source D doc)))"

section \<open>The rows a split writes\<close>

definition shard_rows :: "string \<Rightarrow> (int \<times> int) list \<Rightarrow> int \<Rightarrow> int \<Rightarrow> Shard list" where
  "shard_rows docID bs start now =
     map (\<lambda>(i, b). new_shard docID (start + int i) (fst b) (snd b) now) (enumerate 0 bs)"

lemma enumerate_shift: "enumerate (Suc n) xs = map (\<lambda>(i, x). (Suc i, x)) (enumerate n xs)"
  by (induction xs arbitrary: n) auto

lemma shard_rows_Cons:
  "shard_rows docID (b # bs) start now = new_shard docID start (fst b) (snd b) now # shard_rows docID bs (start + 1) now"
  by (auto simp: shard_rows_def enumerate_shift split_def algebra_simps)

lemma shard_rows_props:
  "length (shard_rows docID bs start now) = length bs"
  "\<forall>s \<in> set (shard_rows docID bs start now). s_DocID s = docID \<and> s_State s = ShardPending \<and> s_Attempts s = 0
     \<and> start \<le> s_Idx s \<and> s_Idx s < start + int (length bs)"
  by (auto simp: shard_rows_def new_shard_def in_set_enumerate_eq)

lemma insert_shard_keys:
  assumes "insert_shard docID idx b now t = (Inr x, u)" "keys_ok t"
  shows "keys_ok u"
proof -
  have u: "u = t\<lparr>shards := shards t @ [new_shard docID idx (fst b) (snd b) now]\<rparr>"
    and f: "\<not> (\<exists>s \<in> set (shards t). s_DocID s = docID \<and> s_Idx s = idx)"
    and d: "\<exists>d \<in> set (documents t). d_ID d = docID"
    using assms(1) by (auto simp: insert_shard_def split: if_splits)
  have "(docID, idx) \<notin> (\<lambda>s. (s_DocID s, s_Idx s)) ` set (shards t)" using f by auto
  then show ?thesis using assms(2) d unfolding keys_ok_def u by (auto simp: new_shard_def)
qed

lemma post_insert_shards:
  "post (insert_shards_from docID bs start)
     (\<lambda>now t x u. u = t\<lparr>shards := shards t @ shard_rows docID bs start now\<rparr>
        \<and> (keys_ok t \<longrightarrow> keys_ok u))"
proof (induction bs arbitrary: start)
  case Nil
  show ?case unfolding insert_shards_from.simps
    by (rule post_weaken[OF post_ret]) (simp add: shard_rows_def)
next
  case (Cons b bs)
  have ins: "post (tx_stmt (insert_shard docID start b))
     (\<lambda>now t x u. u = t\<lparr>shards := shards t @ [new_shard docID start (fst b) (snd b) now]\<rparr> \<and> (keys_ok t \<longrightarrow> keys_ok u))"
    by (rule post_weaken[OF post_tx_stmt]) (auto simp: insert_shard_keys, simp add: insert_shard_def split: if_splits)
  show ?case unfolding insert_shards_from.simps
    by (rule post_weaken[OF post_bnd[OF ins Cons.IH]]) (auto simp: shard_rows_Cons)
qed

lemma post_InsertShards:
  "post (InsertShards docID bs start)
     (\<lambda>now t x u. x = int (length bs) \<and> u = t\<lparr>shards := shards t @ shard_rows docID bs start now\<rparr> \<and> (keys_ok t \<longrightarrow> keys_ok u))"
  unfolding InsertShards_def by (rule post_weaken[OF post_bnd[OF post_insert_shards post_ret]]) auto

definition split_doc :: "int \<Rightarrow> int \<Rightarrow> int \<Rightarrow> Document \<Rightarrow> Document" where
  "split_doc now n pages d =
     d\<lparr>d_State := StateParsing, d_ErrorCode := None, d_ErrorDetail := None, d_UpdatedAt := now,
       d_TotalShards := Some n, d_PageCount := Some pages\<rparr>"

definition split_tables :: "string \<Rightarrow> (int \<times> int) list \<Rightarrow> int \<Rightarrow> int \<Rightarrow> tables \<Rightarrow> tables" where
  "split_tables docID bs pages now t =
     (update_docs (doc_is docID) (split_doc now (int (length bs)) pages) t)
       \<lparr>shards := shards t @ shard_rows docID bs 0 now\<rparr>"

lemma map_if_comp: "map (\<lambda>d. if p d then f d else d) (map (\<lambda>d. if p d then g d else d) xs)
    = map (\<lambda>d. if p d then (if p (g d) then f (g d) else g d) else d) xs"
  by simp

lemma post_commitSplit:
  "post (commitSplit docID bs pages)
     (\<lambda>now t x u. u = split_tables docID bs pages now t \<and> (keys_ok t \<longrightarrow> keys_ok u))"
proof -
  have st: "post (SetDocState docID StateParsing None None)
      (\<lambda>now t x u. u = set_doc_state docID StateParsing None None now t \<and> (keys_ok t \<longrightarrow> keys_ok u))"
    unfolding SetDocState_def by (rule post_weaken[OF post_tx_stmt]) (auto simp: set_doc_state_def keys_ok_update_docs)
  let ?f = "\<lambda>n now d. d\<lparr>d_TotalShards := Some n, d_PageCount := Some pages, d_UpdatedAt := now\<rparr>"
  have meta: "post (updateSplitMeta docID n pages)
      (\<lambda>now t x u. u = update_docs (doc_is docID) (?f n now) t \<and> (keys_ok t \<longrightarrow> keys_ok u))" for n
    unfolding updateSplitMeta_def by (rule post_weaken[OF post_tx_stmt]) (auto simp: keys_ok_update_docs)
  have eq: "(update_docs (doc_is docID) (?f n now) (set_doc_state docID StateParsing None None now t))
      \<lparr>shards := shards t @ ss\<rparr>
      = (update_docs (doc_is docID) (split_doc now n pages) t)\<lparr>shards := shards t @ ss\<rparr>" for n now t ss
    by (simp add: set_doc_state_def split_doc_def update_docs_def)
  have sh: "shards (set_doc_state docID st code detail now t) = shards t" for st code detail now t
    by (simp add: set_doc_state_def)
  show ?thesis unfolding commitSplit_def split_tx_def
    by (rule post_weaken[OF post_Tx[OF post_bnd[OF st post_bnd[OF meta post_bnd[OF post_InsertShards post_ret]]]]])
      (auto simp: split_tables_def eq sh)
qed

lemma bnd_of_sum: "bnd (of_sum (Inr x)) f = f x" "bnd (of_sum (Inl e)) f = raise e"
  by (rule ext, simp add: bnd_def)+

section \<open>What a successful split leaves\<close>

lemma count_append_pending:
  assumes "\<forall>s \<in> set rows. s_State s = ShardPending" "st \<noteq> ShardPending"
  shows "count_shards d st (t\<lparr>shards := shards t @ rows\<rparr>) = count_shards d st t"
proof -
  have "filter (\<lambda>s. s_DocID s = d \<and> s_State s = st) rows = []" using assms by (auto simp: filter_empty_conv)
  then show ?thesis by (simp add: count_shards_def)
qed

lemma exact_split_tables: "exact (split_tables docID bs n now t) \<longleftrightarrow> exact t"
proof -
  have c: "count_shards d st (split_tables docID bs n now t) = count_shards d st t" if "st \<noteq> ShardPending" for d st
    using count_append_pending[of "shard_rows docID bs 0 now" st d t] shard_rows_props(2)[of docID bs 0 now] that
    by (simp add: split_tables_def count_shards_def)
  let ?g = "\<lambda>d. if doc_is docID d then split_doc now (int (length bs)) n d else d"
  have g: "d_ID (?g d) = d_ID d \<and> d_ShardsDone (?g d) = d_ShardsDone d \<and> d_ShardsFailed (?g d) = d_ShardsFailed d" for d
    by (simp add: split_doc_def)
  have "documents (split_tables docID bs n now t) = map ?g (documents t)" by (simp add: split_tables_def)
  then show ?thesis unfolding exact_def2 using g by (simp add: c del: if_image_distrib)
qed

lemma split_bounds_ok:
  assumes "split_bounds outline n sp = Inr bs" "1 \<le> n"
  shows "(\<forall>p. covers bs p \<longleftrightarrow> 1 \<le> p \<and> p \<le> n) \<and> at_most (max 1 sp) bs \<and> int (length bs) \<le> n"
proof (cases "outline = []")
  case True
  then have f: "FixedBounds n sp 1 = Inr bs" using assms(1) by (auto simp: split_bounds_def split: sum.splits)
  then have sp: "1 \<le> sp" by (auto simp: FixedBounds_def split: if_splits)
  have "bs = fixed_loop n sp 1 1 0" using f by (auto simp: FixedBounds_def split: if_splits)
  then show ?thesis using fixed_bounds_run[OF assms(2) sp, of 1] f fixed_loop_length[OF sp, of n 1 1 0] assms(2) sp
    by (auto simp: max_def)
next
  case False
  then have c: "ChapterAlignedBounds outline n sp = Inr bs" using assms(1) by (auto simp: split_bounds_def split: sum.splits)
  obtain cs where cs: "ChapterAlignedBounds outline n sp = Inr cs" "tiles 1 n cs" "at_most (if sp < 1 then 1 else sp) cs"
    using chapter_aligned_run[OF assms(2), of sp outline] by blast
  then have "bs = cs" using c by simp
  moreover have "(if sp < 1 then 1 else sp) = max 1 sp" by auto
  ultimately show ?thesis using cs tiles_covers[OF cs(2)] tiles_length[OF cs(2)] by (auto simp: covers_def)
qed

lemma split_pdf_run:
  assumes "redis_view (Redis D) ok und ent pel" "ok (ext v)" "split_pdf D doc bytes v = (Inr (), w')"
  shows "\<exists>n bs. PageCount (PdfLib D) (Some (Inr bytes)) = Inr n \<and> 1 \<le> n
    \<and> split_bounds (ExtractBookmarks (PdfLib D) (Some (Inr bytes))) n (ShardPages (Config D)) = Inr bs
    \<and> db w' = split_tables (d_ID doc) (toBoundPairs bs) n (clock v) (db v)
    \<and> added ok und pel StreamParse
        (map (\<lambda>j. MarshalJob (parse_fields j)) (parseJobsFor (d_ID doc) (d_SourceURI doc) (toBoundPairs bs)))
        (ext v) (ext w')"
proof -
  obtain n where n: "PageCount (PdfLib D) (Some (Inr bytes)) = Inr n"
    using assms(3) by (cases "PageCount (PdfLib D) (Some (Inr bytes))") (auto simp: split_pdf_def split: if_splits)
  obtain bs where bs: "split_bounds (ExtractBookmarks (PdfLib D) (Some (Inr bytes))) n (ShardPages (Config D)) = Inr bs"
    using assms(3) n by (auto simp: split_pdf_def bnd_eq_Inr)
  obtain w1 where c: "commitSplit (d_ID doc) (toBoundPairs bs) n v = (Inr (), w1)"
    and q: "for_each (enqueue_parse (Redis D)) (parseJobsFor (d_ID doc) (d_SourceURI doc) (toBoundPairs bs)) w1 = (Inr (), w')"
    using assms(3) n bs by (auto simp: split_pdf_def bnd_eq_Inr Let_def enqueue_all_def)
  have e: "ext w1 = ext v" using frameD(1)[OF post_frame[OF post_commitSplit] c] .
  then have ok1: "ok (ext w1)" using assms(2) by simp
  obtain x' where a: "w' = w1\<lparr>ext := x'\<rparr>" "added ok und pel StreamParse
        (map (\<lambda>j. MarshalJob (parse_fields j)) (parseJobsFor (d_ID doc) (d_SourceURI doc) (toBoundPairs bs))) (ext w1) x'"
    using for_each_added[OF assms(1) ok1 q] by blast
  have "1 \<le> n" using n PageCountBytes_positive_core by (auto simp: PageCount_def read_file_def)
  then show ?thesis using n bs a postD[OF post_commitSplit c] e by auto
qed

lemma query_run:
  assumes "pool_stmt (query f) w = (Inr x, w')"
  shows "x = f (db w) \<and> db w' = db w \<and> ext w' = ext w \<and> clock w' = clock w \<and> runner_log w' = runner_log w"
  using assms by (auto simp: pool_stmt_Inr)

lemma split_start:
  assumes "jobString job ''doc_id'' = Inr docID" "doc_by_id docID (db w) = Some doc"
    and "HandleSplit D job w = (Inr (), w')"
  obtains w1 where "db w1 = db w" "ext w1 = ext w" "clock w1 = clock w" "runner_log w1 = runner_log w"
    "(if shard_by_key docID 0 (db w) \<noteq> None then already_split doc else split_source D doc) w1 = (Inr (), w')"
proof -
  have "bnd (GetDocument docID) (\<lambda>d. case d of None \<Rightarrow> ret () | Some doc \<Rightarrow>
         bnd (GetShard docID 0) (\<lambda>already. if already \<noteq> None then already_split doc else split_source D doc)) w = (Inr (), w')"
    using assms(3) unfolding HandleSplit_def assms(1) bnd_of_sum by assumption
  then obtain d w1 where g: "GetDocument docID w = (Inr d, w1)"
    and rest: "(case d of None \<Rightarrow> ret () | Some doc \<Rightarrow>
         bnd (GetShard docID 0) (\<lambda>already. if already \<noteq> None then already_split doc else split_source D doc)) w1 = (Inr (), w')"
    by (rule bnd_InrE)
  note q1 = query_run[OF g[unfolded GetDocument_def]]
  then have d: "d = Some doc" using assms(2) by simp
  obtain a w2 where s: "GetShard docID 0 w1 = (Inr a, w2)"
    and r: "(if a \<noteq> None then already_split doc else split_source D doc) w2 = (Inr (), w')"
    using rest unfolding d option.case by (elim bnd_InrE)
  note q2 = query_run[OF s[unfolded GetShard_def]]
  show ?thesis by (rule that[of w2]) (use q1 q2 r in simp_all)
qed

text \<open>
  C16. A split that succeeds for a document without shards and a readable PDF commits, at once,
  the parsing state, the totals and one pending shard row per bound, whose page ranges cover
  exactly the pages of the document; the parse stream gains one job per row, in order, with
  the row's key and pages; and the document counters stay exact.
\<close>

theorem HandleSplit_commits:
  assumes "redis_view (Redis D) ok und ent pel" "ok (ext w)"
    and "jobString job ''doc_id'' = Inr docID" "doc_by_id docID (db w) = Some doc"
    and "\<forall>s \<in> set (shards (db w)). s_DocID s \<noteq> docID" "d_MimeType doc = Some (MimeType FmtPDF)"
    and "MkdirTemp D = ret ()" "\<forall>v. DownloadTo D (S3BucketRaw (Config D)) (RawKey docID) v = (Inr bytes, v)"
    and "HandleSplit D job w = (Inr (), w')"
  shows "\<exists>n bs. PageCount (PdfLib D) (Some (Inr bytes)) = Inr n
    \<and> (\<forall>p. covers bs p \<longleftrightarrow> 1 \<le> p \<and> p \<le> n) \<and> at_most (max 1 (ShardPages (Config D))) bs
    \<and> db w' = split_tables docID (toBoundPairs bs) n (clock w) (db w)
    \<and> map snd (und (ext w') StreamParse) = map snd (und (ext w) StreamParse)
        @ map (\<lambda>j. MarshalJob (parse_fields j)) (parseJobsFor docID (d_SourceURI doc) (toBoundPairs bs))
    \<and> exact (db w') = exact (db w)"
proof -
  have id: "d_ID doc = docID" using assms(4) by (auto simp: doc_by_id_def find_Some_iff)
  obtain w1 where w1: "db w1 = db w" "ext w1 = ext w" "clock w1 = clock w"
    and run: "(if shard_by_key docID 0 (db w) \<noteq> None then already_split doc else split_source D doc) w1 = (Inr (), w')"
    by (rule split_start[OF assms(3,4,9)])
  have "shard_by_key docID 0 (db w) = None" using assms(5) by (auto simp: shard_by_key_def find_None_iff)
  then have "split_pdf D doc bytes w1 = (Inr (), w')"
    using run assms(6-8) id by (simp add: split_source_def bnd_def attempt_apply)
  from split_pdf_run[OF assms(1) _ this] obtain n bs where n: "PageCount (PdfLib D) (Some (Inr bytes)) = Inr n" "1 \<le> n"
    "split_bounds (ExtractBookmarks (PdfLib D) (Some (Inr bytes))) n (ShardPages (Config D)) = Inr bs"
    "db w' = split_tables docID (toBoundPairs bs) n (clock w) (db w)"
    and a: "added ok und pel StreamParse
        (map (\<lambda>j. MarshalJob (parse_fields j)) (parseJobsFor docID (d_SourceURI doc) (toBoundPairs bs)))
        (ext w) (ext w')"
    using assms(2) w1 id by auto
  show ?thesis
    using n split_bounds_ok[OF n(3,2)] exact_split_tables added_raws[OF a] by (intro exI[of _ n] exI[of _ bs]) simp
qed



section \<open>Jobs never precede their rows\<close>

text \<open>
  What is relied on of \<open>XADD\<close>, on success and on error: it adds the message to its stream or
  adds nothing.
\<close>

definition add_view :: "'x redis_ops \<Rightarrow> ('x \<Rightarrow> string \<Rightarrow> msg list) \<Rightarrow> bool" where
  "add_view R und \<longleftrightarrow>
     (\<forall>x s raw r x'. XAdd R s raw x = (r, x') \<longrightarrow>
        (\<forall>s'. und x' s' = und x s' \<or> s' = s \<and> (\<exists>i. und x' s' = und x s' @ [(i, raw)])))"

definition has_row :: "string \<Rightarrow> int \<Rightarrow> tables \<Rightarrow> bool" where
  "has_row docID idx t \<longleftrightarrow> (\<exists>s \<in> set (shards t). s_DocID s = docID \<and> s_Idx s = idx)"

text \<open>Every undelivered parse job has its shard row.\<close>

definition jobs_have_rows :: "(string \<Rightarrow> int) \<Rightarrow> ('x \<Rightarrow> string \<Rightarrow> msg list) \<Rightarrow> tables \<Rightarrow> 'x \<Rightarrow> bool" where
  "jobs_have_rows pf und t x \<longleftrightarrow>
     (\<forall>raw \<in> set (map snd (und x StreamParse)). \<forall>docID idx.
        payloadKeyOf raw (parseJobKey pf) = Some (parseJobKeyOf docID idx) \<longrightarrow> has_row docID idx t)"

text \<open>Ids and URIs are UTF-8 text, ids not empty: the columns' types.\<close>

definition texts_ok :: "tables \<Rightarrow> bool" where
  "texts_ok t \<longleftrightarrow> (\<forall>d \<in> set (documents t). valid_utf8 (d_ID d) \<and> valid_utf8 (d_SourceURI d) \<and> d_ID d \<noteq> [])"

abbreviation rows_inv :: "(string \<Rightarrow> int) \<Rightarrow> ('x \<Rightarrow> string \<Rightarrow> msg list) \<Rightarrow> 'x world \<Rightarrow> bool" where
  "rows_inv pf und w \<equiv> jobs_have_rows pf und (db w) (ext w) \<and> texts_ok (db w)"

lemma enqueue_keeps_rows:
  assumes "add_view R und" "valid_utf8 (pj_DocID j)" "valid_utf8 (pj_SourceURI j)" "pj_DocID j \<noteq> []" "\<bar>pj_Idx j\<bar> < 10 ^ 15"
  shows "triple (\<lambda>w. rows_inv pf und w \<and> has_row (pj_DocID j) (pj_Idx j) (db w) \<and> K (db w)) (enqueue_parse R j)
    (\<lambda>_ w. rows_inv pf und w \<and> K (db w)) (rows_inv pf und)"
proof -
  have step: "jobs_have_rows pf und t x'"
    if "jobs_have_rows pf und t x" "has_row (pj_DocID j) (pj_Idx j) t"
      "XAdd R StreamParse (MarshalJob (parse_fields j)) x = (r, x')" for t x r x'
  proof -
    have "und x' StreamParse = und x StreamParse \<or> (\<exists>i. und x' StreamParse = und x StreamParse @ [(i, MarshalJob (parse_fields j))])"
      using assms(1) that(3) unfolding add_view_def by blast
    then show ?thesis
      using that(1,2) parse_key[OF assms(2-5), of pf] by (auto simp: jobs_have_rows_def parseJobKeyOf_inj)
  qed
  let ?p = "\<lambda>t x. (jobs_have_rows pf und t x \<and> texts_ok t) \<and> has_row (pj_DocID j) (pj_Idx j) t \<and> K t"
  have "triple (\<lambda>w. ?p (db w) (ext w)) (on_ext (XAddJob R StreamParse (parse_fields j)))
    (\<lambda>_ w. (jobs_have_rows pf und (db w) (ext w) \<and> texts_ok (db w)) \<and> K (db w))
    (\<lambda>w. jobs_have_rows pf und (db w) (ext w) \<and> texts_ok (db w))"
    by (rule triple_on_ext) (auto simp: XAddJob_def split: sum.splits dest: step)
  from triple_bnd[OF this triple_ret] show ?thesis unfolding enqueue_parse_def by simp
qed

lemma parse_jobs_rows:
  "j \<in> set (parseJobsFor docID uri bs) \<Longrightarrow>
   pj_DocID j = docID \<and> pj_SourceURI j = uri \<and> 0 \<le> pj_Idx j \<and> pj_Idx j < int (length bs)"
  by (auto simp: parseJobsFor_def parse_job_def in_set_enumerate_eq)

lemma enqueue_all_keeps_rows:
  assumes "add_view R und" "valid_utf8 docID" "valid_utf8 uri" "docID \<noteq> []" "int (length bs) < 10 ^ 15"
  shows "triple (\<lambda>w. rows_inv pf und w \<and> (\<forall>i. 0 \<le> i \<and> i < int (length bs) \<longrightarrow> has_row docID i (db w)))
    (enqueue_all R (parseJobsFor docID uri bs)) (\<lambda>_. rows_inv pf und) (rows_inv pf und)"
proof -
  let ?K = "\<lambda>t. \<forall>i. 0 \<le> i \<and> i < int (length bs) \<longrightarrow> has_row docID i t"
  have "triple (\<lambda>w. rows_inv pf und w \<and> ?K (db w)) (enqueue_parse R j) (\<lambda>_ w. rows_inv pf und w \<and> ?K (db w)) (rows_inv pf und)"
    if "j \<in> set (parseJobsFor docID uri bs)" for j
  proof -
    note p = parse_jobs_rows[OF that]
    have "\<bar>pj_Idx j\<bar> < 10 ^ 15" using p assms(5) by linarith
    then have "triple (\<lambda>w. rows_inv pf und w \<and> has_row (pj_DocID j) (pj_Idx j) (db w) \<and> ?K (db w)) (enqueue_parse R j)
      (\<lambda>_ w. rows_inv pf und w \<and> ?K (db w)) (rows_inv pf und)"
      using p assms(2-4) by (intro enqueue_keeps_rows[OF assms(1)]) simp_all
    then show ?thesis by (rule triple_conseq) (use p in auto)
  qed
  then have "triple (\<lambda>w. rows_inv pf und w \<and> ?K (db w)) (enqueue_all R (parseJobsFor docID uri bs))
      (\<lambda>_ w. rows_inv pf und w \<and> ?K (db w)) (rows_inv pf und)"
    unfolding enqueue_all_def by (rule triple_for_each)
  then show ?thesis by (rule triple_conseq) auto
qed

lemma split_tables_rows:
  "0 \<le> i \<Longrightarrow> i < int (length bs) \<Longrightarrow> has_row docID i (split_tables docID bs n now t)"
proof -
  assume i: "0 \<le> i" "i < int (length bs)"
  let ?r = "shard_rows docID bs 0 now ! nat i"
  have "?r \<in> set (shard_rows docID bs 0 now)" using i by (intro nth_mem) (simp add: shard_rows_props(1))
  moreover have "s_DocID ?r = docID \<and> s_Idx ?r = i"
    using i by (simp add: shard_rows_def new_shard_def nth_enumerate_eq)
  ultimately show ?thesis unfolding has_row_def split_tables_def by auto
qed

lemma commitSplit_keeps_rows:
  "triple (rows_inv pf und) (commitSplit docID bs n)
     (\<lambda>_ w. rows_inv pf und w \<and> (\<forall>i. 0 \<le> i \<and> i < int (length bs) \<longrightarrow> has_row docID i (db w))) (rows_inv pf und)"
proof -
  have at: "atomic (commitSplit docID bs n)" by (simp add: commitSplit_def atomic_Tx)
  have keep: "jobs_have_rows pf und (split_tables docID bs n now t) y \<and> texts_ok (split_tables docID bs n now t)"
    if "jobs_have_rows pf und t y \<and> texts_ok t" for now t y
  proof -
    have "has_row d i t \<Longrightarrow> has_row d i (split_tables docID bs n now t)" for d i
      by (auto simp: has_row_def split_tables_def)
    moreover have "texts_ok (split_tables docID bs n now t)"
      using that by (auto simp: texts_ok_def split_tables_def split_doc_def)
    ultimately show ?thesis using that by (fastforce simp: jobs_have_rows_def)
  qed
  show ?thesis
    by (rule triple_db[OF post_commitSplit at, of "\<lambda>t y. jobs_have_rows pf und t y \<and> texts_ok t"
          "\<lambda>_ u y. (jobs_have_rows pf und u y \<and> texts_ok u) \<and> (\<forall>i. 0 \<le> i \<and> i < int (length bs) \<longrightarrow> has_row docID i u)"])
      (use keep split_tables_rows in blast)
qed


lemma failDocTerminal_keeps_rows: "triple (rows_inv pf und) (failDocTerminal docID code detail) (\<lambda>_. rows_inv pf und) (rows_inv pf und)"
proof -
  have wr: "post (terminal_write docID code detail)
      (\<lambda>now t x u. shards u = shards t \<and> (\<exists>f. documents u = map f (documents t) \<and> (\<forall>d. d_ID (f d) = d_ID d \<and> d_SourceURI (f d) = d_SourceURI d)))"
    unfolding terminal_write_def SetDocState_def write_event_stmt
    by (rule post_weaken[OF post_bnd[OF post_tx_stmt post_tx_stmt]])
      (auto simp: set_doc_state_def intro!: exI[of _ "\<lambda>d. if doc_is docID d then _ d else d"])
  have "triple (rows_inv pf und) (TxWithRetry 3 (terminal_write docID code detail)) (\<lambda>_. rows_inv pf und) (rows_inv pf und)"
    by (rule triple_db[OF post_TxWithRetry[OF wr] atomic_TxWithRetry, of "\<lambda>t y. jobs_have_rows pf und t y \<and> texts_ok t"
          "\<lambda>_ t y. jobs_have_rows pf und t y \<and> texts_ok t"])
      (auto simp: jobs_have_rows_def has_row_def texts_ok_def)
  from triple_attempt[OF this, of "rows_inv pf und"] show ?thesis unfolding failDocTerminal_def
    by (rule triple_bnd) (auto intro!: tripleI split: sum.splits)
qed

lemma already_split_keeps_rows: "triple (rows_inv pf und) (already_split doc) (\<lambda>_. rows_inv pf und) (rows_inv pf und)"
  by (auto intro!: tripleI simp: already_split_def SetDocStateRunner_def runner_stmt_def bnd_def next_fault_apply
      split: if_splits option.splits)

lemma split_pdf_keeps_rows:
  assumes "add_view (Redis D) und" "valid_utf8 (d_ID doc)" "valid_utf8 (d_SourceURI doc)" "d_ID doc \<noteq> []"
    and "\<forall>n. PageCount (PdfLib D) (Some (Inr bytes)) = Inr n \<longrightarrow> n < 10 ^ 15"
  shows "triple (rows_inv pf und) (split_pdf D doc bytes) (\<lambda>_. rows_inv pf und) (rows_inv pf und)"
proof (cases "PageCount (PdfLib D) (Some (Inr bytes))")
  case (Inl e)
  then show ?thesis by (auto simp: split_pdf_def intro: triple_raise)
next
  case (Inr n)
  have n: "1 \<le> n" "n < 10 ^ 15"
    using Inr PageCountBytes_positive_core[of "PdfLib D" bytes n] assms(5)
    by (simp add: PageCount_def read_file_def) (use Inr assms(5) in blast)
  let ?sb = "split_bounds (ExtractBookmarks (PdfLib D) (Some (Inr bytes))) n (ShardPages (Config D))"
  show ?thesis
  proof (cases ?sb)
    case (Inl e)
    then show ?thesis using Inr by (simp add: split_pdf_def bnd_of_sum triple_raise)
  next
    case (Inr bs)
    have "int (length (toBoundPairs bs)) < 10 ^ 15"
      using split_bounds_ok[OF Inr n(1)] n(2) by (simp add: toBoundPairs_def)
    note q = enqueue_all_keeps_rows[OF assms(1,2,3,4) this]
    have "split_pdf D doc bytes = bnd (commitSplit (d_ID doc) (toBoundPairs bs) n) (\<lambda>_.
        enqueue_all (Redis D) (parseJobsFor (d_ID doc) (d_SourceURI doc) (toBoundPairs bs)))"
      using \<open>PageCount (PdfLib D) (Some (Inr bytes)) = Inr n\<close> Inr by (simp add: split_pdf_def bnd_of_sum Let_def)
    then show ?thesis using triple_bnd[OF commitSplit_keeps_rows q] by simp
  qed
qed

lemma splitSingleShard_keeps_rows:
  assumes "add_view (Redis D) und" "valid_utf8 (d_ID doc)" "valid_utf8 (d_SourceURI doc)" "d_ID doc \<noteq> []"
  shows "triple (rows_inv pf und) (splitSingleShard D doc) (\<lambda>_. rows_inv pf und) (rows_inv pf und)"
proof -
  have q: "triple (\<lambda>w. rows_inv pf und w \<and> (\<forall>i. 0 \<le> i \<and> i < int (length [(1::int, 1::int)]) \<longrightarrow> has_row (d_ID doc) i (db w)))
    (enqueue_all (Redis D) (parseJobsFor (d_ID doc) (d_SourceURI doc) [(1, 1)])) (\<lambda>_. rows_inv pf und) (rows_inv pf und)"
    by (rule enqueue_all_keeps_rows[OF assms]) simp
  have g: "triple (rows_inv pf und) (GetShard (d_ID doc) 0) (\<lambda>_. rows_inv pf und) (rows_inv pf und)"
    unfolding GetShard_def
    by (rule triple_conseq[OF triple_query[of "\<lambda>t y. jobs_have_rows pf und t y \<and> texts_ok t"]]) auto
  show ?thesis unfolding splitSingleShard_def
    by (rule triple_bnd[OF g]) (intro triple_if already_split_keeps_rows triple_bnd[OF commitSplit_keeps_rows q])
qed

text \<open>
  Whatever fails during a split, and wherever, the parse jobs stay behind the rows: if
  every undelivered parse job had its shard row before, every one has it afterwards, so no
  parser can find nothing to claim for a job the splitter enqueued.
\<close>

theorem HandleSplit_keeps_rows:
  assumes "add_view (Redis D) und"
    and "\<forall>b k v bytes v' n. DownloadTo D b k v = (Inr bytes, v') \<and> PageCount (PdfLib D) (Some (Inr bytes)) = Inr n
        \<longrightarrow> n < 10 ^ 15"
    and "keeps (rows_inv pf und) (MkdirTemp D)" "\<forall>b k. keeps (rows_inv pf und) (DownloadTo D b k)"
  shows "keeps (rows_inv pf und) (HandleSplit D job)"
proof -
  let ?I = "rows_inv pf und"
  have src: "triple ?I (split_source D doc) (\<lambda>_. ?I) ?I"
    if "valid_utf8 (d_ID doc)" "valid_utf8 (d_SourceURI doc)" "d_ID doc \<noteq> []" for doc
  proof -
    let ?few = "\<lambda>bytes. \<forall>n. PageCount (PdfLib D) (Some (Inr bytes)) = Inr n \<longrightarrow> n < 10 ^ 15"
    have mk: "triple ?I (MkdirTemp D) (\<lambda>_. ?I) ?I" using assms(3) by (simp add: triple_keeps)
    have dl: "triple ?I (DownloadTo D b k) (\<lambda>bytes w. ?I w \<and> ?few bytes) ?I" for b k
      using keepsD[of ?I "DownloadTo D b k"] assms(2,4) by (intro tripleI) (metis snd_conv)+
    have body: "triple (\<lambda>w. case r of Inl e \<Rightarrow> ?I w | Inr bytes \<Rightarrow> ?I w \<and> ?few bytes) (case r of
         Inl e \<Rightarrow> if IsNotFound (Some e)
           then failDocTerminal (d_ID doc) CodePDFCorrupt (''raw source object vanished: '' @ error_text e)
           else raise (NewPlatformError CodePDFCorrupt (''source missing: '' @ error_text e))
       | Inr bytes \<Rightarrow> if d_MimeType doc \<noteq> Some (MimeType FmtPDF) then splitSingleShard D doc
           else split_pdf D doc bytes) (\<lambda>_. ?I) ?I" for r
    proof (cases r)
      case (Inl e)
      then show ?thesis using failDocTerminal_keeps_rows[of pf und] by (auto intro: triple_raise)
    next
      case (Inr bytes)
      show ?thesis
      proof (cases "?few bytes")
        case True
        have "triple ?I (if d_MimeType doc \<noteq> Some (MimeType FmtPDF) then splitSingleShard D doc else split_pdf D doc bytes) (\<lambda>_. ?I) ?I"
          by (intro triple_if splitSingleShard_keeps_rows[OF assms(1) that] split_pdf_keeps_rows[OF assms(1) that True])
        then show ?thesis unfolding Inr sum.case by (rule triple_conseq) auto
      qed (unfold triple_def Inr sum.case, blast)
    qed
    show ?thesis unfolding split_source_def
      by (rule triple_bnd[OF mk triple_bnd[OF triple_attempt[OF dl] body]])
  qed
  have sh: "triple ?I (GetShard docID 0) (\<lambda>_. ?I) ?I" for docID
    unfolding GetShard_def by (rule triple_conseq[OF triple_query[of "\<lambda>t y. jobs_have_rows pf und t y \<and> texts_ok t"]]) auto
  have doc: "triple ?I (GetDocument docID) (\<lambda>d w. ?I w \<and> (\<forall>doc. d = Some doc \<longrightarrow>
      valid_utf8 (d_ID doc) \<and> valid_utf8 (d_SourceURI doc) \<and> d_ID doc \<noteq> [])) ?I" for docID
    unfolding GetDocument_def
    by (rule triple_conseq[OF triple_query[of "\<lambda>t y. jobs_have_rows pf und t y \<and> texts_ok t"]])
      (auto simp: texts_ok_def doc_by_id_def find_Some_iff)
  have cont: "triple (\<lambda>w. ?I w \<and> (\<forall>doc. d = Some doc \<longrightarrow>
      valid_utf8 (d_ID doc) \<and> valid_utf8 (d_SourceURI doc) \<and> d_ID doc \<noteq> []))
     (case d of None \<Rightarrow> ret () | Some doc \<Rightarrow>
        bnd (GetShard docID 0) (\<lambda>already. if already \<noteq> None then already_split doc else split_source D doc)) (\<lambda>_. ?I) ?I" for d docID
  proof (cases d)
    case (Some doc)
    show ?thesis
    proof (cases "valid_utf8 (d_ID doc) \<and> valid_utf8 (d_SourceURI doc) \<and> d_ID doc \<noteq> []")
      case True
      have "triple ?I (bnd (GetShard docID 0) (\<lambda>already. if already \<noteq> None then already_split doc else split_source D doc)) (\<lambda>_. ?I) ?I"
        by (rule triple_bnd[OF sh]) (use src True already_split_keeps_rows in \<open>auto intro: triple_if\<close>)
      then show ?thesis unfolding Some option.case by (rule triple_conseq) auto
    next
      case False
      then show ?thesis unfolding triple_def Some by auto
    qed
  qed (auto intro: triple_ret)
  have "triple ?I (HandleSplit D job) (\<lambda>_. ?I) ?I"
  proof (cases "jobString job ''doc_id''")
    case (Inl e)
    then show ?thesis by (simp add: HandleSplit_def bnd_of_sum triple_raise)
  next
    case (Inr docID)
    show ?thesis unfolding HandleSplit_def Inr bnd_of_sum by (rule triple_bnd[OF doc cont])
  qed
  then show ?thesis by (simp add: triple_keeps)
qed


text \<open>
  A PDF that cannot be opened ends the handler with an error the taxonomy calls terminal,
  and nothing is written: the document stays in the state it had and its job stays unacknowledged.
\<close>

theorem HandleSplit_unreadable:
  assumes "jobString job ''doc_id'' = Inr docID" "doc_by_id docID (db w) = Some doc"
    and "shard_by_key docID 0 (db w) = None" "d_MimeType doc = Some (MimeType FmtPDF)"
    and "MkdirTemp D = ret ()" "\<forall>v. DownloadTo D (S3BucketRaw (Config D)) (RawKey docID) v = (Inr bytes, v)"
    and "PageCount (PdfLib D) (Some (Inr bytes)) = Inl e" "healthy w"
  shows "\<exists>w' c d. HandleSplit D job w = (Inl (PlatformError c d False), w')
    \<and> c = (if ClassifyPDFError (Some e) = ''PDF_ENCRYPTED'' then CodePDFEncrypted else CodePDFCorrupt)
    \<and> db w' = db w \<and> ext w' = ext w \<and> runner_log w' = runner_log w"
proof -
  have id: "d_ID doc = docID" using assms(2) by (auto simp: doc_by_id_def find_Some_iff)
  let ?w1 = "w\<lparr>nstmt := Suc (nstmt w)\<rparr>" and ?w2 = "w\<lparr>nstmt := Suc (Suc (nstmt w))\<rparr>"
  have g: "GetDocument docID w = (Inr (Some doc), ?w1)"
    unfolding GetDocument_def pool_stmt_Inr using assms(2,8) by (intro exI[of _ "db w"]) (simp add: healthy_def)
  have sh: "GetShard docID 0 ?w1 = (Inr None, ?w2)"
    unfolding GetShard_def pool_stmt_Inr using assms(3,8) by (intro exI[of _ "db w"]) (simp add: healthy_def)
  have "HandleSplit D job w = split_pdf D doc bytes ?w2"
    unfolding HandleSplit_def assms(1) bnd_of_sum bnd_Inr[of "GetDocument docID" w, OF g] option.case
      bnd_Inr[of "GetShard docID 0" ?w1, OF sh]
    using assms(4-6) id by (simp add: split_source_def bnd_def attempt_apply)
  then show ?thesis using assms(7) by (simp add: split_pdf_def NewPlatformError_def ErrorSpecs_def)
qed

section \<open>A concrete deployment\<close>

definition sample_config :: config where
  "sample_config = \<lparr>S3BucketRaw = ''raw'', S3BucketParsed = ''parsed'', ShardPages = 16, ShardLeaseSeconds = 900,
     ParserPDFCacheDir = [], ParentChunkSize = 4096, ChildChunkSize = 384, ChunkSize = 512, ChunkOverlap = 50,
     ChunkStrategy = ''auto''\<rparr>"

definition sample_deps :: "pdf_lib \<Rightarrow> mem deps" where
  "sample_deps P = \<lparr>Config = sample_config, Redis = mem_redis, ParseFloat = (\<lambda>_. 0), PdfLib = P, MkdirTemp = ret (),
     DownloadTo = (\<lambda>b k. ret ''%PDF''), UploadText = (\<lambda>b k t c. ret ()), GetText = (\<lambda>b k. ret ''# T''),
     ShortID = ret ''0a1b2c3d'', Host = sample_host,
     Fs = \<lparr>MkdirAll = (\<lambda>_. ret ()), WriteFile = (\<lambda>_ _. ret ()), ReadPath = (\<lambda>_. ret []), StatPath = (\<lambda>_. raise (Plain ''no file'')),
           Rename = (\<lambda>_ _. ret ()), RemovePath = (\<lambda>_. ret ())\<rparr>,
     Parser = sample_two_tier\<rparr>"

lemma sample_deps_sel [simp]:
  "Config (sample_deps P) = sample_config" "Redis (sample_deps P) = mem_redis" "PdfLib (sample_deps P) = P"
  "MkdirTemp (sample_deps P) = ret ()" "DownloadTo (sample_deps P) b k = ret ''%PDF''"
  by (simp_all add: sample_deps_def)

definition sample_job :: payload where
  "sample_job = [(''doc_id'', JStr ''d'')]"

lemma sample_jobString: "jobString sample_job ''doc_id'' = Inr ''d''"
  by (simp add: jobString_def sample_job_def get_str_def)

definition new_doc_tables :: tables where
  "new_doc_tables = (sample_tables ShardPending)\<lparr>documents := [sample_doc\<lparr>d_State := StateUploaded, d_ShardsFailed := 0\<rparr>], shards := []\<rparr>"

lemma new_doc: "doc_by_id ''d'' new_doc_tables = Some (sample_doc\<lparr>d_State := StateUploaded, d_ShardsFailed := 0\<rparr>)"
  "d_MimeType (sample_doc\<lparr>d_State := StateUploaded, d_ShardsFailed := 0\<rparr>) = Some (MimeType FmtPDF)"
  "shards new_doc_tables = []" "shard_by_key ''d'' 0 new_doc_tables = None"
  by (simp_all add: new_doc_tables_def doc_by_id_def sample_doc_def shard_by_key_def)

lemma HandleSplit_unreadable_witness:
  "\<exists>w' e. HandleSplit (sample_deps damaged_lib) sample_job (sample_world new_doc_tables mem_empty)
       = (Inl (PlatformError CodePDFCorrupt e False), w')
     \<and> db w' = new_doc_tables"
proof -
  have c: "countPDFPageObjects ''%PDF'' = 0" by (simp add: countPDFPageObjects.simps)
  have pc: "PageCount (PdfLib (sample_deps damaged_lib)) (Some (Inr ''%PDF'')) = Inl (Plain ''xref'')"
    by (simp add: PageCount_def PageCountBytes_def read_file_def damaged_lib_def c)
  have cl: "ClassifyPDFError (Some (Plain ''xref'')) \<noteq> ''PDF_ENCRYPTED''"
    by (simp add: ClassifyPDFError_def pdf_containsFold_def equalFold_def pdf_fold_byte_def)
  let ?w = "sample_world new_doc_tables mem_empty"
  have d: "doc_by_id ''d'' (db ?w) = Some (sample_doc\<lparr>d_State := StateUploaded, d_ShardsFailed := 0\<rparr>)"
    "shard_by_key ''d'' 0 (db ?w) = None" by (simp_all add: new_doc)
  obtain w' e where r: "HandleSplit (sample_deps damaged_lib) sample_job ?w = (Inl (PlatformError CodePDFCorrupt e False), w')"
    "db w' = db ?w"
    using HandleSplit_unreadable[OF sample_jobString d new_doc(2) _ _ pc] cl by auto
  show ?thesis using r by auto
qed



lemma mem_add_view: "add_view mem_redis mem_und"
  unfolding add_view_def
proof (intro allI impI)
  fix x s raw r x' s'
  assume "XAdd mem_redis s raw x = (r, x')"
  then obtain n where "x' = x\<lparr>mem_log := (mem_log x)(s := mem_log x s @ [(n, raw)]), mem_next := n\<rparr>"
    by (auto simp: mem_add_def Let_def)
  then show "mem_und x' s' = mem_und x s' \<or> s' = s \<and> (\<exists>i. mem_und x' s' = mem_und x s' @ [(i, raw)])"
    by (cases "s' = s"; cases "mem_seen x s < n") (auto simp: mem_und_def mem_after_def as_msg_def)
qed

lemma HandleSplit_keeps_rows_witness:
  "keeps (rows_inv (\<lambda>_. 0) mem_und) (HandleSplit (sample_deps page_bytes_lib) sample_job)"
proof (rule HandleSplit_keeps_rows)
  show "\<forall>b k v bytes v' n. DownloadTo (sample_deps page_bytes_lib) b k v = (Inr bytes, v')
      \<and> PageCount (PdfLib (sample_deps page_bytes_lib)) (Some (Inr bytes)) = Inr n \<longrightarrow> n < 10 ^ 15"
    by (auto simp: PageCount_def PageCountBytes_def read_file_def page_bytes_lib_def)
qed (simp_all add: mem_add_view keeps_ret)

lemma HandleSplit_commits_witness:
  "\<exists>w' bs. HandleSplit (sample_deps page_bytes_lib) sample_job (sample_world new_doc_tables mem_empty) = (Inr (), w')
     \<and> db w' = split_tables ''d'' (toBoundPairs bs) 4 100 new_doc_tables \<and> (\<forall>p. covers bs p \<longleftrightarrow> 1 \<le> p \<and> p \<le> 4)"
proof -
  let ?w = "sample_world new_doc_tables mem_empty" and ?D = "sample_deps page_bytes_lib"
  let ?doc = "sample_doc\<lparr>d_State := StateUploaded, d_ShardsFailed := 0\<rparr>"
  have ok: "mem_ok (ext ?w)" by (simp add: mem_ok_def mem_empty_def)
  have d: "doc_by_id ''d'' (db ?w) = Some ?doc" by (simp add: new_doc)
  have ns: "\<forall>s \<in> set (shards (db ?w)). s_DocID s \<noteq> ''d''" by (simp add: new_doc)
  have g: "GetDocument ''d'' ?w = (Inr (Some ?doc), ?w\<lparr>nstmt := 1\<rparr>)"
    unfolding GetDocument_def pool_stmt_Inr using d by (intro exI[of _ new_doc_tables]) (simp add: sample_world_def)
  have sh: "GetShard ''d'' 0 (?w\<lparr>nstmt := 1\<rparr>) = (Inr None, ?w\<lparr>nstmt := 2\<rparr>)"
    unfolding GetShard_def pool_stmt_Inr using new_doc by (intro exI[of _ new_doc_tables]) (simp add: sample_world_def)
  have id: "d_ID ?doc = ''d''" by (simp add: sample_doc_def)
  have pc: "PageCount page_bytes_lib (Some (Inr ''%PDF'')) = Inr 4"
    by (simp add: PageCount_def PageCountBytes_def read_file_def page_bytes_lib_def)
  have bs: "split_bounds (ExtractBookmarks page_bytes_lib (Some (Inr ''%PDF''))) 4 16 = Inr [\<lparr>Idx = 0, PageStart = 1, PageEnd = 4\<rparr>]"
    by (simp add: split_bounds_def ExtractBookmarks_def read_file_def page_bytes_lib_def FixedBounds_def
        fixed_loop.simps window_end_def next_start_def)
  obtain w1 where c: "commitSplit ''d'' [(1, 4)] 4 (?w\<lparr>nstmt := 2\<rparr>) = (Inr (), w1)"
    by (simp add: commitSplit_def split_tx_def Tx_def next_fault_apply SetDocState_def updateSplitMeta_def InsertShards_def
        insert_shard_def tx_stmt_def pool_stmt_def run_stmt_def bnd_def sample_world_def set_doc_state_def
        new_doc_tables_def sample_doc_def update_docs_def)
  obtain w' where q: "for_each (enqueue_parse mem_redis) (parseJobsFor ''d'' (d_SourceURI ?doc) [(1, 4)]) w1 = (Inr (), w')"
    by (simp add: parseJobsFor_def enqueue_parse_def on_ext_def XAddJob_def mem_add_def bnd_def Let_def)
  have run: "HandleSplit ?D sample_job ?w = (Inr (), w')"
    unfolding HandleSplit_def sample_jobString bnd_of_sum bnd_Inr[of "GetDocument ''d''" ?w, OF g] option.case
      bnd_Inr[of "GetShard ''d'' 0" "?w\<lparr>nstmt := 1\<rparr>", OF sh]
    using new_doc(2) pc bs c q
    by (simp add: split_source_def bnd_def attempt_apply split_pdf_def sample_config_def toBoundPairs_def enqueue_all_def id Let_def)
  obtain n bs where "PageCount (PdfLib ?D) (Some (Inr ''%PDF'')) = Inr n" "\<forall>p. covers bs p \<longleftrightarrow> 1 \<le> p \<and> p \<le> n"
    "db w' = split_tables ''d'' (toBoundPairs bs) n (clock ?w) (db ?w)"
    using HandleSplit_commits[of ?D mem_ok mem_und mem_ent mem_pelv ?w, OF _ ok sample_jobString d ns new_doc(2) _ _ run]
      mem_redis_view by auto
  then show ?thesis using run pc by auto
qed

end
