(* ===== verification/ParseHandler.thy ===== *)
theory ParseHandler
  imports SplitHandler
begin

text \<open>
  The parser handler (\<open>internal/service/parser.go\<close>): claim in one short transaction, the
  parse with none open, the result in a second one, the embed job strictly after it; and the
  retry ladder that replaces a failing shard by smaller ones.
\<close>

section \<open>The retry ladder\<close>

datatype ladder = split_it | text_only

definition LadderAction :: "Shard \<Rightarrow> int \<Rightarrow> ladder" where
  "LadderAction shard shardPages =
     (let span = s_PageEnd shard - s_PageStart shard + 1
      in if span < 2 then text_only
         else if s_Attempts shard = 2 \<and> go_div (4 * max 1 (go_div shardPages 4)) 2 \<le> span then split_it
         else if s_Attempts shard = 3 \<and> 2 \<le> span then split_it
         else text_only)"

definition shouldSlicePDF :: "Format \<Rightarrow> int \<Rightarrow> int \<Rightarrow> int \<Rightarrow> bool" where
  "shouldSlicePDF docFormat pageStart pageEnd totalPages =
     (if docFormat \<noteq> FmtPDF then False
      else if pageStart \<le> 0 \<or> pageEnd < pageStart then False
      else \<not> (pageStart = 1 \<and> totalPages \<le> pageEnd))"

definition sub_bounds :: "Shard \<Rightarrow> goerr + (int \<times> int) list" where
  "sub_bounds shard =
     (let span = s_PageEnd shard - s_PageStart shard + 1;
          shardPages = (if s_Attempts shard < 3 then max 1 (go_div span 4) else 1)
      in case FixedBounds span shardPages 0 of
           Inl m \<Rightarrow> Inl (Plain m)
         | Inr fb \<Rightarrow> Inr (map (\<lambda>b. (s_PageStart shard + PageStart b - 1, s_PageStart shard + PageEnd b - 1)) fb))"

definition subShardJobs :: "Document \<Rightarrow> Shard \<Rightarrow> (int \<times> int) list \<Rightarrow> int \<Rightarrow> ParseJob list" where
  "subShardJobs doc shard bounds startIdx =
     map (\<lambda>(i, b). parse_job (d_ID doc) (d_SourceURI doc) (startIdx + int i) b) (enumerate 0 bounds)"

definition set_total :: "string \<Rightarrow> int \<Rightarrow> ('x world, goerr, unit) prog" where
  "set_total docID n =
     tx_stmt (exec (\<lambda>now. update_docs (doc_is docID) (\<lambda>d. d\<lparr>d_TotalShards := Some n, d_UpdatedAt := now\<rparr>)))"

definition resplit_message :: "Shard \<Rightarrow> int \<Rightarrow> string" where
  "resplit_message shard n =
     ''shard '' @ itoa (s_Idx shard) @ '' re-split into '' @ itoa n @ '' sub-shards (ladder attempt ''
       @ itoa (s_Attempts shard) @ '')''"

definition resplit_tx :: "Document \<Rightarrow> Shard \<Rightarrow> (int \<times> int) list \<Rightarrow> ('x world, goerr, int) prog" where
  "resplit_tx doc shard bounds =
     bnd (NextShardIdx (d_ID doc)) (\<lambda>startIdx.
     bnd (SkipShard (d_ID doc) (s_Idx shard)) (\<lambda>_.
     bnd (InsertShards (d_ID doc) bounds startIdx) (\<lambda>_.
     bnd (set_total (d_ID doc) (derefInt (d_TotalShards doc) + int (length bounds))) (\<lambda>_.
     bnd (WriteEvent ''warn'' ''parse'' (resplit_message shard (int (length bounds)))
            (Some (d_ID doc)) (Some (s_Idx shard)) (Some ''SHARD_RESPLIT'') None []) (\<lambda>_.
     ret startIdx)))))"

definition resplitShard :: "'x deps \<Rightarrow> Document \<Rightarrow> Shard \<Rightarrow> ('x world, goerr, unit) prog" where
  "resplitShard D doc shard =
     bnd (of_sum (sub_bounds shard)) (\<lambda>bounds.
     bnd (TxWithRetry 3 (resplit_tx doc shard bounds)) (\<lambda>startIdx.
     enqueue_all (Redis D) (subShardJobs doc shard bounds startIdx)))"

definition SplitAndRequeue :: "'x deps \<Rightarrow> Document \<Rightarrow> Shard \<Rightarrow> ('x world, goerr, unit) prog" where
  "SplitAndRequeue D doc shard = resplitShard D doc shard"

section \<open>Claim and result\<close>

definition claimShard :: "string \<Rightarrow> int \<Rightarrow> string \<Rightarrow> int \<Rightarrow> ('x world, goerr, Shard option) prog" where
  "claimShard docID idx workerID leaseSeconds = TxWithRetry 3 (ClaimShard docID idx workerID leaseSeconds)"

definition settledAfterDone :: "Document option \<Rightarrow> bool" where
  "settledAfterDone doc \<longleftrightarrow> (case doc of None \<Rightarrow> False | Some d \<Rightarrow> BookSettled d)"

definition finish_tx ::
  "string \<Rightarrow> int \<Rightarrow> int \<Rightarrow> int \<Rightarrow> string \<Rightarrow> bool \<Rightarrow> rat option \<Rightarrow> ('x world, goerr, Document option) prog" where
  "finish_tx docID idx durationMS peakRSSMB parsedURI needsOCR meanChars =
     bnd (MarkShardDone docID idx durationMS peakRSSMB parsedURI needsOCR meanChars) (\<lambda>_. GetDocumentTx docID)"

definition finishParse ::
  "'x deps \<Rightarrow> string \<Rightarrow> int \<Rightarrow> int \<Rightarrow> int \<Rightarrow> string \<Rightarrow> bool \<Rightarrow> rat option \<Rightarrow> ('x world, goerr, bool) prog" where
  "finishParse D docID idx durationMS peakRSSMB parsedURI needsOCR meanChars =
     bnd (TxWithRetry 3 (finish_tx docID idx durationMS peakRSSMB parsedURI needsOCR meanChars)) (\<lambda>fresh.
     if settledAfterDone fresh
     then bnd (on_ext (XAddJob (Redis D) StreamEmbed (embed_fields (embed_job_of docID)))) (\<lambda>_. ret True)
     else ret False)"

section \<open>The source\<close>

definition downloadTerminal :: "string \<Rightarrow> goerr \<Rightarrow> ('x world, goerr, unit) prog" where
  "downloadTerminal docID err =
     (if IsNotFound (Some err)
      then failDocTerminal docID CodePDFCorrupt (''raw source object vanished: '' @ error_text err)
      else raise (NewPlatformError CodePDFCorrupt (''source missing: '' @ error_text err)))"

definition copyFileLocal :: "'x fs_ops \<Rightarrow> string \<Rightarrow> string \<Rightarrow> ('x world, goerr, string) prog" where
  "copyFileLocal F dst src = bnd (ReadPath F src) (\<lambda>b. bnd (WriteFile F dst b) (\<lambda>_. ret b))"

text \<open>\<open>None\<close>: the handler returned after marking the document failed.\<close>

definition download_source :: "'x deps \<Rightarrow> string \<Rightarrow> ('x world, goerr, string option) prog" where
  "download_source D docID =
     bnd (attempt (DownloadTo D (S3BucketRaw (Config D)) (RawKey docID))) (\<lambda>r.
     case r of
       Inl e \<Rightarrow> bnd (downloadTerminal docID e) (\<lambda>_. ret None)
     | Inr b \<Rightarrow> ret (Some b))"

definition fetch_source :: "'x deps \<Rightarrow> string \<Rightarrow> Format \<Rightarrow> ('x world, goerr, string option) prog" where
  "fetch_source D docID docFormat =
     (let cacheDir = ParserPDFCacheDir (Config D);
          cachePath = (if cacheDir \<noteq> [] \<and> docFormat = FmtPDF then PDFCachePath cacheDir docID else [])
      in if cachePath \<noteq> [] then
           bnd (attempt (StatPath (Fs D) cachePath)) (\<lambda>st.
           case st of
             Inr _ \<Rightarrow> bnd (copyFileLocal (Fs D) (ParseSourceName docFormat) cachePath) (\<lambda>b. ret (Some b))
           | Inl _ \<Rightarrow>
               bnd (download_source D docID) (\<lambda>b.
               case b of
                 None \<Rightarrow> ret None
               | Some bytes \<Rightarrow> bnd (StorePDFCache (Fs D) cacheDir docID bytes) (\<lambda>_. ret (Some bytes))))
         else download_source D docID)"

text \<open>The file to parse with its page range: a slice when one can be cut, the whole file otherwise.\<close>

definition slice_request :: "pdf_lib \<Rightarrow> Format \<Rightarrow> string \<Rightarrow> int \<Rightarrow> int \<Rightarrow> gofile \<times> int \<times> int" where
  "slice_request P docFormat bytes pageStart pageEnd =
     (let whole = (Some (Inr bytes), pageStart, pageEnd)
      in if docFormat = FmtPDF \<and> 0 < pageStart \<and> pageStart \<le> pageEnd then
           (case PageCount P (Some (Inr bytes)) of
              Inl _ \<Rightarrow> whole
            | Inr totalPages \<Rightarrow>
                if shouldSlicePDF docFormat pageStart pageEnd totalPages then
                  (case SlicePDF P (Some (Inr bytes)) pageStart pageEnd of
                     Inr (sliced, n) \<Rightarrow> if 0 < n then (Some (Inr sliced), 1, n) else whole
                   | Inl _ \<Rightarrow> whole)
                else whole)
         else whole)"

section \<open>The handler\<close>

definition parse_request :: "'x deps \<Rightarrow> Shard \<Rightarrow> bool \<Rightarrow> Format \<Rightarrow> gofile \<times> int \<times> int \<Rightarrow> ParseRequest" where
  "parse_request D shard textOnly docFormat src =
     \<lparr>pr_PDFPath = fst src, pr_PDFBytes = [], pr_PageStart = fst (snd src), pr_PageEnd = snd (snd src),
      pr_Attempt = s_Attempts shard, pr_ShardPages = ShardPages (Config D), pr_TextOnly = textOnly,
      pr_NeedOCR = False, pr_DocFormat = docFormat\<rparr>"

definition store_result :: "'x deps \<Rightarrow> string \<Rightarrow> int \<Rightarrow> ParseResult \<Rightarrow> ('x world, goerr, unit) prog" where
  "store_result D docID idx result =
     (let parsedKey = ParsedKey docID idx
      in bnd (UploadText D (S3BucketParsed (Config D)) parsedKey (pt_Markdown result) ''text/markdown'') (\<lambda>_.
         bnd (ElapsedMS (Host D)) (\<lambda>elapsed.
         let durationMS = (if 0 < pt_DurationMS result then pt_DurationMS result else elapsed)
         in bnd (finishParse D docID idx durationMS (pt_PeakRSSMB result)
                   (''s3://'' @ S3BucketParsed (Config D) @ ''/'' @ parsedKey)
                   (pt_NeedsOCR result) (Some (pt_MeanCharsPerPage result))) (\<lambda>_. ret ()))))"

definition parse_shard ::
  "'x deps \<Rightarrow> Document \<Rightarrow> Shard \<Rightarrow> bool \<Rightarrow> int \<Rightarrow> int \<Rightarrow> int \<Rightarrow> ('x world, goerr, unit) prog" where
  "parse_shard D doc shard textOnly idx pageStart pageEnd =
     bnd (MkdirTemp D) (\<lambda>_.
     let docFormat = FormatFromMime (derefStr (d_MimeType doc))
     in bnd (fetch_source D (d_ID doc) docFormat) (\<lambda>src.
        case src of
          None \<Rightarrow> ret ()
        | Some bytes \<Rightarrow>
            bnd (Parse (Host D) (PdfLib D) (Parser D)
                   (parse_request D shard textOnly docFormat
                      (slice_request (PdfLib D) docFormat bytes pageStart pageEnd))) (\<lambda>result.
            store_result D (d_ID doc) idx result)))"

definition ladder_step ::
  "'x deps \<Rightarrow> Document \<Rightarrow> Shard \<Rightarrow> int \<Rightarrow> int \<Rightarrow> int \<Rightarrow> ('x world, goerr, unit) prog" where
  "ladder_step D doc shard idx pageStart pageEnd =
     (if 2 \<le> s_Attempts shard then
        (if LadderAction shard (ShardPages (Config D)) = split_it then SplitAndRequeue D doc shard
         else parse_shard D doc shard (4 \<le> s_Attempts shard) idx pageStart pageEnd)
      else parse_shard D doc shard False idx pageStart pageEnd)"

definition HandleParse :: "'x deps \<Rightarrow> payload \<Rightarrow> ('x world, goerr, unit) prog" where
  "HandleParse D job =
     bnd (of_sum (jobString job ''doc_id'')) (\<lambda>docID.
     let (idx, ok) = jobInt (ParseFloat D) job ''idx'';
         pageStart = fst (jobInt (ParseFloat D) job ''page_start'');
         pageEnd = fst (jobInt (ParseFloat D) job ''page_end'')
     in if \<not> ok then raise (missing_field ''idx'')
        else
          bnd (GetDocument docID) (\<lambda>d.
          case d of
            None \<Rightarrow> ret ()
          | Some doc \<Rightarrow>
              bnd (ShortID D) (\<lambda>hex.
              bnd (claimShard docID idx (''parser-'' @ hex) (ShardLeaseSeconds (Config D))) (\<lambda>claimed.
              case claimed of
                None \<Rightarrow> ret ()
              | Some shard \<Rightarrow> ladder_step D doc shard idx pageStart pageEnd))))"

section \<open>The ladder makes shards smaller\<close>

text \<open>
  C18. A re-split replaces a shard of two pages or more by sub-shards that tile its page range
  without overlap, in order, each strictly shorter than it, so re-splitting comes to an end;
  on the third attempt they are single pages.
\<close>

theorem sub_bounds_smaller:
  assumes "2 \<le> s_PageEnd shard - s_PageStart shard + 1" "sub_bounds shard = Inr bs"
  shows "(\<forall>p. (\<exists>b \<in> set bs. fst b \<le> p \<and> p \<le> snd b) \<longleftrightarrow> s_PageStart shard \<le> p \<and> p \<le> s_PageEnd shard)
    \<and> (\<forall>i j. i < j \<and> j < length bs \<longrightarrow> snd (bs ! i) < fst (bs ! j))
    \<and> (\<forall>b \<in> set bs. fst b \<le> snd b \<and> snd b - fst b < s_PageEnd shard - s_PageStart shard)
    \<and> (3 \<le> s_Attempts shard \<longrightarrow> (\<forall>b \<in> set bs. fst b = snd b))"
proof -
  let ?span = "s_PageEnd shard - s_PageStart shard + 1"
  let ?sp = "if s_Attempts shard < 3 then max 1 (go_div ?span 4) else 1"
  let ?g = "\<lambda>b. (s_PageStart shard + PageStart b - 1, s_PageStart shard + PageEnd b - 1)"
  have sp: "1 \<le> ?sp" by simp
  have q: "?sp < ?span" using assms(1) by (auto simp: max_def)
  let ?fb = "fixed_loop ?span ?sp 0 1 0"
  have bs: "bs = map ?g ?fb" using assms sp by (auto simp: sub_bounds_def FixedBounds_def Let_def split: if_splits)
  have t: "tiles 1 ?span ?fb" using fixed_loop_tiles[OF sp] assms(1) by simp
  have m: "at_most ?sp ?fb" by (rule fixed_loop_at_most[OF sp])
  have "(\<exists>b \<in> set bs. fst b \<le> p \<and> p \<le> snd b) \<longleftrightarrow> covers ?fb (p - s_PageStart shard + 1)" for p
    unfolding bs covers_def by (auto intro!: bexI) 
  then have c: "(\<exists>b \<in> set bs. fst b \<le> p \<and> p \<le> snd b) \<longleftrightarrow> s_PageStart shard \<le> p \<and> p \<le> s_PageEnd shard" for p
    using tiles_covers[OF t] by auto
  have d: "snd (bs ! i) < fst (bs ! j)" if "i < j" "j < length bs" for i j
    using tiles_disjoint[OF t, of i j] that bs by simp
  have s: "fst b \<le> snd b \<and> snd b - fst b < ?sp" if "b \<in> set bs" for b
    using that m tiles_ordered[OF t] unfolding bs at_most_def by fastforce
  show ?thesis using c d s q by fastforce
qed

lemma sub_bounds_smaller_witness:
  "\<exists>bs. sub_bounds ((new_shard ''d'' 0 11 20 0)\<lparr>s_Attempts := 2\<rparr>) = Inr bs \<and> length bs = 5
     \<and> (\<forall>b \<in> set bs. snd b - fst b < 9)"
proof -
  let ?s = "(new_shard ''d'' 0 11 20 0)\<lparr>s_Attempts := 2\<rparr>"
  have r: "sub_bounds ?s = Inr [(11, 12), (13, 14), (15, 16), (17, 18), (19, 20)]"
    by (simp add: sub_bounds_def new_shard_def FixedBounds_def fixed_loop.simps window_end_def next_start_def go_div_def)
  show ?thesis using sub_bounds_smaller[of ?s, OF _ r] r by (simp add: new_shard_def)
qed

section \<open>What a re-split writes\<close>

definition skip_row :: "Shard \<Rightarrow> Shard" where
  "skip_row s = s\<lparr>s_State := ShardSkipped\<rparr>"

definition resplit_tables :: "Document \<Rightarrow> Shard \<Rightarrow> (int \<times> int) list \<Rightarrow> int \<Rightarrow> tables \<Rightarrow> tables" where
  "resplit_tables doc shard bs now t =
     t\<lparr>documents := map (\<lambda>d. if d_ID d = d_ID doc
        then d\<lparr>d_TotalShards := Some (derefInt (d_TotalShards doc) + int (length bs)), d_UpdatedAt := now\<rparr> else d) (documents t),
      shards := map (\<lambda>s. if shard_is (d_ID doc) (s_Idx shard) s then skip_row s else s) (shards t)
        @ shard_rows (d_ID doc) bs (next_shard_idx (d_ID doc) t) now,
      events := events t @ [new_event ''warn'' ''parse'' (resplit_message shard (int (length bs)))
        (Some (d_ID doc)) (Some (s_Idx shard)) (Some ''SHARD_RESPLIT'') None [] now]\<rparr>"

lemma post_SkipShard:
  "post (SkipShard docID idx) (\<lambda>now t x u. (\<exists>s \<in> set (shards t). shard_is docID idx s)
     \<and> u = update_shards (shard_is docID idx) skip_row t)"
  unfolding SkipShard_def
  by (rule post_weaken[OF post_bnd[OF post_tx_stmt post_if[OF post_raise post_ret]]])
    (auto simp: filter_empty_conv skip_row_def[abs_def] split: if_splits)

lemma post_resplit_tx:
  "post (resplit_tx doc shard bs) (\<lambda>now t x u. x = next_shard_idx (d_ID doc) t
     \<and> (\<exists>s \<in> set (shards t). shard_is (d_ID doc) (s_Idx shard) s) \<and> u = resplit_tables doc shard bs now t)"
proof -
  have nx: "post (NextShardIdx (d_ID doc)) (\<lambda>now t x u. x = next_shard_idx (d_ID doc) t \<and> u = t)"
    unfolding NextShardIdx_def by (rule post_weaken[OF post_tx_stmt]) auto
  have ins: "post (InsertShards (d_ID doc) bs start)
      (\<lambda>now t x u. u = t\<lparr>shards := shards t @ shard_rows (d_ID doc) bs start now\<rparr>)" for start
    by (rule post_weaken[OF post_InsertShards]) simp
  show ?thesis unfolding resplit_tx_def set_total_def write_event_stmt
    by (rule post_weaken[OF post_bnd[OF nx post_bnd[OF post_SkipShard post_bnd[OF ins
            post_bnd[OF post_tx_stmt post_bnd[OF post_tx_stmt post_ret]]]]]])
      (auto simp: resplit_tables_def update_docs_def update_shards_def)
qed

lemma resplit_run:
  assumes "redis_view (Redis D) ok und ent pel" "ok (ext w)" "resplitShard D doc shard w = (Inr (), w')"
  obtains bs where "sub_bounds shard = Inr bs" "db w' = resplit_tables doc shard bs (clock w) (db w)"
    "\<exists>s \<in> set (shards (db w)). shard_is (d_ID doc) (s_Idx shard) s"
    "map snd (und (ext w') StreamParse) = map snd (und (ext w) StreamParse)
       @ map (\<lambda>j. MarshalJob (parse_fields j)) (subShardJobs doc shard bs (next_shard_idx (d_ID doc) (db w)))"
proof -
  obtain bs where bs: "sub_bounds shard = Inr bs"
    using assms(3) by (cases "sub_bounds shard") (auto simp: resplitShard_def bnd_of_sum)
  obtain i w1 where t: "TxWithRetry 3 (resplit_tx doc shard bs) w = (Inr i, w1)"
    and q: "for_each (enqueue_parse (Redis D)) (subShardJobs doc shard bs i) w1 = (Inr (), w')"
    using assms(3) unfolding resplitShard_def bs bnd_of_sum enqueue_all_def by (elim bnd_InrE)
  note p = postD[OF post_TxWithRetry[OF post_resplit_tx] t]
    frameD(1)[OF post_frame[OF post_TxWithRetry[OF post_resplit_tx]] t]
  then have ok1: "ok (ext w1)" using assms(2) by simp
  obtain x' where a: "w' = w1\<lparr>ext := x'\<rparr>" "added ok und pel StreamParse
        (map (\<lambda>j. MarshalJob (parse_fields j)) (subShardJobs doc shard bs i)) (ext w1) x'"
    using for_each_added[OF assms(1) ok1 q] by blast
  show ?thesis by (rule that[OF bs]) (use p a(1) added_raws[OF a(2)] in auto)
qed

lemma skip_count:
  assumes "\<forall>s \<in> set (shards t). shard_is (d_ID doc) (s_Idx shard) s \<longrightarrow> s_State s \<notin> {ShardDone, ShardFailed}"
    and "st \<in> {ShardDone, ShardFailed}"
  shows "count_shards d st (resplit_tables doc shard bs now t) = count_shards d st t"
proof -
  let ?f = "\<lambda>s. if shard_is (d_ID doc) (s_Idx shard) s then skip_row s else s"
  have c: "filter (\<lambda>s. s_DocID s = d \<and> s_State s = st) (map ?f ss) = filter (\<lambda>s. s_DocID s = d \<and> s_State s = st) ss"
    if "\<forall>s \<in> set ss. shard_is (d_ID doc) (s_Idx shard) s \<longrightarrow> s_State s \<notin> {ShardDone, ShardFailed}" for ss
    using that assms(2) by (induction ss) (auto simp: skip_row_def)
  have n: "filter (\<lambda>s. s_DocID s = d \<and> s_State s = st) (shard_rows (d_ID doc) bs i now) = []" for i
    using shard_rows_props(2)[of "d_ID doc" bs i now] assms(2) by (auto simp: filter_empty_conv)
  show ?thesis
    unfolding count_shards_def resplit_tables_def using c[OF assms(1)] n by (simp del: filter_map map_map)
qed

lemma resplit_exact:
  assumes "exact t" "\<forall>s \<in> set (shards t). shard_is (d_ID doc) (s_Idx shard) s \<longrightarrow> s_State s \<notin> {ShardDone, ShardFailed}"
  shows "exact (resplit_tables doc shard bs now t)"
  using assms(1) skip_count[OF assms(2)] unfolding exact_def2 by (auto simp: resplit_tables_def) 

lemma resplit_all_shards:
  "all_shards (d_ID doc) (resplit_tables doc shard bs now t) = all_shards (d_ID doc) t + int (length bs)"
proof -
  have "filter (\<lambda>s. s_DocID s = d) (map (\<lambda>s. if shard_is x y s then skip_row s else s) ss)
      = map (\<lambda>s. if shard_is x y s then skip_row s else s) (filter (\<lambda>s. s_DocID s = d) ss)" for d x y ss
    by (induction ss) (auto simp: skip_row_def)
  moreover have "filter (\<lambda>s. s_DocID s = d_ID doc) (shard_rows (d_ID doc) bs i now) = shard_rows (d_ID doc) bs i now" for i
    using shard_rows_props(2)[of "d_ID doc" bs i now] by (auto simp: filter_id_conv)
  ultimately show ?thesis by (simp add: all_shards_def resplit_tables_def shard_rows_props(1) del: filter_map)
qed

text \<open>
  A re-split that succeeds writes at once: the parent skipped, one pending row per sub-range
  after the last index, the total raised by their number, the event; and then enqueues exactly
  the jobs of the new rows.
\<close>

theorem resplitShard_commits:
  assumes "redis_view (Redis D) ok und ent pel" "ok (ext w)" "resplitShard D doc shard w = (Inr (), w')"
  shows "\<exists>bs. sub_bounds shard = Inr bs \<and> db w' = resplit_tables doc shard bs (clock w) (db w)
    \<and> map snd (und (ext w') StreamParse) = map snd (und (ext w) StreamParse)
       @ map (\<lambda>j. MarshalJob (parse_fields j)) (subShardJobs doc shard bs (next_shard_idx (d_ID doc) (db w)))"
  by (rule resplit_run[OF assms]) blast

lemma all_shards_keys:
  assumes "map (\<lambda>s. (s_DocID s, s_Idx s)) (shards u) = map (\<lambda>s. (s_DocID s, s_Idx s)) (shards t)"
  shows "all_shards d u = all_shards d t"
proof -
  have "length (filter (\<lambda>s. s_DocID s = d) ss) = length (filter (\<lambda>k. fst k = d) (map (\<lambda>s. (s_DocID s, s_Idx s)) ss))" for ss
    by (induction ss) auto
  then show ?thesis unfolding all_shards_def using assms by metis
qed


section \<open>Completion\<close>

lemma post_finish_tx:
  "post (finish_tx docID idx ms rss uri ocr chars) (\<lambda>now t x u.
     u = bump_done docID now (update_shards (shard_is docID idx) (done_row now ms rss uri ocr chars) t)
     \<and> x = doc_by_id docID u)"
proof -
  have g: "post (GetDocumentTx docID) (\<lambda>now t x u. x = doc_by_id docID t \<and> u = t)"
    unfolding GetDocumentTx_def by (rule post_weaken[OF post_tx_stmt]) auto
  show ?thesis unfolding finish_tx_def by (rule post_weaken[OF post_bnd[OF post_MarkShardDone g]]) auto
qed

text \<open>
  C20. Completing a shard commits its row and the counter first; then exactly one embed job is
  enqueued when the committed document is settled, and none otherwise.
\<close>

theorem finishParse_embeds_settled:
  assumes "redis_view (Redis D) ok und ent pel" "ok (ext w)"
    and "finishParse D docID idx ms rss uri ocr chars w = (Inr settled, w')"
  shows "db w' = bump_done docID (clock w) (update_shards (shard_is docID idx) (done_row (clock w) ms rss uri ocr chars) (db w))
    \<and> settled = settledAfterDone (doc_by_id docID (db w'))
    \<and> map snd (und (ext w') StreamEmbed) = map snd (und (ext w) StreamEmbed)
        @ (if settled then [MarshalJob (embed_fields (embed_job_of docID))] else [])
    \<and> (\<forall>s. s \<noteq> StreamEmbed \<longrightarrow> und (ext w') s = und (ext w) s)"
proof -
  obtain fresh w1 where t: "TxWithRetry 3 (finish_tx docID idx ms rss uri ocr chars) w = (Inr fresh, w1)"
    and r: "(if settledAfterDone fresh
        then bnd (on_ext (XAddJob (Redis D) StreamEmbed (embed_fields (embed_job_of docID)))) (\<lambda>_. ret True)
        else ret False) w1 = (Inr settled, w')"
    using assms(3) unfolding finishParse_def by (elim bnd_InrE)
  note p = postD[OF post_TxWithRetry[OF post_finish_tx] t]
    frameD(1)[OF post_frame[OF post_TxWithRetry[OF post_finish_tx]] t]
  show ?thesis
  proof (cases "settledAfterDone fresh")
    case True
    then obtain i x1 where a: "XAdd (Redis D) StreamEmbed (MarshalJob (embed_fields (embed_job_of docID))) (ext w1) = (Inr i, x1)"
      and w': "w' = w1\<lparr>ext := x1\<rparr>" "settled"
      using r by (auto simp: bnd_eq_Inr on_ext_Inr XAddJob_def)
    have "ok (ext w1)" using p(2) assms(2) by simp
    from redis_viewD(5)[OF assms(1) this a] show ?thesis using p w' True by simp
  qed (use r p in auto)
qed

section \<open>Claims\<close>

text \<open>
  A parse job whose shard is neither pending nor failed (it is running elsewhere, done or
  skipped), or whose document is gone, ends without an error, so that it is acknowledged, and
  changes neither the tables nor Redis.
\<close>

theorem HandleParse_unclaimable:
  assumes "jobString job ''doc_id'' = Inr docID" "jobInt (ParseFloat D) job ''idx'' = (idx, True)"
    and "doc_by_id docID (db w) = None \<or> (\<forall>s \<in> set (shards (db w)). \<not> claimable docID idx s)"
    and "ShortID D = ret hex" "healthy w"
  shows "\<exists>w'. HandleParse D job w = (Inr (), w') \<and> db w' = db w \<and> ext w' = ext w"
proof -
  let ?w1 = "w\<lparr>nstmt := Suc (nstmt w)\<rparr>"
  have g: "GetDocument docID w = (Inr (doc_by_id docID (db w)), ?w1)"
    unfolding GetDocument_def pool_stmt_Inr using assms(5) by (intro exI[of _ "db w"]) (simp add: healthy_def)
  show ?thesis
  proof (cases "doc_by_id docID (db w)")
    case None
    have "HandleParse D job w = (Inr (), ?w1)"
      unfolding HandleParse_def assms(1) bnd_of_sum assms(2) using g None by (simp add: bnd_def Let_def)
    then show ?thesis by simp
  next
    case (Some doc)
    have h1: "healthy ?w1" using assms(5) by (simp add: healthy_def)
    obtain r w2 where c: "claimShard docID idx (''parser-'' @ hex) (ShardLeaseSeconds (Config D)) ?w1 = (Inr r, w2)"
      unfolding claimShard_def
      by (rule succeedsE[OF succeeds_TxWithRetry[OF store_succeeds(2)] h1])
    have none: "find (claimable docID idx) (shards (db w)) = None"
      and same: "update_shards (claimable docID idx) f (db w) = db w" for f
      using assms(3) Some by (auto simp: find_None_iff update_shards_def map_idI)
    note p = postD[OF post_TxWithRetry[OF post_ClaimShard] c[unfolded claimShard_def]]
      frameD(1)[OF post_frame[OF post_TxWithRetry[OF post_ClaimShard]] c[unfolded claimShard_def]]
    then have r: "r = None" "db w2 = db w" "ext w2 = ext w" using none same by auto
    have "HandleParse D job w = (Inr (), w2)"
      unfolding HandleParse_def assms(1) bnd_of_sum assms(2) assms(4)
      using g Some c r(1) by (simp add: bnd_def Let_def)
    then show ?thesis using r by simp
  qed
qed

section \<open>A re-split only fails when the database does\<close>

definition works :: "(tables \<Rightarrow> bool) \<Rightarrow> ('x world, goerr, 'a) prog \<Rightarrow> bool" where
  "works P m \<longleftrightarrow> (\<forall>w. healthy w \<and> P (db w) \<longrightarrow> (\<exists>x w'. m w = (Inr x, w') \<and> healthy w'))"

lemma works_succeeds: "succeeds m \<Longrightarrow> works P m"
  unfolding works_def by (metis succeedsE)

lemma works_bnd:
  assumes "works P m" "post m R" "\<And>x. works (\<lambda>u. \<exists>now t. P t \<and> R now t x u) (f x)"
  shows "works P (bnd m f)"
  unfolding works_def
proof (intro allI impI)
  fix w :: "'a world" assume w: "healthy w \<and> P (db w)"
  then obtain x w1 where m: "m w = (Inr x, w1)" "healthy w1" using assms(1) unfolding works_def by blast
  from postD[OF assms(2) m(1)] w m(2) assms(3)[of x] obtain y w2 where "f x w1 = (Inr y, w2)" "healthy w2"
    unfolding works_def by blast
  then show "\<exists>y w'. bnd m f w = (Inr y, w') \<and> healthy w'" using m(1) by (simp add: bnd_def)
qed

lemma works_weaken: "works P m \<Longrightarrow> (\<And>t. Q t \<Longrightarrow> P t) \<Longrightarrow> works Q m"
  unfolding works_def by blast

lemma works_tx_stmt: "(\<And>now t. P t \<Longrightarrow> \<exists>x u. st now t = (Inr x, u)) \<Longrightarrow> works P (tx_stmt st)"
  unfolding works_def
proof (intro allI impI)
  fix w assume a: "\<And>now t. P t \<Longrightarrow> \<exists>x u. st now t = (Inr x, u)" and w: "healthy w \<and> P (db w)"
  then obtain x u where "st (clock w) (db w) = (Inr x, u)" by blast
  then have "tx_stmt st w = (Inr x, w\<lparr>db := u, nstmt := Suc (nstmt w)\<rparr>)"
    using w by (simp add: tx_stmt_Inr pool_stmt_Inr healthy_def)
  then show "\<exists>x w'. tx_stmt st w = (Inr x, w') \<and> healthy w'" using w by (auto simp: healthy_def)
qed

lemma works_TxWithRetry:
  assumes "works P fn" "healthy w" "P (db w)"
  shows "\<exists>x w'. TxWithRetry n fn w = (Inr x, w') \<and> healthy w'"
proof -
  have "healthy (w\<lparr>nstmt := Suc (nstmt w), aborted := False\<rparr>)" "P (db (w\<lparr>nstmt := Suc (nstmt w), aborted := False\<rparr>))"
    using assms(2,3) by (simp_all add: healthy_def)
  then obtain x w2 where "fn (w\<lparr>nstmt := Suc (nstmt w), aborted := False\<rparr>) = (Inr x, w2)" "healthy w2"
    using assms(1) unfolding works_def by blast
  then have "\<exists>x w'. Tx fn w = (Inr x, w') \<and> healthy w'"
    using assms(2) by (simp add: Tx_def next_fault_def healthy_def)
  moreover obtain k where "nat (max 1 n) = Suc k" by (cases "nat (max 1 n)") auto
  ultimately show ?thesis by (auto simp: TxWithRetry_def txWithRetryLoop_def)
qed

lemma insert_shards_works:
  "works (\<lambda>t. (\<exists>d \<in> set (documents t). d_ID d = docID) \<and> (\<forall>s \<in> set (shards t). s_DocID s = docID \<longrightarrow> s_Idx s < i))
     (insert_shards_from docID bs i)"
proof (induction bs arbitrary: i)
  case (Cons b bs)
  let ?P = "\<lambda>i t. (\<exists>d \<in> set (documents t). d_ID d = docID) \<and> (\<forall>s \<in> set (shards t). s_DocID s = docID \<longrightarrow> s_Idx s < i)"
  have one: "works (?P i) (tx_stmt (insert_shard docID i b))"
    by (rule works_tx_stmt) (auto simp: insert_shard_def)
  show ?case unfolding insert_shards_from.simps
  proof (rule works_bnd[OF one post_tx_stmt], rule works_weaken[OF Cons.IH])
    fix x t assume "\<exists>now s. ?P i s \<and> insert_shard docID i b now s = (Inr x, t)"
    then show "?P (i + 1) t" by (fastforce simp: insert_shard_def new_shard_def split: if_splits)
  qed
qed (simp add: works_succeeds succ_rules)

lemma next_shard_idx_fresh: "s \<in> set (shards t) \<Longrightarrow> s_DocID s = docID \<Longrightarrow> s_Idx s < next_shard_idx docID t"
proof -
  assume a: "s \<in> set (shards t)" "s_DocID s = docID"
  let ?I = "set (map s_Idx (filter (\<lambda>s. s_DocID s = docID) (shards t)))"
  have "s_Idx s \<in> ?I" using a by auto
  then have "s_Idx s \<le> Max ?I" "filter (\<lambda>s. s_DocID s = docID) (shards t) \<noteq> []" using a by (auto intro!: Max_ge simp: filter_empty_conv)
  then show ?thesis by (simp add: next_shard_idx_def Let_def)
qed

lemma resplit_tx_works:
  "works (\<lambda>t. (\<exists>d \<in> set (documents t). d_ID d = d_ID doc) \<and> (\<exists>s \<in> set (shards t). shard_is (d_ID doc) (s_Idx shard) s))
     (resplit_tx doc shard bs)"
proof -
  let ?P = "\<lambda>t. (\<exists>d \<in> set (documents t). d_ID d = d_ID doc) \<and> (\<exists>s \<in> set (shards t). shard_is (d_ID doc) (s_Idx shard) s)"
  let ?Q = "\<lambda>i t. (\<exists>d \<in> set (documents t). d_ID d = d_ID doc) \<and> (\<forall>s \<in> set (shards t). s_DocID s = d_ID doc \<longrightarrow> s_Idx s < i)"
  have nx: "post (NextShardIdx (d_ID doc)) (\<lambda>now t x u. x = next_shard_idx (d_ID doc) t \<and> u = t)"
    unfolding NextShardIdx_def by (rule post_weaken[OF post_tx_stmt]) auto
  have nw: "works ?P (NextShardIdx (d_ID doc))" unfolding NextShardIdx_def by (rule works_tx_stmt) simp
  let ?PQ = "\<lambda>i t. ?P t \<and> ?Q i t"
  have sk: "works (?PQ i) (SkipShard (d_ID doc) (s_Idx shard))" for i
    unfolding SkipShard_def
    by (rule works_bnd[OF works_tx_stmt post_tx_stmt])
      (auto simp: works_def filter_empty_conv ret_def intro!: exI)
  have rest: "works (?Q i) (bnd (InsertShards (d_ID doc) bs i) (\<lambda>_.
      bnd (set_total (d_ID doc) n) (\<lambda>_. bnd (WriteEvent a b m c e f g h) (\<lambda>_. ret i))))" for i n a b m c e f g h
  proof (rule works_bnd[OF _ post_InsertShards])
    show "works (?Q i) (InsertShards (d_ID doc) bs i)"
      unfolding InsertShards_def
      by (rule works_bnd[OF insert_shards_works post_insert_shards]) (simp add: works_succeeds succ_rules)
  next
    fix x show "works P (bnd (set_total (d_ID doc) n) (\<lambda>_. bnd (WriteEvent a b m c e f g h) (\<lambda>_. ret i)))" for P
      by (rule works_succeeds) (auto simp: set_total_def write_event_stmt intro!: succ_rules)
  qed
  show ?thesis unfolding resplit_tx_def
  proof (rule works_bnd[OF nw nx], rule works_weaken)
    fix x show "works (?PQ x) (bnd (SkipShard (d_ID doc) (s_Idx shard)) (\<lambda>_.
        bnd (InsertShards (d_ID doc) bs x) (\<lambda>_. bnd (set_total (d_ID doc) (derefInt (d_TotalShards doc) + int (length bs))) (\<lambda>_.
        bnd (WriteEvent ''warn'' ''parse'' (resplit_message shard (int (length bs)))
            (Some (d_ID doc)) (Some (s_Idx shard)) (Some ''SHARD_RESPLIT'') None []) (\<lambda>_. ret x)))))"
    proof (rule works_bnd[OF sk post_SkipShard], rule works_weaken[OF rest])
      fix y t assume "\<exists>now s. ?PQ x s \<and> (\<exists>r \<in> set (shards s). shard_is (d_ID doc) (s_Idx shard) r)
        \<and> t = update_shards (shard_is (d_ID doc) (s_Idx shard)) skip_row s"
      then obtain now v where v: "?Q x v" "t = update_shards (shard_is (d_ID doc) (s_Idx shard)) skip_row v" by blast
      have "s_DocID (skip_row r) = s_DocID r \<and> s_Idx (skip_row r) = s_Idx r" for r by (simp add: skip_row_def)
      then show "?Q x t" using v(1) unfolding v(2) by fastforce
    qed
  qed (use next_shard_idx_fresh in blast)
qed

section \<open>Witnesses\<close>

definition running_shard :: Shard where
  "running_shard = (new_shard ''d'' 1 9 10 0)\<lparr>s_State := ShardRunning, s_Attempts := 3\<rparr>"

definition running_tables :: tables where
  "running_tables = (sample_tables ShardRunning)\<lparr>shards := [(new_shard ''d'' 0 1 8 0)\<lparr>s_State := ShardFailed\<rparr>, running_shard]\<rparr>"

lemma running_sub_bounds: "sub_bounds running_shard = Inr [(9, 9), (10, 10)]"
  by (simp add: sub_bounds_def running_shard_def new_shard_def FixedBounds_def fixed_loop.simps window_end_def next_start_def go_div_def)

lemma mem_enqueue_all: "\<exists>w'. for_each (enqueue_parse mem_redis) js w = (Inr (), w')"
proof (induction js arbitrary: w)
  case (Cons j js)
  obtain w1 where "enqueue_parse mem_redis j w = (Inr (), w1)"
    by (simp add: enqueue_parse_def on_ext_def XAddJob_def mem_add_def bnd_def Let_def)
  then show ?case using Cons.IH[of w1] by (simp add: bnd_def)
qed simp

lemma running_resplit:
  "\<exists>w'. resplitShard (sample_deps page_bytes_lib) sample_doc running_shard (sample_world running_tables mem_empty) = (Inr (), w')"
proof -
  let ?w = "sample_world running_tables mem_empty" and ?bs = "[(9, 9), (10, 10)] :: (int \<times> int) list"
  have n: "next_shard_idx ''d'' running_tables = 2"
    by (simp add: next_shard_idx_def running_tables_def running_shard_def new_shard_def sample_tables_def empty_tables_def)
  have pre: "(\<exists>d \<in> set (documents running_tables). d_ID d = d_ID sample_doc)
      \<and> (\<exists>s \<in> set (shards running_tables). shard_is (d_ID sample_doc) (s_Idx running_shard) s)"
    by (simp add: running_tables_def sample_tables_def sample_doc_def running_shard_def new_shard_def)
  obtain i w1 where t0: "TxWithRetry 3 (resplit_tx sample_doc running_shard ?bs) ?w = (Inr i, w1)"
    using works_TxWithRetry[OF resplit_tx_works[of sample_doc running_shard ?bs], of ?w 3] pre by auto
  then have t: "TxWithRetry 3 (resplit_tx sample_doc running_shard ?bs) ?w = (Inr 2, w1)"
    using postD[OF post_TxWithRetry[OF post_resplit_tx] t0] n by (simp add: sample_doc_def)
  obtain w' where q: "for_each (enqueue_parse mem_redis) (subShardJobs sample_doc running_shard ?bs 2) w1 = (Inr (), w')"
    using mem_enqueue_all by blast
  show ?thesis unfolding resplitShard_def running_sub_bounds bnd_of_sum using t q by (simp add: bnd_def enqueue_all_def)
qed

lemma running_exact: "exact running_tables" "sample_doc \<in> set (documents running_tables)"
  "d_TotalShards sample_doc = Some (all_shards (d_ID sample_doc) running_tables)"
  "\<forall>s \<in> set (shards running_tables). shard_is (d_ID sample_doc) (s_Idx running_shard) s \<longrightarrow> s_State s = ShardRunning"
  by (auto simp: exact_def2 count_shards_def all_shards_def running_tables_def running_shard_def sample_defs)

lemma mem_empty_ok: "mem_ok mem_empty"
  by (simp add: mem_ok_def mem_empty_def)

lemma resplitShard_commits_witness:
  "\<exists>w'. resplitShard (sample_deps page_bytes_lib) sample_doc running_shard (sample_world running_tables mem_empty) = (Inr (), w')
     \<and> db w' = resplit_tables sample_doc running_shard [(9, 9), (10, 10)] 100 running_tables"
proof -
  obtain w' where r: "resplitShard (sample_deps page_bytes_lib) sample_doc running_shard (sample_world running_tables mem_empty) = (Inr (), w')"
    using running_resplit by blast
  show ?thesis
    using resplitShard_commits[of "sample_deps page_bytes_lib" mem_ok mem_und mem_ent mem_pelv, OF _ _ r] r
    by (auto simp: mem_redis_view mem_empty_ok running_sub_bounds)
qed


lemma finishParse_embeds_settled_witness:
  "\<exists>w'. finishParse (sample_deps page_bytes_lib) ''d'' 1 900 512 ''s3://parsed/d/1.md'' False None
        (sample_world running_tables mem_empty) = (Inr True, w')
     \<and> map snd (mem_und (ext w') StreamEmbed) = [MarshalJob (embed_fields (embed_job_of ''d''))]"
proof -
  let ?w = "sample_world running_tables mem_empty"
  let ?tx = "TxWithRetry 3 (finish_tx ''d'' 1 900 512 ''s3://parsed/d/1.md'' False None)"
  have "succeeds (finish_tx ''d'' 1 900 512 ''s3://parsed/d/1.md'' False None)"
    by (auto simp: finish_tx_def GetDocumentTx_def intro!: succ_rules)
  then obtain fresh w1 where t: "?tx ?w = (Inr fresh, w1)" by (rule succeedsE[OF succeeds_TxWithRetry sample_healthy])
  have s: "settledAfterDone fresh"
    using postD[OF post_TxWithRetry[OF post_finish_tx] t]
    by (simp add: doc_by_id_def bump_done_def settledAfterDone_def BookSettled_def running_tables_def sample_tables_def sample_doc_def)
  obtain w' where r: "finishParse (sample_deps page_bytes_lib) ''d'' 1 900 512 ''s3://parsed/d/1.md'' False None ?w = (Inr True, w')"
    unfolding finishParse_def bnd_Inr[of ?tx ?w, OF t]
    using s by (simp add: on_ext_def XAddJob_def mem_add_def bnd_def Let_def)
  show ?thesis
    using finishParse_embeds_settled[of "sample_deps page_bytes_lib" mem_ok mem_und mem_ent mem_pelv, OF _ _ r] r
    by (simp add: mem_redis_view mem_empty_ok) (simp add: mem_und_def mem_empty_def mem_after_def)
qed

definition parse_payload :: payload where
  "parse_payload = [(''doc_id'', JStr ''d''), (''idx'', JNum (itoa 1))]"

lemma HandleParse_unclaimable_witness:
  "\<exists>w'. HandleParse (sample_deps page_bytes_lib) parse_payload (sample_world (sample_tables ShardDone) mem_empty) = (Inr (), w')
     \<and> ext w' = mem_empty"
proof -
  have j: "jobString parse_payload ''doc_id'' = Inr ''d''" "jobInt (ParseFloat (sample_deps page_bytes_lib)) parse_payload ''idx'' = (1, True)"
    by (simp_all add: jobString_def jobInt_def parse_payload_def get_str_def get_num_def num_int_itoa)
  have n: "\<forall>s \<in> set (shards (db (sample_world (sample_tables ShardDone) mem_empty))). \<not> claimable ''d'' 1 s"
    by (simp add: claimable_def sample_defs)
  show ?thesis
    using HandleParse_unclaimable[OF j, of "sample_world (sample_tables ShardDone) mem_empty" "''0a1b2c3d''"] n
    by (auto simp: sample_deps_def)
qed

end
