(* ===== verification/Stitch.thy ===== *)
theory Stitch
  imports Json
begin

text \<open>
  Stitching shard markdown into one document with a per-line page map
  (\<open>internal/pipeline/stitch.go\<close>).  The Go maps \<open>docs\<close> and \<open>shardPageRanges\<close> are
  association lists with distinct keys; the code sorts the keys, so their order is
  immaterial.
\<close>

section \<open>Headings and payload shapes\<close>

record stitched_doc =
  Markdown :: string
  Pages :: "int list option"   \<comment> \<open>\<open>None\<close> is Go's nil: no page information\<close>

definition normalizeMarkdown :: "string \<Rightarrow> string" where
  "normalizeMarkdown text0 =
     (let trimmed = trim_space text0
      in if \<not> has_prefix trimmed ''{'' then text0
         else case unmarshal trimmed of
                None \<Rightarrow> text0
              | Some None \<Rightarrow> text0
              | Some (Some payload) \<Rightarrow>
                  (case get_str payload ''markdown'' of Some md \<Rightarrow> md | None \<Rightarrow> text0))"

fun firstHeading :: "string list \<Rightarrow> string option" where
  "firstHeading [] = None"
| "firstHeading (line # ls) =
     (let s = trim_space line in if has_prefix s ''#'' then Some s else firstHeading ls)"

definition lastHeading :: "string list \<Rightarrow> string option" where
  "lastHeading ls = firstHeading (rev ls)"

definition blank_line :: "string \<Rightarrow> bool" where
  "blank_line l \<longleftrightarrow> trim_space l = []"

section \<open>Aligning the page map with the trimmed markdown\<close>

definition alignPages :: "string \<Rightarrow> int list \<Rightarrow> string list \<Rightarrow> int list option" where
  "alignPages markdown pageOfLine0 ls =
     (if pageOfLine0 = [] then None
      else
        let emitted0 = int (length ls);
            lead = length (takeWhile blank_line ls);
            drop_lead = (lead > 0 \<and> lead \<le> length pageOfLine0);
            pageOfLine1 = (if drop_lead then drop lead pageOfLine0 else pageOfLine0);
            emitted1 = (if drop_lead then emitted0 - int lead else emitted0);
            trail = min (length ls - lead) (length (takeWhile blank_line (rev ls)));
            drop_trail = (trail > 0 \<and> trail \<le> length pageOfLine1);
            pageOfLine2 =
              (if drop_trail then take (length pageOfLine1 - trail) pageOfLine1 else pageOfLine1);
            emitted2 = (if drop_trail then emitted1 - int trail else emitted1)
        in if int (length pageOfLine2) \<noteq> emitted2
              \<or> length pageOfLine2 \<noteq> count_list markdown newline
           then None else Some pageOfLine2)"

section \<open>The stitch loop\<close>

text \<open>The lines one shard contributes after those already emitted.\<close>

definition contribution :: "string list \<Rightarrow> string \<Rightarrow> string list" where
  "contribution ls md =
     (let docLines = split_on newline (trim_suffix_byte md newline)
      in if ls \<noteq> [] \<and> docLines \<noteq> []
            \<and> lastHeading ls \<noteq> None \<and> firstHeading docLines \<noteq> None
            \<and> firstHeading docLines = lastHeading ls
         then dropWhile blank_line (tl docLines)
         else docLines)"

definition line_pages :: "int \<times> int \<Rightarrow> nat \<Rightarrow> int list" where
  "line_pages pr n =
     (let (pageStart, pageEnd) = pr; span = pageEnd - pageStart + 1
      in map (\<lambda>i. pageStart + go_div (int i * span) (int n)) [0..<n])"

fun stitch_loop ::
  "(int \<times> string) list \<Rightarrow> (int \<times> (int \<times> int)) list \<Rightarrow> int list
   \<Rightarrow> string list \<Rightarrow> int list \<Rightarrow> string list \<times> int list" where
  "stitch_loop docs ranges [] ls pageOfLine = (ls, pageOfLine)"
| "stitch_loop docs ranges (idx # idxs) ls pageOfLine =
     (let md = normalizeMarkdown (case map_of docs idx of Some d \<Rightarrow> d | None \<Rightarrow> [])
      in if md = [] then stitch_loop docs ranges idxs ls pageOfLine
         else
           let docLines = contribution ls md;
               ls' = ls @ docLines
           in case map_of ranges idx of
                None \<Rightarrow> stitch_loop docs ranges idxs ls' pageOfLine
              | Some pr \<Rightarrow>
                  stitch_loop docs ranges idxs ls' (pageOfLine @ line_pages pr (length docLines)))"

definition Stitch :: "(int \<times> string) list \<Rightarrow> (int \<times> (int \<times> int)) list \<Rightarrow> stitched_doc" where
  "Stitch docs ranges =
     (let idxs = sort (map fst docs);
          (ls, pageOfLine) = stitch_loop docs ranges idxs [] [];
          md = trim_space (join [newline] ls) @ [newline]
      in \<lparr>Markdown = md, Pages = alignPages md pageOfLine ls\<rparr>)"

section \<open>What the stitched document promises\<close>

text \<open>The page ranges never step back from one shard to a later one.\<close>

definition ranges_ordered :: "(int \<times> (int \<times> int)) list \<Rightarrow> bool" where
  "ranges_ordered ranges \<longleftrightarrow>
     (\<forall>(i, a, b) \<in> set ranges. a \<le> b \<and> (\<forall>(j, c, d) \<in> set ranges. i < j \<longrightarrow> b \<le> c))"

lemma line_pages_sorted: "a \<le> b \<Longrightarrow> sorted (line_pages (a, b) n)"
  by (auto simp: line_pages_def Let_def sorted_iff_nth_mono intro!: zdiv_mono1 mult_right_mono)

lemma line_pages_within:
  assumes "a \<le> b" "p \<in> set (line_pages (a, b) n)"
  shows "a \<le> p \<and> p \<le> b"
proof -
  obtain i where i: "i < n" "p = a + go_div (int i * (b - a + 1)) (int n)"
    using assms(2) by (auto simp: line_pages_def Let_def)
  have "int i * (b - a + 1) < int n * (b - a + 1)" using i(1) assms(1) by simp
  then have "int i * (b - a + 1) div int n < b - a + 1"
  proof -
    let ?x = "int i * (b - a + 1)"
    have "int n * (?x div int n) = ?x - ?x mod int n" by (simp add: minus_mod_eq_mult_div)
    moreover have "0 \<le> ?x mod int n" using i(1) by simp
    ultimately have "int n * (?x div int n) < int n * (b - a + 1)"
      using \<open>?x < int n * (b - a + 1)\<close> by linarith
    then show ?thesis using i(1) by simp
  qed
  moreover have "0 \<le> int i * (b - a + 1) div int n" using assms(1) i(1) by (simp add: pos_imp_zdiv_nonneg_iff)
  ultimately show ?thesis using i assms(1) by simp
qed

lemma stitch_loop_pages:
  assumes "stitch_loop docs ranges idxs ls ps = (ls', ps')"
    and "ranges_ordered ranges" "sorted_wrt (<) idxs" "sorted ps"
    and "\<forall>p \<in> set ps. (\<exists>(i, a, b) \<in> set ranges. a \<le> p \<and> p \<le> b)"
    and "\<forall>p \<in> set ps. \<forall>i \<in> set idxs. \<forall>pr. map_of ranges i = Some pr \<longrightarrow> p \<le> fst pr"
  shows "sorted ps' \<and> (\<forall>p \<in> set ps'. \<exists>(i, a, b) \<in> set ranges. a \<le> p \<and> p \<le> b)"
  using assms
proof (induction docs ranges idxs ls ps rule: stitch_loop.induct)
  case (2 docs ranges idx idxs ls ps)
  let ?md = "normalizeMarkdown (case map_of docs idx of Some d \<Rightarrow> d | None \<Rightarrow> [])"
  consider (skip) "?md = []" | (norange) "?md \<noteq> []" "map_of ranges idx = None"
    | (pages) a b where "?md \<noteq> []" "map_of ranges idx = Some (a, b)" by (metis option.exhaust surj_pair)
  then show ?case
  proof cases
    case pages
    let ?n = "length (contribution ls ?md)"
    have mem: "(idx, a, b) \<in> set ranges" using pages(2) by (rule map_of_SomeD)
    then have ab: "a \<le> b" and later: "\<And>j c d. (j, c, d) \<in> set ranges \<Longrightarrow> idx < j \<Longrightarrow> b \<le> c"
      using "2.prems"(2) by (auto simp: ranges_ordered_def)
    note new = line_pages_within[OF ab, of _ ?n]
    have "\<forall>p \<in> set ps. p \<le> a" using "2.prems"(6) pages(2) by auto
    then have s: "sorted (ps @ line_pages (a, b) ?n)"
      using "2.prems"(4) line_pages_sorted[OF ab] new by (force simp: sorted_append)
    have b: "\<forall>p \<in> set (ps @ line_pages (a, b) ?n). \<forall>i \<in> set idxs. \<forall>pr. map_of ranges i = Some pr \<longrightarrow> p \<le> fst pr"
    proof (intro ballI allI impI)
      fix p i pr
      assume p: "p \<in> set (ps @ line_pages (a, b) ?n)" and i: "i \<in> set idxs" "map_of ranges i = Some pr"
      then have "b \<le> fst pr" using later[of i "fst pr" "snd pr"] "2.prems"(3) map_of_SomeD[OF i(2)] by auto
      then show "p \<le> fst pr" using p new "2.prems"(6) i by fastforce
    qed
    have w: "\<forall>p \<in> set (ps @ line_pages (a, b) ?n). \<exists>(i, a, b) \<in> set ranges. a \<le> p \<and> p \<le> b"
      using "2.prems"(5) new mem by fastforce
    show ?thesis
      by (rule "2.IH"(3)[OF refl _ refl refl pages(2) _ "2.prems"(2) _ s w b])
        (use "2.prems"(1,3) pages in \<open>simp_all add: Let_def\<close>)
  next
    case skip
    show ?thesis by (rule "2.IH"(1)[OF refl skip]) (use "2.prems" skip in \<open>simp_all add: Let_def\<close>)
  next
    case norange
    show ?thesis
      by (rule "2.IH"(2)[OF refl _ refl refl norange(2)]) (use "2.prems" norange in \<open>simp_all add: Let_def\<close>)
  qed
qed simp

lemma nested_guards:
  "(if c then None else if d \<noteq> e \<or> length q \<noteq> k then None else Some q) = Some qs \<Longrightarrow> qs = q \<and> length q = k"
  by (simp split: if_splits)

lemma alignPages_Some:
  assumes "alignPages md ps ls = Some qs"
  shows "length qs = count_list md newline" "\<exists>a b. qs = take b (drop a ps)"
proof -
  have slice: "\<exists>a b. q = take b (drop a ps)"
    if "q = (if c2 then take (length p1 - t) p1 else p1)" "p1 = (if c1 then drop l ps else ps)"
    for q c1 c2 l t p1
  proof -
    have "q = take (if c2 then length p1 - t else length p1) (drop (if c1 then l else 0) ps)"
      using that by simp
    then show ?thesis by blast
  qed
  note r = nested_guards[OF assms[unfolded alignPages_def Let_def]]
  show "length qs = count_list md newline" using r by (elim conjE) (simp only:)
  show "\<exists>a b. qs = take b (drop a ps)" by (rule slice[OF conjunct1[OF r] refl])
qed



definition doc_lines :: "string \<Rightarrow> string list" where
  "doc_lines md = split_on newline (trim_suffix_byte md newline)"

lemma firstHeading_mem:
  "firstHeading ls = Some h \<Longrightarrow> \<exists>l \<in> set ls. trim_space l = h \<and> has_prefix h ''#''"
  by (induction ls) (auto simp: Let_def split: if_splits)

text \<open>
  When a shard's first heading repeats the last heading emitted, the line removed is
  the shard's first line.  If that line is the heading, the heading is dropped with the
  blank lines under it; if text of the previous section precedes the heading, that text is
  what is lost, and the repeated heading stays.
\<close>

theorem contribution_overlap:
  assumes "lastHeading ls = Some h" "firstHeading (doc_lines md) = Some h" "doc_lines md = l0 # rest"
  shows "contribution ls md = dropWhile blank_line rest
    \<and> (\<not> has_prefix (trim_space l0) ''#'' \<longrightarrow> (\<exists>l \<in> set (contribution ls md). trim_space l = h))"
proof -
  have "ls \<noteq> []" using assms(1) by (auto simp: lastHeading_def)
  then have c: "contribution ls md = dropWhile blank_line rest"
    using assms by (simp add: contribution_def doc_lines_def)
  moreover have "\<exists>l \<in> set (dropWhile blank_line rest). trim_space l = h"
    if "\<not> has_prefix (trim_space l0) ''#''"
  proof -
    have "firstHeading rest = Some h" using assms that by (simp add: Let_def)
    then obtain l where l: "l \<in> set rest" "trim_space l = h" "has_prefix h ''#''"
      using firstHeading_mem by blast
    then have "\<not> blank_line l" by (auto simp: blank_line_def has_prefix_def)
    moreover have "l \<in> set (takeWhile blank_line rest) \<or> l \<in> set (dropWhile blank_line rest)"
      using l(1) by (metis Un_iff set_append takeWhile_dropWhile_id)
    ultimately show ?thesis using l(2) set_takeWhileD by metis
  qed
  ultimately show ?thesis by simp
qed

lemma contribution_overlap_witness:
  "contribution [''# A'', ''x''] (''tail'' @ newline # ''# A'' @ newline # ''y'') = [''# A'', ''y'']"
proof -
  note trim = trim_space_ascii is_space_def has_prefix_def Let_def
  have d: "doc_lines (''tail'' @ newline # ''# A'' @ newline # ''y'') = [''tail'', ''# A'', ''y'']"
    by (simp add: doc_lines_def trim_suffix_byte_def)
  have "lastHeading [''# A'', ''x''] = Some ''# A''"
    "firstHeading (doc_lines (''tail'' @ newline # ''# A'' @ newline # ''y'')) = Some ''# A''"
    unfolding d by (simp_all add: lastHeading_def trim)
  from contribution_overlap[OF this d] show ?thesis
    by (simp add: blank_line_def trim)
qed
end
