(* ===== verification/Regexp.thy ===== *)
theory Regexp
  imports GoText
begin

text \<open>
  Texts as lists of code points, with the functions of \<open>strings\<close> the chunker uses on them,
  and Go's \<open>regexp\<close> (leftmost-first) on such texts.  The documents the chunker sees are valid
  UTF-8, so a text is its list of code points; \<open>utf8\<close> gives the bytes back.
\<close>

type_synonym rtext = "nat list"

definition utf8 :: "rtext \<Rightarrow> string" where
  "utf8 t = concat (map encode_rune t)"

text \<open>The code points of an ASCII literal.\<close>

definition lit :: "string \<Rightarrow> rtext" where
  "lit s = map of_char s"

section \<open>Texts\<close>

abbreviation nl :: nat where
  "nl \<equiv> 10"

definition ltrim :: "(nat \<Rightarrow> bool) \<Rightarrow> rtext \<Rightarrow> rtext" where
  "ltrim p t = dropWhile p t"

definition rtrim :: "(nat \<Rightarrow> bool) \<Rightarrow> rtext \<Rightarrow> rtext" where
  "rtrim p t = rev (dropWhile p (rev t))"

text \<open>\<open>strings.TrimSpace\<close>.\<close>

definition TrimSpace :: "rtext \<Rightarrow> rtext" where
  "TrimSpace t = rtrim is_space (ltrim is_space t)"

definition prefixed :: "rtext \<Rightarrow> rtext \<Rightarrow> bool" where
  "prefixed t p \<longleftrightarrow> take (length p) t = p"

definition suffixed :: "rtext \<Rightarrow> rtext \<Rightarrow> bool" where
  "suffixed t p \<longleftrightarrow> length p \<le> length t \<and> drop (length t - length p) t = p"

fun contains :: "rtext \<Rightarrow> rtext \<Rightarrow> bool" where
  "contains [] p \<longleftrightarrow> p = []"
| "contains (c # t) p \<longleftrightarrow> prefixed (c # t) p \<or> contains t p"

text \<open>\<open>strings.Split\<close> at a one-rune separator.\<close>

fun split_at :: "nat \<Rightarrow> rtext \<Rightarrow> rtext list" where
  "split_at sep [] = [[]]"
| "split_at sep (c # t) =
     (if c = sep then [] # split_at sep t
      else case split_at sep t of [] \<Rightarrow> [[c]] | l # ls \<Rightarrow> (c # l) # ls)"

fun join_at :: "rtext \<Rightarrow> rtext list \<Rightarrow> rtext" where
  "join_at sep [] = []"
| "join_at sep [x] = x"
| "join_at sep (x # y # ys) = x @ sep @ join_at sep (y # ys)"

text \<open>\<open>strings.Count\<close> of a non-empty text: occurrences that do not overlap.\<close>

function count_of :: "rtext \<Rightarrow> rtext \<Rightarrow> nat" where
  "count_of t p =
     (if t = [] \<or> p = [] then 0
      else if prefixed t p then Suc (count_of (drop (length p) t) p)
      else count_of (tl t) p)"
  by pat_completeness auto

termination by (relation "measure (\<lambda>(t, p). length t)") (auto simp: neq_Nil_conv)

declare count_of.simps [simp del]

section \<open>Regular expressions\<close>

text \<open>
  \<open>Rep greedy r n m\<close> is \<open>r{n,m}\<close> (\<open>m = None\<close>: no upper bound), lazy when not greedy; \<open>Bol\<close>,
  \<open>Eol\<close> are \<open>^\<close>, \<open>$\<close> under \<open>(?m)\<close>, \<open>TextStart\<close>, \<open>TextEnd\<close> without it.
\<close>

datatype re =
    Eps
  | Chr "nat \<Rightarrow> bool"
  | Cat re re
  | Alt re re
  | Rep bool re nat "nat option"
  | Grp nat re
  | Bol | Eol | TextStart | TextEnd

type_synonym caps = "(nat \<times> nat \<times> nat) list"   \<comment> \<open>group, start, end\<close>
type_synonym result = "nat \<times> caps"

text \<open>
  The ways a repetition can end, best first, where \<open>f\<close> gives the ways of its body.  An
  iteration beyond the required ones must consume something, as for every body below it does;
  so as many further iterations as there are runes left are enough.
\<close>

fun reps :: "(nat \<Rightarrow> result list) \<Rightarrow> bool \<Rightarrow> nat \<Rightarrow> nat option \<Rightarrow> nat \<Rightarrow> nat \<Rightarrow> result list" where
  "reps f g (Suc n) m k p =
     concat (map (\<lambda>(q, c). map (\<lambda>(q', c'). (q', c @ c')) (reps f g n (map_option (\<lambda>x. x - 1) m) k q)) (f p))"
| "reps f g 0 m 0 p = [(p, [])]"
| "reps f g 0 m (Suc k) p =
     (if m = Some 0 then [(p, [])]
      else
        let more = concat (map (\<lambda>(q, c).
              if p < q then map (\<lambda>(q', c'). (q', c @ c')) (reps f g 0 (map_option (\<lambda>x. x - 1) m) k q) else []) (f p))
        in if g then more @ [(p, [])] else (p, []) # more)"

text \<open>All matches of an expression that start at a position, in the order of preference.\<close>

fun matches :: "rtext \<Rightarrow> re \<Rightarrow> nat \<Rightarrow> result list" where
  "matches t Eps p = [(p, [])]"
| "matches t (Chr P) p = (if p < length t \<and> P (t ! p) then [(Suc p, [])] else [])"
| "matches t (Cat r s) p =
     concat (map (\<lambda>(q, c). map (\<lambda>(q', c'). (q', c @ c')) (matches t s q)) (matches t r p))"
| "matches t (Alt r s) p = matches t r p @ matches t s p"
| "matches t (Rep g r n m) p = reps (matches t r) g n m (length t - p) p"
| "matches t (Grp i r) p = map (\<lambda>(q, c). (q, (i, p, q) # c)) (matches t r p)"
| "matches t Bol p = (if p = 0 \<or> t ! (p - 1) = nl then [(p, [])] else [])"
| "matches t Eol p = (if p = length t \<or> t ! p = nl then [(p, [])] else [])"
| "matches t TextStart p = (if p = 0 then [(p, [])] else [])"
| "matches t TextEnd p = (if p = length t then [(p, [])] else [])"

text \<open>The leftmost match from a position on, the preferred one there: start, end, groups.\<close>

definition find_from :: "rtext \<Rightarrow> re \<Rightarrow> nat \<Rightarrow> (nat \<times> nat \<times> caps) option" where
  "find_from t r p =
     (case filter (\<lambda>i. matches t r i \<noteq> []) [p..<Suc (length t)] of
        [] \<Rightarrow> None
      | i # _ \<Rightarrow> Some (i, hd (matches t r i)))"

definition MatchString :: "re \<Rightarrow> rtext \<Rightarrow> bool" where
  "MatchString r t \<longleftrightarrow> find_from t r 0 \<noteq> None"

definition sub_text :: "rtext \<Rightarrow> nat \<Rightarrow> nat \<Rightarrow> rtext" where
  "sub_text t a b = take (b - a) (drop a t)"

text \<open>\<open>FindString\<close> gives the empty text when nothing matches.\<close>

definition FindString :: "re \<Rightarrow> rtext \<Rightarrow> rtext" where
  "FindString r t = (case find_from t r 0 of None \<Rightarrow> [] | Some (a, b, _) \<Rightarrow> sub_text t a b)"

text \<open>A group of the leftmost match; a group that took no part gives the empty text.\<close>

definition cap_group :: "rtext \<Rightarrow> caps \<Rightarrow> nat \<Rightarrow> rtext" where
  "cap_group t c i =
     (case filter (\<lambda>(j, _). j = i) c of
        [] \<Rightarrow> []
      | xs \<Rightarrow> (case List.last xs of (_, a, b) \<Rightarrow> sub_text t a b))"

definition FindStringSubmatch :: "re \<Rightarrow> rtext \<Rightarrow> (rtext \<times> rtext) option" where
  "FindStringSubmatch r t =
     (case find_from t r 0 of None \<Rightarrow> None | Some (a, b, c) \<Rightarrow> Some (cap_group t c 1, cap_group t c 2))"

text \<open>
  \<open>FindAllStringIndex\<close>: an empty match right after the previous match is dropped; after an
  empty match the search goes on one rune further.
\<close>

function find_all_from :: "rtext \<Rightarrow> re \<Rightarrow> nat \<Rightarrow> nat option \<Rightarrow> (nat \<times> nat) list" where
  "find_all_from t r p prevEnd =
     (if length t < p then []
      else case find_from t r p of
             None \<Rightarrow> []
           | Some (a, b, _) \<Rightarrow>
               if b \<le> p then
                 (if Some a = prevEnd then [] else [(a, b)]) @ find_all_from t r (Suc p) (Some b)
               else (a, b) # find_all_from t r b (Some b))"
  by pat_completeness auto

termination by (relation "measure (\<lambda>(t, r, p, e). Suc (length t) - p)") auto

declare find_all_from.simps [simp del]

definition FindAllStringIndex :: "re \<Rightarrow> rtext \<Rightarrow> (nat \<times> nat) list" where
  "FindAllStringIndex r t = find_all_from t r 0 None"

section \<open>Building blocks\<close>

fun cats :: "re list \<Rightarrow> re" where
  "cats [] = Eps"
| "cats [r] = r"
| "cats (r # s # rs) = Cat r (cats (s # rs))"

fun alts :: "re list \<Rightarrow> re" where
  "alts [] = Chr (\<lambda>_. False)"
| "alts [r] = r"
| "alts (r # s # rs) = Alt r (alts (s # rs))"

abbreviation rstar :: "re \<Rightarrow> re" where "rstar r \<equiv> Rep True r 0 None"
abbreviation rplus :: "re \<Rightarrow> re" where "rplus r \<equiv> Rep True r 1 None"
abbreviation ropt :: "re \<Rightarrow> re" where "ropt r \<equiv> Rep True r 0 (Some 1)"

definition rone :: "nat \<Rightarrow> re" where "rone c = Chr (\<lambda>x. x = c)"
definition rone_of :: "rtext \<Rightarrow> re" where "rone_of cs = Chr (\<lambda>x. x \<in> set cs)"
definition rnone_of :: "rtext \<Rightarrow> re" where "rnone_of cs = Chr (\<lambda>x. x \<notin> set cs)"
definition rword :: "string \<Rightarrow> re" where "rword s = cats (map rone (lit s))"

text \<open>\<open>\s\<close>, \<open>\S\<close>, \<open>\d\<close>, \<open>\w\<close> are ASCII classes; \<open>.\<close> leaves out the newline unless \<open>(?s)\<close>.\<close>

definition blank :: "nat \<Rightarrow> bool" where "blank x \<longleftrightarrow> x = 9 \<or> x = 10 \<or> x = 12 \<or> x = 13 \<or> x = 32"
definition digit :: "nat \<Rightarrow> bool" where "digit x \<longleftrightarrow> 48 \<le> x \<and> x \<le> 57"
definition word_rune :: "nat \<Rightarrow> bool" where
  "word_rune x \<longleftrightarrow> digit x \<or> 65 \<le> x \<and> x \<le> 90 \<or> 97 \<le> x \<and> x \<le> 122 \<or> x = 95"

definition rany :: re where "rany = Chr (\<lambda>_. True)"
definition rdot :: re where "rdot = Chr (\<lambda>x. x \<noteq> nl)"

section \<open>Matches stay within the text\<close>

definition stays :: "nat \<Rightarrow> (nat \<Rightarrow> result list) \<Rightarrow> bool" where
  "stays N f \<longleftrightarrow> (\<forall>q b c. (b, c) \<in> set (f q) \<longrightarrow> q \<le> N \<longrightarrow> q \<le> b \<and> b \<le> N)"

lemma reps_range:
  assumes "stays N f"
  shows "(b, c) \<in> set (reps f g n m k p) \<Longrightarrow> p \<le> N \<Longrightarrow> p \<le> b \<and> b \<le> N"
  using assms
proof (induction f g n m k p arbitrary: b c rule: reps.induct)
  case (1 f g n m k p)
  then obtain q c1 c2 where q: "(q, c1) \<in> set (f p)" "(b, c2) \<in> set (reps f g n (map_option (\<lambda>x. x - 1) m) k q)" by auto
  then have "p \<le> q" "q \<le> N" using 1 unfolding stays_def by blast+
  then show ?case using "1.IH"[OF q(1) refl q(2) _ "1.prems"(3)] by simp
next
  case (3 f g m k p)
  show ?case
  proof (cases "b = p")
    case False
    then obtain q c1 c2 where q: "(q, c1) \<in> set (f p)" "p < q" "(b, c2) \<in> set (reps f g 0 (map_option (\<lambda>x. x - 1) m) k q)"
      and m: "m \<noteq> Some 0"
      using "3.prems"(1) by (auto simp: Let_def split: if_splits)
    then have "q \<le> N" using 3 unfolding stays_def by blast
    then show ?thesis using "3.IH"[OF m q(1) refl q(2,3) _ "3.prems"(3)] q(2) by simp
  qed (use "3.prems" in simp)
qed simp

lemma matches_stays: "stays (length t) (matches t r)"
proof (induction r)
  case (Cat r s)
  show ?case unfolding stays_def
  proof (intro allI impI)
    fix q b c assume "(b, c) \<in> set (matches t (Cat r s) q)" and q: "q \<le> length t"
    then obtain q' c1 c2 where m: "(q', c1) \<in> set (matches t r q)" "(b, c2) \<in> set (matches t s q')" by auto
    have "q \<le> q' \<and> q' \<le> length t" using Cat.IH(1) m(1) q unfolding stays_def by blast
    moreover have "q' \<le> b \<and> b \<le> length t" using Cat.IH(2) m(2) calculation unfolding stays_def by blast
    ultimately show "q \<le> b \<and> b \<le> length t" by simp
  qed
next
  case (Rep g r n m)
  show ?case using reps_range[OF Rep.IH] by (simp add: stays_def)
next
  case (Grp i r)
  then show ?case by (fastforce simp: stays_def)
next
  case (Alt r s)
  show ?case unfolding stays_def
  proof (intro allI impI)
    fix q b c assume "(b, c) \<in> set (matches t (Alt r s) q)" and q: "q \<le> length t"
    then consider "(b, c) \<in> set (matches t r q)" | "(b, c) \<in> set (matches t s q)" by auto
    then show "q \<le> b \<and> b \<le> length t" using Alt.IH q unfolding stays_def by cases blast+
  qed
qed (auto simp: stays_def split: if_splits)

lemma matches_range: "(b, c) \<in> set (matches t r p) \<Longrightarrow> p \<le> length t \<Longrightarrow> p \<le> b \<and> b \<le> length t"
  using matches_stays unfolding stays_def by blast

lemma find_from_range:
  assumes "find_from t r p = Some (a, b, c)"
  shows "p \<le> a \<and> a \<le> b \<and> b \<le> length t"
proof -
  obtain js where f: "filter (\<lambda>i. matches t r i \<noteq> []) [p..<Suc (length t)] = a # js" and m: "hd (matches t r a) = (b, c)"
    using assms by (auto simp: find_from_def split: list.splits)
  then have "a \<in> set (filter (\<lambda>i. matches t r i \<noteq> []) [p..<Suc (length t)])" by simp
  then have a: "p \<le> a" "a \<le> length t" "matches t r a \<noteq> []" by auto
  then have "(b, c) \<in> set (matches t r a)" using m hd_in_set by metis
  then show ?thesis using matches_range a by blast
qed

lemma find_all_range:
  "(a, b) \<in> set (find_all_from t r p e) \<Longrightarrow> p \<le> a \<and> a \<le> b \<and> b \<le> length t"
proof (induction t r p e rule: find_all_from.induct)
  case (1 t r p e)
  show ?case
  proof (cases "length t < p \<or> find_from t r p = None")
    case False
    then obtain a0 b0 c0 where f: "find_from t r p = Some (a0, b0, c0)" and p: "\<not> length t < p" by auto
    note rg = find_from_range[OF f]
    consider "(a, b) = (a0, b0)" | "b0 \<le> p" "(a, b) \<in> set (find_all_from t r (Suc p) (Some b0))"
      | "\<not> b0 \<le> p" "(a, b) \<in> set (find_all_from t r b0 (Some b0))"
      using "1.prems" f p by (subst (asm) find_all_from.simps) (auto split: if_splits)
    then show ?thesis
    proof cases
      case 2
      then show ?thesis using "1.IH"(1)[OF p f refl refl] by simp
    next
      case 3
      then show ?thesis using "1.IH"(2)[OF p f refl refl] rg by simp
    qed (use rg in simp)
  next
    case True
    then have "find_all_from t r p e = []" by (subst find_all_from.simps) auto
    then show ?thesis using "1.prems" by simp
  qed
qed

lemma FindAllStringIndex_range: "(a, b) \<in> set (FindAllStringIndex r t) \<Longrightarrow> a \<le> b \<and> b \<le> length t"
  using find_all_range unfolding FindAllStringIndex_def by blast

end
