(* ===== verification/Patterns.thy ===== *)
theory Patterns
  imports Regexp
begin

text \<open>
  The patterns of the chunker (\<open>internal/chunker/patterns.go\<close>, \<open>protected.go\<close>,
  \<open>header_tracker.go\<close>), each next to the regular expression it stands for.
\<close>

section \<open>Pieces\<close>

definition spaces :: re where "spaces = rstar (Chr blank)"            \<comment> \<open>\<open>\s*\<close>\<close>
definition spaces1 :: re where "spaces1 = rplus (Chr blank)"          \<comment> \<open>\<open>\s+\<close>\<close>
definition tabs :: re where "tabs = rstar (rone_of [32, 9])"          \<comment> \<open>\<open>[ \t]*\<close>\<close>
definition breaks :: re where "breaks = rplus (rone_of [13, 10])"     \<comment> \<open>\<open>[\r\n]+\<close>\<close>
definition digits1 :: re where "digits1 = rplus (Chr digit)"          \<comment> \<open>\<open>\d+\<close>\<close>

definition cells :: re where                                          \<comment> \<open>\<open>(?:\|[^|\n]*)+\<close>\<close>
  "cells = rplus (Cat (rone 124) (rstar (rnone_of [124, 10])))"

definition rule_cells :: re where                                     \<comment> \<open>\<open>(?:\|\s*:?-{3,}:?\s*)+\<close>\<close>
  "rule_cells = rplus (cats [rone 124, spaces, ropt (rone 58), Rep True (rone 45) 3 None, ropt (rone 58), spaces])"

section \<open>Headings and section markers\<close>

text \<open>\<open>(?m)^(#{1,6})\s+(.+?)\s*#*\s*$\<close>\<close>

definition MarkdownHeadingPattern :: re where
  "MarkdownHeadingPattern =
     cats [Bol, Grp 1 (Rep True (rone 35) 1 (Some 6)), spaces1, Grp 2 (Rep False rdot 1 None), spaces,
           rstar (rone 35), spaces, Eol]"

definition roman :: "nat \<Rightarrow> bool" where "roman x \<longleftrightarrow> x = 73 \<or> x = 86 \<or> x = 88"

text \<open>\<open>(?m)^[ \t]*(?:\d+(?:\.\d+){1,3}\.?|(?:\d+|[IVX]{1,5})\.)[ \t]+\S.{0,200}$\<close>\<close>

definition NumberedSectionPattern :: re where
  "NumberedSectionPattern =
     cats [Bol, tabs,
           Alt (cats [digits1, Rep True (Cat (rone 46) digits1) 1 (Some 3), ropt (rone 46)])
               (Cat (Alt digits1 (Rep True (Chr roman) 1 (Some 5))) (rone 46)),
           rplus (rone_of [32, 9]), Chr (\<lambda>x. \<not> blank x), Rep True rdot 0 (Some 200), Eol]"

definition capital :: "nat \<Rightarrow> bool" where
  "capital x \<longleftrightarrow> 65 \<le> x \<and> x \<le> 90 \<or> x = 196 \<or> x = 214 \<or> x = 220"

text \<open>\<open>(?m)^[ \t]*([A-Z...][A-Z... \-]{3,80}):?\s*$\<close>, the dots for the three umlauts.\<close>

definition AllCapsHeadingPattern :: re where
  "AllCapsHeadingPattern =
     cats [Bol, tabs, Grp 1 (Cat (Chr capital) (Rep True (Chr (\<lambda>x. capital x \<or> x = 32 \<or> x = 45)) 3 (Some 80))),
           ropt (rone 58), spaces, Eol]"

text \<open>\<open>(?m)^[ \t]*(?:-{3,}|={3,}|\*{3,}|_{3,})[ \t]*$\<close>\<close>

definition VisualSeparatorPattern :: re where
  "VisualSeparatorPattern =
     cats [Bol, tabs, alts (map (\<lambda>c. Rep True (rone c) 3 None) [45, 61, 42, 95]), tabs, Eol]"

text \<open>\<open>\n{3,}\<close>\<close>

definition ExcessiveBlanksPattern :: re where
  "ExcessiveBlanksPattern = Rep True (rone nl) 3 None"

text \<open>A letter under \<open>(?i)\<close>: both cases and, for \<open>s\<close>, the long s.\<close>

definition fold_letter :: "nat \<Rightarrow> re" where
  "fold_letter c = Chr (\<lambda>x. x = c \<or> x + 32 = c \<or> c = 115 \<and> x = 383)"

definition fold_word :: "string \<Rightarrow> re" where
  "fold_word s = cats (map fold_letter (lit s))"

text \<open>
  \<open>(?mi)^[ \t]*(?:Seite|Page|\<close> the Chinese for page \<open>)\s+\d+(?:\s*(?:von|of|/)\s*\d+)?[ \t]*$\<close>
\<close>

definition PageFooterPattern :: re where
  "PageFooterPattern =
     cats [Bol, tabs, alts [fold_word ''seite'', fold_word ''page'', Cat (rone 39029) (ropt (rone 30721))],
           spaces1, digits1,
           ropt (cats [spaces, alts [fold_word ''von'', fold_word ''of'', rone 47], spaces, digits1]), tabs, Eol]"

text \<open>\<open>(?m)^[ \t]*(?:...)\s+(?:[0-9]+|[IVX]{1,5})[\.: ].{0,200}$\<close>\<close>

definition chapter_pattern :: "string list \<Rightarrow> re" where
  "chapter_pattern words =
     cats [Bol, tabs, alts (map rword words), spaces1, Alt digits1 (Rep True (Chr roman) 1 (Some 5)),
           rone_of [46, 58, 32], Rep True rdot 0 (Some 200), Eol]"

definition GermanChapterPattern :: re where
  "GermanChapterPattern = chapter_pattern [''Kapitel'', ''Abschnitt'', ''Teil'']"

definition EnglishChapterPattern :: re where
  "EnglishChapterPattern = chapter_pattern [''Chapter'', ''Section'', ''Part'']"

text \<open>The Chinese numerals and the units (chapter, section in two spellings, part, piece).\<close>

definition chinese_number :: "nat \<Rightarrow> bool" where
  "chinese_number x \<longleftrightarrow> digit x \<or> x \<in> {19968, 20108, 19977, 22235, 20116, 20845, 19971, 20843, 20061, 21313,
     30334, 21315, 38646, 12295}"

definition ChineseChapterPattern :: re where
  "ChineseChapterPattern =
     cats [Bol, tabs, rone 31532, tabs, rplus (Chr chinese_number), tabs,
           alts [rone 31456, rone 33410, rone 31680, Cat (rone 37096) (rone 20998), rone 31687],
           ropt (rone_of [32, 9]), Rep True rdot 0 (Some 200), Eol]"

definition PrioFormFeed :: int where "PrioFormFeed = 100"
definition PrioNumberedHead :: int where "PrioNumberedHead = 90"
definition PrioChapterMarker :: int where "PrioChapterMarker = 85"
definition PrioAllCapsHeading :: int where "PrioAllCapsHeading = 70"
definition PrioVisualSep :: int where "PrioVisualSep = 60"
definition PrioPageFooter :: int where "PrioPageFooter = 50"
definition PrioBlankBlock :: int where "PrioBlankBlock = 40"

section \<open>Languages\<close>

definition LangEnglish :: string where "LangEnglish = ''en''"
definition LangGerman :: string where "LangGerman = ''de''"
definition LangChinese :: string where "LangChinese = ''zh''"
definition LangMixed :: string where "LangMixed = ''mixed''"

definition all_chapter_patterns :: "re list" where
  "all_chapter_patterns = [GermanChapterPattern, EnglishChapterPattern, ChineseChapterPattern]"

definition ChapterPatternsForLangs :: "string list \<Rightarrow> re list" where
  "ChapterPatternsForLangs langs =
     (if langs = [] then all_chapter_patterns
      else
        let out = concat (map (\<lambda>l.
              if l = LangGerman then [GermanChapterPattern]
              else if l = LangEnglish then [EnglishChapterPattern]
              else if l = LangChinese then [ChineseChapterPattern]
              else []) langs)
        in if out = [] then all_chapter_patterns else out)"

definition SentenceSeparators :: "string \<Rightarrow> rtext list" where
  "SentenceSeparators lang =
     (let cjk = [[12290], [65281], [65311], [65307]]; latin = map lit [''. '', ''! '', ''? '', ''; '']
      in if lang = LangChinese then cjk @ [[nl]]
         else if lang = LangGerman \<or> lang = LangEnglish then latin @ [[nl]]
         else cjk @ latin @ [[nl]])"

section \<open>Protected regions\<close>

definition rtwo :: "nat \<Rightarrow> re" where "rtwo c = Cat (rone c) (rone c)"
definition rthree :: "nat \<Rightarrow> re" where "rthree c = cats [rone c, rone c, rone c]"

text \<open>\<open>(?s)\$\$.*?\$\$\<close>\<close>

definition math_block :: re where
  "math_block = cats [rtwo 36, Rep False rany 0 None, rtwo 36]"

text \<open>\<open>!\[[^\]\n]{0,200}\]\([^)\n]{1,500}\)\<close> and \<open>\[[^\]\n]{1,200}\]\([^)\n]{1,500}\)\<close>\<close>

definition link_of :: "nat \<Rightarrow> re" where
  "link_of n =
     cats [rone 91, Rep True (rnone_of [93, 10]) n (Some 200), rone 93, rone 40,
           Rep True (rnone_of [41, 10]) 1 (Some 500), rone 41]"

definition image_link :: re where "image_link = Cat (rone 33) (link_of 0)"
definition plain_link :: re where "plain_link = link_of 1"

text \<open>\<open>(?m)[ ]*(?:\|[^|\n]*)+\|[\r\n]+\s*(?:\|\s*:?-{3,}:?\s*)+\|[\r\n]+\<close>\<close>

definition table_header :: re where
  "table_header = cats [rstar (rone 32), cells, rone 124, breaks, spaces, rule_cells, rone 124, breaks]"

text \<open>\<open>(?m)[ ]*(?:\|[^|\n]*)+\|[\r\n]+\<close>\<close>

definition table_row :: re where
  "table_row = cats [rstar (rone 32), cells, rone 124, breaks]"

text \<open>Fenced code, \<open>(?s)\<close> three backquotes \<open>(?:\w+)?[\r\n].*?\<close> three backquotes; inline code.\<close>

definition code_fence :: re where
  "code_fence = cats [rthree 96, ropt (rplus (Chr word_rune)), rone_of [13, 10], Rep False rany 0 None, rthree 96]"

definition inline_code :: re where
  "inline_code = cats [rone 96, rplus (rnone_of [96, 13, 10]), rone 96]"

definition protectedPatterns :: "re list" where
  "protectedPatterns =
     [math_block, image_link, plain_link, table_header, table_row, code_fence, inline_code]"

section \<open>Table headers\<close>

text \<open>\<open>(?si)^\s*(?:\|[^|\n]*)+[\r\n]+\s*(?:\|\s*:?-{3,}:?\s*)+\|?[\r\n]+$\<close>\<close>

definition header_start :: re where
  "header_start = cats [TextStart, spaces, cells, breaks, spaces, rule_cells, ropt (rone 124), breaks, TextEnd]"

text \<open>\<open>(?si)^\s*$|^\s*[^|\s].*$\<close>\<close>

definition header_end :: re where
  "header_end =
     Alt (cats [TextStart, spaces, TextEnd])
         (cats [TextStart, spaces, Chr (\<lambda>x. x \<noteq> 124 \<and> \<not> blank x), rstar rany, TextEnd])"

text \<open>\<open>(?m)^\s*(?:\|[^|\n]*)+\|\s*$\<close>\<close>

definition tableRowPattern :: re where
  "tableRowPattern = cats [Bol, spaces, cells, rone 124, spaces, Eol]"

end
