(* ===== verification/Protected.thy ===== *)
theory Protected
  imports Patterns
begin

text \<open>
  Protected regions and the units a text is cut into (\<open>internal/chunker/protected.go\<close>).  On
  lists of code points the byte offsets of the code and its rune offsets are the same
  numbers, so \<open>protectedSpansRune\<close> has nothing to convert.
\<close>

definition absoluteMaxSize :: nat where
  "absoluteMaxSize = 7500"

definition maxProtectedSize :: nat where
  "maxProtectedSize = absoluteMaxSize"

section \<open>Spans\<close>

type_synonym span = "nat \<times> nat"   \<comment> \<open>start, end\<close>

definition span_less :: "span \<Rightarrow> span \<Rightarrow> bool" where
  "span_less x y \<longleftrightarrow> fst x < fst y \<or> fst x = fst y \<and> snd y - fst y < snd x - fst x"

text \<open>One round of the insertion sort; the sorted part is kept last element first.\<close>

fun bubble :: "span \<Rightarrow> span list \<Rightarrow> span list" where
  "bubble x [] = [x]"
| "bubble x (y # ys) = (if span_less x y then y # bubble x ys else x # y # ys)"

definition sort_spans :: "span list \<Rightarrow> span list" where
  "sort_spans xs = rev (foldl (\<lambda>acc x. bubble x acc) [] xs)"

fun greedy :: "nat \<Rightarrow> span list \<Rightarrow> span list" where
  "greedy lastEnd [] = []"
| "greedy lastEnd (m # ms) =
     (if lastEnd \<le> fst m then m # greedy (snd m) ms else greedy lastEnd ms)"

definition protectedSpans :: "rtext \<Rightarrow> span list" where
  "protectedSpans t =
     greedy 0 (sort_spans (concat (map (\<lambda>r. filter (\<lambda>(a, b). a < b) (FindAllStringIndex r t)) protectedPatterns)))"

definition protectedSpansRune :: "rtext \<Rightarrow> span list \<Rightarrow> span list" where
  "protectedSpansRune t spans = spans"

definition insideSpan :: "span list \<Rightarrow> nat \<Rightarrow> bool" where
  "insideSpan spans i \<longleftrightarrow> (\<exists>(a, b) \<in> set spans. a < i \<and> i < b)"

section \<open>Units\<close>

record splitUnit =
  su_text :: rtext
  su_start :: nat
  su_end :: nat

definition isSynthetic :: "splitUnit \<Rightarrow> bool" where
  "isSynthetic u \<longleftrightarrow> su_start u = su_end u \<or> int (su_end u) - int (su_start u) \<noteq> int (length (su_text u))"

text \<open>The text cut at every occurrence of a separator, the occurrences kept as pieces.\<close>

function cut_at :: "rtext \<Rightarrow> rtext \<Rightarrow> rtext \<Rightarrow> rtext list" where
  "cut_at sep acc t =
     (if t = [] \<or> sep = [] then [rev acc @ t]
      else if prefixed t sep then rev acc # sep # cut_at sep [] (drop (length sep) t)
      else cut_at sep (hd t # acc) (tl t))"
  by pat_completeness auto

termination by (relation "measure (\<lambda>(sep, acc, t). length t)") (auto simp: neq_Nil_conv)

declare cut_at.simps [simp del]

definition pieces_at :: "rtext \<Rightarrow> rtext \<Rightarrow> rtext list" where
  "pieces_at sep t = filter (\<lambda>p. p \<noteq> []) (cut_at sep [] t)"

text \<open>
  A separator that is empty or cuts nothing is passed over: the rest of the loop is the call
  with the remaining separators.
\<close>

fun splitBySeparators :: "rtext \<Rightarrow> rtext list \<Rightarrow> int \<Rightarrow> rtext list" where
  "splitBySeparators t [] chunkSize = [t]"
| "splitBySeparators t (sep # seps) chunkSize =
     (if t = [] \<or> 0 < chunkSize \<and> int (length t) \<le> chunkSize then [t]
      else if sep = [] \<or> length (pieces_at sep t) \<le> 1 then splitBySeparators t seps chunkSize
      else concat (map (\<lambda>p. if 0 < chunkSize \<and> chunkSize < int (length p) \<and> seps \<noteq> []
                            then splitBySeparators p seps chunkSize else [p]) (pieces_at sep t)))"

text \<open>Consecutive units from a position on.\<close>

fun units_from :: "nat \<Rightarrow> rtext list \<Rightarrow> splitUnit list" where
  "units_from pos [] = []"
| "units_from pos (p # ps) =
     \<lparr>su_text = p, su_start = pos, su_end = pos + length p\<rparr> # units_from (pos + length p) ps"

text \<open>
  Where to cut a text longer than the ceiling: after the last newline or space of the final
  200 runes below the ceiling, at the ceiling if there is none.
\<close>

definition chop_length :: "rtext \<Rightarrow> nat" where
  "chop_length r =
     (if length r < absoluteMaxSize then length r
      else case filter (\<lambda>i. r ! i = nl \<or> r ! i = 32) (rev [absoluteMaxSize - 199..<absoluteMaxSize]) of
             [] \<Rightarrow> absoluteMaxSize
           | i # _ \<Rightarrow> Suc i)"

lemma absoluteMaxSize_pos [simp]: "0 < absoluteMaxSize"
  by (simp add: absoluteMaxSize_def)

lemma chop_length_pos: "r \<noteq> [] \<Longrightarrow> 0 < chop_length r"
  by (auto simp: chop_length_def split: list.splits)

function chop :: "rtext \<Rightarrow> rtext list" where
  "chop r = (if r = [] then [] else take (chop_length r) r # chop (drop (chop_length r) r))"
  by pat_completeness auto

termination by (relation "measure length") (auto simp: chop_length_pos)

declare chop.simps [simp del]

fun build_units ::
  "rtext \<Rightarrow> rtext list \<Rightarrow> int \<Rightarrow> nat \<Rightarrow> nat \<Rightarrow> span list \<Rightarrow> splitUnit list" where
  "build_units t seps chunkSize bytePos runePos [] =
     (if bytePos < length t
      then units_from runePos (splitBySeparators (drop bytePos t) seps chunkSize) else [])"
| "build_units t seps chunkSize bytePos runePos ((a, b) # spans) =
     (let pre = (if bytePos < a then splitBySeparators (sub_text t bytePos a) seps chunkSize else []);
          runePos1 = runePos + sum_list (map length pre);
          prot = sub_text t a b;
          parts = (if maxProtectedSize < length prot then chop prot else [prot])
      in units_from runePos pre @ units_from runePos1 parts
           @ build_units t seps chunkSize b (runePos1 + length prot) spans)"

definition buildUnitsWithProtection :: "rtext \<Rightarrow> span list \<Rightarrow> rtext list \<Rightarrow> int \<Rightarrow> splitUnit list" where
  "buildUnitsWithProtection t protected seps chunkSize = build_units t seps chunkSize 0 0 protected"

section \<open>Nothing is lost\<close>

lemma prefixed_append: "prefixed t p \<Longrightarrow> t = p @ drop (length p) t"
  unfolding prefixed_def by (metis append_take_drop_id)

lemma concat_cut_at: "concat (cut_at sep acc t) = rev acc @ t"
proof (induction sep acc t rule: cut_at.induct)
  case (1 sep acc t)
  show ?case
  proof (cases "t = [] \<or> sep = []")
    case False
    then show ?thesis
      using "1.IH" prefixed_append[of t sep] by (subst cut_at.simps) (auto simp: neq_Nil_conv)
  qed (subst cut_at.simps, auto)
qed

lemma concat_nonempty: "concat (filter (\<lambda>p. p \<noteq> []) ps) = concat ps"
  by (induction ps) auto

lemma concat_pieces_at: "concat (pieces_at sep t) = t"
  by (simp add: pieces_at_def concat_nonempty concat_cut_at)

lemma concat_concat_map: "(\<And>p. p \<in> set ps \<Longrightarrow> concat (f p) = p) \<Longrightarrow> concat (concat (map f ps)) = concat ps"
  by (induction ps) auto

lemma concat_splitBySeparators: "concat (splitBySeparators t seps n) = t"
proof (induction t seps n rule: splitBySeparators.induct)
  case (2 t sep seps n)
  show ?case
  proof (cases "t = [] \<or> 0 < n \<and> int (length t) \<le> n \<or> sep = [] \<or> length (pieces_at sep t) \<le> 1")
    case True
    then show ?thesis using "2.IH"(1) by auto
  next
    case False
    let ?f = "\<lambda>p. if 0 < n \<and> n < int (length p) \<and> seps \<noteq> [] then splitBySeparators p seps n else [p]"
    have "concat (concat (map ?f (pieces_at sep t))) = concat (pieces_at sep t)"
      by (rule concat_concat_map) (use "2.IH"(2) False in auto)
    then show ?thesis using False concat_pieces_at by simp
  qed
qed simp

lemma concat_chop: "concat (chop r) = r"
proof (induction r rule: chop.induct)
  case (1 r)
  then show ?case by (subst chop.simps) auto
qed

section \<open>Units that tile a text\<close>

text \<open>Units that lie one after the other from \<open>a\<close> to \<open>b\<close>, each with the text it covers.\<close>

fun tile :: "rtext \<Rightarrow> nat \<Rightarrow> splitUnit list \<Rightarrow> nat \<Rightarrow> bool" where
  "tile t a [] b \<longleftrightarrow> a = b"
| "tile t a (u # us) b \<longleftrightarrow>
     su_start u = a \<and> a \<le> su_end u \<and> su_end u \<le> length t \<and> su_text u = sub_text t a (su_end u)
     \<and> tile t (su_end u) us b"

lemma tile_append: "tile t a us b \<Longrightarrow> tile t b vs c \<Longrightarrow> tile t a (us @ vs) c"
  by (induction us arbitrary: a) auto

lemma tile_appendD: "tile t a (us @ vs) c \<Longrightarrow> \<exists>b. tile t a us b \<and> tile t b vs c"
  by (induction us arbitrary: a) auto

lemma tile_le: "tile t a us b \<Longrightarrow> a \<le> b \<and> (us \<noteq> [] \<longrightarrow> b \<le> length t)"
proof (induction us arbitrary: a)
  case (Cons u us)
  show ?case using Cons.prems Cons.IH[of "su_end u"] by (cases us) auto
qed simp

lemma sub_text_length: "b \<le> length t \<Longrightarrow> length (sub_text t a b) = b - a"
  by (simp add: sub_text_def)

lemma sub_text_append: "a \<le> b \<Longrightarrow> b \<le> c \<Longrightarrow> sub_text t a b @ sub_text t b c = sub_text t a c"
proof -
  assume "a \<le> b" "b \<le> c"
  then have "drop b t = drop (b - a) (drop a t)" "c - a = (b - a) + (c - b)" by simp_all
  then show ?thesis by (simp add: sub_text_def take_add)
qed

lemma tile_text: "tile t a us b \<Longrightarrow> concat (map su_text us) = sub_text t a b"
proof (induction us arbitrary: a)
  case (Cons u us)
  then have "concat (map su_text us) = sub_text t (su_end u) b" "su_end u \<le> b" using tile_le by auto
  then show ?case using Cons.prems sub_text_append[of a "su_end u" b t] by simp
qed (simp add: sub_text_def)

lemma units_from_tile:
  assumes "concat ps = sub_text t a b" "a \<le> b" "b \<le> length t"
  shows "tile t a (units_from a ps) b"
  using assms
proof (induction ps arbitrary: a)
  case Nil
  then have "length (sub_text t a b) = 0" by simp
  then show ?case using Nil.prems by (simp add: sub_text_length)
next
  case (Cons p ps)
  have len: "length p + length (concat ps) = b - a" using Cons.prems sub_text_length[of b t a] by (metis concat.simps(2) length_append)
  have le: "a + length p \<le> b" using len Cons.prems(2) by linarith
  have "sub_text t a b = sub_text t a (a + length p) @ sub_text t (a + length p) b"
    using sub_text_append[of a "a + length p" b t] le by simp
  moreover have "length (sub_text t a (a + length p)) = length p"
    using le Cons.prems(3) by (simp add: sub_text_length)
  ultimately have "p = sub_text t a (a + length p)" "concat ps = sub_text t (a + length p) b"
    using Cons.prems(1) by (simp_all add: append_eq_append_conv)
  then show ?case using Cons.IH[of "a + length p"] le Cons.prems(3) by simp
qed

section \<open>The spans\<close>

fun spans_ok :: "nat \<Rightarrow> nat \<Rightarrow> span list \<Rightarrow> bool" where
  "spans_ok k n [] \<longleftrightarrow> True"
| "spans_ok k n ((a, b) # ss) \<longleftrightarrow> k \<le> a \<and> a < b \<and> b \<le> n \<and> spans_ok b n ss"

lemma greedy_ok: "\<forall>(a, b) \<in> set ms. a < b \<and> b \<le> n \<Longrightarrow> spans_ok k n (greedy k ms)"
  by (induction k ms rule: greedy.induct) auto

lemma set_bubble: "set (bubble x ys) = insert x (set ys)"
  by (induction x ys rule: bubble.induct) auto

lemma set_sort_spans: "set (sort_spans xs) = set xs"
proof -
  have "set (foldl (\<lambda>acc x. bubble x acc) acc xs) = set acc \<union> set xs" for acc
    by (induction xs arbitrary: acc) (auto simp: set_bubble)
  then show ?thesis by (simp add: sort_spans_def)
qed

lemma protectedSpans_ok: "spans_ok 0 (length t) (protectedSpans t)"
  unfolding protectedSpans_def
  by (rule greedy_ok) (use FindAllStringIndex_range in \<open>fastforce simp: set_sort_spans\<close>)

lemma build_units_tile:
  "spans_ok pos (length t) spans \<Longrightarrow> pos \<le> length t \<Longrightarrow>
   tile t pos (build_units t seps n pos pos spans) (length t)"
proof (induction spans arbitrary: pos)
  case Nil
  show ?case
  proof (cases "pos < length t")
    case True
    have "drop pos t = sub_text t pos (length t)" by (simp add: sub_text_def)
    then have "concat (splitBySeparators (drop pos t) seps n) = sub_text t pos (length t)"
      by (simp add: concat_splitBySeparators)
    from units_from_tile[OF this] show ?thesis using True by simp
  qed (use Nil in simp)
next
  case (Cons sp spans)
  obtain a b where sp: "sp = (a, b)" by fastforce
  have ok: "pos \<le> a" "a < b" "b \<le> length t" "spans_ok b (length t) spans" using Cons.prems(1) by (auto simp: sp)
  let ?pre = "if pos < a then splitBySeparators (sub_text t pos a) seps n else []"
  let ?prot = "sub_text t a b"
  let ?parts = "if maxProtectedSize < length ?prot then chop ?prot else [?prot]"
  have pre: "concat ?pre = sub_text t pos a" using ok(1) by (simp add: concat_splitBySeparators) (simp add: sub_text_def)
  have "sum_list (map length ?pre) = length (concat ?pre)" by (simp add: length_concat)
  then have len: "sum_list (map length ?pre) = a - pos" unfolding pre using ok by (simp add: sub_text_length)
  have r1: "pos + sum_list (map length ?pre) = a" unfolding len using ok(1) by simp
  have pl: "a + length ?prot = b" using ok by (simp add: sub_text_length)
  have parts: "concat ?parts = sub_text t a b" by (simp add: concat_chop)
  have "tile t pos (units_from pos ?pre) a" by (rule units_from_tile[OF pre]) (use ok in auto)
  moreover have "tile t a (units_from a ?parts) b" by (rule units_from_tile[OF parts]) (use ok in auto)
  moreover have "tile t b (build_units t seps n b b spans) (length t)" by (rule Cons.IH[OF ok(4,3)])
  ultimately have "tile t pos (units_from pos ?pre @ units_from a ?parts @ build_units t seps n b b spans) (length t)"
    by (blast intro: tile_append)
  then show ?case unfolding sp build_units.simps Let_def r1 pl .
qed

lemma buildUnits_tile: "tile t 0 (buildUnitsWithProtection t (protectedSpans t) seps n) (length t)"
  unfolding buildUnitsWithProtection_def by (rule build_units_tile[OF protectedSpans_ok]) simp

end
