(* ===== verification/TableHeaders.thy ===== *)
theory TableHeaders
  imports Protected
begin

text \<open>
  Keeping a table's header alive across a chunk boundary (\<open>internal/chunker/header_tracker.go\<close>).
  There is one hook, of priority 15, so each of the tracker's maps by priority is here its
  value at that key.
\<close>

record headerTracker =
  activeHeader :: "rtext option"
  endedHeader :: bool
  pendingExtend :: bool
  pendingTableBreak :: bool
  headerEndedThisUnit :: bool

definition newHeaderTracker :: headerTracker where
  "newHeaderTracker =
     \<lparr>activeHeader = None, endedHeader = False, pendingExtend = False, pendingTableBreak = False,
      headerEndedThisUnit = False\<rparr>"

section \<open>Rows and columns\<close>

definition pipe_or_blank :: "nat \<Rightarrow> bool" where
  "pipe_or_blank r \<longleftrightarrow> r = 124 \<or> r = 32 \<or> r = 9"

definition isEmptyTableHeaderRow :: "rtext \<Rightarrow> bool" where
  "isEmptyTableHeaderRow header \<longleftrightarrow>
     nl \<in> set header \<and> list_all pipe_or_blank (TrimSpace (takeWhile (\<lambda>c. c \<noteq> nl) header))"

definition has_rule :: "rtext \<Rightarrow> bool" where
  "has_rule line = contains line (lit ''---'')"

definition extractSeparatorLine :: "rtext \<Rightarrow> rtext" where
  "extractSeparatorLine header =
     (case filter has_rule (split_at nl header) of [] \<Rightarrow> [] | line # _ \<Rightarrow> line @ [nl])"

definition splitEndsWithParagraphBreak :: "rtext \<Rightarrow> bool" where
  "splitEndsWithParagraphBreak split =
     (let trimmed = rtrim (\<lambda>c. c = 32 \<or> c = 9 \<or> c = 13) split
      in suffixed trimmed [nl, nl] \<or> suffixed trimmed [13, nl, 13, nl])"

definition tableRowColumnCount :: "rtext \<Rightarrow> nat" where
  "tableRowColumnCount line0 =
     (let line = TrimSpace line0
      in if \<not> prefixed line [124] then 0
         else
           let parts0 = split_at 124 line;
               parts1 = (if parts0 \<noteq> [] \<and> TrimSpace (hd parts0) = [] then tl parts0 else parts0);
               parts2 = (if parts1 \<noteq> [] \<and> TrimSpace (List.last parts1) = [] then butlast parts1 else parts1)
           in length parts2)"

definition firstTableRowColumnCount :: "rtext \<Rightarrow> nat" where
  "firstTableRowColumnCount t =
     (case filter (\<lambda>line. line \<noteq> [] \<and> MatchString tableRowPattern line) (map TrimSpace (split_at nl t)) of
        [] \<Rightarrow> 0 | line # _ \<Rightarrow> tableRowColumnCount line)"

text \<open>The lines of a header that are neither blank nor its rule.\<close>

definition header_lines :: "rtext \<Rightarrow> rtext list" where
  "header_lines header = filter (\<lambda>line. line \<noteq> [] \<and> \<not> has_rule line) (map TrimSpace (split_at nl header))"

definition headerTableColumnCount :: "rtext \<Rightarrow> nat" where
  "headerTableColumnCount header =
     (case filter (\<lambda>n. 0 < n) (map tableRowColumnCount (header_lines header)) of [] \<Rightarrow> 0 | n # _ \<Rightarrow> n)"

definition headerColumnMismatch :: "rtext \<Rightarrow> rtext \<Rightarrow> bool" where
  "headerColumnMismatch headers nextUnit =
     (let headerCols = headerTableColumnCount headers; rowCols = firstTableRowColumnCount nextUnit
      in 0 < headerCols \<and> 0 < rowCols \<and> headerCols \<noteq> rowCols)"

definition headerColumnRow :: "rtext \<Rightarrow> rtext" where
  "headerColumnRow header =
     (case filter (\<lambda>line. \<not> list_all pipe_or_blank line) (header_lines header) of [] \<Rightarrow> [] | line # _ \<Rightarrow> line)"

definition headerAlreadyPresent :: "rtext \<Rightarrow> rtext \<Rightarrow> rtext \<Rightarrow> bool" where
  "headerAlreadyPresent headers overlapText unitText =
     (if contains overlapText headers \<or> contains unitText headers then True
      else
        let colRow = headerColumnRow headers
        in colRow \<noteq> [] \<and> (contains overlapText colRow \<or> contains unitText colRow))"

section \<open>The tracker\<close>

definition clearTableHeader :: "headerTracker \<Rightarrow> headerTracker" where
  "clearTableHeader ht = ht\<lparr>endedHeader := True, activeHeader := None, pendingExtend := False\<rparr>"

definition endTableHeaderOnColumnMismatch :: "rtext \<Rightarrow> headerTracker \<Rightarrow> headerTracker" where
  "endTableHeaderOnColumnMismatch split ht =
     (case activeHeader ht of
        None \<Rightarrow> ht
      | Some header \<Rightarrow>
          if headerColumnMismatch header split then (clearTableHeader ht)\<lparr>headerEndedThisUnit := True\<rparr> else ht)"

definition resolve_break :: "rtext \<Rightarrow> headerTracker \<Rightarrow> headerTracker" where
  "resolve_break split ht0 =
     (let ht = ht0\<lparr>headerEndedThisUnit := False\<rparr>
      in if pendingTableBreak ht then
           let ht1 = ht\<lparr>pendingTableBreak := False\<rparr>
           in if activeHeader ht1 \<noteq> None then
                (if 0 < firstTableRowColumnCount split
                 then (clearTableHeader ht1)\<lparr>headerEndedThisUnit := True\<rparr> else clearTableHeader ht1)
              else ht1
         else ht)"

definition end_header :: "rtext \<Rightarrow> headerTracker \<Rightarrow> headerTracker" where
  "end_header split ht =
     (if activeHeader ht \<noteq> None \<and> MatchString header_end split
      then ht\<lparr>endedHeader := True, activeHeader := None, pendingExtend := False\<rparr> else ht)"

definition mark_break :: "rtext \<Rightarrow> headerTracker \<Rightarrow> headerTracker" where
  "mark_break split ht =
     (if activeHeader ht \<noteq> None \<and> \<not> pendingExtend ht then
        (if splitEndsWithParagraphBreak split then ht\<lparr>pendingTableBreak := True\<rparr>
         else endTableHeaderOnColumnMismatch split ht)
      else ht)"

definition extend_header :: "rtext \<Rightarrow> headerTracker \<Rightarrow> headerTracker" where
  "extend_header split ht =
     (if pendingExtend ht then
        (case activeHeader ht of
           Some h \<Rightarrow> if MatchString tableRowPattern split
                     then ht\<lparr>activeHeader := Some (split @ extractSeparatorLine h), pendingExtend := False\<rparr>
                     else ht\<lparr>pendingExtend := False\<rparr>
         | None \<Rightarrow> ht\<lparr>pendingExtend := False\<rparr>)
      else ht)"

definition start_header :: "rtext \<Rightarrow> headerTracker \<Rightarrow> headerTracker" where
  "start_header split ht =
     (if activeHeader ht \<noteq> None \<or> endedHeader ht then ht
      else
        let loc = FindString header_start split
        in if loc = [] then ht
           else ht\<lparr>activeHeader := Some loc, pendingExtend := (isEmptyTableHeaderRow loc \<or> pendingExtend ht)\<rparr>)"

definition track :: "rtext \<Rightarrow> headerTracker \<Rightarrow> headerTracker" where
  "track split ht0 =
     (let ht = start_header split (extend_header split (mark_break split (end_header split (resolve_break split ht0))))
      in if activeHeader ht = None then ht\<lparr>endedHeader := False\<rparr> else ht)"

definition getHeaders :: "headerTracker \<Rightarrow> rtext" where
  "getHeaders ht = (case activeHeader ht of None \<Rightarrow> [] | Some h \<Rightarrow> h)"

end
