(* ===== verification/Splitter.thy ===== *)
theory Splitter
  imports TableHeaders Prelude Complex_Main
begin

text \<open>
  The splitter (\<open>internal/chunker/splitter.go\<close>, \<open>chunker.go\<close>, \<open>tokens.go\<close>): units merged
  into chunks with overlap and re-injected table headers.  Offsets are code points; sizes are
  Go integers.
\<close>

section \<open>Chunks\<close>

record splitChunk =
  Content :: rtext
  ContextHeader :: rtext
  Seq :: int
  Start :: nat
  End :: nat
  PageStartOf :: "int option"
  PageEndOf :: "int option"
  SyntheticPrefixRunes :: nat

definition plain_chunk :: "rtext \<Rightarrow> int \<Rightarrow> nat \<Rightarrow> nat \<Rightarrow> splitChunk" where
  "plain_chunk t seq a b =
     \<lparr>Content = t, ContextHeader = [], Seq = seq, Start = a, End = b, PageStartOf = None, PageEndOf = None,
      SyntheticPrefixRunes = 0\<rparr>"

definition EmbeddingContent :: "splitChunk \<Rightarrow> rtext" where
  "EmbeddingContent c =
     (let body = TrimSpace (Content c)
      in if ContextHeader c = [] then body else ContextHeader c @ [nl, nl] @ body)"

section \<open>Token estimates\<close>

definition charsPerToken :: "string \<Rightarrow> rat" where
  "charsPerToken lang =
     (if lang = LangEnglish then 4 else if lang = LangGerman then 9 / 2
      else if lang = LangChinese then 17 / 10 else 3)"

definition ApproxTokenCountFromRuneLen :: "int \<Rightarrow> string \<Rightarrow> int" where
  "ApproxTokenCountFromRuneLen n lang =
     (if n \<le> 0 then 0
      else let approx = of_int n / charsPerToken lang in if approx < 1 then 1 else \<lfloor>approx + 1 / 2\<rfloor>)"

definition ApproxTokenCount :: "rtext \<Rightarrow> string \<Rightarrow> int" where
  "ApproxTokenCount t lang = (if t = [] then 0 else ApproxTokenCountFromRuneLen (int (length t)) lang)"

definition CharsForTokenLimit :: "int \<Rightarrow> string \<Rightarrow> int" where
  "CharsForTokenLimit tokens lang =
     (if tokens \<le> 0 then 0 else \<lfloor>of_int tokens * charsPerToken lang * (9 / 10)\<rfloor>)"

section \<open>Configuration\<close>

definition DefaultChunkSize :: int where "DefaultChunkSize = 512"
definition DefaultChunkOverlap :: int where "DefaultChunkOverlap = 80"
definition DefaultParentSize :: int where "DefaultParentSize = 2048"
definition DefaultChildSize :: int where "DefaultChildSize = 384"

definition DefaultSeparators :: "rtext list" where
  "DefaultSeparators = [[nl, nl], [nl], [12290]]"

record SplitterConfig =
  cf_ChunkSize :: int
  cf_ChunkOverlap :: int
  cf_Separators :: "rtext list"
  cf_Strategy :: string
  cf_TokenLimit :: int
  cf_Languages :: "string list"

definition NormalizeConfig :: "SplitterConfig \<Rightarrow> SplitterConfig" where
  "NormalizeConfig cfg =
     cfg\<lparr>cf_ChunkSize := (if cf_ChunkSize cfg \<le> 0 then DefaultChunkSize else cf_ChunkSize cfg),
         cf_ChunkOverlap := (if cf_ChunkOverlap cfg \<le> 0 then DefaultChunkOverlap else cf_ChunkOverlap cfg),
         cf_Separators := (if cf_Separators cfg = [] then DefaultSeparators else cf_Separators cfg)\<rparr>"

definition DeriveParentChildConfigs :: "SplitterConfig \<Rightarrow> int \<Rightarrow> int \<Rightarrow> SplitterConfig \<times> SplitterConfig" where
  "DeriveParentChildConfigs base parentSize0 childSize0 =
     (let parentSize = (if parentSize0 \<le> 0 then DefaultParentSize else parentSize0);
          childSize = (if childSize0 \<le> 0 then DefaultChildSize else childSize0)
      in (\<lparr>cf_ChunkSize = parentSize, cf_ChunkOverlap = cf_ChunkOverlap base, cf_Separators = cf_Separators base,
           cf_Strategy = cf_Strategy base, cf_TokenLimit = 0, cf_Languages = cf_Languages base\<rparr>,
          \<lparr>cf_ChunkSize = childSize, cf_ChunkOverlap = go_div childSize 5, cf_Separators = cf_Separators base,
           cf_Strategy = cf_Strategy base, cf_TokenLimit = cf_TokenLimit base, cf_Languages = cf_Languages base\<rparr>))"

definition token_budget :: "SplitterConfig \<Rightarrow> int" where
  "token_budget cfg =
     CharsForTokenLimit (cf_TokenLimit cfg) (case cf_Languages cfg of [] \<Rightarrow> LangMixed | l # _ \<Rightarrow> l)"

definition ensureDefaults :: "SplitterConfig \<Rightarrow> SplitterConfig" where
  "ensureDefaults cfg0 =
     (let cfg1 = NormalizeConfig cfg0;
          cfg2 = (if 0 < cf_TokenLimit cfg1 \<and> 0 < token_budget cfg1 \<and> token_budget cfg1 < cf_ChunkSize cfg1
                  then cfg1\<lparr>cf_ChunkSize := token_budget cfg1\<rparr> else cfg1)
      in if 0 < cf_ChunkSize cfg2 \<and> go_div (cf_ChunkSize cfg2) 2 < cf_ChunkOverlap cfg2
         then cfg2\<lparr>cf_ChunkOverlap := go_div (cf_ChunkSize cfg2) 2\<rparr> else cfg2)"

text \<open>\<open>\r\n\<close> first, then the \<open>\r\<close> that remain.\<close>

fun NormalizeLineEndings :: "rtext \<Rightarrow> rtext" where
  "NormalizeLineEndings [] = []"
| "NormalizeLineEndings [c] = [if c = 13 then nl else c]"
| "NormalizeLineEndings (c # d # t) =
     (if c = 13 \<and> d = nl then nl # NormalizeLineEndings t
      else (if c = 13 then nl else c) # NormalizeLineEndings (d # t))"

section \<open>Assembling chunks\<close>

definition unitsText :: "splitUnit list \<Rightarrow> rtext" where
  "unitsText us = concat (map su_text us)"

definition hasContent :: "splitUnit list \<Rightarrow> bool" where
  "hasContent us \<longleftrightarrow> (\<exists>u \<in> set us. TrimSpace (su_text u) \<noteq> [])"

definition buildChunk :: "splitUnit list \<Rightarrow> int \<Rightarrow> splitChunk" where
  "buildChunk us seq =
     (let real = filter (\<lambda>u. \<not> isSynthetic u) us
      in \<lparr>Content = unitsText us, ContextHeader = [], Seq = seq,
          Start = (if real = [] then 0 else su_start (hd real)),
          End = (if real = [] then 0 else su_end (List.last real)),
          PageStartOf = None, PageEndOf = None,
          SyntheticPrefixRunes = sum_list (map (\<lambda>u. length (su_text u)) (filter isSynthetic us))\<rparr>)"

record packer =
  pk_chunks :: "splitChunk list"
  pk_current :: "splitUnit list"
  pk_curLen :: int
  pk_tracker :: headerTracker

definition flush :: "packer \<Rightarrow> packer" where
  "flush p =
     p\<lparr>pk_chunks := (if pk_current p \<noteq> [] \<and> hasContent (pk_current p)
                     then pk_chunks p @ [buildChunk (pk_current p) (int (length (pk_chunks p)))] else pk_chunks p),
       pk_current := [], pk_curLen := 0\<rparr>"

text \<open>The parts of an oversized unit.\<close>

fun chop_chunks :: "nat \<Rightarrow> int \<Rightarrow> rtext list \<Rightarrow> splitChunk list" where
  "chop_chunks pos seq [] = []"
| "chop_chunks pos seq (r # rs) =
     plain_chunk r seq pos (pos + length r) # chop_chunks (pos + length r) (seq + 1) rs"

definition chopOversize :: "splitUnit \<Rightarrow> int \<Rightarrow> splitChunk list" where
  "chopOversize u startSeq = chop_chunks (su_start u) startSeq (chop (su_text u))"

section \<open>Overlap\<close>

definition semanticOverlapLookbehind :: int where
  "semanticOverlapLookbehind = 4"

text \<open>The tail of the units, at most \<open>remaining\<close> runes, the last unit first.\<close>

fun overlap_window :: "splitUnit list \<Rightarrow> int \<Rightarrow> splitUnit list" where
  "overlap_window [] remaining = []"
| "overlap_window (u # us) remaining =
     (if remaining \<le> 0 then []
      else if su_text u = [] then overlap_window us remaining
      else if isSynthetic u then []
      else if int (length (su_text u)) \<le> remaining then u # overlap_window us (remaining - int (length (su_text u)))
      else let start = length (su_text u) - nat remaining
           in [\<lparr>su_text = drop start (su_text u), su_start = su_start u + start, su_end = su_end u\<rparr>])"

definition semanticOverlapWindow :: "splitUnit list \<Rightarrow> int \<Rightarrow> splitUnit list" where
  "semanticOverlapWindow current maxLen =
     (if maxLen \<le> 0 \<or> current = [] then [] else rev (overlap_window (rev current) maxLen))"

text \<open>Paragraph breaks; the runes of one are not looked at again.\<close>

function paragraph_breaks :: "nat \<Rightarrow> rtext \<Rightarrow> (nat \<times> nat) list" where
  "paragraph_breaks i r =
     (if r = [] then []
      else if prefixed r [13, nl, 13, nl] then (i, i + 4) # paragraph_breaks (i + 4) (drop 4 r)
      else if prefixed r [nl, nl] then (i, i + 2) # paragraph_breaks (i + 2) (drop 2 r)
      else paragraph_breaks (Suc i) (tl r))"
  by pat_completeness auto

termination by (relation "measure (\<lambda>(i, r). length r)") (auto simp: neq_Nil_conv)

declare paragraph_breaks.simps [simp del]

function line_breaks :: "(nat \<Rightarrow> bool) \<Rightarrow> nat \<Rightarrow> rtext \<Rightarrow> (nat \<times> nat) list" where
  "line_breaks marked i r =
     (if r = [] then []
      else if marked i then line_breaks marked (Suc i) (tl r)
      else if prefixed r [13, nl] \<and> \<not> marked (Suc i) then (i, i + 2) # line_breaks marked (i + 2) (drop 2 r)
      else if hd r = nl then (i, i + 1) # line_breaks marked (Suc i) (tl r)
      else line_breaks marked (Suc i) (tl r))"
  by pat_completeness auto

termination by (relation "measure (\<lambda>(m, i, r). length r)") (auto simp: neq_Nil_conv)

declare line_breaks.simps [simp del]

definition sentence_ends :: "rtext \<Rightarrow> (nat \<times> nat) list" where
  "sentence_ends r =
     concat (map (\<lambda>i.
       if r ! i = 12290 \<or> r ! i = 65311 \<or> r ! i = 65281 then [(i, i + 1)]
       else if (r ! i = 46 \<or> r ! i = 63 \<or> r ! i = 33) \<and> i + 1 < length r \<and> r ! (i + 1) = 32 then [(i, i + 2)]
       else []) [0..<length r])"

record semanticOverlapBoundary =
  ob_start :: nat
  ob_end :: nat
  ob_priority :: nat

definition overlap_candidates :: "rtext \<Rightarrow> semanticOverlapBoundary list" where
  "overlap_candidates r =
     (let paras = paragraph_breaks 0 r; marked = (\<lambda>i. \<exists>(a, b) \<in> set paras. a \<le> i \<and> i < b);
          tag = (\<lambda>p (a, b). \<lparr>ob_start = a, ob_end = b, ob_priority = p\<rparr>)
      in map (tag 1) paras @ map (tag 2) (line_breaks marked 0 r) @ map (tag 3) (sentence_ends r))"

definition better :: "semanticOverlapBoundary \<Rightarrow> semanticOverlapBoundary \<Rightarrow> bool" where
  "better c best \<longleftrightarrow>
     ob_priority c < ob_priority best \<or> ob_priority c = ob_priority best \<and> ob_start c < ob_start best"

definition findSemanticOverlapBoundaryEndingAtOrAfter :: "rtext \<Rightarrow> int \<Rightarrow> nat option" where
  "findSemanticOverlapBoundaryEndingAtOrAfter r minEnd0 =
     (let minEnd = max 0 minEnd0
      in if r = [] \<or> int (length r) < minEnd then None
         else
           let protected = protectedSpansRune r (protectedSpans r);
               ok = (\<lambda>c. ob_start c < ob_end c \<and> minEnd \<le> int (ob_end c) \<and> ob_end c < length r
                       \<and> \<not> insideSpan protected (ob_start c) \<and> TrimSpace (drop (ob_end c) r) \<noteq> [])
           in map_option ob_end (foldl (\<lambda>best c. case best of None \<Rightarrow> Some c
                                            | Some b \<Rightarrow> if better c b then Some c else Some b)
                                   None (filter ok (overlap_candidates r))))"

fun trim_units :: "splitUnit list \<Rightarrow> nat \<Rightarrow> splitUnit list" where
  "trim_units [] remaining = []"
| "trim_units (u # us) remaining =
     (if length (su_text u) \<le> remaining then trim_units us (remaining - length (su_text u))
      else if 0 < remaining
      then \<lparr>su_text = drop remaining (su_text u), su_start = su_start u + remaining, su_end = su_end u\<rparr> # trim_units us 0
      else u # trim_units us 0)"

definition trimUnitsPrefix :: "splitUnit list \<Rightarrow> nat \<Rightarrow> splitUnit list" where
  "trimUnitsPrefix us prefixLen = (if prefixLen = 0 then us else trim_units us prefixLen)"

definition units_len :: "splitUnit list \<Rightarrow> int" where
  "units_len us = int (sum_list (map (\<lambda>u. length (su_text u)) us))"

definition computeOverlap :: "splitUnit list \<Rightarrow> int \<Rightarrow> int \<Rightarrow> int \<Rightarrow> splitUnit list \<times> int" where
  "computeOverlap current chunkOverlap chunkSize nextLen =
     (if chunkOverlap \<le> 0 then ([], 0)
      else
        let maxOverlap = min chunkOverlap (chunkSize - nextLen)
        in if maxOverlap \<le> 0 then ([], 0)
           else
             let window = semanticOverlapWindow current (maxOverlap + semanticOverlapLookbehind)
             in if window = [] then ([], 0)
                else
                  let windowText = unitsText window;
                      originalWindowStart = max 0 (int (length windowText) - maxOverlap)
                  in case findSemanticOverlapBoundaryEndingAtOrAfter windowText originalWindowStart of
                       None \<Rightarrow> ([], 0)
                     | Some boundaryEnd \<Rightarrow>
                         let overlap = trimUnitsPrefix window boundaryEnd; n = units_len overlap
                         in if n \<le> 0 \<or> maxOverlap < n \<or> TrimSpace (unitsText overlap) = [] then ([], 0)
                            else (overlap, n))"

section \<open>Merging units\<close>

fun shrink_overlap :: "int \<Rightarrow> splitUnit list \<Rightarrow> int \<Rightarrow> splitUnit list \<times> int" where
  "shrink_overlap budget [] curLen = ([], curLen)"
| "shrink_overlap budget (u # us) curLen =
     (if budget < curLen then shrink_overlap budget us (curLen - int (length (su_text u))) else (u # us, curLen))"

text \<open>A header wider than the whole budget is no context.\<close>

definition usable_header :: "int \<Rightarrow> headerTracker \<Rightarrow> rtext" where
  "usable_header chunkSize ht =
     (let headers = getHeaders ht in if chunkSize < int (length headers) then [] else headers)"

definition inject_header :: "rtext \<Rightarrow> splitUnit \<Rightarrow> splitUnit list \<Rightarrow> int \<Rightarrow> splitUnit list \<times> int" where
  "inject_header headers u current curLen =
     (if \<not> headerAlreadyPresent headers (unitsText current) (su_text u) \<and> \<not> headerColumnMismatch headers (su_text u)
      then let startPos = (if current = [] then su_start u else su_start (hd current))
           in (\<lparr>su_text = headers, su_start = startPos, su_end = startPos\<rparr> # current, curLen + int (length headers))
      else (current, curLen))"

text \<open>After a full chunk: the overlap it leaves, made to fit, and the header of the open table.\<close>

definition carry_over :: "int \<Rightarrow> int \<Rightarrow> rtext \<Rightarrow> splitUnit \<Rightarrow> splitUnit list \<Rightarrow> splitUnit list \<times> int" where
  "carry_over chunkSize chunkOverlap headers u current =
     (let uLen = int (length (su_text u)); headersLen = int (length headers);
          (over, overLen) = computeOverlap current chunkOverlap chunkSize uLen
      in if headers \<noteq> [] \<and> headersLen + uLen \<le> chunkSize then
           let (cur, curLen) = shrink_overlap (chunkSize - uLen - headersLen) over overLen
           in inject_header headers u cur curLen
         else (over, overLen))"

definition merge_unit :: "int \<Rightarrow> int \<Rightarrow> splitUnit \<Rightarrow> packer \<Rightarrow> packer" where
  "merge_unit chunkSize chunkOverlap u p0 =
     (let uLen = int (length (su_text u))
      in if int absoluteMaxSize < uLen then
           let p1 = flush p0
           in p1\<lparr>pk_tracker := track (su_text u) (pk_tracker p1),
                 pk_chunks := pk_chunks p1 @ chopOversize u (int (length (pk_chunks p1)))\<rparr>
         else
           let p1 = p0\<lparr>pk_tracker := track (su_text u) (pk_tracker p0)\<rparr>;
               p2 = (if headerEndedThisUnit (pk_tracker p1) then flush p1 else p1);
               headers = usable_header chunkSize (pk_tracker p2);
               p3 = (if chunkSize < pk_curLen p2 + uLen + int (length headers) \<and> pk_current p2 \<noteq> [] then
                       let (cur, curLen) = carry_over chunkSize chunkOverlap headers u (pk_current p2)
                       in (flush p2)\<lparr>pk_current := cur, pk_curLen := curLen\<rparr>
                     else p2);
               p4 = (if int absoluteMaxSize < pk_curLen p3 + uLen then flush p3 else p3)
           in p4\<lparr>pk_current := pk_current p4 @ [u], pk_curLen := pk_curLen p4 + uLen\<rparr>)"

definition empty_packer :: packer where
  "empty_packer = \<lparr>pk_chunks = [], pk_current = [], pk_curLen = 0, pk_tracker = newHeaderTracker\<rparr>"

definition mergeUnits :: "splitUnit list \<Rightarrow> int \<Rightarrow> int \<Rightarrow> splitChunk list" where
  "mergeUnits us chunkSize chunkOverlap =
     (if us = [] then [] else pk_chunks (flush (fold (merge_unit chunkSize chunkOverlap) us empty_packer)))"

definition SplitText :: "rtext \<Rightarrow> SplitterConfig \<Rightarrow> splitChunk list" where
  "SplitText t cfg0 =
     (if t = [] then []
      else
        let cfg = ensureDefaults cfg0;
            us = buildUnitsWithProtection t (protectedSpans t) (cf_Separators cfg) (cf_ChunkSize cfg)
        in mergeUnits us (cf_ChunkSize cfg) (cf_ChunkOverlap cfg))"

end
