(* ===== verification/Profiler.thy ===== *)
theory Profiler
  imports Splitter
begin

text \<open>
  The document profile that chooses the splitting tiers (\<open>internal/chunker/profiler.go\<close>) with
  the language guess of \<open>tokens.go\<close>.  Ratios are exact: the code compares quotients of small
  integers with decimal constants, where rounding cannot change the outcome.
\<close>

section \<open>Language\<close>

definition between :: "(nat \<times> nat) list \<Rightarrow> nat \<Rightarrow> bool" where
  "between ranges r \<longleftrightarrow> (\<exists>(a, b) \<in> set ranges. a \<le> r \<and> r \<le> b)"

text \<open>Go's \<open>unicode\<close> tables (Unicode 15).\<close>

definition unicode_Han :: "(nat \<times> nat) list" where
  "unicode_Han =
     [(0x2e80, 0x2e99), (0x2e9b, 0x2ef3), (0x2f00, 0x2fd5), (0x3005, 0x3005), (0x3007, 0x3007), (0x3021, 0x3029),
      (0x3038, 0x303b), (0x3400, 0x4dbf), (0x4e00, 0x9fff), (0xf900, 0xfa6d), (0xfa70, 0xfad9), (0x16fe2, 0x16fe3),
      (0x16ff0, 0x16ff1), (0x20000, 0x2a6df), (0x2a700, 0x2b739), (0x2b740, 0x2b81d), (0x2b820, 0x2cea1),
      (0x2ceb0, 0x2ebe0), (0x2f800, 0x2fa1d), (0x30000, 0x3134a), (0x31350, 0x323af)]"

definition unicode_Hangul :: "(nat \<times> nat) list" where
  "unicode_Hangul =
     [(0x1100, 0x11ff), (0x302e, 0x302f), (0x3131, 0x318e), (0x3200, 0x321e), (0x3260, 0x327e), (0xa960, 0xa97c),
      (0xac00, 0xd7a3), (0xd7b0, 0xd7c6), (0xd7cb, 0xd7fb), (0xffa0, 0xffbe), (0xffc2, 0xffc7), (0xffca, 0xffcf),
      (0xffd2, 0xffd7), (0xffda, 0xffdc)]"

definition unicode_Hiragana :: "(nat \<times> nat) list" where
  "unicode_Hiragana =
     [(0x3041, 0x3096), (0x309d, 0x309f), (0x1b001, 0x1b11f), (0x1b132, 0x1b132), (0x1b150, 0x1b152), (0x1f200, 0x1f200)]"

definition unicode_Katakana :: "(nat \<times> nat) list" where
  "unicode_Katakana =
     [(0x30a1, 0x30fa), (0x30fd, 0x30ff), (0x31f0, 0x31ff), (0x32d0, 0x32fe), (0x3300, 0x3357), (0xff66, 0xff6f),
      (0xff71, 0xff9d), (0x1aff0, 0x1aff3), (0x1aff5, 0x1affb), (0x1affd, 0x1affe), (0x1b000, 0x1b000),
      (0x1b120, 0x1b122), (0x1b155, 0x1b155), (0x1b164, 0x1b167)]"

definition cjk_rune :: "nat \<Rightarrow> bool" where
  "cjk_rune r \<longleftrightarrow> between unicode_Han r \<or> between unicode_Hangul r \<or> between unicode_Hiragana r \<or> between unicode_Katakana r"

definition isGermanUmlaut :: "nat \<Rightarrow> bool" where
  "isGermanUmlaut r \<longleftrightarrow> r \<in> {228, 246, 252, 196, 214, 220, 223}"

definition latin_letter :: "nat \<Rightarrow> bool" where
  "latin_letter r \<longleftrightarrow> 97 \<le> r \<and> r \<le> 122 \<or> 65 \<le> r \<and> r \<le> 90"

text \<open>
  The runes that lie whole within the first \<open>n\<close> bytes.  A rune cut in two would be read as
  replacement characters, which count for no language and are in no word.
\<close>

fun take_bytes :: "nat \<Rightarrow> rtext \<Rightarrow> rtext" where
  "take_bytes n [] = []"
| "take_bytes n (r # t) =
     (if length (encode_rune r) \<le> n then r # take_bytes (n - length (encode_rune r)) t else [])"

text \<open>\<open>strings.ToLower\<close> as far as it yields ASCII letters.\<close>

definition lower_rune :: "nat \<Rightarrow> nat" where
  "lower_rune r = (if 65 \<le> r \<and> r \<le> 90 then r + 32 else if r = 304 then 105 else if r = 8490 then 107 else r)"

definition german_words :: "rtext list" where
  "german_words = map lit ['' der '', '' die '', '' das '', '' und '', '' ist '', '' nicht '', '' mit '', '' auf '']"

definition hasGermanWords :: "rtext \<Rightarrow> bool" where
  "hasGermanWords s = (let lower = map lower_rune (take_bytes 512 s) in \<exists>w \<in> set german_words. contains lower w)"

definition DetectLanguage :: "rtext \<Rightarrow> string" where
  "DetectLanguage s =
     (if s = [] then LangMixed
      else
        let cjk = length (filter cjk_rune s);
            rest = filter (\<lambda>r. \<not> cjk_rune r) s;
            umlaut = length (filter isGermanUmlaut rest);
            latin = umlaut + length (filter (\<lambda>r. \<not> isGermanUmlaut r \<and> latin_letter r) rest);
            total = cjk + latin
        in if total = 0 then LangMixed
           else if 15 * total \<le> 100 * cjk \<and> 15 * total \<le> 100 * latin then LangMixed
           else if 3 * total < 10 * cjk then LangChinese
           else if 0 < umlaut \<or> hasGermanWords s then LangGerman
           else LangEnglish)"

section \<open>Profile\<close>

record DocProfile =
  dp_TotalChars :: nat
  dp_TotalLines :: nat
  dp_AvgLineLen :: rat
  dp_MdHeadingCounts :: "nat \<Rightarrow> nat"
  dp_MdHeadingTotal :: nat
  dp_NumberedSectionCount :: nat
  dp_AllCapsShortLineCount :: nat
  dp_BlankParagraphBreaks :: nat
  dp_FormFeedCount :: nat
  dp_VisualSepCount :: nat
  dp_GermanChapterCount :: nat
  dp_EnglishChapterCount :: nat
  dp_ChineseChapterCount :: nat
  dp_RepeatedFooterCount :: nat
  dp_HasTables :: bool
  dp_HasCode :: bool
  dp_CodeRatio :: rat
  dp_DetectedLangs :: "string list"

definition empty_profile :: DocProfile where
  "empty_profile =
     \<lparr>dp_TotalChars = 0, dp_TotalLines = 0, dp_AvgLineLen = 0, dp_MdHeadingCounts = (\<lambda>_. 0), dp_MdHeadingTotal = 0,
      dp_NumberedSectionCount = 0, dp_AllCapsShortLineCount = 0, dp_BlankParagraphBreaks = 0, dp_FormFeedCount = 0,
      dp_VisualSepCount = 0, dp_GermanChapterCount = 0, dp_EnglishChapterCount = 0, dp_ChineseChapterCount = 0,
      dp_RepeatedFooterCount = 0, dp_HasTables = False, dp_HasCode = False, dp_CodeRatio = 0, dp_DetectedLangs = []\<rparr>"

text \<open>The share of heading lines is above 0.005.\<close>

definition HeadingDensity :: "DocProfile \<Rightarrow> rat" where
  "HeadingDensity p = (if dp_TotalLines p = 0 then 0 else of_nat (dp_MdHeadingTotal p) / of_nat (dp_TotalLines p))"

definition DominantHeadingLevel :: "DocProfile \<Rightarrow> nat" where
  "DominantHeadingLevel p =
     (if dp_MdHeadingTotal p = 0 then 0
      else case filter (\<lambda>l. 3 \<le> dp_MdHeadingCounts p l) [1, 2, 3, 4, 5, 6] of
             l # _ \<Rightarrow> l
           | [] \<Rightarrow> (case filter (\<lambda>l. 0 < dp_MdHeadingCounts p l) [6, 5, 4, 3, 2, 1] of l # _ \<Rightarrow> l | [] \<Rightarrow> 0))"

definition HeuristicMarkerTotal :: "DocProfile \<Rightarrow> nat" where
  "HeuristicMarkerTotal p =
     dp_NumberedSectionCount p + dp_GermanChapterCount p + dp_EnglishChapterCount p + dp_ChineseChapterCount p
     + dp_AllCapsShortLineCount p + dp_VisualSepCount p + dp_FormFeedCount p"

text \<open>The level of an ATX heading line, 0 for any other line.\<close>

definition heading_level :: "rtext \<Rightarrow> nat" where
  "heading_level line =
     (case FindStringSubmatch MarkdownHeadingPattern line of None \<Rightarrow> 0 | Some (hashes, _) \<Rightarrow> length hashes)"

definition matchHeading :: "rtext \<Rightarrow> (nat \<Rightarrow> nat) \<Rightarrow> bool \<times> (nat \<Rightarrow> nat)" where
  "matchHeading line counts =
     (let level = heading_level line
      in if level < 1 \<or> 6 < level then (False, counts) else (True, counts(level := counts level + 1)))"

definition fence_mark :: rtext where
  "fence_mark = [96, 96, 96]"

record profiler =
  pr_profile :: DocProfile
  pr_inFence :: bool
  pr_lengths :: "nat list"
  pr_codeChars :: nat

definition tick :: "bool \<Rightarrow> nat \<Rightarrow> nat" where
  "tick b n = (if b then n + 1 else n)"

definition count_markers :: "rtext \<Rightarrow> DocProfile \<Rightarrow> DocProfile" where
  "count_markers line p =
     p\<lparr>dp_NumberedSectionCount := tick (MatchString NumberedSectionPattern line) (dp_NumberedSectionCount p),
       dp_GermanChapterCount := tick (MatchString GermanChapterPattern line) (dp_GermanChapterCount p),
       dp_EnglishChapterCount := tick (MatchString EnglishChapterPattern line) (dp_EnglishChapterCount p),
       dp_ChineseChapterCount := tick (MatchString ChineseChapterPattern line) (dp_ChineseChapterCount p),
       dp_AllCapsShortLineCount := tick (MatchString AllCapsHeadingPattern line) (dp_AllCapsShortLineCount p),
       dp_VisualSepCount := tick (MatchString VisualSeparatorPattern line) (dp_VisualSepCount p),
       dp_RepeatedFooterCount := tick (MatchString PageFooterPattern line) (dp_RepeatedFooterCount p),
       dp_HasTables := (dp_HasTables p \<or> prefixed (TrimSpace line) [124] \<and> suffixed (TrimSpace line) [124])\<rparr>"

definition profile_line :: "profiler \<Rightarrow> rtext \<Rightarrow> profiler" where
  "profile_line s line =
     (let p = pr_profile s
      in if prefixed (TrimSpace line) fence_mark
         then s\<lparr>pr_inFence := \<not> pr_inFence s, pr_profile := p\<lparr>dp_HasCode := True\<rparr>\<rparr>
         else if pr_inFence s then s\<lparr>pr_codeChars := pr_codeChars s + length line\<rparr>
         else
           let s1 = s\<lparr>pr_lengths := pr_lengths s @ [length line]\<rparr>
           in case matchHeading line (dp_MdHeadingCounts p) of
                (True, counts) \<Rightarrow>
                  s1\<lparr>pr_profile := p\<lparr>dp_MdHeadingCounts := counts, dp_MdHeadingTotal := dp_MdHeadingTotal p + 1\<rparr>\<rparr>
              | (False, _) \<Rightarrow> s1\<lparr>pr_profile := count_markers line p\<rparr>)"

definition ProfileDocument :: "rtext \<Rightarrow> DocProfile" where
  "ProfileDocument t =
     (if t = [] then empty_profile
      else
        let lines = split_at nl t;
            p0 = empty_profile\<lparr>dp_TotalChars := length t, dp_FormFeedCount := count_of t [12], dp_TotalLines := length lines\<rparr>;
            s = foldl profile_line \<lparr>pr_profile = p0, pr_inFence = False, pr_lengths = [], pr_codeChars = 0\<rparr> lines;
            lang = DetectLanguage (take_bytes 4096 t)
        in (pr_profile s)\<lparr>
             dp_AvgLineLen := (if pr_lengths s = [] then 0
                               else of_nat (sum_list (pr_lengths s)) / of_nat (length (pr_lengths s))),
             dp_CodeRatio := of_nat (pr_codeChars s) / of_nat (length t),
             dp_BlankParagraphBreaks := count_of t [nl, nl, nl],
             dp_DetectedLangs := (if lang = LangMixed then [LangEnglish, LangGerman, LangChinese] else [lang])\<rparr>)"

section \<open>Tiers\<close>

datatype StrategyTier = TierHeading | TierHeuristic | TierLegacy

definition SelectStrategy :: "DocProfile option \<Rightarrow> StrategyTier list" where
  "SelectStrategy profile =
     (case profile of
        None \<Rightarrow> [TierLegacy]
      | Some p \<Rightarrow>
          (if 3 \<le> dp_MdHeadingTotal p \<and> 5 / 1000 < HeadingDensity p \<and> 0 < DominantHeadingLevel p then [TierHeading] else [])
          @ (if 5 \<le> HeuristicMarkerTotal p \<or> 0 < dp_FormFeedCount p
                \<or> 0 < dp_GermanChapterCount p + dp_EnglishChapterCount p + dp_ChineseChapterCount p
             then [TierHeuristic] else [])
          @ [TierLegacy])"

end
