(* ===== verification/SplitterInv.thy ===== *)
theory SplitterInv
  imports Splitter
begin

text \<open>
  What the splitter keeps true while it merges units: every chunk is a verbatim slice of the
  text after its synthetic prefix, no visible rune is lost, and a chunk that begins with a
  re-injected header never fits behind the chunk it touches.
\<close>

section \<open>Verbatim chunks\<close>

definition verbatim :: "rtext \<Rightarrow> splitChunk \<Rightarrow> bool" where
  "verbatim t c \<longleftrightarrow>
     Start c \<le> End c \<and> End c \<le> length t \<and> SyntheticPrefixRunes c \<le> length (Content c)
     \<and> drop (SyntheticPrefixRunes c) (Content c) = sub_text t (Start c) (End c)"

definition covered :: "splitChunk list \<Rightarrow> nat \<Rightarrow> bool" where
  "covered cs i \<longleftrightarrow> (\<exists>c \<in> set cs. Start c \<le> i \<and> i < End c)"

text \<open>No rune that is not white space is lost below a position.\<close>

definition keeps_runes :: "rtext \<Rightarrow> splitChunk list \<Rightarrow> nat \<Rightarrow> bool" where
  "keeps_runes t cs n \<longleftrightarrow> (\<forall>i < n. \<not> is_space (t ! i) \<longrightarrow> covered cs i)"

text \<open>A chunk with a synthetic prefix does not join the chunk before it within \<open>L\<close> runes.\<close>

definition apart :: "int \<Rightarrow> splitChunk \<Rightarrow> splitChunk \<Rightarrow> bool" where
  "apart L c d \<longleftrightarrow> SyntheticPrefixRunes d > 0 \<longrightarrow>
     End c \<noteq> Start d \<or> L < int (length (Content c)) + int (length (Content d))"

definition first_apart :: "splitChunk \<Rightarrow> bool" where
  "first_apart d \<longleftrightarrow> (SyntheticPrefixRunes d > 0 \<longrightarrow> 0 < Start d)"

fun apart_chain :: "int \<Rightarrow> splitChunk list \<Rightarrow> bool" where
  "apart_chain L (c # d # cs) \<longleftrightarrow> apart L c d \<and> apart_chain L (d # cs)"
| "apart_chain L cs \<longleftrightarrow> True"

lemma apart_chain_snoc:
  "apart_chain L (cs @ [d]) \<longleftrightarrow> apart_chain L cs \<and> (cs \<noteq> [] \<longrightarrow> apart L (List.last cs) d)"
  by (induction L cs rule: apart_chain.induct) auto

lemma apart_chain_append:
  "apart_chain L (cs @ ds) \<longleftrightarrow>
     apart_chain L cs \<and> apart_chain L ds \<and> (cs \<noteq> [] \<and> ds \<noteq> [] \<longrightarrow> apart L (List.last cs) (hd ds))"
  by (induction L cs rule: apart_chain.induct) (cases ds, auto)+

section \<open>Solid tiles\<close>

abbreviation solid :: "splitUnit list \<Rightarrow> bool" where
  "solid us \<equiv> (\<forall>u \<in> set us. su_text u \<noteq> [])"

lemma tile_solid:
  assumes "tile t a us b" "solid us" "u \<in> set us"
  shows "\<not> isSynthetic u"
  using assms
proof (induction us arbitrary: a)
  case (Cons v us)
  show ?case
  proof (cases "u = v")
    case True
    then have "length (su_text u) = su_end u - su_start u" "su_start u \<le> su_end u"
      using Cons.prems(1) by (auto simp: sub_text_length)
    then show ?thesis using Cons.prems(2,3) True by (auto simp: isSynthetic_def)
  qed (use Cons in auto)
qed simp

lemma tile_snoc:
  "tile t a (us @ [u]) b \<longleftrightarrow>
     tile t a us (su_start u) \<and> su_start u \<le> b \<and> b = su_end u \<and> b \<le> length t \<and> su_text u = sub_text t (su_start u) b"
  using tile_le by (induction us arbitrary: a) auto

lemma tile_last: "tile t a us b \<Longrightarrow> us \<noteq> [] \<Longrightarrow> su_end (List.last us) = b"
  by (induction us arbitrary: a) (auto split: if_splits)

lemma tile_hd: "tile t a us b \<Longrightarrow> us \<noteq> [] \<Longrightarrow> su_start (hd us) = a"
  by (cases us) auto

lemma tile_bound: "tile t a us b \<Longrightarrow> us \<noteq> [] \<Longrightarrow> a \<le> b \<and> b \<le> length t"
  using tile_le by blast

lemma tile_units_len: "tile t a us b \<Longrightarrow> units_len us = int b - int a"
proof (induction us arbitrary: a)
  case (Cons u us)
  have "units_len us = int b - int (su_end u)" using Cons by simp
  moreover have "int (length (su_text u)) = int (su_end u) - int a" using Cons.prems by (simp add: sub_text_length)
  ultimately show ?case by (simp add: units_len_def)
qed (simp add: units_len_def)

lemma solid_pos: "tile t a us b \<Longrightarrow> solid us \<Longrightarrow> us \<noteq> [] \<Longrightarrow> a < b"
proof (cases us)
  case (Cons u vs)
  assume a: "tile t a us b" "solid us"
  then have "su_text u = sub_text t a (su_end u)" "su_text u \<noteq> []" "su_end u \<le> length t" "su_end u \<le> b"
    using tile_le[of t "su_end u" vs b] by (auto simp: Cons)
  then show ?thesis using sub_text_length[of "su_end u" t a] by (cases "a < su_end u") auto
qed simp

section \<open>Overlap\<close>

text \<open>At most one header stands before the units of the text.\<close>

definition header_units :: "splitUnit list \<Rightarrow> bool" where
  "header_units hs \<longleftrightarrow> (\<forall>h \<in> set hs. su_start h = su_end h \<and> su_text h \<noteq> [])"

lemma sub_text_drop: "a + k \<le> b \<Longrightarrow> drop k (sub_text t a b) = sub_text t (a + k) b"
  by (simp add: sub_text_def drop_take add.commute)

lemma overlap_window_tile:
  assumes "tile t a us b" "solid us" "header_units hs"
  shows "\<exists>a'. a \<le> a' \<and> tile t a' (rev (overlap_window (rev us @ rev hs) n)) b
    \<and> solid (overlap_window (rev us @ rev hs) n)"
  using assms(1,2)
proof (induction us arbitrary: b n rule: rev_induct)
  case Nil
  have "overlap_window (rev hs) n = []"
  proof (cases "rev hs")
    case (Cons h hs')
    then have "h \<in> set (rev hs)" by simp
    then have "su_start h = su_end h \<and> su_text h \<noteq> []" using assms(3) unfolding header_units_def set_rev by blast
    then show ?thesis by (simp add: Cons isSynthetic_def)
  qed simp
  then show ?case using Nil.prems by auto
next
  case (snoc u us)
  have u: "tile t a us (su_start u)" "su_start u \<le> b" "su_end u = b" "b \<le> length t" "su_text u = sub_text t (su_start u) b" "su_text u \<noteq> []"
    using snoc.prems by (auto simp: tile_snoc)
  have ns: "\<not> isSynthetic u" by (rule tile_solid[OF snoc.prems]) simp
  have len: "length (su_text u) = b - su_start u" using u by (simp add: sub_text_length)
  have ab: "a \<le> su_start u" using tile_le[OF u(1)] by simp
  consider "n \<le> 0" | "0 < n" "int (length (su_text u)) \<le> n" | "0 < n" "n < int (length (su_text u))" by linarith
  then show ?case
  proof cases
    case 1
    then show ?thesis using u ab by (intro exI[of _ b]) simp
  next
    case 2
    obtain a' where a': "a \<le> a'"
      "tile t a' (rev (overlap_window (rev us @ rev hs) (n - int (length (su_text u))))) (su_start u)"
      "solid (overlap_window (rev us @ rev hs) (n - int (length (su_text u))))"
      using snoc.IH[OF u(1)] snoc.prems(2) by (metis Un_iff set_append)
    then show ?thesis using 2 u ns by (intro exI[of _ a']) (auto simp: tile_snoc)
  next
    case 3
    let ?k = "length (su_text u) - nat n"
    have k: "su_start u + ?k \<le> b" "?k < length (su_text u)" using 3 len u(2) by linarith+
    show ?thesis
      using 3 u ns k ab sub_text_drop[OF k(1), of t] by (intro exI[of _ "su_start u + ?k"]) auto
  qed
qed

lemma trim_units_tile:
  "tile t a us b \<Longrightarrow> solid us \<Longrightarrow> \<exists>a'. a \<le> a' \<and> tile t a' (trim_units us k) b \<and> solid (trim_units us k)"
proof (induction us arbitrary: a k)
  case (Cons u us)
  have u: "su_start u = a" "a \<le> su_end u" "su_end u \<le> length t" "su_text u = sub_text t a (su_end u)" "tile t (su_end u) us b"
    using Cons.prems by auto
  have id: "trim_units us 0 = us" using Cons.prems(2) by (induction us) auto
  have len: "length (su_text u) = su_end u - a" using u by (simp add: sub_text_length)
  consider "length (su_text u) \<le> k" | "0 < k" "k < length (su_text u)" | "k = 0" using Cons.prems(2) by fastforce
  then show ?case
  proof cases
    case 1
    obtain a' where "su_end u \<le> a'" "tile t a' (trim_units us (k - length (su_text u))) b"
      "solid (trim_units us (k - length (su_text u)))" using Cons.IH[OF u(5)] Cons.prems(2) by (metis list.set_intros(2))
    then show ?thesis using 1 u(2) by (intro exI[of _ a']) auto
  next
    case 2
    have k: "a + k \<le> su_end u" using 2 len by linarith
    show ?thesis
      using 2 u id Cons.prems(2) k sub_text_drop[OF k, of t] len by (intro exI[of _ "a + k"]) auto
  next
    case 3
    then show ?thesis using Cons.prems id by (intro exI[of _ a]) auto
  qed
qed simp

section \<open>Chunks of units\<close>

lemma TrimSpace_nil: "TrimSpace t = [] \<longleftrightarrow> (\<forall>c \<in> set t. is_space c)"
proof -
  have "(\<forall>c \<in> set (dropWhile is_space t). is_space c) \<longleftrightarrow> (\<forall>c \<in> set t. is_space c)"
    by (induction t) auto
  then show ?thesis by (simp add: TrimSpace_def rtrim_def ltrim_def)
qed

lemma filter_tile:
  assumes "tile t a us b" "solid us" "header_units hs"
  shows "filter (\<lambda>u. \<not> isSynthetic u) (hs @ us) = us" "filter isSynthetic (hs @ us) = hs"
proof -
  have "\<forall>u \<in> set us. \<not> isSynthetic u" using tile_solid[OF assms(1,2)] by blast
  moreover have "\<forall>h \<in> set hs. isSynthetic h" using assms(3) by (simp add: header_units_def isSynthetic_def)
  ultimately show "filter (\<lambda>u. \<not> isSynthetic u) (hs @ us) = us" "filter isSynthetic (hs @ us) = hs"
    by (simp_all add: filter_empty_conv filter_id_conv)
qed

lemma unitsText_length: "int (length (unitsText us)) = units_len us"
  by (simp add: unitsText_def units_len_def length_concat comp_def)

lemma units_len_append: "units_len (us @ vs) = units_len us + units_len vs"
  by (simp add: units_len_def)

lemma buildChunk_tile:
  assumes "tile t a us b" "solid us" "header_units hs" and c_def: "c = buildChunk (hs @ us) seq"
  shows "verbatim t c" "int (length (Content c)) = units_len (hs @ us)"
    and "us \<noteq> [] \<Longrightarrow> Start c = a \<and> End c = b" "us = [] \<Longrightarrow> Start c = 0 \<and> End c = 0"
    and "hs = [] \<Longrightarrow> SyntheticPrefixRunes c = 0"
proof -
  note f = filter_tile[OF assms(1-3)]
  have st: "Content c = unitsText hs @ unitsText us" "SyntheticPrefixRunes c = length (unitsText hs)"
    "Start c = (if us = [] then 0 else a)" "End c = (if us = [] then 0 else b)"
    using f tile_hd[OF assms(1)] tile_last[OF assms(1)]
    by (auto simp: c_def buildChunk_def unitsText_def length_concat comp_def)
  have tx: "unitsText us = sub_text t a b" using tile_text[OF assms(1)] by (simp add: unitsText_def)
  have e: "us = [] \<Longrightarrow> sub_text t a b = []" using assms(1) by (simp add: sub_text_def)
  show "verbatim t c" using st tx e tile_bound[OF assms(1)] by (auto simp: verbatim_def sub_text_def)
  show "int (length (Content c)) = units_len (hs @ us)"
    using st(1) by (simp add: unitsText_length units_len_append)
  show "us \<noteq> [] \<Longrightarrow> Start c = a \<and> End c = b" "us = [] \<Longrightarrow> Start c = 0 \<and> End c = 0" using st by simp_all
  show "hs = [] \<Longrightarrow> SyntheticPrefixRunes c = 0" using st by (simp add: unitsText_def)
qed

lemma sub_text_mem: "a \<le> i \<Longrightarrow> i < b \<Longrightarrow> b \<le> length t \<Longrightarrow> t ! i \<in> set (sub_text t a b)"
proof -
  assume a: "a \<le> i" "i < b" "b \<le> length t"
  then have "sub_text t a b ! (i - a) = t ! i" "i - a < length (sub_text t a b)"
    by (simp_all add: sub_text_def)
  then show ?thesis by (metis nth_mem)
qed

lemma no_content_blank:
  assumes "tile t a us b" "\<not> hasContent (hs @ us)" "a \<le> i" "i < b"
  shows "is_space (t ! i)"
proof -
  have "us \<noteq> []" using assms(1,3,4) by auto
  then have "t ! i \<in> set (sub_text t a b)" using tile_bound[OF assms(1)] assms(3,4) by (intro sub_text_mem) auto
  then have "\<exists>u \<in> set us. t ! i \<in> set (su_text u)" unfolding tile_text[OF assms(1), symmetric] by simp
  then show ?thesis using assms(2) by (fastforce simp: hasContent_def TrimSpace_nil)
qed

section \<open>The state of the packer\<close>

text \<open>
  The text up to \<open>pos\<close> is in the chunks or in the units still held, which may begin with a
  header; \<open>e\<close> is the length of the unit about to be added.
\<close>

definition held :: "rtext \<Rightarrow> int \<Rightarrow> int \<Rightarrow> nat \<Rightarrow> splitChunk list \<Rightarrow> splitUnit list \<Rightarrow> int \<Rightarrow> bool" where
  "held t L e pos cs cur n \<longleftrightarrow>
     (\<exists>hs us a. cur = hs @ us \<and> header_units hs \<and> tile t a us pos \<and> solid us \<and> n = units_len cur
        \<and> keeps_runes t cs a
        \<and> (hs \<noteq> [] \<longrightarrow> (cs = [] \<longrightarrow> 0 < a)
             \<and> (cs \<noteq> [] \<longrightarrow> End (List.last cs) \<noteq> a \<or> L < int (length (Content (List.last cs))) + n + e)))"

definition emitted :: "rtext \<Rightarrow> int \<Rightarrow> nat \<Rightarrow> splitChunk list \<Rightarrow> bool" where
  "emitted t L pos cs \<longleftrightarrow>
     (\<forall>c \<in> set cs. verbatim t c \<and> End c \<le> pos) \<and> (cs \<noteq> [] \<longrightarrow> first_apart (hd cs)) \<and> apart_chain L cs"

definition packed :: "rtext \<Rightarrow> int \<Rightarrow> nat \<Rightarrow> packer \<Rightarrow> bool" where
  "packed t L pos p \<longleftrightarrow>
     pos \<le> length t \<and> emitted t L pos (pk_chunks p) \<and> held t L 0 pos (pk_chunks p) (pk_current p) (pk_curLen p)
     \<and> (pk_current p \<noteq> [] \<longrightarrow>
          su_start (List.last (pk_current p)) < pos \<and> su_end (List.last (pk_current p)) = pos
          \<and> (\<forall>c \<in> set (pk_chunks p). End c \<le> su_start (List.last (pk_current p))))"

lemma heldE:
  assumes "held t L e pos cs cur n"
  obtains hs us a where "cur = hs @ us" "header_units hs" "tile t a us pos" "solid us" "n = units_len cur"
    "keeps_runes t cs a" "hs \<noteq> [] \<longrightarrow> cs = [] \<longrightarrow> 0 < a"
    "hs \<noteq> [] \<longrightarrow> cs \<noteq> [] \<longrightarrow> End (List.last cs) \<noteq> a \<or> L < int (length (Content (List.last cs))) + n + e"
  using assms unfolding held_def by blast

lemma held_none: "keeps_runes t cs pos \<Longrightarrow> held t L e pos cs [] 0"
  unfolding held_def by (intro exI[of _ "[]"] exI[of _ pos]) (simp add: header_units_def units_len_def)

lemma keeps_runes_append: "keeps_runes t cs n \<Longrightarrow> keeps_runes t (cs @ ds) n"
  by (auto simp: keeps_runes_def covered_def)

text \<open>
  Flushing: either nothing but white space was held and it is dropped, or one more chunk is
  emitted that ends at \<open>pos\<close>.
\<close>

lemma flush_packed:
  assumes "packed t L pos p"
  shows "emitted t L pos (pk_chunks (flush p)) \<and> keeps_runes t (pk_chunks (flush p)) pos
    \<and> (pk_chunks (flush p) = pk_chunks p \<and> \<not> hasContent (pk_current p)
      \<or> (\<exists>c. pk_chunks (flush p) = pk_chunks p @ [c] \<and> int (length (Content c)) = pk_curLen p \<and> End c = pos))"
proof -
  have H: "held t L 0 pos (pk_chunks p) (pk_current p) (pk_curLen p)" using assms by (simp add: packed_def)
  obtain hs us a where h: "pk_current p = hs @ us" "header_units hs" "tile t a us pos" "solid us"
    "pk_curLen p = units_len (pk_current p)" "keeps_runes t (pk_chunks p) a"
    "hs \<noteq> [] \<longrightarrow> pk_chunks p = [] \<longrightarrow> 0 < a"
    "hs \<noteq> [] \<longrightarrow> pk_chunks p \<noteq> [] \<longrightarrow>
       End (List.last (pk_chunks p)) \<noteq> a \<or> L < int (length (Content (List.last (pk_chunks p)))) + pk_curLen p + 0"
    by (rule heldE[OF H])
  have em: "emitted t L pos (pk_chunks p)" using assms by (simp add: packed_def)
  let ?c = "buildChunk (pk_current p) (int (length (pk_chunks p)))"
  note b = buildChunk_tile[OF h(3,4,2), of ?c "int (length (pk_chunks p))", folded h(1), OF refl]
  show ?thesis
  proof (cases "pk_current p \<noteq> [] \<and> hasContent (pk_current p)")
    case True
    have us: "us \<noteq> []"
    proof
      assume "us = []"
      then have "pk_current p = hs" "hs \<noteq> []" using h(1) True by auto
      then have "List.last (pk_current p) \<in> set hs" by simp
      then have "su_start (List.last (pk_current p)) = su_end (List.last (pk_current p))" using h(2) by (simp add: header_units_def)
      then show False using assms True by (auto simp: packed_def)
    qed
    have fl: "pk_chunks (flush p) = pk_chunks p @ [?c]" using True by (simp add: flush_def)
    have pos: "Start ?c = a \<and> End ?c = pos" by (rule b(3)[OF us])
    have ap1: "pk_chunks p \<noteq> [] \<Longrightarrow> apart L (List.last (pk_chunks p)) ?c"
      using h(8) b(2,5) h(5) pos by (cases "hs = []") (auto simp: apart_def)
    have ap2: "pk_chunks p = [] \<Longrightarrow> first_apart ?c"
      using h(7) b(5) pos by (cases "hs = []") (auto simp: first_apart_def)
    have A: "emitted t L pos (pk_chunks (flush p))"
      using em b(1) pos ap1 ap2 unfolding fl emitted_def apart_chain_snoc by (cases "pk_chunks p") auto
    have "covered [?c] i" if "a \<le> i" "i < pos" for i using pos that by (simp add: covered_def)
    then have B: "keeps_runes t (pk_chunks (flush p)) pos"
      using h(6) unfolding fl keeps_runes_def covered_def by (metis Un_iff linorder_not_le set_append)
    have C: "pk_chunks (flush p) = pk_chunks p \<and> \<not> hasContent (pk_current p)
      \<or> (\<exists>c. pk_chunks (flush p) = pk_chunks p @ [c] \<and> int (length (Content c)) = pk_curLen p \<and> End c = pos)"
      using fl b(2) h(5) pos by auto
    show ?thesis using A B C by blast
  next
    case False
    then have fl: "pk_chunks (flush p) = pk_chunks p" and nc: "\<not> hasContent (hs @ us)"
      using h(1) by (auto simp: flush_def hasContent_def)
    have A: "emitted t L pos (pk_chunks (flush p))" using em fl by simp
    have B: "keeps_runes t (pk_chunks (flush p)) pos"
      using h(6) no_content_blank[OF h(3) nc] unfolding fl keeps_runes_def by (metis linorder_not_le)
    have C: "pk_chunks (flush p) = pk_chunks p \<and> \<not> hasContent (pk_current p)
      \<or> (\<exists>c. pk_chunks (flush p) = pk_chunks p @ [c] \<and> int (length (Content c)) = pk_curLen p \<and> End c = pos)"
      using fl nc h(1) by simp
    show ?thesis using A B C by blast
  qed
qed

section \<open>After a full chunk\<close>

lemma content_overlap:
  assumes "tile t a us b" "tile t a' vs b" "a \<le> a'" "vs \<noteq> []" "TrimSpace (unitsText vs) \<noteq> []"
  shows "hasContent (hs @ us)"
proof (rule ccontr)
  assume nc: "\<not> hasContent (hs @ us)"
  have b: "b \<le> length t" using tile_bound[OF assms(2,4)] by simp
  have "is_space c" if m: "c \<in> set (sub_text t a' b)" for c
  proof -
    obtain i where i: "i < length (sub_text t a' b)" "sub_text t a' b ! i = c" using m by (meson in_set_conv_nth)
    then have "c = t ! (a' + i)" using b by (auto simp: sub_text_def)
    then show ?thesis using no_content_blank[OF assms(1) nc, of "a' + i"] i assms(3) b by (simp add: sub_text_length)
  qed
  then show False using assms(5) tile_text[OF assms(2)] by (simp add: unitsText_def TrimSpace_nil)
qed

lemma overlap_tile:
  assumes "tile t a us b" "solid us" "header_units hs" "computeOverlap (hs @ us) ov L k = (vs, n)"
  shows "\<exists>a'. a \<le> a' \<and> tile t a' vs b \<and> solid vs \<and> n = units_len vs \<and> (vs \<noteq> [] \<longrightarrow> n \<le> L - k \<and> hasContent (hs @ us))"
proof (cases "vs = []")
  case True
  then have "n = 0" using assms(4) by (auto simp: computeOverlap_def Let_def units_len_def split: if_splits option.splits)
  then show ?thesis using True assms tile_le[OF assms(1)] by (intro exI[of _ b]) (simp add: units_len_def)
next
  case False
  define w where "w = semanticOverlapWindow (hs @ us) (min ov (L - k) + semanticOverlapLookbehind)"
  obtain m where m: "vs = trimUnitsPrefix w m" "n = units_len vs" "n \<le> L - k" "TrimSpace (unitsText vs) \<noteq> []"
    using assms(4) False unfolding w_def
    by (auto simp: computeOverlap_def Let_def split: if_splits option.splits)
  have w: "w = rev (overlap_window (rev us @ rev hs) (min ov (L - k) + semanticOverlapLookbehind)) \<or> w = []"
    by (auto simp: w_def semanticOverlapWindow_def)
  obtain a1 where a1: "a \<le> a1" "tile t a1 w b" "solid w"
    using w overlap_window_tile[OF assms(1-3)] m False tile_le[OF assms(1)]
    by (metis set_rev trimUnitsPrefix_def trim_units.simps(1))
  obtain a2 where a2: "a1 \<le> a2" "tile t a2 vs b" "solid vs"
    using trim_units_tile[OF a1(2,3)] a1(2,3) unfolding m(1) trimUnitsPrefix_def by (metis order_refl)
  have "hasContent (hs @ us)" by (rule content_overlap[OF assms(1) a2(2) _ False m(4)]) (use a1 a2 in simp)
  then show ?thesis using a1 a2 m by (intro exI[of _ a2]) auto
qed

lemma shrink_tile:
  assumes "tile t a us b" "solid us" "n = units_len us" "shrink_overlap m us n = (vs, k)" "0 \<le> m"
  shows "\<exists>a'. a \<le> a' \<and> tile t a' vs b \<and> solid vs \<and> k = units_len vs \<and> k \<le> m \<and> (vs \<noteq> [] \<longrightarrow> us \<noteq> [])"
  using assms(1-4)
proof (induction us arbitrary: a n)
  case Nil
  then show ?case using assms(5) by (auto simp: units_len_def)
next
  case (Cons u us)
  show ?case
  proof (cases "m < n")
    case True
    have "n - int (length (su_text u)) = units_len us" using Cons.prems(3) by (simp add: units_len_def)
    then obtain a' where "su_end u \<le> a'" "tile t a' vs b" "solid vs" "k = units_len vs" "k \<le> m"
      using Cons.IH[of "su_end u"] Cons.prems True by auto
    then show ?thesis using Cons.prems(1) by (intro exI[of _ a']) auto
  next
    case False
    then show ?thesis using Cons.prems by (intro exI[of _ a]) auto
  qed
qed

lemma carry_over_held:
  assumes p: "packed t L pos p" and cur: "pk_current p \<noteq> []"
    and u: "su_start u = pos"
    and full: "L < pk_curLen p + int (length (su_text u)) + int (length hdr)"
    and c: "carry_over L ov hdr u (pk_current p) = (cur, n)"
  shows "held t L (int (length (su_text u))) pos (pk_chunks (flush p)) cur n
    \<and> (cur \<noteq> [] \<longrightarrow> n + int (length (su_text u)) \<le> L)"
proof -
  have H: "held t L 0 pos (pk_chunks p) (pk_current p) (pk_curLen p)"
    and ends: "su_start (List.last (pk_current p)) < pos" "\<forall>c \<in> set (pk_chunks p). End c \<le> su_start (List.last (pk_current p))"
    using p cur by (auto simp: packed_def)
  obtain hs us a where h: "pk_current p = hs @ us" "header_units hs" "tile t a us pos" "solid us"
    using H by (rule heldE)
  let ?k = "int (length (su_text u))" and ?m = "int (length hdr)"
  obtain vs k where vs: "computeOverlap (pk_current p) ov L ?k = (vs, k)" by fastforce
  obtain a1 where a1: "tile t a1 vs pos" "solid vs" "k = units_len vs" "vs \<noteq> [] \<longrightarrow> k \<le> L - ?k \<and> hasContent (pk_current p)"
    using overlap_tile[OF h(3,4,2) vs[unfolded h(1)]] h(1) by metis
  note fl = flush_packed[OF p]
  have keep: "keeps_runes t (pk_chunks (flush p)) x" if "x \<le> pos" for x
    using fl that by (auto simp: keeps_runes_def)
  have plain: "held t L ?k pos (pk_chunks (flush p)) ws w" if "tile t x ws pos" "solid ws" "w = units_len ws" for ws w x
    unfolding held_def
    by (intro exI[of _ "[]"] exI[of _ ws] exI[of _ x])
      (use that keep tile_le[OF that(1)] in \<open>simp add: header_units_def\<close>)
  show ?thesis
  proof (cases "hdr \<noteq> [] \<and> ?m + ?k \<le> L")
    case False
    then have "cur = vs \<and> n = k" using c vs by (auto simp: carry_over_def)
    then show ?thesis using plain[OF a1(1-3)] a1(4) by auto
  next
    case True
    obtain ws w where ws: "shrink_overlap (L - ?k - ?m) vs k = (ws, w)" by fastforce
    obtain a2 where a2: "tile t a2 ws pos" "solid ws" "w = units_len ws" "w \<le> L - ?k - ?m" "ws \<noteq> [] \<longrightarrow> vs \<noteq> []"
      using shrink_tile[OF a1(1-3) ws] True by auto
    have res: "inject_header hdr u ws w = (cur, n)" using c vs ws True by (auto simp: carry_over_def Let_def)
    show ?thesis
    proof (cases "cur = ws \<and> n = w")
      case True
      then show ?thesis using plain[OF a2(1-3)] a2(4) by auto
    next
      case False
      define h where "h = \<lparr>su_text = hdr, su_start = a2, su_end = a2\<rparr>"
      have "(if ws = [] then su_start u else su_start (List.hd ws)) = a2"
        using tile_hd[OF a2(1)] a2(1) u by (cases ws) auto
      then have cur': "cur = [h] @ ws" "n = w + ?m"
        using res False by (auto simp: inject_header_def h_def Let_def split: if_splits)
      have hu: "header_units [h]" using True by (simp add: header_units_def h_def)
      have len: "n = units_len cur" using cur' a2(3) by (simp add: units_len_def h_def)
      have "(pk_chunks (flush p) = [] \<longrightarrow> 0 < a2) \<and>
        (pk_chunks (flush p) \<noteq> [] \<longrightarrow>
          End (List.last (pk_chunks (flush p))) \<noteq> a2 \<or> L < int (length (Content (List.last (pk_chunks (flush p))))) + n + ?k)"
        using fl
      proof (elim conjE disjE exE)
        assume fp: "pk_chunks (flush p) = pk_chunks p" "\<not> hasContent (pk_current p)"
        then have "a2 = pos" using a1(4) a2(1,5) by auto
        then show ?thesis using fp(1) ends by (metis List.last_in_set leD order_le_less_trans zero_le)
      next
        fix c
        assume "pk_chunks (flush p) = pk_chunks p @ [c]" "int (length (Content c)) = pk_curLen p" "End c = pos"
        then show ?thesis using full cur'(2) a2(3) tile_units_len[OF a2(1)] by auto
      qed
      then have "held t L ?k pos (pk_chunks (flush p)) cur n"
        unfolding held_def using cur' hu a2 len keep tile_le[OF a2(1)]
        by (intro exI[of _ "[h]"] exI[of _ ws] exI[of _ a2]) auto
      then show ?thesis using cur'(2) a2(4) by simp
    qed
  qed
qed

section \<open>One unit\<close>

lemma emitted_mono: "emitted t L pos cs \<Longrightarrow> pos \<le> pos' \<Longrightarrow> emitted t L pos' cs"
  by (fastforce simp: emitted_def)

lemma append_packed:
  assumes "held t L (int (length (su_text u))) pos cs cur n" "emitted t L pos cs"
    and "tile t pos [u] pos'" "su_text u \<noteq> []"
    and "pk_chunks p = cs" "pk_current p = cur @ [u]" "pk_curLen p = n + int (length (su_text u))"
  shows "packed t L pos' p"
proof -
  obtain hs us a where h: "cur = hs @ us" "header_units hs" "tile t a us pos" "solid us" "n = units_len cur"
    "keeps_runes t cs a" "hs \<noteq> [] \<longrightarrow> cs = [] \<longrightarrow> 0 < a"
    "hs \<noteq> [] \<longrightarrow> cs \<noteq> [] \<longrightarrow> End (List.last cs) \<noteq> a \<or> L < int (length (Content (List.last cs))) + n + int (length (su_text u))"
    using assms(1) by (rule heldE)
  have u: "su_start u = pos" "pos < pos'" "su_end u = pos'" "pos' \<le> length t"
    using assms(3) solid_pos[OF assms(3)] assms(4) by auto
  have "held t L 0 pos' cs (cur @ [u]) (n + int (length (su_text u)))"
    unfolding held_def
  proof (rule exI[of _ hs], rule exI[of _ "us @ [u]"], rule exI[of _ a], intro conjI impI)
    show "tile t a (us @ [u]) pos'" by (rule tile_append[OF h(3) assms(3)])
    show "n + int (length (su_text u)) = units_len (cur @ [u])" using h(5) by (simp add: units_len_def)
  qed (use h assms(4) in auto)
  moreover have "emitted t L pos' cs" using emitted_mono assms(2) u(2) by simp
  moreover have "\<forall>c \<in> set cs. End c \<le> pos" using assms(2) by (simp add: emitted_def)
  ultimately show ?thesis using assms(5-7) u by (simp add: packed_def)
qed

lemma chop_chunks_spec:
  "concat rs = sub_text t a b \<Longrightarrow> a \<le> b \<Longrightarrow> b \<le> length t \<Longrightarrow>
   (\<forall>c \<in> set (chop_chunks a seq rs). verbatim t c \<and> End c \<le> b \<and> SyntheticPrefixRunes c = 0)
   \<and> (\<forall>i. a \<le> i \<longrightarrow> i < b \<longrightarrow> covered (chop_chunks a seq rs) i)"
proof (induction rs arbitrary: a seq)
  case Nil
  then have "a = b" using sub_text_length[of b t a] by simp
  then show ?case by simp
next
  case (Cons r rs)
  have tl: "tile t a (units_from a (r # rs)) b" by (rule units_from_tile[OF Cons.prems])
  then have r: "a + length r \<le> b" "r = sub_text t a (a + length r)" using tile_le[of t "a + length r"] by auto
  have "sub_text t a b = sub_text t a (a + length r) @ sub_text t (a + length r) b"
    using sub_text_append[of a "a + length r" b t] r(1) by simp
  then have rs: "concat rs = sub_text t (a + length r) b" using Cons.prems(1) r(2) by (metis concat.simps(2) same_append_eq)
  note ih = Cons.IH[OF rs r(1) Cons.prems(3), of "seq + 1"]
  have "verbatim t (plain_chunk r seq a (a + length r))"
    using r Cons.prems(3) by (simp add: verbatim_def plain_chunk_def)
  moreover have "covered (chop_chunks a seq (r # rs)) i" if "a \<le> i" "i < b" for i
  proof (cases "i < a + length r")
    case True
    then show ?thesis using that by (simp add: covered_def plain_chunk_def)
  next
    case False
    then have "covered (chop_chunks (a + length r) (seq + 1) rs) i" using ih that by simp
    then show ?thesis by (auto simp: covered_def)
  qed
  ultimately show ?case using ih r(1) by (auto simp: plain_chunk_def)
qed

lemma apart_chain_plain: "\<forall>c \<in> set cs. SyntheticPrefixRunes c = 0 \<Longrightarrow> apart_chain L cs"
  by (induction L cs rule: apart_chain.induct) (auto simp: apart_def)

lemma oversize_packed:
  assumes p: "packed t L pos p" and u: "tile t pos [u] pos'"
    and q: "pk_chunks q = pk_chunks (flush p) @ chopOversize u seq" "pk_current q = []" "pk_curLen q = 0"
  shows "packed t L pos' q"
proof -
  note fl = flush_packed[OF p]
  have u': "su_start u = pos" "pos \<le> pos'" "pos' \<le> length t" "su_text u = sub_text t pos pos'" using u by auto
  let ?ds = "chop_chunks pos seq (chop (su_text u))"
  have ds: "chopOversize u seq = ?ds" by (simp add: chopOversize_def u')
  have "concat (chop (su_text u)) = sub_text t pos pos'" by (simp add: concat_chop u')
  note sp = chop_chunks_spec[OF this u'(2,3), of seq]
  have ap: "apart_chain L ?ds" by (rule apart_chain_plain) (use sp in blast)
  have hd: "?ds \<noteq> [] \<Longrightarrow> SyntheticPrefixRunes (hd ?ds) = 0" using sp by simp
  have em: "emitted t L pos' (pk_chunks (flush p))" using fl emitted_mono u'(2) by blast
  have "emitted t L pos' (pk_chunks q)"
    using em sp ap hd unfolding q(1) ds emitted_def apart_chain_append
    by (cases "pk_chunks (flush p)"; cases ?ds) (auto simp: apart_def first_apart_def)
  moreover have "keeps_runes t (pk_chunks q) pos'"
    unfolding keeps_runes_def
  proof (intro allI impI)
    fix i assume i: "i < pos'" "\<not> is_space (t ! i)"
    show "covered (pk_chunks q) i"
    proof (cases "i < pos")
      case True
      then have "covered (pk_chunks (flush p)) i" using fl i by (simp add: keeps_runes_def)
      then show ?thesis by (auto simp: q(1) covered_def)
    next
      case False
      then have "covered ?ds i" using sp i by simp
      then show ?thesis by (auto simp: q(1) ds covered_def)
    qed
  qed
  ultimately show ?thesis using q(2,3) u'(3) held_none by (simp add: packed_def)
qed

text \<open>What the packer holds always fits, and so does every chunk.\<close>

definition sized :: "packer \<Rightarrow> bool" where
  "sized p \<longleftrightarrow> pk_curLen p \<le> int absoluteMaxSize
     \<and> (\<forall>c \<in> set (pk_chunks p). length (Content c) \<le> absoluteMaxSize)"

lemma flush_sized: "packed t L pos p \<Longrightarrow> sized p \<Longrightarrow> sized (flush p)"
proof -
  assume a: "packed t L pos p" "sized p"
  have "pk_curLen (flush p) = 0" by (simp add: flush_def)
  moreover have "\<forall>c \<in> set (pk_chunks (flush p)). length (Content c) \<le> absoluteMaxSize"
    using flush_packed[OF a(1)] a(2) by (auto simp: sized_def)
  ultimately show ?thesis by (simp add: sized_def)
qed

lemma chop_length_le: "chop_length r \<le> absoluteMaxSize"
proof -
  have "i < absoluteMaxSize" if f: "filter P (rev [absoluteMaxSize - 199..<absoluteMaxSize]) = i # is" for i "is" P
  proof -
    have "i \<in> set (filter P (rev [absoluteMaxSize - 199..<absoluteMaxSize]))" unfolding f by simp
    then show ?thesis by (simp only: set_filter set_rev set_upt mem_Collect_eq atLeastLessThan_iff)
  qed
  then have "(case filter (\<lambda>i. r ! i = nl \<or> r ! i = 32) (rev [absoluteMaxSize - 199..<absoluteMaxSize]) of
      [] \<Rightarrow> absoluteMaxSize | i # is \<Rightarrow> Suc i) \<le> absoluteMaxSize"
    by (cases "filter (\<lambda>i. r ! i = nl \<or> r ! i = 32) (rev [absoluteMaxSize - 199..<absoluteMaxSize])")
      (simp only: list.case order_refl, simp only: list.case Suc_le_eq)
  then have "\<not> length r < absoluteMaxSize \<Longrightarrow> ?thesis" unfolding chop_length_def by (simp only: if_False)
  moreover have "length r < absoluteMaxSize \<Longrightarrow> ?thesis" unfolding chop_length_def by (simp only: if_True less_imp_le)
  ultimately show ?thesis by blast
qed

lemma chop_sizes: "r' \<in> set (chop r) \<Longrightarrow> length r' \<le> absoluteMaxSize"
proof (induction r rule: chop.induct)
  case (1 r)
  have ne: "r \<noteq> []" using "1.prems" by (auto simp: chop.simps)
  then have "r' = take (chop_length r) r \<or> r' \<in> set (chop (drop (chop_length r) r))"
    using "1.prems" unfolding chop.simps[of r] by simp
  then show ?case
  proof
    assume "r' = take (chop_length r) r"
    then show ?thesis using chop_length_le[of r] by simp
  qed (rule "1.IH"[OF ne])
qed

lemma chop_chunks_sizes: "c \<in> set (chop_chunks pos seq rs) \<Longrightarrow> Content c \<in> set rs"
  by (induction rs arbitrary: pos seq) (auto simp: plain_chunk_def)

lemma flush_held: "packed t L pos p \<Longrightarrow> held t L e pos (pk_chunks (flush p)) [] 0"
  using flush_packed held_none by blast

lemma packed_tracker: "packed t L pos (p\<lparr>pk_tracker := x\<rparr>) = packed t L pos p"
  by (simp add: packed_def)

lemma packed_flush: "packed t L pos p \<Longrightarrow> packed t L pos (flush p)"
  using flush_packed[of t L pos p] held_none unfolding packed_def by (simp add: flush_def)

lemma usable_header_length: "int (length (usable_header L ht)) \<le> max 0 L"
  by (auto simp: usable_header_def Let_def)

lemma merge_unit_packed:
  assumes p: "packed t L pos p" "sized p" and u: "tile t pos [u] pos'" "su_text u \<noteq> []" and L: "L \<le> int absoluteMaxSize"
  shows "packed t L pos' (merge_unit L ov u p) \<and> sized (merge_unit L ov u p)"
proof (cases "int absoluteMaxSize < int (length (su_text u))")
  case True
  let ?q = "(flush p)\<lparr>pk_tracker := track (su_text u) (pk_tracker (flush p)),
              pk_chunks := pk_chunks (flush p) @ chopOversize u (int (length (pk_chunks (flush p))))\<rparr>"
  have q: "merge_unit L ov u p = ?q" using True by (simp add: merge_unit_def Let_def)
  have "packed t L pos' ?q"
    by (rule oversize_packed[OF p(1) u(1)]) (simp_all add: flush_def)
  moreover have "sized ?q"
    using flush_sized[OF p] chop_sizes chop_chunks_sizes
    by (auto simp: sized_def chopOversize_def) blast
  ultimately show ?thesis unfolding q by simp
next
  case False
  let ?k = "int (length (su_text u))"
  define p1 where "p1 = p\<lparr>pk_tracker := track (su_text u) (pk_tracker p)\<rparr>"
  define p2 where "p2 = (if headerEndedThisUnit (pk_tracker p1) then flush p1 else p1)"
  define hdr where "hdr = usable_header L (pk_tracker p2)"
  define p3 where "p3 = (if L < pk_curLen p2 + ?k + int (length hdr) \<and> pk_current p2 \<noteq> [] then
       let (cur, curLen) = carry_over L ov hdr u (pk_current p2) in (flush p2)\<lparr>pk_current := cur, pk_curLen := curLen\<rparr>
     else p2)"
  have p1: "packed t L pos p1" "sized p1" using p by (simp_all add: p1_def packed_tracker sized_def)
  have p2: "packed t L pos p2" "sized p2"
    using p1 packed_flush[OF p1(1)] flush_sized[OF p1] by (simp_all add: p2_def)
  have us: "su_start u = pos" using u by simp
  have p3: "held t L ?k pos (pk_chunks p3) (pk_current p3) (pk_curLen p3) \<and> emitted t L pos (pk_chunks p3)
    \<and> (\<forall>c \<in> set (pk_chunks p3). length (Content c) \<le> absoluteMaxSize) \<and> pk_curLen p3 + ?k \<le> int absoluteMaxSize"
  proof (cases "L < pk_curLen p2 + ?k + int (length hdr) \<and> pk_current p2 \<noteq> []")
    case True
    obtain cur n where c: "carry_over L ov hdr u (pk_current p2) = (cur, n)" by fastforce
    have p3': "p3 = (flush p2)\<lparr>pk_current := cur, pk_curLen := n\<rparr>" using True c by (simp add: p3_def)
    have h: "held t L ?k pos (pk_chunks (flush p2)) cur n" "cur \<noteq> [] \<longrightarrow> n + ?k \<le> L"
      using carry_over_held[OF p2(1) _ us _ c] True by blast+
    have "cur = [] \<Longrightarrow> n = 0" using h(1) by (auto simp: held_def units_len_def)
    then have "n + ?k \<le> int absoluteMaxSize" using h(2) L False by (cases "cur = []") auto
    then show ?thesis using h(1) flush_packed[OF p2(1)] flush_sized[OF p2] by (simp add: p3' sized_def)
  next
    case False2: False
    have p3': "p3 = p2" unfolding p3_def using False2 by auto
    have H: "held t L 0 pos (pk_chunks p2) (pk_current p2) (pk_curLen p2)" using p2 by (simp add: packed_def)
    then have "held t L ?k pos (pk_chunks p2) (pk_current p2) (pk_curLen p2)"
      unfolding held_def by fastforce
    moreover have "pk_current p2 = [] \<Longrightarrow> pk_curLen p2 = 0" using H by (auto simp: held_def units_len_def)
    then have "pk_curLen p2 + ?k \<le> int absoluteMaxSize" using False2 False L by (cases "pk_current p2 = []") auto
    ultimately show ?thesis using p2 by (simp add: p3' packed_def sized_def)
  qed
  have "merge_unit L ov u p =
    (let p4 = (if int absoluteMaxSize < pk_curLen p3 + ?k then flush p3 else p3)
     in p4\<lparr>pk_current := pk_current p4 @ [u], pk_curLen := pk_curLen p4 + ?k\<rparr>)"
    unfolding p3_def hdr_def p2_def p1_def merge_unit_def Let_def if_not_P[OF False] by (rule refl)
  then have res: "merge_unit L ov u p = p3\<lparr>pk_current := pk_current p3 @ [u], pk_curLen := pk_curLen p3 + ?k\<rparr>"
    using p3 by simp
  have "packed t L pos' (merge_unit L ov u p)"
    by (rule append_packed[OF _ _ u, of L "pk_chunks p3" "pk_current p3" "pk_curLen p3"]) (use p3 res in auto)
  then show ?thesis using p3 res by (simp add: sized_def)
qed

lemma merge_units_packed:
  assumes "packed t L pos p" "sized p" "tile t pos us b" "solid us" "L \<le> int absoluteMaxSize"
  shows "packed t L b (fold (merge_unit L ov) us p) \<and> sized (fold (merge_unit L ov) us p)"
  using assms(1-4)
proof (induction us arbitrary: pos p)
  case (Cons u us)
  have u: "tile t pos [u] (su_end u)" "su_text u \<noteq> []" "tile t (su_end u) us b" using Cons.prems by auto
  show ?case using Cons.IH[of "su_end u" "merge_unit L ov u p"] merge_unit_packed[OF Cons.prems(1,2) u(1,2) assms(5)] u(3) Cons.prems(4)
    by simp
qed simp

section \<open>The whole text\<close>

lemma splitBySeparators_solid: "t \<noteq> [] \<Longrightarrow> p \<in> set (splitBySeparators t seps n) \<Longrightarrow> p \<noteq> []"
proof (induction t seps n arbitrary: p rule: splitBySeparators.induct)
  case (2 t sep seps n)
  show ?case
  proof (cases "t = [] \<or> 0 < n \<and> int (length t) \<le> n \<or> sep = [] \<or> length (pieces_at sep t) \<le> 1")
    case True
    then show ?thesis using "2.IH"(1) "2.prems" by (auto split: if_splits)
  next
    case False
    then obtain q where q: "q \<in> set (pieces_at sep t)"
      "p \<in> set (if 0 < n \<and> n < int (length q) \<and> seps \<noteq> [] then splitBySeparators q seps n else [q])"
      using "2.prems"(2) by auto
    have "q \<noteq> []" using q(1) by (simp add: pieces_at_def)
    then show ?thesis using q "2.IH"(2)[of q p] False by (auto split: if_splits)
  qed
qed simp

lemma chop_solid: "p \<in> set (chop r) \<Longrightarrow> p \<noteq> []"
proof (induction r rule: chop.induct)
  case (1 r)
  have ne: "r \<noteq> []" using "1.prems" by (auto simp: chop.simps)
  then have "p = take (chop_length r) r \<or> p \<in> set (chop (drop (chop_length r) r))"
    using "1.prems" unfolding chop.simps[of r] by simp
  then show ?case
  proof
    assume "p = take (chop_length r) r"
    then show ?thesis using chop_length_pos[OF ne] ne by simp
  qed (rule "1.IH"[OF ne])
qed

lemma units_from_solid: "\<forall>p \<in> set ps. p \<noteq> [] \<Longrightarrow> solid (units_from pos ps)"
  by (induction ps arbitrary: pos) auto

lemma build_units_solid:
  "spans_ok pos (length t) spans \<Longrightarrow> pos \<le> length t \<Longrightarrow> solid (build_units t seps n pos rp spans)"
proof (induction spans arbitrary: pos rp)
  case Nil
  show ?case
  proof (cases "pos < length t")
    case True
    then have "drop pos t \<noteq> []" by simp
    then have "solid (units_from rp (splitBySeparators (drop pos t) seps n))"
      by (intro units_from_solid) (use splitBySeparators_solid in blast)
    then show ?thesis using True by simp
  qed simp
next
  case (Cons sp spans)
  obtain a b where sp: "sp = (a, b)" by fastforce
  have ok: "pos \<le> a" "a < b" "b \<le> length t" "spans_ok b (length t) spans" using Cons.prems(1) by (auto simp: sp)
  let ?pre = "if pos < a then splitBySeparators (sub_text t pos a) seps n else []"
  let ?prot = "sub_text t a b"
  let ?parts = "if maxProtectedSize < length ?prot then chop ?prot else [?prot]"
  have ne: "pos < a \<Longrightarrow> sub_text t pos a \<noteq> []" "?prot \<noteq> []"
    using ok sub_text_length[of a t pos] sub_text_length[of b t a] by fastforce+
  have "solid (units_from k ?pre)" for k
    by (rule units_from_solid) (use ne(1) splitBySeparators_solid in \<open>auto split: if_splits\<close>)
  moreover have "solid (units_from k ?parts)" for k
    by (rule units_from_solid) (use ne(2) chop_solid in \<open>auto split: if_splits\<close>)
  ultimately show ?case using Cons.IH[OF ok(4,3)] unfolding sp build_units.simps Let_def set_append by blast
qed

lemma buildUnits_solid: "solid (buildUnitsWithProtection t (protectedSpans t) seps n)"
  unfolding buildUnitsWithProtection_def by (rule build_units_solid[OF protectedSpans_ok]) simp

lemma packed_empty: "packed t L 0 empty_packer" "sized empty_packer"
  by (simp_all add: packed_def empty_packer_def emitted_def held_none keeps_runes_def sized_def)

lemma SplitText_all:
  assumes "cf_ChunkSize (ensureDefaults cfg) \<le> int absoluteMaxSize"
  shows "emitted t (cf_ChunkSize (ensureDefaults cfg)) (length t) (SplitText t cfg)"
    and "keeps_runes t (SplitText t cfg) (length t)"
    and "\<forall>c \<in> set (SplitText t cfg). length (Content c) \<le> absoluteMaxSize"
proof -
  let ?L = "cf_ChunkSize (ensureDefaults cfg)" and ?ov = "cf_ChunkOverlap (ensureDefaults cfg)"
  define us where "us = buildUnitsWithProtection t (protectedSpans t) (cf_Separators (ensureDefaults cfg)) ?L"
  define p where "p = fold (merge_unit ?L ?ov) us empty_packer"
  have us: "tile t 0 us (length t)" "solid us" unfolding us_def by (rule buildUnits_tile, rule buildUnits_solid)
  have p: "packed t ?L (length t) p" "sized p"
    using merge_units_packed[OF packed_empty us assms] unfolding p_def by blast+
  show "emitted t ?L (length t) (SplitText t cfg)" "keeps_runes t (SplitText t cfg) (length t)"
    "\<forall>c \<in> set (SplitText t cfg). length (Content c) \<le> absoluteMaxSize"
  proof -
    have st: "SplitText t cfg = (if t = [] then [] else pk_chunks (flush p))"
      using us(1) by (auto simp: SplitText_def mergeUnits_def Let_def us_def[symmetric] p_def)
    have "t = [] \<Longrightarrow> emitted t ?L (length t) []" "t = [] \<Longrightarrow> keeps_runes t [] (length t)"
      by (simp_all add: emitted_def keeps_runes_def)
    then show "emitted t ?L (length t) (SplitText t cfg)" "keeps_runes t (SplitText t cfg) (length t)"
      "\<forall>c \<in> set (SplitText t cfg). length (Content c) \<le> absoluteMaxSize"
      unfolding st using flush_packed[OF p(1)] flush_sized[OF p] by (simp_all add: sized_def)
  qed
qed


text \<open>Nothing visible is lost: every rune that is not white space is in a chunk.\<close>

theorem SplitText_complete:
  assumes "cf_ChunkSize (ensureDefaults cfg) \<le> int absoluteMaxSize"
  shows "\<forall>i < length t. \<not> is_space (t ! i) \<longrightarrow> (\<exists>c \<in> set (SplitText t cfg). Start c \<le> i \<and> i < End c)"
  using SplitText_all(2)[OF assms, of t] by (simp add: keeps_runes_def covered_def)

definition sample_config :: SplitterConfig where
  "sample_config = \<lparr>cf_ChunkSize = 0, cf_ChunkOverlap = 0, cf_Separators = [], cf_Strategy = ''legacy'',
     cf_TokenLimit = 0, cf_Languages = []\<rparr>"

lemma sample_config_size: "cf_ChunkSize (ensureDefaults sample_config) = 512"
  by (simp add: ensureDefaults_def NormalizeConfig_def sample_config_def DefaultChunkSize_def Let_def)


theorem SplitText_complete_witness:
  "\<exists>c \<in> set (SplitText [72, 105] sample_config). Start c \<le> 1 \<and> 1 < End c"
  using SplitText_complete[of sample_config "[72, 105]"]
  by (simp add: sample_config_size absoluteMaxSize_def is_space_def) 

end
