(* ===== verification/Headings.thy ===== *)
theory Headings
  imports Profiler SplitterInv
begin

text \<open>
  The heading tier (\<open>internal/chunker/heading_hierarchy.go\<close>, \<open>heading_splitter.go\<close>): sections
  cut at headings, each chunk with the headings active at its start, tiny chunks joined.
\<close>

section \<open>The hierarchy\<close>

record HeadingHierarchy =
  hh_stack :: "rtext list"
  hh_depth :: nat

definition NewHeadingHierarchy :: HeadingHierarchy where
  "NewHeadingHierarchy = \<lparr>hh_stack = replicate 6 [], hh_depth = 0\<rparr>"

text \<open>The deepest level with a heading, counted from 1.\<close>

definition active_depth :: "rtext list \<Rightarrow> nat" where
  "active_depth stack = foldl (\<lambda>d i. if stack ! i \<noteq> [] then i + 1 else d) 0 [0..<6]"

definition Observe :: "HeadingHierarchy \<Rightarrow> rtext \<Rightarrow> HeadingHierarchy \<times> nat \<times> rtext" where
  "Observe h line =
     (case FindStringSubmatch MarkdownHeadingPattern line of
        None \<Rightarrow> (h, 0, [])
      | Some (hashes, title) \<Rightarrow>
          let level = length hashes
          in if level < 1 \<or> 6 < level then (h, 0, [])
             else
               let heading = TrimSpace title;
                   stack = take level ((hh_stack h)[level - 1 := heading]) @ replicate (6 - level) [];
                   depth = (if hh_depth h < level then level else active_depth stack)
               in (h\<lparr>hh_stack := stack, hh_depth := depth\<rparr>, level, heading))"

definition active_headings :: "HeadingHierarchy \<Rightarrow> (nat \<times> rtext) list" where
  "active_headings h = filter (\<lambda>(i, s). s \<noteq> []) (zip [0..<hh_depth h] (hh_stack h))"

definition Breadcrumb :: "HeadingHierarchy \<Rightarrow> rtext" where
  "Breadcrumb h = join_at (lit '' > '') (map snd (active_headings h))"

definition BreadcrumbWithHashes :: "HeadingHierarchy \<Rightarrow> rtext" where
  "BreadcrumbWithHashes h = join_at [nl] (map (\<lambda>(i, s). replicate (i + 1) 35 @ 32 # s) (active_headings h))"

definition mergeBreadcrumbs :: "rtext \<Rightarrow> rtext \<Rightarrow> rtext" where
  "mergeBreadcrumbs parent child =
     (if parent = [] then child
      else if child = [] then parent
      else
        let parentLines = split_at nl parent; childLines = split_at nl child;
            rest = (if TrimSpace (List.last parentLines) = TrimSpace (hd childLines) then tl childLines else childLines)
        in if rest = [] then parent else parent @ [nl] @ join_at [nl] rest)"

fun shared_lines :: "rtext list \<Rightarrow> rtext list \<Rightarrow> rtext list" where
  "shared_lines (a # as) (b # bs) = (if a = b then a # shared_lines as bs else [])"
| "shared_lines as bs = []"

definition commonHeadingPrefix :: "rtext \<Rightarrow> rtext \<Rightarrow> rtext" where
  "commonHeadingPrefix a b =
     (if a = [] \<or> b = [] then []
      else
        let shared = shared_lines (split_at nl a) (split_at nl b)
        in if shared = [] then [] else join_at [nl] shared)"

section \<open>Lines outside code fences\<close>

text \<open>
  The lines that are neither fences nor inside one, with the rune offset each starts at.
  Every line but the last is followed by the newline the split removed.
\<close>

fun open_lines_from :: "bool \<Rightarrow> nat \<Rightarrow> rtext list \<Rightarrow> (nat \<times> rtext) list" where
  "open_lines_from inFence pos [] = []"
| "open_lines_from inFence pos (line # lines) =
     (if prefixed (TrimSpace line) fence_mark then open_lines_from (\<not> inFence) (pos + length line + 1) lines
      else (if inFence then [] else [(pos, line)]) @ open_lines_from inFence (pos + length line + 1) lines)"

definition open_lines :: "rtext \<Rightarrow> (nat \<times> rtext) list" where
  "open_lines t = open_lines_from False 0 (split_at nl t)"

text \<open>A boundary: the rune offset and the heading line, empty for the leading one.\<close>

definition add_boundary :: "(nat \<times> rtext) list \<Rightarrow> nat \<times> rtext \<Rightarrow> (nat \<times> rtext) list" where
  "add_boundary bounds b =
     (if 0 < fst b then bounds @ [b] else (fst (hd bounds), snd b) # tl bounds)"

definition findHeadingBoundaries :: "rtext \<Rightarrow> nat \<Rightarrow> (nat \<times> rtext) list" where
  "findHeadingBoundaries t primaryLevel =
     foldl add_boundary [(0, [])]
       (filter (\<lambda>(pos, line). 1 \<le> heading_level line \<and> heading_level line \<le> primaryLevel) (open_lines t))"

definition sub_headings :: "rtext \<Rightarrow> nat \<Rightarrow> (nat \<times> rtext) list" where
  "sub_headings t primaryLevel = filter (\<lambda>(pos, line). primaryLevel < heading_level line) (open_lines t)"

definition observeSubHeadings :: "rtext \<Rightarrow> nat \<Rightarrow> HeadingHierarchy \<Rightarrow> HeadingHierarchy" where
  "observeSubHeadings t primaryLevel h = foldl (\<lambda>h (pos, line). fst (Observe h line)) h (sub_headings t primaryLevel)"

fun breadcrumbs_from :: "HeadingHierarchy \<Rightarrow> (nat \<times> rtext) list \<Rightarrow> (nat \<times> rtext) list" where
  "breadcrumbs_from h [] = []"
| "breadcrumbs_from h ((pos, line) # ls) =
     (let h' = fst (Observe h line) in (pos, BreadcrumbWithHashes h') # breadcrumbs_from h' ls)"

definition sectionBreadcrumbs :: "rtext \<Rightarrow> nat \<Rightarrow> HeadingHierarchy \<Rightarrow> (nat \<times> rtext) list" where
  "sectionBreadcrumbs t primaryLevel seed =
     (0, BreadcrumbWithHashes seed) # breadcrumbs_from seed (sub_headings t primaryLevel)"

definition breadcrumbAtOffset :: "(nat \<times> rtext) list \<Rightarrow> nat \<Rightarrow> rtext \<Rightarrow> rtext" where
  "breadcrumbAtOffset bcs offset fallback =
     foldl (\<lambda>bc e. snd e) fallback (takeWhile (\<lambda>e. fst e \<le> offset) bcs)"

section \<open>Sections\<close>

text \<open>The chunks of a slice that starts at \<open>base\<close>, moved to the document and numbered on.\<close>

fun rebase :: "nat \<Rightarrow> (splitChunk \<Rightarrow> rtext) \<Rightarrow> int \<Rightarrow> splitChunk list \<Rightarrow> splitChunk list" where
  "rebase base ctx seq [] = []"
| "rebase base ctx seq (s # ss) =
     \<lparr>Content = Content s, ContextHeader = ctx s, Seq = seq, Start = base + Start s, End = base + End s,
      PageStartOf = None, PageEndOf = None, SyntheticPrefixRunes = SyntheticPrefixRunes s\<rparr> # rebase base ctx (seq + 1) ss"

definition section_chunks ::
  "SplitterConfig \<Rightarrow> nat \<Rightarrow> rtext \<Rightarrow> HeadingHierarchy \<Rightarrow> int \<Rightarrow> nat \<Rightarrow> splitChunk list" where
  "section_chunks cfg primaryLevel sec h seq a =
     (let breadcrumb = BreadcrumbWithHashes h
      in if sec = [] then []
         else if int (length breadcrumb) + 2 + int (length sec) \<le> cf_ChunkSize cfg
         then [(plain_chunk sec seq a (a + length sec))\<lparr>ContextHeader := breadcrumb\<rparr>]
         else rebase a (\<lambda>sub. breadcrumbAtOffset (sectionBreadcrumbs sec primaryLevel h) (Start sub) breadcrumb) seq
                (SplitText sec cfg))"

fun heading_sections ::
  "SplitterConfig \<Rightarrow> nat \<Rightarrow> rtext \<Rightarrow> HeadingHierarchy \<Rightarrow> int \<Rightarrow> (nat \<times> rtext) list \<Rightarrow> splitChunk list" where
  "heading_sections cfg primaryLevel t h seq [] = []"
| "heading_sections cfg primaryLevel t h seq ((a, line) # bounds) =
     (let endRune = (case bounds of [] \<Rightarrow> length t | b # _ \<Rightarrow> fst b);
          h1 = (if line \<noteq> [] then fst (Observe h line) else h);
          sec = sub_text t a endRune;
          out = section_chunks cfg primaryLevel sec h1 seq a
      in out @ heading_sections cfg primaryLevel t (observeSubHeadings sec primaryLevel h1) (seq + int (length out)) bounds)"

section \<open>Tiny chunks\<close>

definition renumber :: "splitChunk list \<Rightarrow> splitChunk list" where
  "renumber cs = map (\<lambda>(i, c). c\<lparr>Seq := int i\<rparr>) (zip [0..<length cs] cs)"

fun coalesce :: "int \<Rightarrow> int \<Rightarrow> splitChunk \<Rightarrow> int \<Rightarrow> splitChunk list \<Rightarrow> splitChunk list" where
  "coalesce target chunkSize cur curLen [] = [cur]"
| "coalesce target chunkSize cur curLen (next # rest) =
     (let nextLen = int (length (Content next));
          sharedHeader = commonHeadingPrefix (ContextHeader cur) (ContextHeader next)
      in if sharedHeader \<noteq> [] \<and> End cur = Start next \<and> curLen < target \<and> curLen + nextLen \<le> chunkSize
         then coalesce target chunkSize
                (cur\<lparr>Content := Content cur @ Content next, ContextHeader := sharedHeader, End := End next\<rparr>)
                (curLen + nextLen) rest
         else cur # coalesce target chunkSize next nextLen rest)"

definition coalesceTinyChunks :: "splitChunk list \<Rightarrow> int \<Rightarrow> splitChunk list" where
  "coalesceTinyChunks cs chunkSize =
     (case cs of
        c # d # ds \<Rightarrow>
          if chunkSize \<le> 0 then cs
          else renumber (coalesce (max 200 (go_div chunkSize 2)) chunkSize c (int (length (Content c))) (d # ds))
      | _ \<Rightarrow> cs)"

definition splitByHeadingsImpl :: "rtext \<Rightarrow> SplitterConfig \<Rightarrow> DocProfile option \<Rightarrow> splitChunk list" where
  "splitByHeadingsImpl t cfg profile =
     (if t = [] then []
      else
        let primaryLevel = DominantHeadingLevel (case profile of None \<Rightarrow> ProfileDocument t | Some p \<Rightarrow> p);
            bounds = findHeadingBoundaries t primaryLevel
        in if primaryLevel = 0 \<or> length bounds \<le> 1 then SplitText t cfg
           else coalesceTinyChunks (heading_sections cfg primaryLevel t NewHeadingHierarchy 0 bounds) (cf_ChunkSize cfg))"

end
