(* ===== verification/Heuristics.thy ===== *)
theory Heuristics
  imports Headings
begin

text \<open>
  The heuristic tier (\<open>internal/chunker/heuristic_splitter.go\<close>): cuts at chapter marks, numbered
  sections, capital lines, rules, page footers, form feeds and runs of blank lines.
\<close>

section \<open>Boundaries\<close>

type_synonym boundary = "nat \<times> int"   \<comment> \<open>rune offset, priority\<close>

definition allRuneIndices :: "rtext \<Rightarrow> nat \<Rightarrow> nat list" where
  "allRuneIndices t needle = filter (\<lambda>i. t ! i = needle) [0..<length t]"

text \<open>The mark of a line, the first that applies.\<close>

definition line_boundary :: "re list \<Rightarrow> nat \<times> rtext \<Rightarrow> boundary list" where
  "line_boundary chapterPatterns l =
     (case l of (pos, line) \<Rightarrow>
        if \<exists>pat \<in> set chapterPatterns. MatchString pat line then [(pos, PrioChapterMarker)]
        else if MatchString NumberedSectionPattern line then [(pos, PrioNumberedHead)]
        else if MatchString AllCapsHeadingPattern line then [(pos, PrioAllCapsHeading)]
        else if MatchString VisualSeparatorPattern line then [(pos, PrioVisualSep)]
        else if MatchString PageFooterPattern line then [(pos, PrioPageFooter)]
        else [])"

text \<open>Sorted by offset, one boundary per offset, that of the highest priority.\<close>

definition best_priority :: "boundary list \<Rightarrow> nat \<Rightarrow> int" where
  "best_priority bounds pos = Max (set (map snd (filter (\<lambda>b. fst b = pos) bounds)))"

definition dedupe_bounds :: "boundary list \<Rightarrow> boundary list" where
  "dedupe_bounds bounds = map (\<lambda>pos. (pos, best_priority bounds pos)) (sorted_list_of_set (set (map fst bounds)))"

definition findHeuristicBoundaries :: "rtext \<Rightarrow> string list \<Rightarrow> boundary list" where
  "findHeuristicBoundaries t langs =
     dedupe_bounds
       (map (\<lambda>i. (i, PrioFormFeed)) (allRuneIndices t 12)
        @ concat (map (line_boundary (ChapterPatternsForLangs langs)) (open_lines t))
        @ map (\<lambda>(a, b). (b, PrioBlankBlock)) (FindAllStringIndex ExcessiveBlanksPattern t))"

definition dropBoundsInsideSpans :: "boundary list \<Rightarrow> span list \<Rightarrow> boundary list" where
  "dropBoundsInsideSpans bounds spans =
     filter (\<lambda>b. \<not> (\<exists>s \<in> set (takeWhile (\<lambda>s. fst s < fst b) spans). fst b < snd s)) bounds"

section \<open>Packing blocks\<close>

definition appendChunk :: "splitChunk list \<Rightarrow> rtext \<Rightarrow> nat \<Rightarrow> nat \<Rightarrow> int \<Rightarrow> splitChunk list \<times> int" where
  "appendChunk out t start end seq =
     (if end \<le> start then (out, seq)
      else
        let raw = sub_text t start end
        in if TrimSpace raw = [] then (out, seq) else (out @ [plain_chunk raw seq start end], seq + 1))"

definition appendOversizeBlock ::
  "splitChunk list \<Rightarrow> rtext \<Rightarrow> nat \<Rightarrow> nat \<Rightarrow> SplitterConfig \<Rightarrow> int \<Rightarrow> splitChunk list \<times> int" where
  "appendOversizeBlock out t start end cfg seq =
     (if end \<le> start then (out, seq)
      else
        let ss = SplitText (sub_text t start end) cfg
        in (out @ rebase start ContextHeader seq ss, seq + int (length ss)))"

text \<open>
  Where the next chunk starts: the last boundary within twice the overlap before the end, else
  the last line start at or before the overlap's, else the overlap's own start.
\<close>

definition applyOverlapAligned :: "rtext \<Rightarrow> nat \<Rightarrow> int \<Rightarrow> boundary list \<Rightarrow> nat" where
  "applyOverlapAligned t curEnd overlap bounds =
     (if overlap \<le> 0 then curEnd
      else
        let target = nat (max 0 (int curEnd - overlap));
            windowStart = nat (max 0 (int curEnd - 2 * overlap));
            near = filter (\<lambda>b. windowStart \<le> b \<and> b < curEnd) (map fst bounds)
        in if near \<noteq> [] then foldl max 0 near
           else if length t \<le> target then target
           else case filter (\<lambda>i. t ! i = nl) (rev [Suc windowStart..<Suc target]) of
                  [] \<Rightarrow> target
                | i # _ \<Rightarrow> i + 1)"

record block_packer =
  bp_out :: "splitChunk list"
  bp_seq :: int
  bp_chunkStart :: nat
  bp_curEnd :: nat

definition min_chunk_size :: "SplitterConfig \<Rightarrow> int" where
  "min_chunk_size cfg = max 50 (go_div (cf_ChunkSize cfg) 4)"

definition pack_block :: "rtext \<Rightarrow> SplitterConfig \<Rightarrow> boundary list \<Rightarrow> block_packer \<Rightarrow> nat \<Rightarrow> block_packer" where
  "pack_block t cfg bounds p nextEnd =
     (let curEnd = bp_curEnd p; chunkStart = bp_chunkStart p
      in if cf_ChunkSize cfg < int nextEnd - int curEnd then
           let (out1, seq1) = (if 0 < int curEnd - int chunkStart
                               then appendChunk (bp_out p) t chunkStart curEnd (bp_seq p) else (bp_out p, bp_seq p));
               (out2, seq2) = appendOversizeBlock out1 t curEnd nextEnd cfg seq1
           in \<lparr>bp_out = out2, bp_seq = seq2, bp_chunkStart = nextEnd, bp_curEnd = nextEnd\<rparr>
         else if cf_ChunkSize cfg < int nextEnd - int chunkStart \<and> min_chunk_size cfg \<le> int curEnd - int chunkStart then
           let (out1, seq1) = appendChunk (bp_out p) t chunkStart curEnd (bp_seq p)
           in \<lparr>bp_out = out1, bp_seq = seq1,
               bp_chunkStart = applyOverlapAligned t curEnd (cf_ChunkOverlap cfg) bounds, bp_curEnd = nextEnd\<rparr>
         else p\<lparr>bp_curEnd := nextEnd\<rparr>)"

definition splitByHeuristicsImpl :: "rtext \<Rightarrow> SplitterConfig \<Rightarrow> splitChunk list" where
  "splitByHeuristicsImpl t cfg =
     (if t = [] then []
      else if int (length t) \<le> cf_ChunkSize cfg then SplitText t cfg
      else
        let found = dropBoundsInsideSpans (findHeuristicBoundaries t (cf_Languages cfg)) (protectedSpansRune t (protectedSpans t))
        in if found = [] then SplitText t cfg
           else
             let ended = found @ [(length t, 0)];
                 bounds = (if fst (hd ended) \<noteq> 0 then (0, 0) # ended else ended);
                 s = fst (hd bounds);
                 p = foldl (pack_block t cfg bounds) \<lparr>bp_out = [], bp_seq = 0, bp_chunkStart = s, bp_curEnd = s\<rparr>
                       (map fst (tl bounds))
             in if bp_chunkStart p < bp_curEnd p
                then fst (appendChunk (bp_out p) t (bp_chunkStart p) (bp_curEnd p) (bp_seq p)) else bp_out p)"

end
