(* ===== verification/Hashes.thy ===== *)
theory Hashes
  imports GoText "HOL-Library.Word"
begin

text \<open>
  The digests of Go's standard library the program derives ids from: \<open>crypto/sha1\<close> (FIPS
  180-4) for UUID version 5, \<open>crypto/sha256\<close> for chunk hashes, and \<open>encoding/hex\<close>.  Words are
  32 bits wide and wrap around.
\<close>

unbundle bit_operations_syntax

section \<open>Bytes and blocks\<close>

type_synonym byte = "8 word"
type_synonym w32 = "32 word"

definition bytes_of :: "string \<Rightarrow> byte list" where
  "bytes_of s = map (\<lambda>c. word_of_nat (of_char c)) s"

definition be32 :: "w32 \<Rightarrow> byte list" where
  "be32 w = [ucast (drop_bit 24 w), ucast (drop_bit 16 w), ucast (drop_bit 8 w), ucast w]"

definition w32_of :: "byte \<Rightarrow> byte \<Rightarrow> byte \<Rightarrow> byte \<Rightarrow> w32" where
  "w32_of a b c d = push_bit 24 (ucast a) OR push_bit 16 (ucast b) OR push_bit 8 (ucast c) OR ucast d"

fun words_of :: "byte list \<Rightarrow> w32 list" where
  "words_of (a # b # c # d # r) = w32_of a b c d # words_of r"
| "words_of _ = []"

text \<open>A one bit, zeros up to 56 modulo 64 bytes, the length in bits on eight bytes.\<close>

definition md_pad :: "byte list \<Rightarrow> byte list" where
  "md_pad m =
     (let n = 8 * int (length m)
      in m @ 0x80 # replicate ((119 - length m mod 64) mod 64) 0
           @ be32 (word_of_int (n div 2 ^ 32)) @ be32 (word_of_int n))"

function blocks :: "w32 list \<Rightarrow> w32 list list" where
  "blocks ws = (if ws = [] then [] else take 16 ws # blocks (drop 16 ws))"
  by pat_completeness auto

termination by (relation "measure length") auto

declare blocks.simps [simp del]

definition rotl :: "nat \<Rightarrow> w32 \<Rightarrow> w32" where
  "rotl n w = push_bit n w OR drop_bit (32 - n) w"

definition rotr :: "nat \<Rightarrow> w32 \<Rightarrow> w32" where
  "rotr n w = drop_bit n w OR push_bit (32 - n) w"

section \<open>SHA-1\<close>

text \<open>The message schedule, the latest word first.\<close>

fun sha1_extend :: "nat \<Rightarrow> w32 list \<Rightarrow> w32 list" where
  "sha1_extend 0 ws = ws"
| "sha1_extend (Suc n) ws =
     sha1_extend n (rotl 1 (ws ! 2 XOR ws ! 7 XOR ws ! 13 XOR ws ! 15) # ws)"

definition sha1_f :: "nat \<Rightarrow> w32 \<Rightarrow> w32 \<Rightarrow> w32 \<Rightarrow> w32" where
  "sha1_f t b c d =
     (if t < 20 then (b AND c) OR (NOT b AND d)
      else if t < 40 then b XOR c XOR d
      else if t < 60 then (b AND c) OR (b AND d) OR (c AND d)
      else b XOR c XOR d)"

definition sha1_k :: "nat \<Rightarrow> w32" where
  "sha1_k t = (if t < 20 then 0x5A827999 else if t < 40 then 0x6ED9EBA1 else if t < 60 then 0x8F1BBCDC else 0xCA62C1D6)"

type_synonym sha1_state = "w32 \<times> w32 \<times> w32 \<times> w32 \<times> w32"

fun sha1_rounds :: "nat \<Rightarrow> w32 list \<Rightarrow> sha1_state \<Rightarrow> sha1_state" where
  "sha1_rounds t [] st = st"
| "sha1_rounds t (w # ws) (a, b, c, d, e) =
     sha1_rounds (Suc t) ws (rotl 5 a + sha1_f t b c d + e + sha1_k t + w, a, rotl 30 b, c, d)"

definition sha1_block :: "sha1_state \<Rightarrow> w32 list \<Rightarrow> sha1_state" where
  "sha1_block st blk =
     (let (a, b, c, d, e) = st;
          (a', b', c', d', e') = sha1_rounds 0 (rev (sha1_extend 64 (rev blk))) st
      in (a + a', b + b', c + c', d + d', e + e'))"

definition sha1 :: "byte list \<Rightarrow> byte list" where
  "sha1 m =
     (let (a, b, c, d, e) = foldl sha1_block (0x67452301, 0xEFCDAB89, 0x98BADCFE, 0x10325476, 0xC3D2E1F0)
            (blocks (words_of (md_pad m)))
      in be32 a @ be32 b @ be32 c @ be32 d @ be32 e)"

section \<open>SHA-256\<close>

text \<open>
  The round constants are the first 32 bits of the fractional parts of the cube roots of the
  first 64 primes: the integer cube root of \<open>p * 2 ^ 96\<close>, found bit by bit, modulo \<open>2 ^ 32\<close>.
\<close>

fun cube_root_bits :: "nat \<Rightarrow> int \<Rightarrow> int \<Rightarrow> int" where
  "cube_root_bits 0 n acc = acc"
| "cube_root_bits (Suc b) n acc = cube_root_bits b n (if (acc + 2 ^ b) ^ 3 \<le> n then acc + 2 ^ b else acc)"

definition small_primes :: "nat list" where
  "small_primes = filter (\<lambda>n. list_all (\<lambda>d. n mod d \<noteq> 0) [2..<n]) [2..<312]"

definition sha256_k :: "w32 list" where
  "sha256_k = map (\<lambda>p. word_of_int (cube_root_bits 36 (int p * 2 ^ 96) 0)) small_primes"

fun sha256_extend :: "nat \<Rightarrow> w32 list \<Rightarrow> w32 list" where
  "sha256_extend 0 ws = ws"
| "sha256_extend (Suc n) ws =
     (let x = ws ! 14; y = ws ! 1;
          s0 = rotr 7 x XOR rotr 18 x XOR drop_bit 3 x;
          s1 = rotr 17 y XOR rotr 19 y XOR drop_bit 10 y
      in sha256_extend n ((s1 + ws ! 6 + s0 + ws ! 15) # ws))"

type_synonym sha256_state = "w32 \<times> w32 \<times> w32 \<times> w32 \<times> w32 \<times> w32 \<times> w32 \<times> w32"

fun sha256_rounds :: "(w32 \<times> w32) list \<Rightarrow> sha256_state \<Rightarrow> sha256_state" where
  "sha256_rounds [] st = st"
| "sha256_rounds ((k, w) # kws) (a, b, c, d, e, f, g, h) =
     (let s1 = rotr 6 e XOR rotr 11 e XOR rotr 25 e;
          ch = (e AND f) XOR (NOT e AND g);
          t1 = h + s1 + ch + k + w;
          s0 = rotr 2 a XOR rotr 13 a XOR rotr 22 a;
          maj = (a AND b) XOR (a AND c) XOR (b AND c)
      in sha256_rounds kws (t1 + s0 + maj, a, b, c, d + t1, e, f, g))"

definition sha256_block :: "sha256_state \<Rightarrow> w32 list \<Rightarrow> sha256_state" where
  "sha256_block st blk =
     (let (a, b, c, d, e, f, g, h) = st;
          (a', b', c', d', e', f', g', h') = sha256_rounds (zip sha256_k (rev (sha256_extend 48 (rev blk)))) st
      in (a + a', b + b', c + c', d + d', e + e', f + f', g + g', h + h'))"

definition sha256 :: "byte list \<Rightarrow> byte list" where
  "sha256 m =
     (let (a, b, c, d, e, f, g, h) = foldl sha256_block
            (0x6a09e667, 0xbb67ae85, 0x3c6ef372, 0xa54ff53a, 0x510e527f, 0x9b05688c, 0x1f83d9ab, 0x5be0cd19)
            (blocks (words_of (md_pad m)))
      in be32 a @ be32 b @ be32 c @ be32 d @ be32 e @ be32 f @ be32 g @ be32 h)"

section \<open>Hexadecimal and UUIDs\<close>

definition hex_char :: "nat \<Rightarrow> char" where
  "hex_char n = char_of (if n < 10 then 48 + n else 87 + n)"

definition hex :: "byte list \<Rightarrow> string" where
  "hex bs = concat (map (\<lambda>b. [hex_char (unat b div 16), hex_char (unat b mod 16)]) bs)"

definition uuidNamespaceURL :: "byte list" where
  "uuidNamespaceURL = [0x6b, 0xa7, 0xb8, 0x11, 0x9d, 0xad, 0x11, 0xd1, 0x80, 0xb4, 0x00, 0xc0, 0x4f, 0xd4, 0x30, 0xc8]"

definition substr :: "nat \<Rightarrow> nat \<Rightarrow> string \<Rightarrow> string" where
  "substr a b s = take (b - a) (drop a s)"

definition uuid_form :: "byte list \<Rightarrow> string" where
  "uuid_form b0 =
     (let b1 = b0[6 := (b0 ! 6 AND 0x0f) OR 0x50];
          b2 = b1[8 := (b1 ! 8 AND 0x3f) OR 0x80];
          hx = hex b2
      in substr 0 8 hx @ ''-'' @ substr 8 12 hx @ ''-'' @ substr 12 16 hx @ ''-'' @ substr 16 20 hx @ ''-''
           @ substr 20 32 hx)"

definition uuidv5 :: "string \<Rightarrow> string" where
  "uuidv5 name = uuid_form (sha1 (uuidNamespaceURL @ bytes_of name))"

definition DeterministicChunkID :: "string \<Rightarrow> string \<Rightarrow> string" where
  "DeterministicChunkID docID chunkHash =
     uuid_form (sha1 (uuidNamespaceURL @ bytes_of (''chunk:'' @ docID @ '':'' @ chunkHash)))"

definition deterministicUUID :: "string \<Rightarrow> string \<Rightarrow> string" where
  "deterministicUUID docID chunkHash = uuidv5 (''chunk:'' @ docID @ '':'' @ chunkHash)"

lemma ids_agree: "deterministicUUID docID chunkHash = DeterministicChunkID docID chunkHash"
  by (simp add: deterministicUUID_def uuidv5_def DeterministicChunkID_def)

end
