(* ===== verification/Strategy.thy ===== *)
theory Strategy
  imports Heuristics Hashes
begin

text \<open>
  The entry points of the chunker (\<open>internal/chunker/strategy.go\<close>, \<open>validator.go\<close>, \<open>hash.go\<close>,
  \<open>pagemap.go\<close>): the tier chain with its validator, parent and child chunks with their pages,
  and the deduplication by hash.
\<close>

section \<open>Validator\<close>

datatype verdict = Accepted | Refused string

definition ValidateChunks :: "splitChunk list \<Rightarrow> int \<Rightarrow> int \<Rightarrow> verdict" where
  "ValidateChunks chunks totalChars chunkSize =
     (let n = int (length chunks);
          lens = map (\<lambda>c. int (length (Content c))) chunks;
          maxLen = foldl max 0 lens;
          tinyCount = int (length (filter (\<lambda>l. l < 50) (butlast lens)))
      in if chunks = [] then Refused ''no chunks produced''
         else if n = 1 \<and> 2 * chunkSize < totalChars then Refused ''single chunk for large document''
         else if go_div n 4 < tinyCount \<and> 2 < tinyCount then Refused ''too many tiny chunks''
         else if 0 < chunkSize \<and> maxLen < go_div chunkSize 4 \<and> chunkSize < totalChars
         then Refused ''all chunks far below target size''
         else if 0 < chunkSize \<and> 2 * chunkSize < maxLen then Refused ''chunk exceeds 2x target size''
         else Accepted)"

section \<open>Tiers\<close>

definition StrategyAuto :: string where "StrategyAuto = ''auto''"
definition StrategyHeading :: string where "StrategyHeading = ''heading''"
definition StrategyHeuristic :: string where "StrategyHeuristic = ''heuristic''"
definition StrategyRecursive :: string where "StrategyRecursive = ''recursive''"
definition StrategyLegacy :: string where "StrategyLegacy = ''legacy''"

definition resolveChainWithProfile :: "rtext \<Rightarrow> SplitterConfig \<Rightarrow> StrategyTier list \<times> DocProfile option" where
  "resolveChainWithProfile t cfg =
     (let s = cf_Strategy cfg
      in if s = StrategyHeading then ([TierHeading, TierLegacy], None)
         else if s = StrategyHeuristic then ([TierHeuristic, TierLegacy], None)
         else if s = StrategyRecursive \<or> s = StrategyLegacy then ([TierLegacy], None)
         else let profile = Some (ProfileDocument t) in (SelectStrategy profile, profile))"

definition runTier :: "StrategyTier \<Rightarrow> rtext \<Rightarrow> SplitterConfig \<Rightarrow> DocProfile option \<Rightarrow> splitChunk list" where
  "runTier tier t cfg profile =
     (case tier of
        TierHeading \<Rightarrow> splitByHeadingsImpl t cfg profile
      | TierHeuristic \<Rightarrow> splitByHeuristicsImpl t cfg
      | TierLegacy \<Rightarrow> SplitText t cfg)"

record Diagnostics =
  dg_SelectedTier :: StrategyTier
  dg_TierChain :: "StrategyTier list"
  dg_Rejected :: "(StrategyTier \<times> string) list"
  dg_Profile :: "DocProfile option"

text \<open>
  The first accepted output with its tier, the rejections before it, and the output of a
  rejected legacy tier at the end of the chain.
\<close>

fun try_tiers ::
  "(StrategyTier \<Rightarrow> splitChunk list) \<Rightarrow> (splitChunk list \<Rightarrow> verdict) \<Rightarrow> StrategyTier list \<Rightarrow>
   (splitChunk list \<times> StrategyTier) option \<times> (StrategyTier \<times> string) list \<times> splitChunk list" where
  "try_tiers run validate [] = (None, [], [])"
| "try_tiers run validate (tier # rest) =
     (let out = run tier
      in case validate out of
           Accepted \<Rightarrow> (Some (out, tier), [], [])
         | Refused reason \<Rightarrow>
             let (won, rejected, lastOut) = try_tiers run validate rest
             in (won, (tier, reason) # rejected, if tier = TierLegacy \<and> rest = [] then out else lastOut))"

definition SplitWithDiagnostics :: "rtext \<Rightarrow> SplitterConfig \<Rightarrow> splitChunk list \<times> Diagnostics" where
  "SplitWithDiagnostics t cfg0 =
     (if t = [] then ([], \<lparr>dg_SelectedTier = TierLegacy, dg_TierChain = [], dg_Rejected = [], dg_Profile = None\<rparr>)
      else
        let cfg = ensureDefaults cfg0;
            (chain, profile) = resolveChainWithProfile t cfg;
            (won, rejected, lastOut) =
              try_tiers (\<lambda>tier. runTier tier t cfg profile) (\<lambda>out. ValidateChunks out (int (length t)) (cf_ChunkSize cfg)) chain;
            diag = \<lparr>dg_SelectedTier = TierLegacy, dg_TierChain = chain, dg_Rejected = rejected, dg_Profile = profile\<rparr>
        in case won of
             Some (out, tier) \<Rightarrow> (out, diag\<lparr>dg_SelectedTier := tier\<rparr>)
           | None \<Rightarrow> if lastOut \<noteq> [] then (lastOut, diag) else (SplitText t cfg, diag))"

definition Split :: "rtext \<Rightarrow> SplitterConfig \<Rightarrow> splitChunk list" where
  "Split t cfg = fst (SplitWithDiagnostics t cfg)"

section \<open>Hashes\<close>

text \<open>\<open>strings.Fields\<close>.\<close>

fun runs_of :: "rtext \<Rightarrow> rtext \<Rightarrow> rtext list" where
  "runs_of cur [] = (if cur = [] then [] else [cur])"
| "runs_of cur (r # t) =
     (if is_space r then (if cur = [] then [] else [cur]) @ runs_of [] t else runs_of (cur @ [r]) t)"

definition Fields :: "rtext \<Rightarrow> rtext list" where
  "Fields t = runs_of [] t"

definition HashText :: "rtext \<Rightarrow> string" where
  "HashText t = hex (sha256 (bytes_of (utf8 (join_at [32] (Fields t)))))"

definition ChunkHash :: "splitChunk \<Rightarrow> string" where
  "ChunkHash c = HashText (Content c)"

text \<open>\<open>out\<close> is what is kept so far; \<open>seen\<close> the hashes of it.\<close>

fun drop_duplicates :: "('a \<Rightarrow> string) \<Rightarrow> ('a \<Rightarrow> int \<Rightarrow> 'a) \<Rightarrow> string list \<Rightarrow> int \<Rightarrow> 'a list \<Rightarrow> 'a list" where
  "drop_duplicates hash setSeq seen n [] = []"
| "drop_duplicates hash setSeq seen n (c # cs) =
     (if hash c \<in> set seen then drop_duplicates hash setSeq seen n cs
      else setSeq c n # drop_duplicates hash setSeq (hash c # seen) (n + 1) cs)"

definition DropDuplicateChunks :: "('a \<Rightarrow> string) \<Rightarrow> ('a \<Rightarrow> int \<Rightarrow> 'a) \<Rightarrow> 'a list \<Rightarrow> 'a list" where
  "DropDuplicateChunks hash setSeq cs = drop_duplicates hash setSeq [] 0 cs"

section \<open>Pages\<close>

record pageMapper =
  pm_pages :: "int list"
  pm_lineStartRunes :: "nat list"

definition line_starts :: "rtext \<Rightarrow> nat list" where
  "line_starts t = 0 # map Suc (filter (\<lambda>i. t ! i = nl) [0..<length t - 1])"

definition newPageMapper :: "rtext \<Rightarrow> int list \<Rightarrow> pageMapper" where
  "newPageMapper markdown pages =
     (if pages = [] \<or> markdown = [] \<or> length (line_starts markdown) \<noteq> length pages
      then \<lparr>pm_pages = [], pm_lineStartRunes = []\<rparr>
      else \<lparr>pm_pages = pages, pm_lineStartRunes = line_starts markdown\<rparr>)"

text \<open>\<open>sort.SearchInts\<close> on an ascending list: the first index whose element is not below \<open>x\<close>.\<close>

definition SearchInts :: "nat list \<Rightarrow> nat \<Rightarrow> nat" where
  "SearchInts xs x = length (takeWhile (\<lambda>s. s < x) xs)"

definition lineForRune :: "pageMapper \<Rightarrow> nat \<Rightarrow> nat option" where
  "lineForRune m off =
     (if pm_lineStartRunes m = [] then None
      else
        let n = SearchInts (pm_lineStartRunes m) (off + 1)
        in if n = 0 \<or> length (pm_pages m) \<le> n - 1 then None else Some (n - 1))"

definition rangeFor :: "pageMapper \<Rightarrow> nat \<Rightarrow> nat \<Rightarrow> int option \<times> int option" where
  "rangeFor m start end0 =
     (if pm_pages m = [] then (None, None)
      else
        let end = (if end0 \<le> start then start + 1 else end0)
        in case (lineForRune m start, lineForRune m (end - 1)) of
             (Some first, Some last_line) \<Rightarrow> (Some (pm_pages m ! first), Some (pm_pages m ! last_line))
           | _ \<Rightarrow> (None, None))"

section \<open>Parents and children\<close>

record ChildChunk =
  cc_chunk :: splitChunk
  ParentIndex :: int
  ParentHash :: string

record ParentChildResult =
  pc_Parents :: "splitChunk list"
  pc_Children :: "ChildChunk list"

definition remapChild :: "splitChunk \<Rightarrow> splitChunk \<Rightarrow> splitChunk" where
  "remapChild sub parent =
     (let synthetic = SyntheticPrefixRunes parent
      in if synthetic = 0 then sub\<lparr>Start := Start sub + Start parent, End := End sub + Start parent\<rparr>
         else
           let inherited = min (synthetic - Start sub) (End sub - Start sub)
           in sub\<lparr>Start := Start parent + (Start sub - synthetic), End := Start parent + (End sub - synthetic),
                  SyntheticPrefixRunes := SyntheticPrefixRunes sub + inherited\<rparr>)"

definition with_pages :: "pageMapper \<Rightarrow> splitChunk \<Rightarrow> splitChunk" where
  "with_pages pg c = c\<lparr>PageStartOf := fst (rangeFor pg (Start c) (End c)), PageEndOf := snd (rangeFor pg (Start c) (End c))\<rparr>"

definition child_of :: "pageMapper \<Rightarrow> splitChunk \<Rightarrow> int \<Rightarrow> int \<Rightarrow> splitChunk \<Rightarrow> ChildChunk" where
  "child_of pg parent parentIndex seq sub =
     (let c = (remapChild sub parent)\<lparr>Seq := seq,
                ContextHeader := mergeBreadcrumbs (ContextHeader parent) (ContextHeader sub)\<rparr>
      in \<lparr>cc_chunk = with_pages pg c, ParentIndex = parentIndex, ParentHash = HashText (Content parent)\<rparr>)"

fun children_of :: "pageMapper \<Rightarrow> splitChunk \<Rightarrow> int \<Rightarrow> int \<Rightarrow> splitChunk list \<Rightarrow> ChildChunk list" where
  "children_of pg parent parentIndex seq [] = []"
| "children_of pg parent parentIndex seq (sub # subs) =
     child_of pg parent parentIndex seq sub # children_of pg parent parentIndex (seq + 1) subs"

text \<open>A parent row is made only when its children are not just the parent again.\<close>

definition materialised :: "splitChunk \<Rightarrow> splitChunk list \<Rightarrow> bool" where
  "materialised parent subs \<longleftrightarrow> 1 < length subs \<or> (length subs = 1 \<and> Content (hd subs) \<noteq> Content parent)"

fun parents_from ::
  "pageMapper \<Rightarrow> SplitterConfig \<Rightarrow> int \<Rightarrow> int \<Rightarrow> splitChunk list \<Rightarrow> splitChunk list \<times> ChildChunk list" where
  "parents_from pg childCfg made seq [] = ([], [])"
| "parents_from pg childCfg made seq (parent # rest) =
     (let subs = Split (Content parent) childCfg;
          m = materialised parent subs;
          seq1 = (if m then seq + 1 else seq);
          kids = children_of pg parent (if m then made else -1) seq1 subs;
          (ps, cs) = parents_from pg childCfg (if m then made + 1 else made) (seq1 + int (length subs)) rest
      in ((if m then [with_pages pg (parent\<lparr>Seq := seq\<rparr>)] else []) @ ps, kids @ cs))"

definition SplitParentChild ::
  "rtext \<Rightarrow> int list \<Rightarrow> SplitterConfig \<Rightarrow> SplitterConfig \<Rightarrow> ParentChildResult" where
  "SplitParentChild markdown pages parentCfg0 childCfg0 =
     (if markdown = [] then \<lparr>pc_Parents = [], pc_Children = []\<rparr>
      else
        let parents = fst (SplitWithDiagnostics markdown (ensureDefaults parentCfg0));
            (ps, cs) = parents_from (newPageMapper markdown pages) (ensureDefaults childCfg0) 0 0 parents
        in \<lparr>pc_Parents = ps, pc_Children = cs\<rparr>)"

fun renumber_parents :: "int \<Rightarrow> splitChunk list \<Rightarrow> splitChunk list" where
  "renumber_parents seq [] = []"
| "renumber_parents seq (p # ps) = p\<lparr>Seq := seq\<rparr> # renumber_parents (seq + 1) ps"

fun renumber_children :: "int \<Rightarrow> ChildChunk list \<Rightarrow> ChildChunk list" where
  "renumber_children seq [] = []"
| "renumber_children seq (c # cs) = c\<lparr>cc_chunk := (cc_chunk c)\<lparr>Seq := seq\<rparr>\<rparr> # renumber_children (seq + 1) cs"

definition RenumberGlobal ::
  "splitChunk list \<Rightarrow> ChildChunk list \<Rightarrow> splitChunk list \<times> ChildChunk list \<times> int" where
  "RenumberGlobal parents children =
     (renumber_parents 0 parents, renumber_children (int (length parents)) children,
      int (length parents) + int (length children))"

end
