(* ===== verification/TierInv.thy ===== *)
theory TierInv
  imports Strategy
begin

text \<open>
  What every splitting tier promises, as an interface, and that the three tiers and their
  chain keep it: chunks are verbatim slices and no visible rune is lost.
\<close>

section \<open>The interface\<close>

text \<open>A configuration whose defaults are filled in and whose chunks fit the hard limit.\<close>

definition usable :: "SplitterConfig \<Rightarrow> bool" where
  "usable cfg \<longleftrightarrow> cf_ChunkSize (ensureDefaults cfg) = cf_ChunkSize cfg \<and> cf_ChunkSize cfg \<le> int absoluteMaxSize"

locale slicing =
  fixes run :: "rtext \<Rightarrow> SplitterConfig \<Rightarrow> splitChunk list"
  assumes slices: "usable cfg \<Longrightarrow> c \<in> set (run t cfg) \<Longrightarrow> verbatim t c"
    and complete: "usable cfg \<Longrightarrow> keeps_runes t (run t cfg) (length t)"
begin

lemma nothing_only_blank: "usable cfg \<Longrightarrow> run t cfg = [] \<Longrightarrow> \<forall>r \<in> set t. is_space r"
  using complete[of cfg t] by (auto simp: keeps_runes_def covered_def in_set_conv_nth)

text \<open>A chunk's own chunks are chunks of the document.\<close>

lemma remap_slices:
  assumes "usable cfg" "verbatim t p" "c \<in> set (run (Content p) cfg)"
  shows "verbatim t (remapChild c p)"
proof -
  have c: "verbatim (Content p) c" by (rule slices[OF assms(1,3)])
  let ?s = "SyntheticPrefixRunes p"
  have p: "drop ?s (Content p) = sub_text t (Start p) (End p)" "Start p \<le> End p" "End p \<le> length t" "?s \<le> length (Content p)"
    using assms(2) by (simp_all add: verbatim_def)
  have "length (drop ?s (Content p)) = End p - Start p" unfolding p(1) using p(3) by (rule sub_text_length)
  then have len: "length (Content p) = ?s + (End p - Start p)" using p(4) unfolding length_drop by linarith
  have body: "drop (SyntheticPrefixRunes c) (Content c) = sub_text (Content p) (Start c) (End c)"
    and c': "Start c \<le> End c" "End c \<le> length (Content p)" "SyntheticPrefixRunes c \<le> length (Content c)"
    using c by (simp_all add: verbatim_def)
  let ?k = "min (?s - Start c) (End c - Start c)"
  have "drop (SyntheticPrefixRunes c + ?k) (Content c) = drop ?k (sub_text (Content p) (Start c) (End c))"
    by (simp add: body[symmetric] add.commute)
  also have "\<dots> = sub_text (Content p) (Start c + ?k) (End c)" using c'(1) by (intro sub_text_drop) simp
  also have "\<dots> = sub_text t (Start p + (Start c - ?s)) (Start p + (End c - ?s))"
  proof (cases "End c \<le> ?s")
    case True
    then have "Start c + ?k = End c" "Start p + (Start c - ?s) = Start p + (End c - ?s)" using c'(1) by auto
    then show ?thesis by (simp add: sub_text_def)
  next
    case False
    then have k: "Start c + ?k = ?s + (Start c - ?s)" using c'(1) by auto
    have "sub_text (Content p) (?s + (Start c - ?s)) (End c)
      = take (End c - ?s - (Start c - ?s)) (drop (Start c - ?s) (drop ?s (Content p)))"
      by (simp add: sub_text_def add.commute)
    also have "\<dots> = take (End c - ?s - (Start c - ?s)) (drop (Start c - ?s) (sub_text t (Start p) (End p)))" by (simp add: p(1))
    also have "\<dots> = sub_text t (Start p + (Start c - ?s)) (Start p + (End c - ?s))"
      using False c' len by (simp add: sub_text_def drop_take add.commute min_def)
    finally show ?thesis unfolding k .
  qed
  finally have drop: "drop (SyntheticPrefixRunes c + ?k) (Content c)
    = sub_text t (Start p + (Start c - ?s)) (Start p + (End c - ?s))" .
  have "length (drop (SyntheticPrefixRunes c) (Content c)) = End c - Start c"
    unfolding body using c'(2) by (rule sub_text_length)
  then have bl: "length (Content c) = SyntheticPrefixRunes c + (End c - Start c)"
    using c'(3) unfolding length_drop by linarith
  have r: "remapChild c p = c\<lparr>Start := Start p + (Start c - ?s), End := Start p + (End c - ?s),
      SyntheticPrefixRunes := SyntheticPrefixRunes c + ?k\<rparr>"
    by (simp add: remapChild_def Let_def add.commute)
  show ?thesis
    unfolding r verbatim_def using drop bl c' p len by auto
qed

end

section \<open>The recursive splitter\<close>

lemma SplitText_emitted: "usable cfg \<Longrightarrow> emitted t (cf_ChunkSize cfg) (length t) (SplitText t cfg)"
  using SplitText_all(1)[of cfg t] by (simp add: usable_def)

interpretation legacy: slicing SplitText
proof
  show "verbatim t c" if "usable cfg" "c \<in> set (SplitText t cfg)" for cfg t c
    using SplitText_emitted[OF that(1), of t] that(2) by (simp add: emitted_def)
  show "keeps_runes t (SplitText t cfg) (length t)" if "usable cfg" for cfg t
    using SplitText_all(2)[of cfg t] that by (simp add: usable_def)
qed

section \<open>Sections\<close>

definition section_ok :: "rtext \<Rightarrow> int \<Rightarrow> nat \<Rightarrow> nat \<Rightarrow> splitChunk list \<Rightarrow> bool" where
  "section_ok t L a b cs \<longleftrightarrow>
     a \<le> b \<and> b \<le> length t
     \<and> (\<forall>c \<in> set cs. verbatim t c \<and> End c \<le> b)
     \<and> (\<forall>i. a \<le> i \<longrightarrow> i < b \<longrightarrow> \<not> is_space (t ! i) \<longrightarrow> covered cs i)
     \<and> apart_chain L cs \<and> (cs \<noteq> [] \<longrightarrow> 0 < SyntheticPrefixRunes (hd cs) \<longrightarrow> a < Start (hd cs))"

lemma covered_append [simp]: "covered (cs @ ds) i \<longleftrightarrow> covered cs i \<or> covered ds i"
  by (auto simp: covered_def)

lemma section_ok_append:
  assumes "section_ok t L a b cs" "section_ok t L b d ds"
  shows "section_ok t L a d (cs @ ds)"
proof -
  have "apart L (List.last cs) (hd ds)" if "cs \<noteq> []" "ds \<noteq> []"
  proof -
    have "End (List.last cs) \<le> b" using assms(1) that(1) by (simp add: section_ok_def)
    moreover have "0 < SyntheticPrefixRunes (hd ds) \<Longrightarrow> b < Start (hd ds)" using assms(2) that(2) by (simp add: section_ok_def)
    ultimately show ?thesis by (auto simp: apart_def)
  qed
  then have ap: "apart_chain L (cs @ ds)" using assms by (simp add: section_ok_def apart_chain_append)
  have cov: "covered (cs @ ds) i" if "a \<le> i" "i < d" "\<not> is_space (t ! i)" for i
  proof (cases "i < b")
    case True
    then have "covered cs i" using assms(1) that unfolding section_ok_def by blast
    then show ?thesis by simp
  next
    case False
    then have "covered ds i" using assms(2) that unfolding section_ok_def by (meson linorder_not_le)
    then show ?thesis by simp
  qed
  show ?thesis
    unfolding section_ok_def
  proof (intro conjI allI impI)
    show "a \<le> d" "d \<le> length t" using assms by (auto simp: section_ok_def)
    show "\<forall>c \<in> set (cs @ ds). verbatim t c \<and> End c \<le> d" 
    proof
      fix c assume "c \<in> set (cs @ ds)"
      then consider "c \<in> set cs" | "c \<in> set ds" by auto
      then show "verbatim t c \<and> End c \<le> d"
      proof cases
        case 1
        then have "verbatim t c" "End c \<le> b" using assms(1) unfolding section_ok_def by blast+
        moreover have "b \<le> d" using assms(2) by (simp add: section_ok_def)
        ultimately show ?thesis by simp
      next
        case 2
        then show ?thesis using assms(2) unfolding section_ok_def by blast
      qed
    qed
    show "apart_chain L (cs @ ds)" by (rule ap)
    show "covered (cs @ ds) i" if "a \<le> i" "i < d" "\<not> is_space (t ! i)" for i by (rule cov[OF that])
    show "a < Start (hd (cs @ ds))" if "cs @ ds \<noteq> []" "0 < SyntheticPrefixRunes (hd (cs @ ds))"
      using assms that by (cases cs) (auto simp: section_ok_def)
  qed
qed

lemma sub_text_sub: "e \<le> b - a \<Longrightarrow> sub_text (sub_text t a b) s e = sub_text t (a + s) (a + e)"
proof -
  assume e: "e \<le> b - a"
  have "sub_text (sub_text t a b) s e = take (e - s) (take (b - a - s) (drop (a + s) t))"
    by (simp add: sub_text_def drop_take add.commute)
  also have "\<dots> = take (e - s) (drop (a + s) t)" using e by (simp add: min_def)
  finally show ?thesis by (simp add: sub_text_def)
qed

lemma rebase_verbatim:
  assumes "\<forall>c \<in> set cs. verbatim (sub_text t a b) c" "a \<le> b" "b \<le> length t"
  shows "\<forall>c \<in> set (rebase a ctx seq cs). verbatim t c \<and> End c \<le> b"
  using assms(1)
proof (induction cs arbitrary: seq)
  case (Cons c cs)
  have "verbatim (sub_text t a b) c" using Cons.prems by simp
  then have c: "Start c \<le> End c" "End c \<le> b - a" "SyntheticPrefixRunes c \<le> length (Content c)"
    "drop (SyntheticPrefixRunes c) (Content c) = sub_text (sub_text t a b) (Start c) (End c)"
    using assms by (simp_all add: verbatim_def sub_text_length)
  have "a + End c \<le> b" using c(2) assms(2) by linarith
  moreover have "drop (SyntheticPrefixRunes c) (Content c) = sub_text t (a + Start c) (a + End c)"
    unfolding c(4) by (rule sub_text_sub[OF c(2)])
  moreover have "\<forall>c \<in> set (rebase a ctx (seq + 1) cs). verbatim t c \<and> End c \<le> b"
    by (rule Cons.IH) (use Cons.prems in simp)
  ultimately show ?case using c(1,3) assms(3) by (simp add: verbatim_def)
qed simp

lemma rebase_covered: "covered (rebase a ctx seq cs) (a + i) \<longleftrightarrow> covered cs i"
  by (induction cs arbitrary: seq) (auto simp: covered_def)

lemma rebase_apart: "apart_chain L cs \<Longrightarrow> apart_chain L (rebase a ctx seq cs)"
proof (induction L cs arbitrary: seq rule: apart_chain.induct)
  case (1 L c d cs)
  then show ?case using "1.IH"[of "seq + 1"] by (simp add: apart_def)
qed simp_all

lemma rebase_section:
  assumes u: "usable cfg" and ab: "a \<le> b" "b \<le> length t"
  shows "section_ok t (cf_ChunkSize cfg) a b (rebase a ctx seq (SplitText (sub_text t a b) cfg))"
proof -
  let ?s = "sub_text t a b"
  let ?cs = "SplitText ?s cfg"
  have em: "emitted ?s (cf_ChunkSize cfg) (length ?s) ?cs" by (rule SplitText_emitted[OF u])
  have keep: "keeps_runes ?s ?cs (length ?s)" by (rule legacy.complete[OF u])
  have len: "length ?s = b - a" using ab by (simp add: sub_text_length)
  have cov: "covered (rebase a ctx seq ?cs) i" if i: "a \<le> i" "i < b" "\<not> is_space (t ! i)" for i
  proof -
    have "?s ! (i - a) = t ! i" using i ab by (simp add: sub_text_def)
    then have "covered ?cs (i - a)" using keep i len unfolding keeps_runes_def by (metis diff_less_mono)
    then show ?thesis using rebase_covered[of a ctx seq ?cs "i - a"] i(1) by simp
  qed
  have hd: "a < Start (hd (rebase a ctx seq ?cs))"
    if "rebase a ctx seq ?cs \<noteq> []" "0 < SyntheticPrefixRunes (hd (rebase a ctx seq ?cs))"
    using em that by (cases ?cs) (auto simp: emitted_def first_apart_def)
  show ?thesis
    using rebase_verbatim[of ?cs t a b] rebase_apart em ab cov hd
    unfolding section_ok_def emitted_def by blast
qed

lemma whole_section:
  assumes "a \<le> b" "b \<le> length t"
  shows "section_ok t L a b [(plain_chunk (sub_text t a b) seq a b)\<lparr>ContextHeader := h\<rparr>]"
  using assms by (auto simp: section_ok_def verbatim_def covered_def plain_chunk_def)

lemma section_chunks_ok:
  assumes u: "usable cfg" and ab: "a \<le> b" "b \<le> length t"
  shows "section_ok t (cf_ChunkSize cfg) a b (section_chunks cfg p (sub_text t a b) h seq a)"
proof -
  have len: "a + length (sub_text t a b) = b" using ab by (simp add: sub_text_length)
  have "section_ok t (cf_ChunkSize cfg) a b []" if "sub_text t a b = []"
    using that len ab by (simp add: section_ok_def)
  then show ?thesis
    unfolding section_chunks_def Let_def len using whole_section[OF ab] rebase_section[OF u ab] by simp
qed

lemma heading_sections_ok:
  assumes u: "usable cfg"
  shows "sorted (map fst bs) \<Longrightarrow> \<forall>b \<in> set bs. fst b \<le> length t \<Longrightarrow> bs \<noteq> [] \<Longrightarrow>
    section_ok t (cf_ChunkSize cfg) (fst (hd bs)) (length t) (heading_sections cfg p t h seq bs)"
proof (induction bs arbitrary: h seq)
  case (Cons b bs)
  obtain a line where b: "b = (a, line)" by fastforce
  let ?e = "case bs of [] \<Rightarrow> length t | c # _ \<Rightarrow> fst c"
  let ?h = "if line \<noteq> [] then fst (Observe h line) else h"
  let ?out = "section_chunks cfg p (sub_text t a ?e) ?h seq a"
  have e: "a \<le> ?e" "?e \<le> length t" using Cons.prems by (auto simp: b split: list.split)
  have 1: "section_ok t (cf_ChunkSize cfg) a ?e ?out" by (rule section_chunks_ok[OF u e])
  show ?case
  proof (cases bs)
    case Nil
    then show ?thesis using 1 by (simp add: b Let_def)
  next
    case (Cons c cs)
    have "section_ok t (cf_ChunkSize cfg) ?e (length t) (heading_sections cfg p t g k bs)" for g k
      using Cons.IH[of g k] Cons.prems Cons by simp
    then show ?thesis using section_ok_append[OF 1] unfolding b heading_sections.simps Let_def by simp
  qed
qed simp

section \<open>Heading boundaries\<close>

lemma split_at_lengths: "sum_list (map (\<lambda>l. length l + 1) (split_at c t)) = length t + 1"
proof (induction t)
  case (Cons x t)
  then show ?case by (cases "split_at c t") auto
qed simp

lemma open_lines_range:
  "(p, l) \<in> set (open_lines_from f pos ls) \<Longrightarrow>
     pos \<le> p \<and> p + length l + 1 \<le> pos + sum_list (map (\<lambda>l. length l + 1) ls)"
  by (induction f pos ls rule: open_lines_from.induct) (fastforce split: if_splits)+

lemma open_lines_sorted: "sorted (map fst (open_lines_from f pos ls))"
proof (induction f pos ls rule: open_lines_from.induct)
  case (2 f pos line ls)
  have "pos \<le> p" if "(p, l) \<in> set (open_lines_from f (pos + length line + 1) ls)" for p l
    using open_lines_range[OF that] by simp
  then show ?case using 2 by auto
qed simp

lemma open_lines_within: "(p, l) \<in> set (open_lines t) \<Longrightarrow> p \<le> length t"
  using open_lines_range[of p l False 0 "split_at nl t"] split_at_lengths[of nl t] by (simp add: open_lines_def)

lemma add_boundary_fold:
  assumes "bs \<noteq> []" "fst (hd bs) = 0" "sorted (map fst bs @ map fst hs)"
  shows "foldl add_boundary bs hs \<noteq> [] \<and> fst (hd (foldl add_boundary bs hs)) = 0
    \<and> sorted (map fst (foldl add_boundary bs hs))
    \<and> fst ` set (foldl add_boundary bs hs) \<subseteq> fst ` set (bs @ hs)"
  using assms
proof (induction hs arbitrary: bs)
  case (Cons h hs)
  have fs: "map fst (add_boundary bs h) = (if 0 < fst h then map fst bs @ [fst h] else map fst bs)"
    using Cons.prems(1,2) by (cases bs) (auto simp: add_boundary_def)
  have ne: "add_boundary bs h \<noteq> []" using Cons.prems(1) by (auto simp: add_boundary_def)
  have hd: "fst (hd (add_boundary bs h)) = 0" using Cons.prems(1,2) by (cases bs) (auto simp: add_boundary_def)
  have so: "sorted (map fst (add_boundary bs h) @ map fst hs)"
    using Cons.prems(3) unfolding fs by (auto simp: sorted_append)
  have sub: "set (map fst (add_boundary bs h @ hs)) \<subseteq> set (map fst (bs @ h # hs))"
    unfolding map_append fs by auto
  note ih = Cons.IH[OF ne hd so]
  have "fst ` set (foldl add_boundary (add_boundary bs h) hs) \<subseteq> fst ` set (bs @ h # hs)"
    by (rule order_trans[OF conjunct2[OF conjunct2[OF conjunct2[OF ih]]]]) (use sub in \<open>simp only: list.set_map\<close>)
  then show ?case using ih by (simp only: foldl_Cons simp_thms)
qed simp

lemma heading_boundaries_ok:
  "findHeadingBoundaries t p \<noteq> [] \<and> fst (hd (findHeadingBoundaries t p)) = 0
   \<and> sorted (map fst (findHeadingBoundaries t p)) \<and> (\<forall>b \<in> set (findHeadingBoundaries t p). fst b \<le> length t)"
proof -
  let ?P = "\<lambda>(pos, line). 1 \<le> heading_level line \<and> heading_level line \<le> p"
  let ?hs = "filter ?P (open_lines t)"
  have "sorted (map fst ?hs)" using open_lines_sorted[of False 0] by (simp add: open_lines_def sorted_filter)
  then have "sorted (map fst [(0, [])] @ map fst ?hs)" by (simp add: sorted_append)
  from add_boundary_fold[OF _ _ this]
  have r: "findHeadingBoundaries t p \<noteq> [] \<and> fst (hd (findHeadingBoundaries t p)) = 0
    \<and> sorted (map fst (findHeadingBoundaries t p)) \<and> fst ` set (findHeadingBoundaries t p) \<subseteq> fst ` set ([(0, [])] @ ?hs)"
    unfolding findHeadingBoundaries_def by simp
  moreover have "\<forall>x \<in> fst ` set ([(0, [])] @ ?hs). x \<le> length t" using open_lines_within by fastforce
  ultimately show ?thesis by blast
qed

section \<open>Joining tiny chunks\<close>

lemma coalesce_ok:
  assumes "verbatim t cur" "\<forall>c \<in> set cs. verbatim t c" "apart_chain L cs" "cs \<noteq> [] \<Longrightarrow> apart L cur (hd cs)"
    and "n = int (length (Content cur))"
  shows "(\<forall>c \<in> set (coalesce g L cur n cs). verbatim t c)
    \<and> (\<forall>i. covered (cur # cs) i \<longrightarrow> covered (coalesce g L cur n cs) i)"
  using assms
proof (induction cs arbitrary: cur n)
  case (Cons c cs)
  let ?h = "commonHeadingPrefix (ContextHeader cur) (ContextHeader c)"
  let ?m = "cur\<lparr>Content := Content cur @ Content c, ContextHeader := ?h, End := End c\<rparr>"
  have v: "verbatim t c" "apart_chain L cs" "cs \<noteq> [] \<Longrightarrow> apart L c (hd cs)"
    using Cons.prems(2,3) by (cases cs; simp)+
  show ?case
  proof (cases "?h \<noteq> [] \<and> End cur = Start c \<and> n < g \<and> n + int (length (Content c)) \<le> L")
    case True
    then have z: "SyntheticPrefixRunes c = 0" using Cons.prems(4,5) by (auto simp: apart_def)
    have "drop (SyntheticPrefixRunes cur) (Content cur @ Content c) = sub_text t (Start cur) (End cur) @ sub_text t (Start c) (End c)"
      using Cons.prems(1) v(1) z by (simp add: verbatim_def)
    also have "\<dots> = sub_text t (Start cur) (End c)"
      using True Cons.prems(1) v(1) by (simp add: verbatim_def sub_text_append)
    finally have vm: "verbatim t ?m" using Cons.prems(1) v(1) True by (simp add: verbatim_def)
    have am: "cs \<noteq> [] \<Longrightarrow> apart L ?m (hd cs)" using v(3) by (auto simp: apart_def)
    have r: "coalesce g L cur n (c # cs) = coalesce g L ?m (n + int (length (Content c))) cs" using True by (simp add: Let_def)
    have cov: "covered (cur # c # cs) i \<Longrightarrow> covered (?m # cs) i" for i
      using True Cons.prems(1) v(1) by (fastforce simp: covered_def verbatim_def)
    show ?thesis
      unfolding r using Cons.IH[OF vm _ v(2) am, of "n + int (length (Content c))"] Cons.prems(2,5) cov by simp
  next
    case False
    have r: "coalesce g L cur n (c # cs) = cur # coalesce g L c (int (length (Content c))) cs" using False by (auto simp: Let_def)
    show ?thesis
      unfolding r using Cons.IH[OF v(1) _ v(2,3) refl] Cons.prems(1,2) by (auto simp: covered_def)
  qed
qed simp

lemma verbatim_Seq [simp]: "verbatim t (c\<lparr>Seq := n\<rparr>) = verbatim t c"
  by (simp add: verbatim_def)

lemma renumber_set: "c \<in> set (renumber cs) \<Longrightarrow> \<exists>d \<in> set cs. \<exists>n. c = d\<lparr>Seq := n\<rparr>"
  by (auto simp: renumber_def dest!: set_zip_rightD)

lemma renumber_verbatim: "\<forall>c \<in> set cs. verbatim t c \<Longrightarrow> \<forall>c \<in> set (renumber cs). verbatim t c"
  using renumber_set by fastforce

lemma renumber_covered: "covered (renumber cs) i \<longleftrightarrow> covered cs i"
proof -
  have "covered (map (\<lambda>(k, c). c\<lparr>Seq := int k\<rparr>) (zip ks cs)) i = covered cs i" if "length ks = length cs" for ks
    using that by (induction ks cs rule: list_induct2) (auto simp: covered_def)
  then show ?thesis by (simp add: renumber_def)
qed

lemma coalesceTinyChunks_ok:
  assumes "section_ok t L 0 (length t) cs"
  shows "(\<forall>c \<in> set (coalesceTinyChunks cs L). verbatim t c) \<and> keeps_runes t (coalesceTinyChunks cs L) (length t)"
proof (cases "L \<le> 0 \<or> length cs \<le> 1")
  case True
  then have "coalesceTinyChunks cs L = cs" by (auto simp: coalesceTinyChunks_def split: list.split)
  then show ?thesis using assms by (simp add: section_ok_def keeps_runes_def)
next
  case False
  then obtain c d ds where cs: "cs = c # d # ds" by (metis One_nat_def le_Suc_eq length_0_conv length_Suc_conv list.exhaust zero_le)
  let ?n = "int (length (Content c))"
  have r: "coalesceTinyChunks cs L = renumber (coalesce (max 200 (go_div L 2)) L c ?n (d # ds))"
    using False by (simp add: cs coalesceTinyChunks_def)
  have "(\<forall>c \<in> set (coalesce (max 200 (go_div L 2)) L c ?n (d # ds)). verbatim t c)
    \<and> (\<forall>i. covered (c # d # ds) i \<longrightarrow> covered (coalesce (max 200 (go_div L 2)) L c ?n (d # ds)) i)"
    by (rule coalesce_ok) (use assms in \<open>auto simp: section_ok_def cs\<close>)
  then show ?thesis
    unfolding r keeps_runes_def renumber_covered
    using assms[unfolded section_ok_def] renumber_verbatim unfolding cs by blast
qed

interpretation heading: slicing "\<lambda>t cfg. splitByHeadingsImpl t cfg profile"
proof -
  have "(\<forall>c \<in> set (splitByHeadingsImpl t cfg profile). verbatim t c)
      \<and> keeps_runes t (splitByHeadingsImpl t cfg profile) (length t)" if u: "usable cfg" for t cfg
  proof -
    let ?p = "DominantHeadingLevel (case profile of None \<Rightarrow> ProfileDocument t | Some p \<Rightarrow> p)"
    have "section_ok t (cf_ChunkSize cfg) 0 (length t)
        (heading_sections cfg ?p t NewHeadingHierarchy 0 (findHeadingBoundaries t ?p))"
      using heading_sections_ok[OF u] heading_boundaries_ok[of t ?p] by metis
    from coalesceTinyChunks_ok[OF this] show ?thesis
      using legacy.slices[OF u] legacy.complete[OF u]
      unfolding splitByHeadingsImpl_def Let_def by (simp add: keeps_runes_def)
  qed
  then show "slicing (\<lambda>t cfg. splitByHeadingsImpl t cfg profile)" by unfold_locales blast+
qed

section \<open>Blocks\<close>

text \<open>The text below \<open>bp_chunkStart\<close> is in the chunks, but for white space.\<close>

definition blocks_ok :: "rtext \<Rightarrow> block_packer \<Rightarrow> bool" where
  "blocks_ok t p \<longleftrightarrow>
     bp_chunkStart p \<le> bp_curEnd p \<and> bp_curEnd p \<le> length t
     \<and> (\<forall>c \<in> set (bp_out p). verbatim t c) \<and> keeps_runes t (bp_out p) (bp_chunkStart p)"

lemma keeps_runes_extend:
  assumes "keeps_runes t cs a" "\<And>i. a \<le> i \<Longrightarrow> i < b \<Longrightarrow> \<not> is_space (t ! i) \<Longrightarrow> covered ds i"
  shows "keeps_runes t (cs @ ds) b"
  using assms unfolding keeps_runes_def covered_append by (metis linorder_not_le)

lemma appendChunk_ok:
  assumes "\<forall>c \<in> set out. verbatim t c" "keeps_runes t out a" "a \<le> b" "b \<le> length t"
  shows "(\<forall>c \<in> set (fst (appendChunk out t a b seq)). verbatim t c)
    \<and> keeps_runes t (fst (appendChunk out t a b seq)) b"
proof -
  consider "b \<le> a" | "a < b" "TrimSpace (sub_text t a b) = []" | "a < b" "TrimSpace (sub_text t a b) \<noteq> []" by linarith
  then show ?thesis
  proof cases
    case 1
    then show ?thesis using assms by (auto simp: appendChunk_def)
  next
    case 2
    have "is_space (t ! i)" if "a \<le> i" "i < b" for i
      using 2(2) sub_text_mem[OF that assms(4)] by (simp add: TrimSpace_nil)
    then have "keeps_runes t out b" using assms(2) by (meson keeps_runes_def linorder_not_le)
    then show ?thesis using 2 assms(1) by (simp add: appendChunk_def)
  next
    case 3
    have r: "fst (appendChunk out t a b seq) = out @ [plain_chunk (sub_text t a b) seq a b]"
      using 3 by (simp add: appendChunk_def Let_def)
    have "keeps_runes t (out @ [plain_chunk (sub_text t a b) seq a b]) b"
      by (rule keeps_runes_extend[OF assms(2)]) (simp add: covered_def plain_chunk_def)
    then show ?thesis using assms unfolding r by (simp add: verbatim_def plain_chunk_def)
  qed
qed

lemma appendOversizeBlock_ok:
  assumes "usable cfg" "\<forall>c \<in> set out. verbatim t c" "keeps_runes t out a" "a \<le> b" "b \<le> length t"
  shows "(\<forall>c \<in> set (fst (appendOversizeBlock out t a b cfg seq)). verbatim t c)
    \<and> keeps_runes t (fst (appendOversizeBlock out t a b cfg seq)) b"
proof (cases "b \<le> a")
  case True
  then show ?thesis using assms by (simp add: appendOversizeBlock_def)
next
  case False
  let ?cs = "rebase a ContextHeader seq (SplitText (sub_text t a b) cfg)"
  have r: "fst (appendOversizeBlock out t a b cfg seq) = out @ ?cs" using False by (simp add: appendOversizeBlock_def Let_def)
  have s: "section_ok t (cf_ChunkSize cfg) a b ?cs" by (rule rebase_section[OF assms(1,4,5)])
  have "keeps_runes t (out @ ?cs) b" by (rule keeps_runes_extend[OF assms(3)]) (use s in \<open>simp add: section_ok_def\<close>)
  then show ?thesis using assms(2) s unfolding r section_ok_def by auto
qed

lemma foldl_max_less: "\<forall>x \<in> set xs. x < n \<Longrightarrow> m < n \<Longrightarrow> foldl max m xs < (n :: nat)"
  by (induction xs arbitrary: m) auto

lemma overlap_start_le: "applyOverlapAligned t curEnd overlap bounds \<le> curEnd"
proof -
  let ?target = "nat (max 0 (int curEnd - overlap))" and ?w = "nat (max 0 (int curEnd - 2 * overlap))"
  let ?near = "filter (\<lambda>b. ?w \<le> b \<and> b < curEnd) (map fst bounds)"
  let ?nls = "filter (\<lambda>i. t ! i = nl) (rev [Suc ?w..<Suc ?target])"
  consider "overlap \<le> 0" | "0 < overlap" "?near \<noteq> []" | "0 < overlap" "?near = []" by linarith
  then show ?thesis
  proof cases
    case 2
    then obtain b where "b \<in> set ?near" by fastforce
    then have "0 < curEnd" by simp
    then have "foldl max 0 ?near < curEnd" by (intro foldl_max_less) auto
    then show ?thesis using 2 by (simp add: applyOverlapAligned_def Let_def)
  next
    case 3
    have t: "?target \<le> curEnd" using 3(1) by simp
    have "i + 1 \<le> curEnd" if "?nls = i # is" for i "is"
    proof -
      have "i \<in> set ?nls" unfolding that by simp
      then have "Suc ?w \<le> i" "i < Suc ?target" unfolding set_filter set_rev set_upt by auto
      then show ?thesis using 3(1) by linarith
    qed
    then have "(case ?nls of [] \<Rightarrow> ?target | i # _ \<Rightarrow> i + 1) \<le> curEnd"
      using t by (cases ?nls) (simp only: list.case, simp only: list.case)
    then show ?thesis
      using 3 t unfolding applyOverlapAligned_def Let_def by (simp only: not_le[symmetric] if_False if_True simp_thms split: if_split)
  qed (simp add: applyOverlapAligned_def)
qed

lemma pack_block_ok:
  assumes u: "usable cfg" and p: "blocks_ok t p" and n: "bp_curEnd p \<le> n" "n \<le> length t"
  shows "blocks_ok t (pack_block t cfg bounds p n) \<and> bp_curEnd (pack_block t cfg bounds p n) = n"
proof -
  let ?e = "bp_curEnd p" and ?s = "bp_chunkStart p"
  have p': "?s \<le> ?e" "?e \<le> length t" "\<forall>c \<in> set (bp_out p). verbatim t c" "keeps_runes t (bp_out p) ?s"
    using p by (simp_all add: blocks_ok_def)
  note ac = appendChunk_ok[OF p'(3,4,1,2), of "bp_seq p"]
  consider "cf_ChunkSize cfg < int n - int ?e"
    | "\<not> cf_ChunkSize cfg < int n - int ?e" "cf_ChunkSize cfg < int n - int ?s \<and> min_chunk_size cfg \<le> int ?e - int ?s"
    | "\<not> cf_ChunkSize cfg < int n - int ?e" "\<not> (cf_ChunkSize cfg < int n - int ?s \<and> min_chunk_size cfg \<le> int ?e - int ?s)"
    by blast
  then show ?thesis
  proof cases
    case 1
    obtain o1 s1 where 1: "(if 0 < int ?e - int ?s then appendChunk (bp_out p) t ?s ?e (bp_seq p) else (bp_out p, bp_seq p)) = (o1, s1)"
      by fastforce
    have o1: "(\<forall>c \<in> set o1. verbatim t c) \<and> keeps_runes t o1 ?e"
      using 1 ac p' by (auto split: if_splits)
    obtain o2 s2 where 2: "appendOversizeBlock o1 t ?e n cfg s1 = (o2, s2)" by fastforce
    have o2: "(\<forall>c \<in> set o2. verbatim t c) \<and> keeps_runes t o2 n"
      using appendOversizeBlock_ok[OF u conjunct1[OF o1] conjunct2[OF o1] n, of s1] by (simp add: 2)
    have "pack_block t cfg bounds p n = \<lparr>bp_out = o2, bp_seq = s2, bp_chunkStart = n, bp_curEnd = n\<rparr>"
      using \<open>cf_ChunkSize cfg < int n - int ?e\<close> 1 2 by (simp add: pack_block_def Let_def)
    then show ?thesis using o2 n by (simp add: blocks_ok_def)
  next
    case 2
    obtain o1 s1 where 1: "appendChunk (bp_out p) t ?s ?e (bp_seq p) = (o1, s1)" by fastforce
    have "pack_block t cfg bounds p n = \<lparr>bp_out = o1, bp_seq = s1,
        bp_chunkStart = applyOverlapAligned t ?e (cf_ChunkOverlap cfg) bounds, bp_curEnd = n\<rparr>"
      using 2 1 by (simp add: pack_block_def Let_def)
    moreover have "keeps_runes t o1 (applyOverlapAligned t ?e (cf_ChunkOverlap cfg) bounds)"
      using ac overlap_start_le[of t ?e "cf_ChunkOverlap cfg" bounds] unfolding 1 keeps_runes_def by simp
    moreover have "applyOverlapAligned t ?e (cf_ChunkOverlap cfg) bounds \<le> n" using overlap_start_le n(1) le_trans by blast
    ultimately show ?thesis using ac n(2) by (simp add: blocks_ok_def 1)
  next
    case 3
    then have "pack_block t cfg bounds p n = p\<lparr>bp_curEnd := n\<rparr>" by (auto simp: pack_block_def Let_def)
    then show ?thesis using p' n by (simp add: blocks_ok_def)
  qed
qed

lemma pack_blocks_ok:
  assumes u: "usable cfg"
  shows "blocks_ok t p \<Longrightarrow> sorted (bp_curEnd p # ns) \<Longrightarrow> \<forall>n \<in> set ns. n \<le> length t \<Longrightarrow>
    blocks_ok t (foldl (pack_block t cfg bounds) p ns)
    \<and> bp_curEnd (foldl (pack_block t cfg bounds) p ns) = List.last (bp_curEnd p # ns)"
proof (induction ns arbitrary: p)
  case (Cons n ns)
  have s: "blocks_ok t (pack_block t cfg bounds p n)" "bp_curEnd (pack_block t cfg bounds p n) = n"
    using pack_block_ok[OF u Cons.prems(1)] Cons.prems(2,3) by auto
  show ?case using Cons.IH[OF s(1)] s(2) Cons.prems(2,3) by simp
qed simp

lemma heuristic_bounds: "sorted (map fst (findHeuristicBoundaries t langs)) \<and> (\<forall>b \<in> set (findHeuristicBoundaries t langs). fst b \<le> length t)"
proof -
  have d: "map fst (dedupe_bounds bs) = sorted_list_of_set (fst ` set bs)" for bs
    by (simp add: dedupe_bounds_def comp_def)
  have r: "fst b \<le> length t" if "b \<in> set (line_boundary ps l)" "l \<in> set (open_lines t)" for b ps l
  proof -
    have "fst b = fst l" using that(1) by (cases l) (auto simp: line_boundary_def split: if_splits)
    then show ?thesis using open_lines_within[of "fst l" "snd l"] that(2) by simp
  qed
  let ?bs = "map (\<lambda>i. (i, PrioFormFeed)) (allRuneIndices t 12)
      @ concat (map (line_boundary (ChapterPatternsForLangs langs)) (open_lines t))
      @ map (\<lambda>(a, b). (b, PrioBlankBlock)) (FindAllStringIndex ExcessiveBlanksPattern t)"
  have "\<forall>b \<in> set ?bs. fst b \<le> length t"
    using r FindAllStringIndex_range[of _ _ ExcessiveBlanksPattern t] by (fastforce simp: allRuneIndices_def)
  then have "\<forall>x \<in> set (map fst (dedupe_bounds ?bs)). x \<le> length t" unfolding d by auto
  then have "\<forall>b \<in> set (dedupe_bounds ?bs). fst b \<le> length t" by simp
  moreover have "sorted (map fst (dedupe_bounds ?bs))" unfolding d by simp
  ultimately show ?thesis unfolding findHeuristicBoundaries_def by blast
qed

lemma sorted_last: "sorted xs \<Longrightarrow> xs \<noteq> [] \<Longrightarrow> \<forall>x \<in> set xs. x \<le> List.last xs"
  by (induction xs) auto

lemma heuristic_blocks:
  assumes u: "usable cfg" and bs: "sorted (map fst bs)" "\<forall>b \<in> set bs. fst b \<le> length t" "bs \<noteq> []" "fst (hd bs) = 0"
  shows "blocks_ok t (foldl (pack_block t cfg all) \<lparr>bp_out = [], bp_seq = 0, bp_chunkStart = 0, bp_curEnd = 0\<rparr> (map fst (tl bs)))
    \<and> bp_curEnd (foldl (pack_block t cfg all) \<lparr>bp_out = [], bp_seq = 0, bp_chunkStart = 0, bp_curEnd = 0\<rparr> (map fst (tl bs)))
        = fst (List.last bs)"
proof -
  let ?p = "\<lparr>bp_out = [], bp_seq = 0, bp_chunkStart = 0, bp_curEnd = 0\<rparr> :: block_packer"
  have ms: "map fst bs = 0 # map fst (tl bs)" using bs(3,4) by (cases bs) auto
  have "blocks_ok t ?p" by (simp add: blocks_ok_def keeps_runes_def)
  moreover have "sorted (bp_curEnd ?p # map fst (tl bs))" using bs(1) unfolding ms by simp
  moreover have "\<forall>n \<in> set (map fst (tl bs)). n \<le> length t" using bs(2,3) by (auto dest: list.set_sel(2))
  moreover have "List.last (bp_curEnd ?p # map fst (tl bs)) = fst (List.last bs)"
    using ms bs(3) by (metis block_packer.select_convs(4) last_map)
  ultimately show ?thesis using pack_blocks_ok[OF u, of t ?p "map fst (tl bs)" all] by simp
qed

lemma finish_blocks:
  assumes "blocks_ok t p" "bp_curEnd p = length t"
  shows "(\<forall>c \<in> set (if bp_chunkStart p < bp_curEnd p
            then fst (appendChunk (bp_out p) t (bp_chunkStart p) (bp_curEnd p) (bp_seq p)) else bp_out p). verbatim t c)
    \<and> keeps_runes t (if bp_chunkStart p < bp_curEnd p
            then fst (appendChunk (bp_out p) t (bp_chunkStart p) (bp_curEnd p) (bp_seq p)) else bp_out p) (length t)"
  using appendChunk_ok[of "bp_out p" t "bp_chunkStart p" "bp_curEnd p" "bp_seq p"] assms by (auto simp: blocks_ok_def)

interpretation heuristic: slicing splitByHeuristicsImpl
proof -
  have "(\<forall>c \<in> set (splitByHeuristicsImpl t cfg). verbatim t c)
      \<and> keeps_runes t (splitByHeuristicsImpl t cfg) (length t)" if u: "usable cfg" for t cfg
  proof -
    define found where "found = dropBoundsInsideSpans (findHeuristicBoundaries t (cf_Languages cfg)) (protectedSpansRune t (protectedSpans t))"
    define bs where "bs = (if fst (hd (found @ [(length t, 0)])) \<noteq> 0 then (0, 0) # found @ [(length t, 0)] else found @ [(length t, 0)])"
    define p where "p = foldl (pack_block t cfg bs) \<lparr>bp_out = [], bp_seq = 0, bp_chunkStart = 0, bp_curEnd = 0\<rparr> (map fst (tl bs))"
    have f: "sorted (map fst found)" "\<forall>b \<in> set found. fst b \<le> length t"
      using heuristic_bounds[of t "cf_Languages cfg"] by (auto simp: found_def dropBoundsInsideSpans_def sorted_filter)
    have e: "sorted (map fst (found @ [(length t, 0)]))" using f by (auto simp: sorted_append)
    have bs: "sorted (map fst bs)" "\<forall>b \<in> set bs. fst b \<le> length t" "bs \<noteq> []" "fst (hd bs) = 0" "fst (List.last bs) = length t"
      using e f by (auto simp: bs_def)
    have p: "blocks_ok t p" "bp_curEnd p = length t" using heuristic_blocks[OF u bs(1-4), of bs] bs(5) by (simp_all add: p_def)
    note fin = finish_blocks[OF p]
    have r: "splitByHeuristicsImpl t cfg =
      (if t = [] then [] else if int (length t) \<le> cf_ChunkSize cfg \<or> found = [] then SplitText t cfg
       else if bp_chunkStart p < bp_curEnd p
       then fst (appendChunk (bp_out p) t (bp_chunkStart p) (bp_curEnd p) (bp_seq p)) else bp_out p)"
      unfolding splitByHeuristicsImpl_def Let_def found_def[symmetric] bs_def[symmetric] bs(4) p_def[symmetric] by simp
    consider "t = []" | "t \<noteq> []" "int (length t) \<le> cf_ChunkSize cfg \<or> found = []"
      | "t \<noteq> []" "\<not> (int (length t) \<le> cf_ChunkSize cfg \<or> found = [])" by blast
    then show ?thesis
    proof cases
      case 1
      then show ?thesis unfolding r by (simp add: keeps_runes_def)
    next
      case 2
      then show ?thesis unfolding r using legacy.slices[OF u] legacy.complete[OF u] by simp
    next
      case 3
      then show ?thesis unfolding r if_not_P[OF 3(1)] if_not_P[OF 3(2)] by (intro fin)
    qed
  qed
  then show "slicing splitByHeuristicsImpl" by unfold_locales blast+
qed

section \<open>The chain\<close>

lemma try_tiers_won: "try_tiers run validate chain = (Some (out, tier), r, l) \<Longrightarrow> out = run tier"
  by (induction chain arbitrary: r l) (auto simp: Let_def split: verdict.splits prod.splits)

lemma try_tiers_last: "try_tiers run validate chain = (won, r, l) \<Longrightarrow> l = [] \<or> l = run TierLegacy"
  by (induction chain arbitrary: won r l) (auto simp: Let_def split: verdict.splits prod.splits if_splits)

lemma runTier_ok:
  "usable cfg \<Longrightarrow> (\<forall>c \<in> set (runTier tier t cfg profile). verbatim t c) \<and> keeps_runes t (runTier tier t cfg profile) (length t)"
  using legacy.slices legacy.complete heading.slices heading.complete heuristic.slices heuristic.complete
  unfolding runTier_def by (cases tier) auto

lemma ensureDefaults_size:
  "cf_ChunkSize (ensureDefaults cfg) =
     (let n = (if cf_ChunkSize cfg \<le> 0 then DefaultChunkSize else cf_ChunkSize cfg)
      in if 0 < cf_TokenLimit cfg \<and> 0 < token_budget cfg \<and> token_budget cfg < n then token_budget cfg else n)"
  by (simp add: ensureDefaults_def NormalizeConfig_def token_budget_def Let_def)

lemma ensureDefaults_budget:
  "cf_TokenLimit (ensureDefaults cfg) = cf_TokenLimit cfg" "token_budget (ensureDefaults cfg) = token_budget cfg"
  by (simp_all add: ensureDefaults_def NormalizeConfig_def token_budget_def Let_def)

lemma ensureDefaults_twice: "cf_ChunkSize (ensureDefaults (ensureDefaults cfg)) = cf_ChunkSize (ensureDefaults cfg)"
  by (subst (1 2) ensureDefaults_size) (auto simp: ensureDefaults_budget ensureDefaults_size DefaultChunkSize_def Let_def)

lemma usable_defaults: "cf_ChunkSize (ensureDefaults cfg) \<le> int absoluteMaxSize \<Longrightarrow> usable (ensureDefaults cfg)"
  by (simp add: usable_def ensureDefaults_twice)

text \<open>What \<open>Split\<close> returns is the output of one of its tiers.\<close>

lemma Split_tier:
  assumes "t \<noteq> []"
  shows "\<exists>tier profile. Split t cfg = runTier tier t (ensureDefaults cfg) profile"
proof -
  let ?cfg = "ensureDefaults cfg"
  obtain chain profile where c: "resolveChainWithProfile t ?cfg = (chain, profile)" by fastforce
  let ?run = "\<lambda>tier. runTier tier t ?cfg profile"
  let ?val = "\<lambda>out. ValidateChunks out (int (length t)) (cf_ChunkSize ?cfg)"
  obtain won r l where w: "try_tiers ?run ?val chain = (won, r, l)" by (cases "try_tiers ?run ?val chain") auto
  have s: "Split t cfg = (case won of Some (out, tier) \<Rightarrow> out | None \<Rightarrow> if l \<noteq> [] then l else SplitText t ?cfg)"
    using assms w c by (auto simp: Split_def SplitWithDiagnostics_def Let_def split: option.split)
  have leg: "?run TierLegacy = SplitText t ?cfg" by (simp add: runTier_def)
  show ?thesis
  proof (cases won)
    case None
    then have "Split t cfg = ?run TierLegacy" using s try_tiers_last[OF w] leg by auto
    then show ?thesis by blast
  next
    case (Some ot)
    obtain out tier where ot: "ot = (out, tier)" by fastforce
    then have "Split t cfg = ?run tier" using s Some try_tiers_won[of ?run ?val chain out tier r l] w by simp
    then show ?thesis by blast
  qed
qed

lemma Split_nil: "Split [] cfg = []"
  by (simp add: Split_def SplitWithDiagnostics_def)

lemma Split_ok:
  assumes "cf_ChunkSize (ensureDefaults cfg) \<le> int absoluteMaxSize"
  shows "(\<forall>c \<in> set (Split t cfg). verbatim t c) \<and> keeps_runes t (Split t cfg) (length t)"
proof (cases "t = []")
  case False
  then show ?thesis using Split_tier[of t cfg] runTier_ok[OF usable_defaults[OF assms], of _ t] by metis
qed (simp add: Split_nil keeps_runes_def)

interpretation split: slicing Split
proof
  show "verbatim t c" if "usable cfg" "c \<in> set (Split t cfg)" for cfg t c
    using Split_ok[of cfg t] that by (simp add: usable_def)
  show "keeps_runes t (Split t cfg) (length t)" if "usable cfg" for cfg t
    using Split_ok[of cfg t] that by (simp add: usable_def)
qed

section \<open>Parents and children\<close>

lemma verbatim_pages [simp]: "verbatim t (with_pages pg c) = verbatim t c"
  by (simp add: verbatim_def with_pages_def)

lemma verbatim_context [simp]: "verbatim t (c\<lparr>Seq := n, ContextHeader := h\<rparr>) = verbatim t c"
  by (simp add: verbatim_def)

lemma children_of_set:
  "k \<in> set (children_of pg p i seq subs) \<Longrightarrow> \<exists>c \<in> set subs. \<exists>n. k = child_of pg p i n c"
  by (induction subs arbitrary: seq) auto

lemma children_of_mem:
  "c \<in> set subs \<Longrightarrow> \<exists>n. child_of pg p i n c \<in> set (children_of pg p i seq subs)"
proof (induction subs arbitrary: seq)
  case (Cons a subs)
  show ?case
  proof (cases "c = a")
    case True
    then show ?thesis by (intro exI[of _ seq]) simp
  next
    case False
    then show ?thesis using Cons.prems Cons.IH[of "seq + 1"] by auto
  qed
qed simp

lemma parents_from_snd:
  "snd (parents_from pg cfg made seq (p # ps)) =
     (let subs = Split (Content p) cfg; m = materialised p subs; seq1 = (if m then seq + 1 else seq)
      in children_of pg p (if m then made else -1) seq1 subs
         @ snd (parents_from pg cfg (if m then made + 1 else made) (seq1 + int (length subs)) ps))"
  by (simp add: Let_def split: prod.split)

lemma parents_from_children:
  "k \<in> set (snd (parents_from pg cfg made seq ps)) \<Longrightarrow>
     \<exists>p \<in> set ps. \<exists>c \<in> set (Split (Content p) cfg). \<exists>i n. k = child_of pg p i n c"
proof (induction ps arbitrary: made seq)
  case (Cons p ps)
  let ?subs = "Split (Content p) cfg"
  consider i n where "k \<in> set (children_of pg p i n ?subs)"
    | i n where "k \<in> set (snd (parents_from pg cfg i n ps))"
    using Cons.prems unfolding parents_from_snd Let_def set_append by blast
  then show ?case
  proof cases
    case 1
    then show ?thesis using children_of_set by (metis list.set_intros(1))
  next
    case 2
    then show ?thesis using Cons.IH by (metis list.set_intros(2))
  qed
qed simp

lemma parents_from_complete:
  "p \<in> set ps \<Longrightarrow> c \<in> set (Split (Content p) cfg) \<Longrightarrow>
     \<exists>i n. child_of pg p i n c \<in> set (snd (parents_from pg cfg made seq ps))"
proof (induction ps arbitrary: made seq)
  case (Cons q ps)
  show ?case
  proof (cases "p = q")
    case True
    then show ?thesis
      using children_of_mem[OF Cons.prems(2)] unfolding parents_from_snd Let_def set_append True by (meson UnI1)
  next
    case False
    then have "p \<in> set ps" using Cons.prems(1) by simp
    then show ?thesis using Cons.IH[OF _ Cons.prems(2)] unfolding parents_from_snd Let_def set_append by (meson UnI2)
  qed
qed simp

lemma child_covers:
  assumes "verbatim t p" "verbatim (Content p) c" "Start p \<le> i" "i < End p"
    and "Start c \<le> SyntheticPrefixRunes p + (i - Start p)" "SyntheticPrefixRunes p + (i - Start p) < End c"
  shows "Start (remapChild c p) \<le> i \<and> i < End (remapChild c p)"
  using assms(3-6) by (auto simp: remapChild_def Let_def)

lemma verbatim_nth:
  assumes "verbatim t p" "Start p \<le> i" "i < End p"
  shows "SyntheticPrefixRunes p + (i - Start p) < length (Content p)
    \<and> Content p ! (SyntheticPrefixRunes p + (i - Start p)) = t ! i"
proof -
  have d: "drop (SyntheticPrefixRunes p) (Content p) = sub_text t (Start p) (End p)" and e: "End p \<le> length t"
    and s: "SyntheticPrefixRunes p \<le> length (Content p)"
    using assms(1) by (simp_all add: verbatim_def)
  have l: "i - Start p < length (sub_text t (Start p) (End p))" using assms(2,3) e by (simp add: sub_text_length)
  have "sub_text t (Start p) (End p) ! (i - Start p) = t ! i" using assms(2,3) e by (simp add: sub_text_def)
  moreover have "drop (SyntheticPrefixRunes p) (Content p) ! (i - Start p) = Content p ! (SyntheticPrefixRunes p + (i - Start p))"
    using s by simp
  moreover have "i - Start p < length (Content p) - SyntheticPrefixRunes p" using l unfolding d[symmetric] length_drop .
  then have "SyntheticPrefixRunes p + (i - Start p) < length (Content p)" by linarith
  ultimately show ?thesis unfolding d by simp
qed

section \<open>Pages\<close>

definition line_of :: "rtext \<Rightarrow> nat \<Rightarrow> nat" where
  "line_of t i = length (filter (\<lambda>j. t ! j = nl) [0..<i])"

lemma takeWhile_sorted: "sorted xs \<Longrightarrow> takeWhile (\<lambda>x. x < k) xs = filter (\<lambda>x. x < (k :: nat)) xs"
proof (induction xs)
  case (Cons x xs)
  then have "\<not> x < k \<Longrightarrow> filter (\<lambda>x. x < k) xs = []" by (auto simp: filter_empty_conv)
  then show ?case using Cons by simp
qed simp

lemma line_starts_search:
  assumes "i < length t"
  shows "SearchInts (line_starts t) (i + 1) = Suc (line_of t i)"
proof -
  have "sorted (filter (\<lambda>j. t ! j = nl) [0..<length t - 1])" by (simp add: sorted_wrt_filter)
  then have s: "sorted (line_starts t)" by (simp add: line_starts_def sorted_wrt_map)
  have u: "[0..<length t - 1] = [0..<i] @ [i..<length t - 1]" using upt_add_eq_append[of 0 i "length t - 1 - i"] assms by simp
  have a: "filter (\<lambda>j. j < i) [0..<i] = [0..<i]" by (simp add: filter_id_conv)
  have b: "filter (\<lambda>j. j < i) [i..<n] = []" for n by (simp add: filter_empty_conv)
  have "filter (\<lambda>s. s < i + 1) (map Suc (filter (\<lambda>j. t ! j = nl) [0..<length t - 1]))
    = map Suc (filter (\<lambda>j. t ! j = nl) (filter (\<lambda>j. j < i) [0..<length t - 1]))"
    by (simp add: filter_map comp_def conj_commute)
  also have "filter (\<lambda>j. j < i) [0..<length t - 1] = [0..<i]" unfolding u filter_append a b by simp
  finally show ?thesis
    by (simp add: SearchInts_def takeWhile_sorted[OF s]) (simp add: line_starts_def line_of_def)
qed

lemma line_of_bound: "i < length t \<Longrightarrow> line_of t i < length (line_starts t)"
proof -
  assume i: "i < length t"
  have "length (filter (\<lambda>j. t ! j = nl) [0..<i]) \<le> length (filter (\<lambda>j. t ! j = nl) [0..<length t - 1])"
  proof -
    have "[0..<length t - 1] = [0..<i] @ [i..<length t - 1]" using upt_add_eq_append[of 0 i "length t - 1 - i"] i by simp
    then show ?thesis by simp
  qed
  then show ?thesis by (simp add: line_of_def line_starts_def)
qed

lemma rangeFor_lines:
  assumes "length pages = length (line_starts t)" "t \<noteq> []" "a < b" "b \<le> length t"
  shows "rangeFor (newPageMapper t pages) a b = (Some (pages ! line_of t a), Some (pages ! line_of t (b - 1)))"
proof -
  have pm: "newPageMapper t pages = \<lparr>pm_pages = pages, pm_lineStartRunes = line_starts t\<rparr>" and ne: "pages \<noteq> []"
    using assms(1,2) by (auto simp: newPageMapper_def line_starts_def)
  have l: "lineForRune (newPageMapper t pages) i = Some (line_of t i)" if "i < length t" for i
    using line_starts_search[OF that] line_of_bound[OF that] assms(1)
    by (simp add: pm lineForRune_def Let_def) (simp add: line_starts_def)
  show ?thesis using l[of a] l[of "b - 1"] assms ne by (simp add: rangeFor_def pm)
qed

lemma child_of_chunk:
  "\<exists>n h. cc_chunk (child_of pg p i k c) = with_pages pg ((remapChild c p)\<lparr>Seq := n, ContextHeader := h\<rparr>)"
  by (auto simp: child_of_def Let_def)

lemma SplitParentChild_children_of:
  "t \<noteq> [] \<Longrightarrow> pc_Children (SplitParentChild t pages pcfg ccfg) =
     snd (parents_from (newPageMapper t pages) (ensureDefaults ccfg) 0 0 (Split t (ensureDefaults pcfg)))"
  by (simp add: SplitParentChild_def Split_def Let_def split: prod.split)

lemma SplitParentChild_nil: "pc_Children (SplitParentChild [] pages pcfg ccfg) = []"
  by (simp add: SplitParentChild_def)

lemma child_slices:
  assumes "cf_ChunkSize (ensureDefaults pcfg) \<le> int absoluteMaxSize" "cf_ChunkSize (ensureDefaults ccfg) \<le> int absoluteMaxSize"
    and "k \<in> set (pc_Children (SplitParentChild t pages pcfg ccfg))"
  shows "verbatim t (cc_chunk k)"
proof -
  have ne: "t \<noteq> []" using assms(3) SplitParentChild_nil by auto
  obtain p c i n where k: "p \<in> set (Split t (ensureDefaults pcfg))" "c \<in> set (Split (Content p) (ensureDefaults ccfg))"
    "k = child_of (newPageMapper t pages) p i n c"
    using parents_from_children assms(3) unfolding SplitParentChild_children_of[OF ne] by blast
  have "verbatim t p" using split.slices[OF usable_defaults[OF assms(1)] k(1)] .
  then have "verbatim t (remapChild c p)" using split.remap_slices[OF usable_defaults[OF assms(2)] _ k(2)] by simp
  then show ?thesis using child_of_chunk[of "newPageMapper t pages" p i n c] unfolding k(3) by fastforce
qed

lemma child_complete:
  assumes "cf_ChunkSize (ensureDefaults pcfg) \<le> int absoluteMaxSize" "cf_ChunkSize (ensureDefaults ccfg) \<le> int absoluteMaxSize"
    and i: "i < length t" "\<not> is_space (t ! i)"
  shows "\<exists>k \<in> set (pc_Children (SplitParentChild t pages pcfg ccfg)). Start (cc_chunk k) \<le> i \<and> i < End (cc_chunk k)"
proof -
  have ne: "t \<noteq> []" using i by auto
  let ?ps = "Split t (ensureDefaults pcfg)"
  obtain p where p: "p \<in> set ?ps" "Start p \<le> i" "i < End p"
    using split.complete[OF usable_defaults[OF assms(1)], of t] i by (auto simp: keeps_runes_def covered_def)
  have v: "verbatim t p" using split.slices[OF usable_defaults[OF assms(1)] p(1)] .
  let ?j = "SyntheticPrefixRunes p + (i - Start p)"
  have j: "?j < length (Content p)" "\<not> is_space (Content p ! ?j)" using verbatim_nth[OF v p(2,3)] i(2) by auto
  obtain c where c: "c \<in> set (Split (Content p) (ensureDefaults ccfg))" "Start c \<le> ?j" "?j < End c"
    using split.complete[OF usable_defaults[OF assms(2)], of "Content p"] j by (auto simp: keeps_runes_def covered_def)
  have vc: "verbatim (Content p) c" using split.slices[OF usable_defaults[OF assms(2)] c(1)] .
  have r: "Start (remapChild c p) \<le> i \<and> i < End (remapChild c p)" by (rule child_covers[OF v vc p(2,3) c(2,3)])
  obtain m n where k: "child_of (newPageMapper t pages) p m n c \<in> set (pc_Children (SplitParentChild t pages pcfg ccfg))"
    using parents_from_complete[OF p(1) c(1)] unfolding SplitParentChild_children_of[OF ne] by blast
  have "Start (cc_chunk (child_of (newPageMapper t pages) p m n c)) = Start (remapChild c p)"
    "End (cc_chunk (child_of (newPageMapper t pages) p m n c)) = End (remapChild c p)"
    by (simp_all add: child_of_def with_pages_def Let_def)
  then show ?thesis using r k by metis
qed

lemma child_pages:
  assumes "k \<in> set (pc_Children (SplitParentChild t pages pcfg ccfg))"
  shows "(PageStartOf (cc_chunk k), PageEndOf (cc_chunk k))
    = rangeFor (newPageMapper t pages) (Start (cc_chunk k)) (End (cc_chunk k))"
proof -
  have ne: "t \<noteq> []" using assms SplitParentChild_nil by auto
  obtain p c i n where "k = child_of (newPageMapper t pages) p i n c"
    using parents_from_children assms unfolding SplitParentChild_children_of[OF ne] by blast
  then show ?thesis by (simp add: child_of_def with_pages_def Let_def)
qed

section \<open>Hashes\<close>

text \<open>The first occurrences, in order.\<close>

fun firsts :: "'a list \<Rightarrow> 'a list \<Rightarrow> 'a list" where
  "firsts seen [] = []"
| "firsts seen (x # xs) = (if x \<in> set seen then firsts seen xs else x # firsts (x # seen) xs)"

lemma firsts_snoc: "firsts s (xs @ [x]) = (if x \<in> set s \<union> set xs then firsts s xs else firsts s xs @ [x])"
  by (induction xs arbitrary: s) auto

lemma firsts_rev_remdups: "firsts [] xs = rev (remdups (rev xs))"
  by (induction xs rule: rev_induct) (simp_all add: firsts_snoc)

lemma drop_duplicates_firsts:
  assumes "\<And>c n. hash (setSeq c n) = hash c" "\<And>c n. seqOf (setSeq c n) = n"
  shows "map hash (drop_duplicates hash setSeq seen n cs) = firsts seen (map hash cs)
    \<and> map seqOf (drop_duplicates hash setSeq seen n cs)
        = map (\<lambda>i. n + int i) [0..<length (drop_duplicates hash setSeq seen n cs)]"
proof (induction cs arbitrary: seen n)
  case (Cons c cs)
  have "map (\<lambda>i. n + int i) [0..<Suc k] = n # map (\<lambda>i. (n + 1) + int i) [0..<k]" for k
    by (simp add: upt_conv_Cons map_Suc_upt[symmetric] comp_def add.assoc del: upt_Suc)
  then show ?case using Cons[of "hash c # seen" "n + 1"] Cons[of seen n] assms by (simp del: upt_Suc)
qed simp

section \<open>Properties\<close>

text \<open>
  C22. Whatever tier wins, every chunk is a verbatim slice of the document behind the table
  header it repeats, and every visible rune of the document is in a chunk.
\<close>

theorem Split_sound:
  assumes "cf_ChunkSize (ensureDefaults cfg) \<le> int absoluteMaxSize"
  shows "(\<forall>c \<in> set (Split t cfg). Start c \<le> End c \<and> End c \<le> length t
            \<and> drop (SyntheticPrefixRunes c) (Content c) = sub_text t (Start c) (End c))
    \<and> (\<forall>i < length t. \<not> is_space (t ! i) \<longrightarrow> (\<exists>c \<in> set (Split t cfg). Start c \<le> i \<and> i < End c))"
  using Split_ok[OF assms, of t] by (auto simp: verbatim_def keeps_runes_def covered_def)

text \<open>
  C23. The embedded children of a document are verbatim slices of the document itself, whatever
  header their parent repeats, and every visible rune of the document is in a child.
\<close>

theorem SplitParentChild_children:
  assumes "cf_ChunkSize (ensureDefaults parentCfg) \<le> int absoluteMaxSize"
    and "cf_ChunkSize (ensureDefaults childCfg) \<le> int absoluteMaxSize"
  shows "(\<forall>k \<in> set (pc_Children (SplitParentChild t pages parentCfg childCfg)).
            Start (cc_chunk k) \<le> End (cc_chunk k) \<and> End (cc_chunk k) \<le> length t
            \<and> drop (SyntheticPrefixRunes (cc_chunk k)) (Content (cc_chunk k)) = sub_text t (Start (cc_chunk k)) (End (cc_chunk k)))
    \<and> (\<forall>i < length t. \<not> is_space (t ! i) \<longrightarrow>
         (\<exists>k \<in> set (pc_Children (SplitParentChild t pages parentCfg childCfg)).
            Start (cc_chunk k) \<le> i \<and> i < End (cc_chunk k)))"
  using child_slices[OF assms, of _ t pages] child_complete[OF assms, of _ t pages] by (auto simp: verbatim_def)

text \<open>
  C24. With one page per line, a child's page range is exactly the page of the line its first
  rune is on and the page of the line its last rune is on.
\<close>

theorem SplitParentChild_pages:
  assumes "cf_ChunkSize (ensureDefaults parentCfg) \<le> int absoluteMaxSize"
    and "cf_ChunkSize (ensureDefaults childCfg) \<le> int absoluteMaxSize"
    and "length pages = length (line_starts t)"
    and "k \<in> set (pc_Children (SplitParentChild t pages parentCfg childCfg))"
    and "Start (cc_chunk k) < End (cc_chunk k)"
  shows "PageStartOf (cc_chunk k) = Some (pages ! line_of t (Start (cc_chunk k)))
    \<and> PageEndOf (cc_chunk k) = Some (pages ! line_of t (End (cc_chunk k) - 1))"
proof -
  have e: "End (cc_chunk k) \<le> length t" using child_slices[OF assms(1,2,4)] by (simp add: verbatim_def)
  then have "t \<noteq> []" using assms(5) by auto
  from rangeFor_lines[OF assms(3) this assms(5) e] show ?thesis using child_pages[OF assms(4)] by simp
qed

text \<open>
  Deduplication keeps the first chunk of every hash, in order, and numbers what it keeps
  densely from 0.
\<close>

theorem DropDuplicateChunks_first:
  assumes "\<And>c n. hash (setSeq c n) = hash c" "\<And>c n. seqOf (setSeq c n) = n"
  shows "map hash (DropDuplicateChunks hash setSeq cs) = rev (remdups (rev (map hash cs)))
    \<and> map seqOf (DropDuplicateChunks hash setSeq cs) = map int [0..<length (DropDuplicateChunks hash setSeq cs)]"
  unfolding DropDuplicateChunks_def
  using drop_duplicates_firsts[of hash setSeq seqOf "[]" 0 cs, OF assms] firsts_rev_remdups by simp

section \<open>Instances\<close>

lemma sample_fits: "cf_ChunkSize (ensureDefaults sample_config) \<le> int absoluteMaxSize"
  by (simp add: sample_config_size absoluteMaxSize_def)

theorem Split_sound_witness:
  "\<exists>c \<in> set (Split [72, 105] sample_config). Start c \<le> 1 \<and> 1 < End c
     \<and> drop (SyntheticPrefixRunes c) (Content c) = sub_text [72, 105] (Start c) (End c)"
proof -
  note s = Split_sound[OF sample_fits, of "[72, 105]"]
  obtain c where c: "c \<in> set (Split [72, 105] sample_config)" "Start c \<le> 1" "1 < End c"
    using conjunct2[OF s, rule_format, of 1] by (auto simp: is_space_def)
  then show ?thesis using conjunct1[OF s] by blast
qed

theorem SplitParentChild_children_witness:
  "\<exists>k \<in> set (pc_Children (SplitParentChild [72, 105] [] sample_config sample_config)).
     Start (cc_chunk k) \<le> 1 \<and> 1 < End (cc_chunk k)
     \<and> drop (SyntheticPrefixRunes (cc_chunk k)) (Content (cc_chunk k)) = sub_text [72, 105] (Start (cc_chunk k)) (End (cc_chunk k))"
proof -
  note s = SplitParentChild_children[OF sample_fits sample_fits, of "[72, 105]" "[]"]
  obtain k where k: "k \<in> set (pc_Children (SplitParentChild [72, 105] [] sample_config sample_config))"
    "Start (cc_chunk k) \<le> 1" "1 < End (cc_chunk k)"
    using conjunct2[OF s, rule_format, of 1] by (auto simp: is_space_def)
  then show ?thesis using conjunct1[OF s] by blast
qed

theorem SplitParentChild_pages_witness:
  "\<exists>k \<in> set (pc_Children (SplitParentChild [72, 105] [7] sample_config sample_config)).
     Start (cc_chunk k) < End (cc_chunk k) \<and> PageStartOf (cc_chunk k) = Some 7"
proof -
  obtain k where k: "k \<in> set (pc_Children (SplitParentChild [72, 105] [7] sample_config sample_config))"
    "Start (cc_chunk k) \<le> 1" "1 < End (cc_chunk k)"
    using child_complete[OF sample_fits sample_fits, of 1 "[72, 105]" "[7]"] by (auto simp: is_space_def)
  have one: "length [7 :: int] = length (line_starts [72, 105])" by (simp add: line_starts_def)
  have "line_of [72, 105] i = 0" if "i \<le> 1" for i
    using that by (cases i) (simp_all add: line_of_def)
  then show ?thesis
    using SplitParentChild_pages[OF sample_fits sample_fits one k(1)] k by (intro bexI[OF _ k(1)]) simp
qed

theorem DropDuplicateChunks_first_witness:
  "map Seq (DropDuplicateChunks ChunkHash (\<lambda>c n. c\<lparr>Seq := n\<rparr>) [plain_chunk [72] 5 0 1, plain_chunk [72] 9 4 5]) = [0]"
proof -
  have h: "ChunkHash (c\<lparr>Seq := n\<rparr>) = ChunkHash c" for c n by (simp add: ChunkHash_def)
  have e: "ChunkHash (plain_chunk [72] 9 4 5) = ChunkHash (plain_chunk [72] 5 0 1)" by (simp add: ChunkHash_def plain_chunk_def)
  have q: "Seq (c\<lparr>Seq := n\<rparr>) = n" for c n by simp
  note s = DropDuplicateChunks_first[of ChunkHash "\<lambda>c n. c\<lparr>Seq := n\<rparr>" Seq
      "[plain_chunk [72] 5 0 1, plain_chunk [72] 9 4 5]", OF h q]
  have "length (DropDuplicateChunks ChunkHash (\<lambda>c n. c\<lparr>Seq := n\<rparr>) [plain_chunk [72] 5 0 1, plain_chunk [72] 9 4 5]) = 1"
    using arg_cong[OF conjunct1[OF s], of length] by (simp add: e)
  then show ?thesis using conjunct2[OF s] by simp
qed

end
