(* ===== verification/ChunkStore.thy ===== *)
theory ChunkStore
  imports Counters Hashes
begin

text \<open>
  The chunks table (\<open>internal/store/chunks.go\<close>): the two inserters with their savepoint and
  row-by-row fallback, the vector write in bounded batches, and the readers.  \<open>COPY\<close> is one
  statement: all its rows or none.  Values that the column types refuse are among the
  failures the world's oracle may inject.  Where a query leaves the order of equal sort keys
  open, the model keeps the order of the table.
\<close>

section \<open>Prepared rows\<close>

record ChildRow =
  ch_ID :: string
  ch_ParentID :: "string option"
  ch_Seq :: int
  ch_PageStart :: "int option"
  ch_PageEnd :: "int option"
  ch_HeadingPath :: "string list"
  ch_HeaderBreadcrumb :: "string option"
  ch_Text :: string
  ch_TokenCount :: int
  ch_ChunkHash :: string

record ParentRow =
  pa_ID :: string
  pa_Seq :: int
  pa_PageStart :: "int option"
  pa_PageEnd :: "int option"
  pa_HeadingPath :: "string list"
  pa_HeaderBreadcrumb :: "string option"
  pa_Text :: string
  pa_TokenCount :: int
  pa_ChunkHash :: string

definition id_or_derived :: "string \<Rightarrow> string \<Rightarrow> string \<Rightarrow> string" where
  "id_or_derived docID i h = (if i = [] then DeterministicChunkID docID h else i)"

text \<open>The row of a prepared chunk; the time of insertion is filled in by the statement.\<close>

definition child_row :: "string \<Rightarrow> string \<Rightarrow> ChildRow \<Rightarrow> Chunk" where
  "child_row docID collectionID c =
     \<lparr>c_ID = id_or_derived docID (ch_ID c) (ch_ChunkHash c), c_DocID = docID, c_CollectionID = collectionID,
      c_ChunkHash = ch_ChunkHash c, c_ParentID = ch_ParentID c, c_IsParent = False, c_Seq = ch_Seq c,
      c_PageStart = ch_PageStart c, c_PageEnd = ch_PageEnd c, c_HeadingPath = ch_HeadingPath c,
      c_HeaderBreadcrumb = ch_HeaderBreadcrumb c, c_Text = ch_Text c, c_TokenCount = ch_TokenCount c,
      c_Embedding = None, c_EmbeddedAt = None, c_CreatedAt = 0\<rparr>"

definition parent_row :: "string \<Rightarrow> string \<Rightarrow> ParentRow \<Rightarrow> Chunk" where
  "parent_row docID collectionID p =
     \<lparr>c_ID = id_or_derived docID (pa_ID p) (pa_ChunkHash p), c_DocID = docID, c_CollectionID = collectionID,
      c_ChunkHash = pa_ChunkHash p, c_ParentID = None, c_IsParent = True, c_Seq = pa_Seq p,
      c_PageStart = pa_PageStart p, c_PageEnd = pa_PageEnd p, c_HeadingPath = pa_HeadingPath p,
      c_HeaderBreadcrumb = pa_HeaderBreadcrumb p, c_Text = pa_Text p, c_TokenCount = pa_TokenCount p,
      c_Embedding = None, c_EmbeddedAt = None, c_CreatedAt = 0\<rparr>"

text \<open>Rows whose id was seen in the same batch are skipped.\<close>

fun unseen_rows :: "string list \<Rightarrow> Chunk list \<Rightarrow> Chunk list" where
  "unseen_rows seen [] = []"
| "unseen_rows seen (r # rs) =
     (if c_ID r \<in> set seen then unseen_rows seen rs else r # unseen_rows (c_ID r # seen) rs)"

section \<open>Inserting\<close>

text \<open>The unique index a row would violate, the primary key first.\<close>

definition clash :: "Chunk list \<Rightarrow> Chunk \<Rightarrow> string option" where
  "clash cs r =
     (if \<exists>c \<in> set cs. c_ID c = c_ID r then Some ''chunks_pkey''
      else if \<exists>c \<in> set cs. c_DocID c = c_DocID r \<and> c_ChunkHash c = c_ChunkHash r then Some ''uq_chunk_hash''
      else None)"

fun add_rows :: "int \<Rightarrow> Chunk list \<Rightarrow> Chunk list \<Rightarrow> goerr + Chunk list" where
  "add_rows now cs [] = Inr cs"
| "add_rows now cs (r # rs) =
     (case clash cs r of
        Some k \<Rightarrow> Inl (PgError ''23505'' k)
      | None \<Rightarrow> add_rows now (cs @ [r\<lparr>c_CreatedAt := now\<rparr>]) rs)"

text \<open>The foreign keys of a row, checked when the statement ends.\<close>

definition row_refs_ok :: "tables \<Rightarrow> Chunk list \<Rightarrow> Chunk \<Rightarrow> bool" where
  "row_refs_ok t cs r \<longleftrightarrow>
     (\<exists>d \<in> set (documents t). d_ID d = c_DocID r)
     \<and> (case c_ParentID r of None \<Rightarrow> True | Some p \<Rightarrow> \<exists>c \<in> set cs. c_ID c = p)"

definition fk_violation :: goerr where
  "fk_violation = PgError ''23503'' ''chunks_fkey''"

definition copy_chunks :: "Chunk list \<Rightarrow> unit stmt" where
  "copy_chunks rows now t =
     (case add_rows now (chunks t) rows of
        Inl e \<Rightarrow> (Inl e, t)
      | Inr cs \<Rightarrow>
          if \<forall>r \<in> set rows. row_refs_ok t cs r then (Inr (), t\<lparr>chunks := cs\<rparr>) else (Inl fk_violation, t))"

text \<open>\<open>chunkUpsertSQL\<close>: only a clash of document and hash is ignored.\<close>

definition upsert_chunk :: "Chunk \<Rightarrow> unit stmt" where
  "upsert_chunk r now t =
     (if \<exists>c \<in> set (chunks t). c_DocID c = c_DocID r \<and> c_ChunkHash c = c_ChunkHash r then (Inr (), t)
      else copy_chunks [r] now t)"

text \<open>
  After a failed \<open>COPY\<close>, \<open>ROLLBACK TO SAVEPOINT\<close> restores the tables of the savepoint and makes
  the transaction usable again.
\<close>

definition rollback_to :: "tables \<Rightarrow> ('x world, goerr, unit) prog" where
  "rollback_to saved = bnd next_fault (\<lambda>_. modify (\<lambda>w. w\<lparr>db := saved, aborted := False\<rparr>))"

definition copyChunksWithFallback :: "Chunk list \<Rightarrow> ('x world, goerr, unit) prog" where
  "copyChunksWithFallback rows =
     bnd (tx_stmt (query (\<lambda>t. t))) (\<lambda>saved.
     bnd (attempt (tx_stmt (copy_chunks rows))) (\<lambda>r.
     case r of
       Inr _ \<Rightarrow> ret ()
     | Inl e \<Rightarrow> bnd (rollback_to saved) (\<lambda>_. for_each (\<lambda>row. tx_stmt (upsert_chunk row)) rows)))"

definition insert_rows :: "Chunk list \<Rightarrow> ('x world, goerr, unit) prog" where
  "insert_rows rows0 =
     (let rows = unseen_rows [] rows0 in if rows = [] then ret () else copyChunksWithFallback rows)"

definition InsertChunks :: "string \<Rightarrow> string \<Rightarrow> ChildRow list \<Rightarrow> ('x world, goerr, unit) prog" where
  "InsertChunks docID collectionID children = insert_rows (map (child_row docID collectionID) children)"

definition InsertParents :: "string \<Rightarrow> string \<Rightarrow> ParentRow list \<Rightarrow> ('x world, goerr, unit) prog" where
  "InsertParents docID collectionID parents = insert_rows (map (parent_row docID collectionID) parents)"

section \<open>Vectors\<close>

record EmbeddingRow =
  er_ChunkID :: string
  er_Vector :: vector

definition set_vector :: "int \<Rightarrow> vector \<Rightarrow> Chunk \<Rightarrow> Chunk" where
  "set_vector now v c = c\<lparr>c_Embedding := Some v, c_EmbeddedAt := Some now\<rparr>"

definition UpdateEmbeddingTx :: "string \<Rightarrow> vector \<Rightarrow> ('x world, goerr, unit) prog" where
  "UpdateEmbeddingTx chunkID vec = tx_stmt (exec (\<lambda>now t. t\<lparr>chunks :=
     map (\<lambda>c. if c_ID c = chunkID then set_vector now vec c else c) (chunks t)\<rparr>))"

definition embedUpdateBatchSize :: nat where
  "embedUpdateBatchSize = 500"

text \<open>The id lists of the batches.\<close>

function id_batches :: "string list \<Rightarrow> string list list" where
  "id_batches ids = (if ids = [] then [] else take embedUpdateBatchSize ids # id_batches (drop embedUpdateBatchSize ids))"
  by auto
termination by (relation "measure length") (auto simp: embedUpdateBatchSize_def)

declare id_batches.simps [simp del]

text \<open>
  \<open>UPDATE ... FROM embed_stage\<close>: with several staged rows for one chunk Postgres takes any; the
  model takes the first.
\<close>

definition update_batch :: "EmbeddingRow list \<Rightarrow> string list \<Rightarrow> int \<Rightarrow> tables \<Rightarrow> tables" where
  "update_batch stage ids now t = t\<lparr>chunks := map (\<lambda>c.
     if c_ID c \<in> set ids
     then (case find (\<lambda>r. er_ChunkID r = c_ID c) stage of None \<Rightarrow> c | Some r \<Rightarrow> set_vector now (er_Vector r) c)
     else c) (chunks t)\<rparr>"

definition CopyEmbeddings :: "EmbeddingRow list \<Rightarrow> ('x world, goerr, unit) prog" where
  "CopyEmbeddings rows =
     (if rows = [] then ret ()
      else
        bnd (tx_stmt (exec (\<lambda>now t. t))) (\<lambda>_.             \<comment> \<open>create the stage\<close>
        bnd (tx_stmt (exec (\<lambda>now t. t))) (\<lambda>_.             \<comment> \<open>copy the rows into it\<close>
        for_each (\<lambda>ids. tx_stmt (exec (update_batch rows ids))) (id_batches (map er_ChunkID rows)))))"

section \<open>Deleting and counting\<close>

definition DeleteDocChunks :: "string \<Rightarrow> ('x world, goerr, unit) prog" where
  "DeleteDocChunks docID = pool_stmt (exec (\<lambda>now. delete_doc_chunks docID))"

definition DeleteDocChunksTx :: "string \<Rightarrow> ('x world, goerr, unit) prog" where
  "DeleteDocChunksTx docID = tx_stmt (exec (\<lambda>now. delete_doc_chunks docID))"

definition CountChunks :: "('x world, goerr, int) prog" where
  "CountChunks = pool_stmt (query (\<lambda>t. int (length (chunks t))))"

section \<open>Reading\<close>

definition GetChunk :: "string \<Rightarrow> ('x world, goerr, Chunk option) prog" where
  "GetChunk chunkID = pool_stmt (query (\<lambda>t. find (\<lambda>c. c_ID c = chunkID) (chunks t)))"

text \<open>Whether a chunk's pages meet a range; a chunk without pages never does.\<close>

definition overlaps :: "int \<Rightarrow> int \<Rightarrow> Chunk \<Rightarrow> bool" where
  "overlaps a b c \<longleftrightarrow>
     (case (c_PageStart c, c_PageEnd c) of (Some s, Some e) \<Rightarrow> s \<le> b \<and> a \<le> e | _ \<Rightarrow> False)"

definition page_chunks :: "string \<Rightarrow> int \<Rightarrow> int \<Rightarrow> tables \<Rightarrow> Chunk list" where
  "page_chunks docID a b t =
     (let mine = filter (\<lambda>c. c_DocID c = docID \<and> overlaps a b c) (chunks t);
          some_parent = (\<exists>p \<in> set mine. c_IsParent p)
      in sort_key c_Seq (filter (\<lambda>c. c_IsParent c = some_parent) mine))"

definition ReadPageChunks :: "string \<Rightarrow> int \<Rightarrow> int \<Rightarrow> ('x world, goerr, Chunk list) prog" where
  "ReadPageChunks docID pageStart pageEnd = pool_stmt (query (page_chunks docID pageStart pageEnd))"

text \<open>
  The kind of the anchor is a scalar subquery: no row gives NULL and so no chunk, two rows are an
  error once a chunk is compared with it.
\<close>

definition ChunkNeighbours :: "string \<Rightarrow> int \<Rightarrow> int \<Rightarrow> ('x world, goerr, Chunk list) prog" where
  "ChunkNeighbours docID seq window = pool_stmt (\<lambda>now t.
     let mine = filter (\<lambda>c. c_DocID c = docID) (chunks t);
         inside = filter (\<lambda>c. seq - window \<le> c_Seq c \<and> c_Seq c \<le> seq + window) mine;
         anchors = filter (\<lambda>c. c_Seq c = seq) mine
     in if inside = [] then (Inr [], t)
        else case anchors of
               [] \<Rightarrow> (Inr [], t)
             | [a] \<Rightarrow> (Inr (sort_key c_Seq (filter (\<lambda>c. c_IsParent c = c_IsParent a) inside)), t)
             | _ \<Rightarrow> (Inl (PgError ''21000'' ''more than one row returned by a subquery used as an expression''), t))"

definition err_no_rows :: goerr where
  "err_no_rows = Plain ''no rows in result set''"

definition DocChunkCountAt :: "string \<Rightarrow> ('x world, goerr, int option) prog" where
  "DocChunkCountAt docID = pool_stmt (\<lambda>now t.
     (case doc_by_id docID t of None \<Rightarrow> Inl err_no_rows | Some d \<Rightarrow> Inr (d_ChunkCount d), t))"

definition clamp_size :: "int \<Rightarrow> int" where
  "clamp_size pageSize = (if pageSize < 1 \<or> 200 < pageSize then 50 else pageSize)"

definition clamp_page :: "int \<Rightarrow> int" where
  "clamp_page page = (if page < 1 then 1 else page)"

definition page_of :: "int \<Rightarrow> int \<Rightarrow> 'a list \<Rightarrow> 'a list" where
  "page_of page pageSize xs = take (nat pageSize) (drop (nat ((page - 1) * pageSize)) xs)"

definition ListDocChunks :: "string \<Rightarrow> int \<Rightarrow> int \<Rightarrow> ('x world, goerr, Chunk list \<times> int) prog" where
  "ListDocChunks docID page pageSize =
     (let mine = (\<lambda>t. filter (\<lambda>c. c_DocID c = docID) (chunks t))
      in bnd (pool_stmt (query (\<lambda>t. int (length (mine t))))) (\<lambda>n_rows.
         bnd (pool_stmt (query (\<lambda>t. page_of (clamp_page page) (clamp_size pageSize) (sort_key c_Seq (mine t)))))
           (\<lambda>cs. ret (cs, n_rows))))"

text \<open>
  The second query selects \<open>id\<close>, \<open>collection_id\<close> and \<open>created_at\<close> unqualified from a join of two
  tables that both have them, which Postgres refuses whatever the rows are.
\<close>

definition ListCollectionChunks ::
  "string \<Rightarrow> string option \<Rightarrow> int \<Rightarrow> int \<Rightarrow> ('x world, goerr, Chunk list \<times> int) prog" where
  "ListCollectionChunks collectionID docID page pageSize =
     bnd (pool_stmt (query (\<lambda>t. int (length (filter (\<lambda>c.
            (\<exists>d \<in> set (documents t). d_ID d = c_DocID c \<and> d_CollectionID d = Some collectionID)
            \<and> (case docID of None \<Rightarrow> True | Some i \<Rightarrow> i = [] \<or> c_DocID c = i)) (chunks t)))))) (\<lambda>n_rows.
     pool_stmt (\<lambda>now t. (Inl (PgError ''42702'' ''column reference \"id\" is ambiguous''), t)))"

definition GetChunkWithParent :: "string \<Rightarrow> ('x world, goerr, (Chunk \<times> Chunk option) option) prog" where
  "GetChunkWithParent chunkID =
     bnd (GetChunk chunkID) (\<lambda>c.
     case c of
       None \<Rightarrow> ret None
     | Some ch \<Rightarrow>
         (case c_ParentID ch of
            None \<Rightarrow> ret (Some (ch, None))
          | Some pid \<Rightarrow> bnd (GetChunk pid) (\<lambda>p. ret (Some (ch, p)))))"

section \<open>What the inserters write\<close>

definition stamped :: "int \<Rightarrow> Chunk \<Rightarrow> Chunk" where
  "stamped now r = r\<lparr>c_CreatedAt := now\<rparr>"

lemma stamped_sel [simp]:
  "c_ID (stamped now r) = c_ID r" "c_DocID (stamped now r) = c_DocID r" "c_ChunkHash (stamped now r) = c_ChunkHash r"
  "c_IsParent (stamped now r) = c_IsParent r" "c_ParentID (stamped now r) = c_ParentID r" "c_Seq (stamped now r) = c_Seq r"
  "c_Embedding (stamped now r) = c_Embedding r" "c_Text (stamped now r) = c_Text r"
  by (simp_all add: stamped_def)

lemma add_rows_Inr: "add_rows now cs rs = Inr cs' \<Longrightarrow> cs' = cs @ map (stamped now) rs"
proof (induction rs arbitrary: cs)
  case (Cons r rs)
  then have "add_rows now (cs @ [stamped now r]) rs = Inr cs'" by (auto simp: stamped_def split: option.splits)
  from Cons.IH[OF this] show ?case by simp
qed simp

text \<open>An insert that succeeds had fresh ids.\<close>

definition fresh_ids :: "Chunk list \<Rightarrow> Chunk list \<Rightarrow> bool" where
  "fresh_ids cs rs \<longleftrightarrow> c_ID ` set rs \<inter> c_ID ` set cs = {}"

lemma add_rows_fresh: "add_rows now cs rs = Inr cs' \<Longrightarrow> fresh_ids cs rs"
proof (induction rs arbitrary: cs)
  case (Cons r rs)
  then have c: "clash cs r = None" and a: "add_rows now (cs @ [stamped now r]) rs = Inr cs'"
    by (auto simp: stamped_def split: option.splits)
  then show ?case using Cons.IH[OF a] by (auto simp: fresh_ids_def clash_def split: if_splits)
qed (simp add: fresh_ids_def)

text \<open>The rows of one document that its chunks do not have yet.\<close>

definition new_rows :: "string \<Rightarrow> Chunk list \<Rightarrow> Chunk list \<Rightarrow> bool" where
  "new_rows docID cs rs \<longleftrightarrow>
     (\<forall>r \<in> set rs. c_DocID r = docID) \<and> distinct (map c_ChunkHash rs)
     \<and> (\<forall>c \<in> set cs. c_DocID c = docID \<longrightarrow> c_ChunkHash c \<notin> c_ChunkHash ` set rs)"

lemma new_rows_step:
  assumes "new_rows docID cs (r # rs)"
  shows "new_rows docID (cs @ [stamped now r]) rs"
    and "\<not> (\<exists>c \<in> set cs. c_DocID c = c_DocID r \<and> c_ChunkHash c = c_ChunkHash r)"
  using assms by (auto simp: new_rows_def)

text \<open>All rows are added at the end, and they had ids of their own.\<close>

definition rows_added :: "int \<Rightarrow> Chunk list \<Rightarrow> tables \<Rightarrow> tables \<Rightarrow> bool" where
  "rows_added now rs t u \<longleftrightarrow> u = t\<lparr>chunks := chunks t @ map (stamped now) rs\<rparr> \<and> fresh_ids (chunks t) rs"

lemma copy_rows_added: "copy_chunks rs now t = (Inr x, u) \<Longrightarrow> rows_added now rs t u"
  using add_rows_Inr[of now "chunks t" rs] add_rows_fresh[of now "chunks t" rs]
  by (auto simp: copy_chunks_def rows_added_def split: sum.splits if_splits)

lemma rows_added_Cons: "rows_added now [r] t s \<Longrightarrow> rows_added now rs s u \<Longrightarrow> rows_added now (r # rs) t u"
  by (auto simp: rows_added_def fresh_ids_def)

lemma post_upserts:
  "post (for_each (\<lambda>row. tx_stmt (upsert_chunk row)) rs)
     (\<lambda>now t x u. new_rows docID (chunks t) rs \<longrightarrow> rows_added now rs t u)"
proof (induction rs)
  case Nil
  show ?case unfolding for_each.simps by (rule post_weaken[OF post_ret]) (simp add: rows_added_def fresh_ids_def)
next
  case (Cons r rs)
  have one: "post (tx_stmt (upsert_chunk r))
     (\<lambda>now t x u. new_rows docID (chunks t) (r # rs) \<longrightarrow> rows_added now [r] t u)"
  proof (rule post_weaken[OF post_tx_stmt], intro impI)
    fix now t u and x :: unit
    assume a: "upsert_chunk r now t = (Inr x, u)" "new_rows docID (chunks t) (r # rs)"
    then show "rows_added now [r] t u"
      using new_rows_step(2)[OF a(2)] by (intro copy_rows_added) (simp add: upsert_chunk_def)
  qed
  show ?case unfolding for_each.simps
  proof (rule post_weaken[OF post_bnd[OF one Cons.IH]], intro impI)
    fix now t x u
    assume "\<exists>y s. (new_rows docID (chunks t) (r # rs) \<longrightarrow> rows_added now [r] t s)
      \<and> (new_rows docID (chunks s) rs \<longrightarrow> rows_added now rs s u)"
      and n: "new_rows docID (chunks t) (r # rs)"
    then obtain s where s: "rows_added now [r] t s" "new_rows docID (chunks s) rs \<longrightarrow> rows_added now rs s u" by blast
    then have "new_rows docID (chunks s) rs" using new_rows_step(1)[OF n, of now] by (simp add: rows_added_def)
    then show "rows_added now (r # rs) t u" using s rows_added_Cons by blast
  qed
qed

lemma post_attempt:
  assumes "post m R" "\<And>w e w'. m w = (Inl e, w') \<Longrightarrow> db w' = db w"
  shows "post (attempt m) (\<lambda>now t r u. case r of Inl e \<Rightarrow> u = t | Inr x \<Rightarrow> R now t x u)"
  unfolding post_def
proof (intro conjI allI impI)
  show "frame (attempt m)" using assms(1) by (intro frame_attempt) (simp add: post_def)
next
  fix w r w'
  assume "attempt m w = (Inr r, w')"
  then have "m w = (r, w')" by (auto simp: attempt_apply prod_eq_iff)
  then show "case r of Inl e \<Rightarrow> db w' = db w | Inr x \<Rightarrow> R (clock w) (db w) x (db w')"
    using assms(2) postD[OF assms(1)] by (cases r) auto
qed

lemma post_rollback_to: "post (rollback_to saved) (\<lambda>now t x u. u = saved)"
proof -
  have m: "frame (modify (\<lambda>w. w\<lparr>db := saved, aborted := False\<rparr>))" by (simp add: frame_def)
  have f: "frame next_fault" by (simp add: frame_def next_fault_apply)
  have "frame (rollback_to saved)" unfolding rollback_to_def by (intro frame_bnd f m)
  then show ?thesis by (auto simp: post_def rollback_to_def bnd_eq_Inr)
qed

lemma post_copyChunks:
  "post (copyChunksWithFallback rs)
     (\<lambda>now t x u. new_rows docID (chunks t) rs \<longrightarrow> rows_added now rs t u)"
proof -
  have sv: "post (tx_stmt (query (\<lambda>t. t))) (\<lambda>now t x u. x = t \<and> u = t)"
    by (rule post_weaken[OF post_tx_stmt]) auto
  have cp: "post (tx_stmt (copy_chunks rs)) (\<lambda>now t x u. rows_added now rs t u)"
    by (rule post_weaken[OF post_tx_stmt]) (rule copy_rows_added)
  have at: "post (attempt (tx_stmt (copy_chunks rs)))
      (\<lambda>now t r u. case r of Inl e \<Rightarrow> u = t | Inr x \<Rightarrow> rows_added now rs t u)"
    by (rule post_attempt[OF cp]) (use tx_stmt_Inl in fastforce)
  let ?S = "\<lambda>saved r now t x u. case r of
       Inr _ \<Rightarrow> u = t
     | Inl e \<Rightarrow> (new_rows docID (chunks saved) rs \<longrightarrow> rows_added now rs saved u)"
  have rest: "post (case r of Inr _ \<Rightarrow> ret ()
      | Inl e \<Rightarrow> bnd (rollback_to saved) (\<lambda>_. for_each (\<lambda>row. tx_stmt (upsert_chunk row)) rs)) (?S saved r)" for saved r
  proof (cases r)
    case (Inl e)
    show ?thesis unfolding Inl sum.case
      by (rule post_weaken[OF post_bnd[OF post_rollback_to post_upserts[of rs docID]]]) auto
  next
    case (Inr x)
    show ?thesis unfolding Inr sum.case by (rule post_weaken[OF post_ret]) auto
  qed
  show ?thesis unfolding copyChunksWithFallback_def
    by (rule post_weaken[OF post_bnd[OF sv post_bnd[OF at rest]]]) (auto split: sum.splits)
qed

lemma unseen_rows_set: "r \<in> set (unseen_rows seen rs) \<Longrightarrow> r \<in> set rs"
  by (induction rs arbitrary: seen) (auto split: if_splits)

lemma unseen_rows_ids: "c_ID ` set (unseen_rows seen rs) = c_ID ` set rs - set seen"
  by (induction rs arbitrary: seen) auto

lemma unseen_rows_hashes: "distinct (map c_ChunkHash rs) \<Longrightarrow> distinct (map c_ChunkHash (unseen_rows seen rs))"
  by (induction rs arbitrary: seen) (auto dest: unseen_rows_set)

lemma unseen_rows_distinct: "distinct (map c_ID rs) \<Longrightarrow> set (map c_ID rs) \<inter> set seen = {} \<Longrightarrow> unseen_rows seen rs = rs"
  by (induction rs arbitrary: seen) auto

lemma new_rows_unseen: "new_rows docID cs rs \<Longrightarrow> new_rows docID cs (unseen_rows [] rs)"
  by (auto simp: new_rows_def unseen_rows_hashes dest!: unseen_rows_set)

text \<open>
  Whichever way it takes, an insert of rows that are new to the document adds exactly these rows,
  one for each id.
\<close>

lemma post_insert_rows:
  "post (insert_rows rs)
     (\<lambda>now t x u. new_rows docID (chunks t) rs \<longrightarrow> rows_added now (unseen_rows [] rs) t u)"
proof (cases "unseen_rows [] rs = []")
  case True
  then show ?thesis unfolding insert_rows_def Let_def
    by (simp only: simp_thms if_True) (rule post_weaken[OF post_ret], simp add: rows_added_def fresh_ids_def)
next
  case False
  have "post (insert_rows rs)
     (\<lambda>now t x u. new_rows docID (chunks t) (unseen_rows [] rs) \<longrightarrow> rows_added now (unseen_rows [] rs) t u)"
    using post_copyChunks unfolding insert_rows_def Let_def by (simp add: False)
  then show ?thesis by (rule post_weaken) (use new_rows_unseen in blast)
qed

section \<open>What the vector write does\<close>

text \<open>The chunk with the vector staged for it, if one is.\<close>

definition vectored :: "int \<Rightarrow> EmbeddingRow list \<Rightarrow> Chunk \<Rightarrow> Chunk" where
  "vectored now rows c =
     (case find (\<lambda>r. er_ChunkID r = c_ID c) rows of None \<Rightarrow> c | Some r \<Rightarrow> set_vector now (er_Vector r) c)"

lemma vectored_id [simp]: "c_ID (vectored now rows c) = c_ID c"
  by (simp add: vectored_def set_vector_def split: option.splits)

lemma vectored_twice: "vectored now rows (vectored now rows c) = vectored now rows c"
  by (simp add: vectored_def set_vector_def split: option.splits)

lemma id_batches_set: "set (concat (id_batches ids)) = set ids"
proof (induction ids rule: id_batches.induct)
  case (1 ids)
  show ?case
  proof (cases "ids = []")
    case False
    then have "set (concat (id_batches ids)) = set (take embedUpdateBatchSize ids) \<union> set (drop embedUpdateBatchSize ids)"
      using 1 by (subst id_batches.simps) simp
    then show ?thesis by (metis append_take_drop_id set_append)
  qed (simp add: id_batches.simps)
qed

text \<open>No statement of the write touches more than 500 chunks.\<close>

lemma id_batches_size: "ids \<in> set (id_batches xs) \<Longrightarrow> ids \<noteq> [] \<and> length ids \<le> 500"
proof (induction xs rule: id_batches.induct)
  case (1 xs)
  then show ?case by (subst (asm) (2) id_batches.simps) (auto simp: embedUpdateBatchSize_def split: if_splits)
qed

lemma update_batches:
  "fold (\<lambda>ids. update_batch rows ids now) bs t
     = t\<lparr>chunks := map (\<lambda>c. if c_ID c \<in> set (concat bs) then vectored now rows c else c) (chunks t)\<rparr>"
proof (induction bs arbitrary: t)
  case (Cons ids bs)
  have u: "update_batch rows ids now t = t\<lparr>chunks := map (\<lambda>c. if c_ID c \<in> set ids then vectored now rows c else c) (chunks t)\<rparr>"
    by (simp add: update_batch_def vectored_def)
  let ?g = "\<lambda>S c. if c_ID c \<in> S then vectored now rows c else c"
  have "?g (set (concat bs)) (?g (set ids) c) = ?g (set (concat (ids # bs))) c" for c
    by (auto simp: vectored_twice)
  then have m: "map (?g (set (concat bs))) (map (?g (set ids)) cs) = map (?g (set (concat (ids # bs)))) cs" for cs
    by (simp only: map_map comp_def)
  have "fold (\<lambda>ids. update_batch rows ids now) (ids # bs) t = fold (\<lambda>ids. update_batch rows ids now) bs (update_batch rows ids now t)"
    by simp
  also have "\<dots> = (update_batch rows ids now t)\<lparr>chunks := map (?g (set (concat bs))) (chunks (update_batch rows ids now t))\<rparr>"
    by (rule Cons.IH)
  also have "\<dots> = t\<lparr>chunks := map (?g (set (concat bs))) (map (?g (set ids)) (chunks t))\<rparr>"
    unfolding u by simp
  finally show ?case unfolding m .
qed (simp add: map_idI)

lemma find_some_mem: "(\<exists>r \<in> set rows. p r) \<longleftrightarrow> find p rows \<noteq> None"
  by (auto simp: find_None_iff)

lemma post_for_each_exec:
  "post (for_each (\<lambda>x. tx_stmt (exec (f x))) xs) (\<lambda>now t r u. u = fold (\<lambda>x. f x now) xs t)"
proof (induction xs)
  case (Cons x xs)
  show ?case unfolding for_each.simps
    by (rule post_weaken[OF post_bnd[OF post_tx_stmt Cons.IH]]) auto
next
  case Nil
  show ?case unfolding for_each.simps by (rule post_weaken[OF post_ret]) simp
qed

lemma post_CopyEmbeddings:
  "post (CopyEmbeddings rows) (\<lambda>now t x u. u = t\<lparr>chunks := map (vectored now rows) (chunks t)\<rparr>)"
proof (cases "rows = []")
  case True
  have v: "map (vectored now []) cs = cs" for now cs by (simp add: vectored_def map_idI)
  show ?thesis unfolding CopyEmbeddings_def True
    by (simp only: simp_thms if_True) (rule post_weaken[OF post_ret], simp add: v)
next
  case False
  have v: "(\<lambda>c. if c_ID c \<in> er_ChunkID ` set rows then vectored now rows c else c) = vectored now rows" for now
  proof (rule ext)
    fix c :: Chunk
    have "find (\<lambda>r. er_ChunkID r = c_ID c) rows = None" if "c_ID c \<notin> er_ChunkID ` set rows"
      using that by (auto simp: find_None_iff image_iff)
    then show "(if c_ID c \<in> er_ChunkID ` set rows then vectored now rows c else c) = vectored now rows c"
      by (simp add: vectored_def)
  qed
  have t0: "post (tx_stmt (exec (\<lambda>now t. t))) (\<lambda>now t x u. u = t)" by (rule post_weaken[OF post_tx_stmt]) auto
  have e: "fold (\<lambda>ids. update_batch rows ids now) (id_batches (map er_ChunkID rows)) t
      = t\<lparr>chunks := map (vectored now rows) (chunks t)\<rparr>" for now t
    unfolding update_batches id_batches_set by (simp add: v)
  show ?thesis unfolding CopyEmbeddings_def using False
    by (simp only: if_False)
      (rule post_weaken[OF post_bnd[OF t0 post_bnd[OF t0 post_for_each_exec]]], simp add: e)
qed

end
