(* ===== verification/Registry.thy ===== *)
theory Registry
  imports Store
begin

text \<open>
  The model registries and the collections bound to them (\<open>internal/store/embeddingmodels.go\<close>,
  \<open>rerankmodels.go\<close>, \<open>collections.go\<close>) and the vector index of each registered dimension
  (\<open>EnsureDimIndex\<close> of \<open>db.go\<close>).  An id the database generates is an argument.
\<close>

section \<open>The index of a dimension\<close>

definition wrapping :: "string \<Rightarrow> ('x world, goerr, 'a) prog \<Rightarrow> ('x world, goerr, 'a) prog" where
  "wrapping p m = bnd (attempt m) (\<lambda>r. case r of Inl e \<Rightarrow> raise (Wrap p e) | Inr x \<Rightarrow> ret x)"

text \<open>A deferred statement, whose error is ignored.\<close>

definition deferring :: "('x world, goerr, 'b) prog \<Rightarrow> ('x world, goerr, 'a) prog \<Rightarrow> ('x world, goerr, 'a) prog" where
  "deferring cleanup m = bnd (attempt m) (\<lambda>r. bnd (attempt cleanup) (\<lambda>_. of_sum r))"

abbreviation session_stmt :: "('x world, goerr, unit) prog" where
  "session_stmt \<equiv> pool_stmt (query (\<lambda>t. ()))"

definition index_name :: "int \<Rightarrow> string" where
  "index_name n = ''ix_chunks_hnsw_'' @ itoa n"

definition create_index :: "int \<Rightarrow> ('x world, goerr, unit) prog" where
  "create_index n =
     bnd (pool_stmt (query (\<lambda>t. n \<in> set (dim_indexes t)))) (\<lambda>exists.
     if exists then ret ()
     else wrapping (''ensure '' @ index_name n @ '': '')
            (pool_stmt (exec (\<lambda>now t. t\<lparr>dim_indexes := dim_indexes t @ [n]\<rparr>))))"

definition ensureDimIndexOnce :: "int \<Rightarrow> ('x world, goerr, unit) prog" where
  "ensureDimIndexOnce n =
     bnd next_fault (\<lambda>_.
     deferring session_stmt
       (bnd (wrapping ''ddl statement_timeout: '' session_stmt) (\<lambda>_.
        bnd (wrapping ''ddl lock_timeout: '' session_stmt) (\<lambda>_.
        bnd (wrapping ''dim index advisory lock: '' session_stmt) (\<lambda>_.
        deferring session_stmt (create_index n))))))"

definition ensureDimIndexAttempts :: nat where
  "ensureDimIndexAttempts = 3"

definition exhausted :: "int \<Rightarrow> goerr \<Rightarrow> goerr" where
  "exhausted n e =
     Wrap (''ensure '' @ index_name n @ '' after '' @ itoa (int ensureDimIndexAttempts) @ '' attempts: '') e"

fun ensure_attempts :: "nat \<Rightarrow> int \<Rightarrow> goerr option \<Rightarrow> ('x world, goerr, unit) prog" where
  "ensure_attempts 0 n lastErr = raise (exhausted n (the lastErr))"
| "ensure_attempts (Suc k) n lastErr =
     bnd (attempt (ensureDimIndexOnce n)) (\<lambda>r.
     case r of
       Inr _ \<Rightarrow> ret ()
     | Inl e \<Rightarrow> if \<not> IsTransientPGError (Some e) then raise e else ensure_attempts k n (Some e))"

definition EnsureDimIndex :: "int \<Rightarrow> ('x world, goerr, unit) prog" where
  "EnsureDimIndex n =
     (if n < 1 \<or> 2000 < n then raise (Plain (''vector_dim '' @ itoa n @ '' out of range 1..2000''))
      else ensure_attempts ensureDimIndexAttempts n None)"

section \<open>Embedding models\<close>

definition ErrModelNotFound :: goerr where
  "ErrModelNotFound = Plain ''embedding model not found''"

definition ErrModelInUse :: goerr where
  "ErrModelInUse = Plain ''model bound to collection(s)''"

definition scanModel :: "EmbeddingModel \<times> string option \<Rightarrow> EmbeddingModel" where
  "scanModel row = (fst row)\<lparr>em_HasAPIKey := snd row \<noteq> None\<rparr>"

definition model_by_id :: "string \<Rightarrow> tables \<Rightarrow> EmbeddingModel option" where
  "model_by_id i t = map_option scanModel (find (\<lambda>r. em_ID (fst r) = i) (embedding_models t))"

definition model_checks :: "EmbeddingModel \<Rightarrow> bool" where
  "model_checks m \<longleftrightarrow>
     em_Provider m \<in> {''tei'', ''ollama'', ''openai''} \<and> 0 < em_VectorDim m \<and> em_VectorDim m \<le> 2000
     \<and> 1 \<le> em_BatchSize m \<and> 1 \<le> em_CtxBudget m \<and> 0 \<le> em_TruncateChars m"

definition ListEmbeddingModels :: "('x world, goerr, EmbeddingModel list) prog" where
  "ListEmbeddingModels = pool_stmt (query (\<lambda>t. sort_key em_CreatedAt (map scanModel (embedding_models t))))"

definition GetEmbeddingModel :: "string \<Rightarrow> ('x world, goerr, EmbeddingModel option) prog" where
  "GetEmbeddingModel i = pool_stmt (query (model_by_id i))"

definition insert_model :: "string \<Rightarrow> EmbeddingModel \<Rightarrow> string option \<Rightarrow> EmbeddingModel stmt" where
  "insert_model uuid m apiKey now t =
     (let row = (m\<lparr>em_ID := uuid, em_CreatedAt := now, em_UpdatedAt := now\<rparr>, apiKey)
      in if \<not> model_checks m then (Inl (PgError ''23514'' ''embedding_models_check''), t)
         else if \<exists>r \<in> set (embedding_models t). em_ID (fst r) = uuid
         then (Inl (PgError ''23505'' ''embedding_models_pkey''), t)
         else if \<exists>r \<in> set (embedding_models t). em_Name (fst r) = em_Name m
         then (Inl (PgError ''23505'' ''embedding_models_name_key''), t)
         else (Inr (scanModel row), t\<lparr>embedding_models := embedding_models t @ [row]\<rparr>))"

definition InsertEmbeddingModel ::
  "string \<Rightarrow> EmbeddingModel \<Rightarrow> string option \<Rightarrow> ('x world, goerr, EmbeddingModel) prog" where
  "InsertEmbeddingModel uuid m apiKey =
     bnd (pool_stmt (insert_model uuid m apiKey)) (\<lambda>out.
     bnd (EnsureDimIndex (em_VectorDim out)) (\<lambda>_. ret out))"

definition updated_model ::
  "EmbeddingModel \<Rightarrow> string option \<Rightarrow> int \<Rightarrow> EmbeddingModel \<times> string option \<Rightarrow> EmbeddingModel \<times> string option" where
  "updated_model m apiKey now row =
     (m\<lparr>em_ID := em_ID (fst row), em_CreatedAt := em_CreatedAt (fst row), em_UpdatedAt := now\<rparr>,
      case apiKey of None \<Rightarrow> snd row | Some k \<Rightarrow> Some k)"

definition update_model :: "string \<Rightarrow> EmbeddingModel \<Rightarrow> string option \<Rightarrow> EmbeddingModel option stmt" where
  "update_model i m apiKey now t =
     (case find (\<lambda>r. em_ID (fst r) = i) (embedding_models t) of
        None \<Rightarrow> (Inr None, t)
      | Some row \<Rightarrow>
          if \<not> model_checks m then (Inl (PgError ''23514'' ''embedding_models_check''), t)
          else if \<exists>r \<in> set (embedding_models t). em_ID (fst r) \<noteq> i \<and> em_Name (fst r) = em_Name m
          then (Inl (PgError ''23505'' ''embedding_models_name_key''), t)
          else (Inr (Some (scanModel (updated_model m apiKey now row))),
                t\<lparr>embedding_models := map (\<lambda>r. if em_ID (fst r) = i then updated_model m apiKey now r else r) (embedding_models t)\<rparr>))"

definition UpdateEmbeddingModel ::
  "string \<Rightarrow> EmbeddingModel \<Rightarrow> string option \<Rightarrow> ('x world, goerr, EmbeddingModel option) prog" where
  "UpdateEmbeddingModel i m apiKey =
     bnd (pool_stmt (update_model i m apiKey)) (\<lambda>r.
     case r of
       None \<Rightarrow> ret None
     | Some out \<Rightarrow> bnd (EnsureDimIndex (em_VectorDim out)) (\<lambda>_. ret (Some out)))"

definition CountCollectionRefs :: "string \<Rightarrow> ('x world, goerr, int) prog" where
  "CountCollectionRefs modelID =
     pool_stmt (query (\<lambda>t. int (length (filter (\<lambda>c. k_EmbeddingModelID c = Some modelID) (collections t)))))"

definition delete_model :: "string \<Rightarrow> unit stmt" where
  "delete_model i now t =
     (if \<exists>c \<in> set (collections t). k_EmbeddingModelID c = Some i
      then (Inl (PgError ''23503'' ''collections_embedding_model_id_fkey''), t)
      else (Inr (), t\<lparr>embedding_models := filter (\<lambda>r. em_ID (fst r) \<noteq> i) (embedding_models t)\<rparr>))"

definition DeleteEmbeddingModel :: "string \<Rightarrow> ('x world, goerr, unit) prog" where
  "DeleteEmbeddingModel i =
     bnd (GetEmbeddingModel i) (\<lambda>m.
     if m = None then raise ErrModelNotFound
     else bnd (CountCollectionRefs i) (\<lambda>n.
          if 0 < n then raise (WrapAfter ErrModelInUse ('': '' @ itoa n))
          else pool_stmt (delete_model i)))"

record EmbeddingSeed =
  sd_Provider :: string
  sd_ModelID :: string
  sd_Dim :: int
  sd_IngestURL :: string
  sd_QueryURL :: string

definition seed_model :: "EmbeddingSeed \<Rightarrow> EmbeddingModel" where
  "seed_model s =
     \<lparr>em_ID = [], em_Name = ''bge-m3 @ seed'', em_Provider = sd_Provider s, em_ModelID = sd_ModelID s,
      em_IngestURL = sd_IngestURL s, em_QueryURL = sd_QueryURL s, em_HasAPIKey = False, em_VectorDim = sd_Dim s,
      em_QueryPrefix = ''search_query: '', em_BatchSize = 48, em_CtxBudget = 1900, em_TruncateChars = 6000,
      em_CreatedAt = 0, em_UpdatedAt = 0\<rparr>"

definition SeedDefaultEmbeddingModel :: "string \<Rightarrow> EmbeddingSeed \<Rightarrow> ('x world, goerr, unit) prog" where
  "SeedDefaultEmbeddingModel uuid seed =
     bnd (pool_stmt (\<lambda>now t.
        if embedding_models t \<noteq> [] then (Inr (), t)
        else case insert_model uuid (seed_model seed) None now t of
               (Inl e, u) \<Rightarrow> (Inl e, u)
             | (Inr _, u) \<Rightarrow> (Inr (), u))) (\<lambda>_.
     EnsureDimIndex (sd_Dim seed))"

section \<open>Collections\<close>

definition ListCollections :: "('x world, goerr, Collection list) prog" where
  "ListCollections = pool_stmt (query (\<lambda>t. sort_key k_CreatedAt (collections t)))"

definition GetCollection :: "string \<Rightarrow> ('x world, goerr, Collection option) prog" where
  "GetCollection i = pool_stmt (query (\<lambda>t. find (\<lambda>c. k_ID c = i) (collections t)))"

definition new_collection :: "string \<Rightarrow> string \<Rightarrow> EmbeddingModel \<Rightarrow> int \<Rightarrow> Collection" where
  "new_collection i name m now =
     \<lparr>k_ID = i, k_Name = name, k_EmbeddingModel = em_ModelID m, k_VectorDim = em_VectorDim m,
      k_EmbeddingModelID = Some (em_ID m), k_RerankModelID = None, k_CreatedAt = now\<rparr>"

definition insert_collection :: "string \<Rightarrow> string \<Rightarrow> EmbeddingModel \<Rightarrow> Collection stmt" where
  "insert_collection i name m now t =
     (if \<exists>c \<in> set (collections t). k_ID c = i then (Inl (PgError ''23505'' ''collections_pkey''), t)
      else if \<forall>r \<in> set (embedding_models t). em_ID (fst r) \<noteq> em_ID m
      then (Inl (PgError ''23503'' ''collections_embedding_model_id_fkey''), t)
      else (Inr (new_collection i name m now), t\<lparr>collections := collections t @ [new_collection i name m now]\<rparr>))"

definition InsertCollection :: "string \<Rightarrow> string \<Rightarrow> EmbeddingModel \<Rightarrow> ('x world, goerr, Collection) prog" where
  "InsertCollection i name m =
     bnd (pool_stmt (insert_collection i name m)) (\<lambda>c.
     bnd (EnsureDimIndex (em_VectorDim m)) (\<lambda>_. ret c))"

definition bound_to :: "EmbeddingModel \<Rightarrow> Collection \<Rightarrow> Collection" where
  "bound_to m c = c\<lparr>k_EmbeddingModelID := Some (em_ID m), k_EmbeddingModel := em_ModelID m, k_VectorDim := em_VectorDim m\<rparr>"

definition bind_collection :: "string \<Rightarrow> EmbeddingModel \<Rightarrow> Collection option stmt" where
  "bind_collection cid m now t =
     (case find (\<lambda>c. k_ID c = cid) (collections t) of
        None \<Rightarrow> (Inr None, t)
      | Some c \<Rightarrow>
          if \<forall>r \<in> set (embedding_models t). em_ID (fst r) \<noteq> em_ID m
          then (Inl (PgError ''23503'' ''collections_embedding_model_id_fkey''), t)
          else (Inr (Some (bound_to m c)),
                t\<lparr>collections := map (\<lambda>c. if k_ID c = cid then bound_to m c else c) (collections t)\<rparr>))"

definition BindCollectionModel :: "string \<Rightarrow> string \<Rightarrow> ('x world, goerr, Collection option) prog" where
  "BindCollectionModel collectionID modelID =
     bnd (GetEmbeddingModel modelID) (\<lambda>mo.
     case mo of
       None \<Rightarrow> raise ErrModelNotFound
     | Some m \<Rightarrow>
         bnd (pool_stmt (bind_collection collectionID m)) (\<lambda>c.
         case c of
           None \<Rightarrow> ret None
         | Some k \<Rightarrow> bnd (EnsureDimIndex (em_VectorDim m)) (\<lambda>_. ret (Some k))))"

definition bound_model :: "string \<Rightarrow> tables \<Rightarrow> EmbeddingModel option" where
  "bound_model cid t =
     Option.bind (find (\<lambda>c. k_ID c = cid) (collections t)) (\<lambda>c.
     Option.bind (k_EmbeddingModelID c) (\<lambda>i. model_by_id i t))"

definition ResolveCollectionModel :: "string \<Rightarrow> ('x world, goerr, EmbeddingModel option) prog" where
  "ResolveCollectionModel collectionID = pool_stmt (query (bound_model collectionID))"

definition GetModelsByCollectionIDs :: "string list \<Rightarrow> ('x world, goerr, string \<rightharpoonup> EmbeddingModel) prog" where
  "GetModelsByCollectionIDs ids =
     (if ids = [] then ret Map.empty
      else pool_stmt (query (\<lambda>t i. if i \<in> set ids then bound_model i t else None)))"

definition CollectionCounts :: "string \<Rightarrow> ('x world, goerr, int \<times> int) prog" where
  "CollectionCounts i =
     bnd (pool_stmt (query (\<lambda>t. int (length (filter (\<lambda>d. d_CollectionID d = Some i) (documents t)))))) (\<lambda>docs.
     bnd (pool_stmt (query (\<lambda>t. int (length (filter (\<lambda>c.
            \<exists>d \<in> set (documents t). d_ID d = c_DocID c \<and> d_CollectionID d = Some i) (chunks t)))))) (\<lambda>cs.
     ret (docs, cs)))"

definition sum_known :: "int option list \<Rightarrow> int" where
  "sum_known xs = sum_list (map (\<lambda>x. case x of None \<Rightarrow> 0 | Some n \<Rightarrow> n) xs)"

definition CollectionStatsAgg :: "string \<Rightarrow> ('x world, goerr, int \<times> int) prog" where
  "CollectionStatsAgg i = pool_stmt (query (\<lambda>t.
     let mine = filter (\<lambda>d. d_CollectionID d = Some i) (documents t)
     in (sum_known (map d_ByteSize mine), sum_known (map d_TotalShards mine))))"

definition MCPDocCountPerCollection :: "('x world, goerr, (string \<times> int) list) prog" where
  "MCPDocCountPerCollection = pool_stmt (query (\<lambda>t.
     map (\<lambda>c. (k_ID c, int (length (filter (\<lambda>d. d_CollectionID d = Some (k_ID c)) (documents t))))) (collections t)))"

section \<open>Rerank models\<close>

definition ErrRerankModelNotFound :: goerr where
  "ErrRerankModelNotFound = Plain ''rerank model not found''"

definition ErrRerankModelInUse :: goerr where
  "ErrRerankModelInUse = Plain ''rerank model bound to collection(s)''"

definition scanRerankModel :: "RerankModel \<times> string option \<Rightarrow> RerankModel" where
  "scanRerankModel row = (fst row)\<lparr>rm_HasAPIKey := snd row \<noteq> None\<rparr>"

definition reranker_by_id :: "string \<Rightarrow> tables \<Rightarrow> RerankModel option" where
  "reranker_by_id i t = map_option scanRerankModel (find (\<lambda>r. rm_ID (fst r) = i) (rerank_models t))"

definition reranker_checks :: "RerankModel \<Rightarrow> bool" where
  "reranker_checks m \<longleftrightarrow> rm_Provider m \<in> {''tei'', ''openai''} \<and> 0 \<le> rm_TruncateChars m"

definition ListRerankModels :: "('x world, goerr, RerankModel list) prog" where
  "ListRerankModels = pool_stmt (query (\<lambda>t. sort_key rm_CreatedAt (map scanRerankModel (rerank_models t))))"

definition GetRerankModel :: "string \<Rightarrow> ('x world, goerr, RerankModel option) prog" where
  "GetRerankModel i = pool_stmt (query (reranker_by_id i))"

definition insert_reranker :: "string \<Rightarrow> RerankModel \<Rightarrow> string option \<Rightarrow> RerankModel stmt" where
  "insert_reranker uuid m apiKey now t =
     (let row = (m\<lparr>rm_ID := uuid, rm_CreatedAt := now, rm_UpdatedAt := now\<rparr>, apiKey)
      in if \<not> reranker_checks m then (Inl (PgError ''23514'' ''rerank_models_check''), t)
         else if \<exists>r \<in> set (rerank_models t). rm_ID (fst r) = uuid
         then (Inl (PgError ''23505'' ''rerank_models_pkey''), t)
         else if \<exists>r \<in> set (rerank_models t). rm_Name (fst r) = rm_Name m
         then (Inl (PgError ''23505'' ''rerank_models_name_key''), t)
         else (Inr (scanRerankModel row), t\<lparr>rerank_models := rerank_models t @ [row]\<rparr>))"

definition InsertRerankModel :: "string \<Rightarrow> RerankModel \<Rightarrow> string option \<Rightarrow> ('x world, goerr, RerankModel) prog" where
  "InsertRerankModel uuid m apiKey = pool_stmt (insert_reranker uuid m apiKey)"

definition updated_reranker ::
  "RerankModel \<Rightarrow> string option \<Rightarrow> int \<Rightarrow> RerankModel \<times> string option \<Rightarrow> RerankModel \<times> string option" where
  "updated_reranker m apiKey now row =
     (m\<lparr>rm_ID := rm_ID (fst row), rm_CreatedAt := rm_CreatedAt (fst row), rm_UpdatedAt := now\<rparr>,
      case apiKey of None \<Rightarrow> snd row | Some k \<Rightarrow> Some k)"

definition UpdateRerankModel ::
  "string \<Rightarrow> RerankModel \<Rightarrow> string option \<Rightarrow> ('x world, goerr, RerankModel option) prog" where
  "UpdateRerankModel i m apiKey = pool_stmt (\<lambda>now t.
     case find (\<lambda>r. rm_ID (fst r) = i) (rerank_models t) of
        None \<Rightarrow> (Inr None, t)
      | Some row \<Rightarrow>
          if \<not> reranker_checks m then (Inl (PgError ''23514'' ''rerank_models_check''), t)
          else if \<exists>r \<in> set (rerank_models t). rm_ID (fst r) \<noteq> i \<and> rm_Name (fst r) = rm_Name m
          then (Inl (PgError ''23505'' ''rerank_models_name_key''), t)
          else (Inr (Some (scanRerankModel (updated_reranker m apiKey now row))),
                t\<lparr>rerank_models := map (\<lambda>r. if rm_ID (fst r) = i then updated_reranker m apiKey now r else r) (rerank_models t)\<rparr>))"

definition CountCollectionRerankRefs :: "string \<Rightarrow> ('x world, goerr, int) prog" where
  "CountCollectionRerankRefs modelID =
     pool_stmt (query (\<lambda>t. int (length (filter (\<lambda>c. k_RerankModelID c = Some modelID) (collections t)))))"

definition delete_reranker :: "string \<Rightarrow> unit stmt" where
  "delete_reranker i now t =
     (if \<exists>c \<in> set (collections t). k_RerankModelID c = Some i
      then (Inl (PgError ''23503'' ''collections_rerank_model_id_fkey''), t)
      else (Inr (), t\<lparr>rerank_models := filter (\<lambda>r. rm_ID (fst r) \<noteq> i) (rerank_models t)\<rparr>))"

definition DeleteRerankModel :: "string \<Rightarrow> ('x world, goerr, unit) prog" where
  "DeleteRerankModel i =
     bnd (GetRerankModel i) (\<lambda>m.
     if m = None then raise ErrRerankModelNotFound
     else bnd (CountCollectionRerankRefs i) (\<lambda>n.
          if 0 < n then raise (WrapAfter ErrRerankModelInUse ('': '' @ itoa n))
          else pool_stmt (delete_reranker i)))"

definition nullableID :: "string \<Rightarrow> string option" where
  "nullableID i = (if i = [] then None else Some i)"

definition bind_reranker :: "string \<Rightarrow> string option \<Rightarrow> Collection option stmt" where
  "bind_reranker cid mid now t =
     (case find (\<lambda>c. k_ID c = cid) (collections t) of
        None \<Rightarrow> (Inr None, t)
      | Some c \<Rightarrow>
          if (case mid of None \<Rightarrow> False | Some i \<Rightarrow> \<forall>r \<in> set (rerank_models t). rm_ID (fst r) \<noteq> i)
          then (Inl (PgError ''23503'' ''collections_rerank_model_id_fkey''), t)
          else (Inr (Some (c\<lparr>k_RerankModelID := mid\<rparr>)),
                t\<lparr>collections := map (\<lambda>c. if k_ID c = cid then c\<lparr>k_RerankModelID := mid\<rparr> else c) (collections t)\<rparr>))"

definition BindCollectionReranker :: "string \<Rightarrow> string \<Rightarrow> ('x world, goerr, Collection option) prog" where
  "BindCollectionReranker collectionID modelID =
     bnd (if modelID \<noteq> [] then GetRerankModel modelID else ret None) (\<lambda>m.
     if modelID \<noteq> [] \<and> m = None then raise ErrRerankModelNotFound
     else pool_stmt (bind_reranker collectionID (nullableID modelID)))"

record RerankSeed =
  rs_Enabled :: bool
  rs_ModelID :: string
  rs_QueryURL :: string

definition SeedDefaultRerankModel :: "string \<Rightarrow> RerankSeed \<Rightarrow> ('x world, goerr, unit) prog" where
  "SeedDefaultRerankModel uuid seed =
     (if \<not> rs_Enabled seed then ret ()
      else pool_stmt (\<lambda>now t.
        if rerank_models t \<noteq> [] then (Inr (), t)
        else case insert_reranker uuid
               \<lparr>rm_ID = [], rm_Name = ''tei-rerank'', rm_Provider = ''tei'', rm_ModelID = rs_ModelID seed,
                rm_QueryURL = rs_QueryURL seed, rm_HasAPIKey = False, rm_TruncateChars = 6000, rm_CreatedAt = 0,
                rm_UpdatedAt = 0\<rparr> None now t of
               (Inl e, u) \<Rightarrow> (Inl e, u)
             | (Inr _, u) \<Rightarrow> (Inr (), u)))"

definition ResolveCollectionReranker :: "string \<Rightarrow> ('x world, goerr, RerankModel option) prog" where
  "ResolveCollectionReranker collectionID = pool_stmt (query (\<lambda>t.
     Option.bind (find (\<lambda>c. k_ID c = collectionID) (collections t)) (\<lambda>c.
     Option.bind (k_RerankModelID c) (\<lambda>i. reranker_by_id i t))))"

definition GetRerankModelWithKey :: "string \<Rightarrow> ('x world, goerr, (RerankModel \<times> string) option) prog" where
  "GetRerankModelWithKey i = pool_stmt (query (\<lambda>t.
     map_option (\<lambda>r. (scanRerankModel r, case snd r of None \<Rightarrow> [] | Some k \<Rightarrow> k))
       (find (\<lambda>r. rm_ID (fst r) = i) (rerank_models t))))"

end
