(* ===== verification/EmbedBatching.thy ===== *)
theory EmbedBatching
  imports Utf8 "HOL-Library.AList"
begin

text \<open>
  Embed-side helpers of \<open>internal/pipeline\<close>: byte-bounded truncation at a rune boundary
  (\<open>truncate.go\<close>), the word-count tokenizer (\<open>tokenizer.go\<close>), token-budgeted batching
  and the shard prefetch (\<open>embedder.go\<close>).
\<close>

section \<open>Truncation at a rune boundary\<close>

text \<open>The \<open>for len(cut) > 0\<close> loop that walks back over an incomplete trailing rune.\<close>

fun walk_back :: "nat \<Rightarrow> string \<Rightarrow> string" where
  "walk_back 0 buf = buf"
| "walk_back (Suc k) buf =
     (if buf = [] then buf
      else let (r, size) = decode_last_rune buf
           in if r \<noteq> rune_error \<or> size > 1 then buf else walk_back k (butlast buf))"

text \<open>
  Every turn of the loop drops a byte, so \<open>length\<close> turns always suffice
  (\<open>walk_back_enough\<close> below).
\<close>

definition TruncateRunes :: "string \<Rightarrow> int \<Rightarrow> string" where
  "TruncateRunes s n =
     (if n \<le> 0 then []
      else if int (length s) \<le> n then s
      else walk_back (nat n) (take (nat n) s))"

section \<open>Tokenizer\<close>

definition WhitespaceCount :: "string \<Rightarrow> int" where
  "WhitespaceCount text = int (length (str_fields text))"

section \<open>Batch planning\<close>

text \<open>\<open>splitWordsTruncate\<close>: the loop over the words, stopping at the first that would exceed the budget.\<close>

fun words_within :: "(string \<Rightarrow> int) \<Rightarrow> int \<Rightarrow> int \<Rightarrow> string list \<Rightarrow> string list" where
  "words_within count budget tokens [] = []"
| "words_within count budget tokens (w # ws) =
     (if tokens + count w > budget then []
      else w # words_within count budget (tokens + count w) ws)"

definition splitWordsTruncate :: "string \<Rightarrow> (string \<Rightarrow> int) \<Rightarrow> int \<Rightarrow> string" where
  "splitWordsTruncate text count budget = join '' '' (words_within count budget 0 (str_fields text))"

record plan_state =
  batches :: "string list list"
  truncated :: "string list"
  cur :: "string list"
  curTokens :: int

text \<open>A text longer than the budget alone is cut to it.\<close>

definition fit_text :: "(string \<Rightarrow> int) \<Rightarrow> int \<Rightarrow> string \<Rightarrow> string" where
  "fit_text count ctxBudget text =
     (if count text > ctxBudget then splitWordsTruncate text count ctxBudget else text)"

definition plan_step :: "(string \<Rightarrow> int) \<Rightarrow> int \<Rightarrow> int \<Rightarrow> string \<Rightarrow> plan_state \<Rightarrow> plan_state" where
  "plan_step count ctxBudget batchSize text0 st0 =
     (let t0 = count text0;
          (text, t, st) =
            (if t0 > ctxBudget
             then let words = splitWordsTruncate text0 count ctxBudget
                  in (words, count words, st0\<lparr>truncated := truncated st0 @ [words]\<rparr>)
             else (text0, t0, st0));
          st1 = (if cur st \<noteq> [] \<and> curTokens st + t > ctxBudget \<or> int (length (cur st)) \<ge> batchSize
                 then st\<lparr>batches := batches st @ [cur st], cur := [], curTokens := 0\<rparr>
                 else st)
      in st1\<lparr>cur := cur st1 @ [text], curTokens := curTokens st1 + t\<rparr>)"

definition PlanBatches ::
  "string list \<Rightarrow> (string \<Rightarrow> int) option \<Rightarrow> int \<Rightarrow> int \<Rightarrow> string list list \<times> string list" where
  "PlanBatches texts tok ctxBudget batchSize =
     (let count = (case tok of None \<Rightarrow> WhitespaceCount | Some c \<Rightarrow> c);
          st = fold (plan_step count ctxBudget batchSize) texts
                 \<lparr>batches = [], truncated = [], cur = [], curTokens = 0\<rparr>
      in (if cur st \<noteq> [] then batches st @ [cur st] else batches st, truncated st))"

section \<open>Prefetch\<close>

text \<open>
  The fan-out over shard keys.  \<open>fetch\<close> is the object-store read; \<open>order\<close> is the order
  in which the goroutines finish, a permutation of the keys, and decides which error the
  error channel yields first.  \<open>wrap\<close> is the \<open>shard %d: %w\<close> wrapping.
\<close>

fun prefetch_seq :: "(int \<Rightarrow> 'e + string) \<Rightarrow> int list \<Rightarrow> (int \<times> string) list \<Rightarrow> 'e + (int \<times> string) list" where
  "prefetch_seq fetch [] out = Inr out"
| "prefetch_seq fetch (k # ks) out =
     (case fetch k of Inl e \<Rightarrow> Inl e | Inr v \<Rightarrow> prefetch_seq fetch ks (AList.update k v out))"

fun prefetch_gather ::
  "(int \<Rightarrow> 'e \<Rightarrow> 'e) \<Rightarrow> (int \<Rightarrow> 'e + string) \<Rightarrow> int list \<Rightarrow> 'e list \<Rightarrow> (int \<times> string) list
   \<Rightarrow> 'e list \<times> (int \<times> string) list" where
  "prefetch_gather wrap fetch [] errs out = (errs, out)"
| "prefetch_gather wrap fetch (k # ks) errs out =
     (case fetch k of
        Inl e \<Rightarrow> prefetch_gather wrap fetch ks (errs @ [wrap k e]) out
      | Inr v \<Rightarrow> prefetch_gather wrap fetch ks errs (AList.update k v out))"

definition Prefetch ::
  "(int \<Rightarrow> 'e \<Rightarrow> 'e) \<Rightarrow> int list \<Rightarrow> (int \<Rightarrow> 'e + string) \<Rightarrow> int \<Rightarrow> int list
   \<Rightarrow> 'e + (int \<times> string) list" where
  "Prefetch wrap keys fetch workers order =
     (if length keys \<le> 1 \<or> workers \<le> 1 then prefetch_seq fetch keys []
      else case prefetch_gather wrap fetch order [] [] of
             ([], out) \<Rightarrow> Inr out
           | (e # _, out) \<Rightarrow> Inl e)"

section \<open>The interface of a tokenizer\<close>

text \<open>
  What batch planning needs of a \<open>Tokenizer\<close>: counts are not negative, and joining
  words with blanks counts at most what the words count.
\<close>

locale tokenizer =
  fixes count :: "string \<Rightarrow> int"
  assumes count_nonneg: "0 \<le> count s"
    and count_join: "count (join '' '' ws) \<le> sum_list (map count ws)"
begin

lemma words_within_budget:
  "tokens \<le> budget \<Longrightarrow>
   tokens + sum_list (map count (words_within count budget tokens ws)) \<le> budget"
proof (induction ws arbitrary: tokens)
  case (Cons w ws)
  then show ?case using Cons.IH[of "tokens + count w"] by (auto simp: algebra_simps)
qed simp

lemma fit_text_budget: "0 \<le> budget \<Longrightarrow> count (fit_text count budget text) \<le> budget"
  using words_within_budget[of 0 budget "str_fields text"]
    count_join[of "words_within count budget 0 (str_fields text)"]
  by (auto simp: fit_text_def splitWordsTruncate_def)

definition plan_inv :: "int \<Rightarrow> int \<Rightarrow> string list \<Rightarrow> plan_state \<Rightarrow> bool" where
  "plan_inv budget bsize seen st \<longleftrightarrow>
     concat (batches st) @ cur st = map (fit_text count budget) seen
     \<and> (\<forall>b \<in> set (batches st). b \<noteq> [] \<and> int (length b) \<le> bsize \<and> sum_list (map count b) \<le> budget)
     \<and> int (length (cur st)) \<le> bsize \<and> curTokens st = sum_list (map count (cur st))
     \<and> curTokens st \<le> budget
     \<and> truncated st = map (fit_text count budget) (filter (\<lambda>t. count t > budget) seen)"

lemma plan_step_inv:
  assumes inv: "plan_inv budget bsize seen st" and "0 \<le> budget" and "1 \<le> bsize"
  shows "plan_inv budget bsize (seen @ [text]) (plan_step count budget bsize text st)"
proof -
  let ?t = "fit_text count budget text"
  let ?st = "st\<lparr>truncated := truncated st @ (if count text > budget then [?t] else [])\<rparr>"
  let ?flush = "cur st \<noteq> [] \<and> curTokens st + count ?t > budget \<or> int (length (cur st)) \<ge> bsize"
  have step: "plan_step count budget bsize text st =
    (if ?flush then ?st\<lparr>batches := batches st @ [cur st], cur := [?t], curTokens := count ?t\<rparr>
     else ?st\<lparr>cur := cur st @ [?t], curTokens := curTokens st + count ?t\<rparr>)"
    by (simp add: plan_step_def fit_text_def Let_def)
  have fit: "count ?t \<le> budget" by (rule fit_text_budget[OF assms(2)])
  have ne: "cur st \<noteq> []" if ?flush using that assms(3) by auto
  show ?thesis
  proof (cases ?flush)
    case True
    then show ?thesis unfolding step using inv fit ne assms(2,3)
      by (auto simp: plan_inv_def)
  next
    case False
    have "curTokens st + count ?t \<le> budget"
      using False fit inv by (cases "cur st = []") (auto simp: plan_inv_def)
    then show ?thesis unfolding step using inv False assms(2,3)
      by (auto simp: plan_inv_def)
  qed
qed

lemma plan_fold_inv:
  "0 \<le> budget \<Longrightarrow> 1 \<le> bsize \<Longrightarrow> plan_inv budget bsize seen st \<Longrightarrow>
   plan_inv budget bsize (seen @ texts) (fold (plan_step count budget bsize) texts st)"
proof (induction texts arbitrary: seen st)
  case (Cons t ts)
  then show ?case using Cons.IH[OF _ _ plan_step_inv[OF Cons.prems(3), of t]] by simp
qed simp

lemma plan_batches:
  assumes "0 \<le> budget" and "1 \<le> bsize" and "PlanBatches texts (Some count) budget bsize = (bs, tr)"
  shows "concat bs = map (fit_text count budget) texts"
    and "b \<in> set bs \<Longrightarrow> b \<noteq> [] \<and> int (length b) \<le> bsize \<and> sum_list (map count b) \<le> budget"
    and "tr = map (fit_text count budget) (filter (\<lambda>t. count t > budget) texts)"
proof -
  let ?st = "fold (plan_step count budget bsize) texts \<lparr>batches = [], truncated = [], cur = [], curTokens = 0\<rparr>"
  have "plan_inv budget bsize ([] @ texts) ?st"
    using assms(1,2) by (intro plan_fold_inv) (simp_all add: plan_inv_def)
  then have inv: "plan_inv budget bsize texts ?st" by simp
  have bs: "bs = (if cur ?st \<noteq> [] then batches ?st @ [cur ?st] else batches ?st)" and tr: "tr = truncated ?st"
    using assms(3) by (auto simp: PlanBatches_def Let_def)
  show "concat bs = map (fit_text count budget) texts"
    and "b \<in> set bs \<Longrightarrow> b \<noteq> [] \<and> int (length b) \<le> bsize \<and> sum_list (map count b) \<le> budget"
    and "tr = map (fit_text count budget) (filter (\<lambda>t. count t > budget) texts)"
    using inv by (auto simp: bs tr plan_inv_def split: if_splits)
qed

end

lemma WhitespaceCount_map: "map WhitespaceCount ws = map (\<lambda>w. int (length (str_fields w))) ws"
  by (simp add: WhitespaceCount_def)

interpretation ws: tokenizer WhitespaceCount
  by unfold_locales
    (simp_all add: WhitespaceCount_map WhitespaceCount_def str_fields_join length_concat comp_def
      int_sum_list_map)

lemma PlanBatches_default: "PlanBatches texts None = PlanBatches texts (Some WhitespaceCount)"
  by (rule ext)+ (simp add: PlanBatches_def)

section \<open>Truncation: correctness\<close>

subsection \<open>Decoding backwards\<close>

lemma back_start_at:
  "lim \<le> k \<Longrightarrow> k \<le> start \<Longrightarrow> rune_start (s ! nat k) \<Longrightarrow>
   \<forall>j. k < j \<and> j \<le> start \<longrightarrow> \<not> rune_start (s ! nat j) \<Longrightarrow> back_start s start lim = k"
proof (induction s start lim rule: back_start.induct)
  case (1 s start lim)
  show ?case
  proof (cases "start = k")
    case False
    then have "back_start s (start - 1) lim = k" using 1 by auto
    then show ?thesis using 1 False by (subst back_start.simps) auto
  qed (use 1 in \<open>subst back_start.simps, auto\<close>)
qed

lemma back_start_none:
  "lim \<le> start + 1 \<Longrightarrow> \<forall>j. lim \<le> j \<and> j \<le> start \<longrightarrow> \<not> rune_start (s ! nat j) \<Longrightarrow>
   back_start s start lim = lim - 1"
proof (induction s start lim rule: back_start.induct)
  case (1 s start lim)
  show ?case
  proof (cases "start \<ge> lim")
    case True
    then have "back_start s (start - 1) lim = lim - 1" using 1 by auto
    then show ?thesis using 1 True by (subst back_start.simps) auto
  qed (use 1 in \<open>subst back_start.simps, auto\<close>)
qed

text \<open>The backward scan over a string that ends in (a part of) a multi-byte encoding stops at its lead byte.\<close>

lemma back_start_lead:
  assumes "rune_code ch" and u: "u = take j ch" "2 \<le> length u"
  shows "back_start (pre @ u) (int (length (pre @ u)) - 2) (max 0 (int (length (pre @ u)) - 4)) = int (length pre)"
proof (rule back_start_at)
  obtain c t where ch: "ch = c # t" using assms(1) by (cases ch) (auto simp: rune_code_def)
  have j: "0 < j" using u by (cases j) auto
  have "length u \<le> 4" using rune_code_bytes(3)[OF assms(1)] u by auto
  then show "max 0 (int (length (pre @ u)) - 4) \<le> int (length pre)" by simp
  show "int (length pre) \<le> int (length (pre @ u)) - 2" using u by simp
  show "rune_start ((pre @ u) ! nat (int (length pre)))"
    using rune_code_bytes(1)[OF assms(1)] u(1) j by (cases j) (auto simp: ch nth_append)
  show "\<forall>i. int (length pre) < i \<and> i \<le> int (length (pre @ u)) - 2 \<longrightarrow> \<not> rune_start ((pre @ u) ! nat i)"
  proof (intro allI impI)
    fix i assume i: "int (length pre) < i \<and> i \<le> int (length (pre @ u)) - 2"
    define k where "k = nat i - length pre"
    have k: "0 < k" "k < length u" "nat i = length pre + k" using i by (auto simp: k_def)
    then have "u ! k = tl ch ! (k - 1)" "k - 1 < length (tl ch)"
      using u(1) by (auto simp: ch nth_Cons')
    then have "u ! k \<in> set (tl ch)" by (metis nth_mem)
    then show "\<not> rune_start ((pre @ u) ! nat i)"
      using rune_code_bytes(2)[OF assms(1)] k by (simp add: nth_append)
  qed
qed

lemma decode_last_rune_code:
  assumes "rune_code ch"
  shows "decode_last_rune (pre @ ch) = decode_rune ch"
proof (cases "length ch = 1")
  case True
  then obtain c where ch: "ch = [c]" by (auto simp: length_Suc_conv)
  with assms show ?thesis by (simp add: rune_code_single decode_last_rune_def decode_rune.simps(2))
next
  case False
  have ne: "ch \<noteq> []" using assms by (auto simp: rune_code_def)
  with False have 2: "2 \<le> length ch" by (cases ch rule: list.exhaust) (auto simp: Suc_le_eq)
  have b: "back_start (pre @ ch) (int (length pre + length ch) - 2) (max 0 (int (length pre + length ch) - 4)) = int (length pre)"
    using back_start_lead[OF assms, of ch "length ch" pre] 2 by simp
  have "128 \<le> byte (last ch)" using rune_code_bytes(4)[OF assms 2] ne by simp
  then show ?thesis
    using b ne rune_code_decode(2)[OF assms]
    by (auto simp: decode_last_rune_def Let_def split: prod.splits)
qed

lemma back_start_before:
  assumes "rune_code ch"
  shows "back_start (pre @ ch @ [b]) (int (length (pre @ ch @ [b])) - 2)
    (max 0 (int (length (pre @ ch @ [b])) - 4)) = int (length pre)"
proof -
  obtain c t where ch: "ch = c # t" using assms by (cases ch) (auto simp: rune_code_def)
  let ?s = "pre @ ch @ [b]"
  have lead: "rune_start (?s ! length pre)"
    using rune_code_bytes(1)[OF assms] by (simp add: ch nth_append)
  have rest: "\<not> rune_start (?s ! nat i)" if "int (length pre) < i" "i \<le> int (length ?s) - 2" for i
  proof -
    define k where "k = nat i - length pre"
    have k: "0 < k" "k < length ch" "nat i = length pre + k" using that by (auto simp: k_def)
    then have "ch ! k \<in> set (tl ch)" by (cases k) (auto simp: ch)
    then show ?thesis using rune_code_bytes(2)[OF assms] k by (simp add: nth_append)
  qed
  have len: "length ch \<le> 4" by (rule rune_code_bytes(3)[OF assms])
  show ?thesis
  proof (cases "length ch \<le> 3")
    case True
    then show ?thesis using lead rest len by (intro back_start_at) (auto simp: ch)
  next
    case False
    with len have 4: "length ch = 4" by simp
    have "back_start ?s (int (length ?s) - 2) (max 0 (int (length ?s) - 4))
      = max 0 (int (length ?s) - 4) - 1"
      using rest 4 by (intro back_start_none) auto
    then show ?thesis using 4 by simp
  qed
qed

lemma decode_last_rune_part:
  assumes pre: "\<forall>c \<in> set chs. rune_code c" and ch: "rune_code ch" and j: "0 < j" "j < length ch"
  shows "decode_last_rune (concat chs @ take j ch) = (rune_error, 1)"
proof -
  let ?pre = "concat chs" and ?u = "take j ch"
  have ne: "?u \<noteq> []" using j by auto
  have "last ?u \<in> set ch" using ne by (meson in_set_takeD last_in_set)
  then have hi: "128 \<le> byte (last ?u)" using rune_code_bytes(4)[OF ch] j by auto
  have err: "decode_rune ?u = (rune_error, 1)" using rune_code_part[OF ch j] .
  show ?thesis
  proof (cases "length ?u = 1")
    case False
    then have 2: "2 \<le> length ?u" using j by simp
    from back_start_lead[OF ch refl 2, of ?pre] show ?thesis
      using hi ne err 2 by (auto simp: decode_last_rune_def Let_def)
  next
    case True
    then obtain b where b: "?u = [b]" by (metis One_nat_def length_0_conv length_Suc_conv)
    show ?thesis
    proof (cases chs rule: rev_cases)
      case Nil
      have "back_start [b] (-1) 0 = -1" by (subst back_start.simps) simp
      then show ?thesis using hi err b Nil by (simp add: decode_last_rune_def Let_def)
    next
      case (snoc cs c)
      have rc: "rune_code c" using pre snoc by simp
      have "decode_rune (c @ [b]) = decode_rune c" "snd (decode_rune c) = length c"
        using rune_code_decode[OF rc] by auto
      then show ?thesis
        using back_start_before[OF rc, of "concat cs" b] hi b snoc
        by (auto simp: decode_last_rune_def Let_def split: prod.splits)
    qed
  qed
qed

lemma walk_back_codes:
  assumes "\<forall>c \<in> set chs. rune_code c"
  shows "walk_back k (concat chs) = concat chs"
proof (cases k)
  case (Suc k')
  show ?thesis
  proof (cases chs rule: rev_cases)
    case (snoc cs c)
    have rc: "rune_code c" using assms snoc by simp
    have "c \<noteq> []" using rc by (auto simp: rune_code_def)
    moreover have "decode_last_rune (concat cs @ c) = decode_rune c" by (rule decode_last_rune_code[OF rc])
    moreover have "fst (decode_rune c) \<noteq> rune_error \<or> snd (decode_rune c) > 1"
      using rc by (cases c rule: list.exhaust) (auto simp: rune_code_def)
    ultimately show ?thesis using Suc snoc by (auto split: prod.splits)
  qed (simp add: Suc)
qed simp

lemma walk_back_part:
  assumes "\<forall>c \<in> set chs. rune_code c" "rune_code ch" "j < length ch" "j \<le> k"
  shows "walk_back k (concat chs @ take j ch) = concat chs"
  using assms(3,4)
proof (induction j arbitrary: k)
  case 0
  then show ?case using walk_back_codes[OF assms(1)] by simp
next
  case (Suc j)
  obtain k' where k: "k = Suc k'" using Suc.prems by (cases k) auto
  have "decode_last_rune (concat chs @ take (Suc j) ch) = (rune_error, 1)"
    using decode_last_rune_part[OF assms(1,2)] Suc.prems by simp
  moreover have "butlast (concat chs @ take (Suc j) ch) = concat chs @ take j ch"
    using Suc.prems by (simp add: butlast_append take_Suc_conv_app_nth)
  moreover have "take (Suc j) ch \<noteq> []" using Suc.prems by auto
  ultimately show ?case using Suc k by simp
qed

lemma take_codes:
  "\<forall>c \<in> set chs. rune_code c \<Longrightarrow> n < length (concat chs) \<Longrightarrow>
   \<exists>ds ch j. take n (concat chs) = concat ds @ take j ch \<and> (\<forall>d \<in> set ds. rune_code d)
     \<and> rune_code ch \<and> j < length ch"
proof (induction chs arbitrary: n)
  case (Cons c chs)
  show ?case
  proof (cases "n < length c")
    case True
    with Cons.prems show ?thesis by (auto intro!: exI[of _ "[]"] exI[of _ c] exI[of _ n])
  next
    case False
    then have "n - length c < length (concat chs)" using Cons.prems by simp
    then obtain ds ch j where "take (n - length c) (concat chs) = concat ds @ take j ch"
        "\<forall>d \<in> set ds. rune_code d" "rune_code ch" "j < length ch"
      using Cons.IH Cons.prems(1) by (metis list.set_intros(2))
    with False Cons.prems show ?thesis
      by (auto intro!: exI[of _ "c # ds"] exI[of _ ch] exI[of _ j])
  qed
qed simp

lemma walk_back_prefix: "\<exists>t. buf = walk_back k buf @ t"
proof (induction k arbitrary: buf)
  case (Suc k)
  show ?case
  proof (cases "buf = []")
    case False
    obtain t where "butlast buf = walk_back k (butlast buf) @ t" using Suc by blast
    then have "buf = walk_back k (butlast buf) @ t @ [last buf]"
      using append_butlast_last_id[OF False] by (metis append.assoc)
    then show ?thesis by (auto split: prod.splits)
  qed simp
qed simp

text \<open>The number of turns given to the loop is enough: more change nothing.\<close>

lemma walk_back_enough: "length buf \<le> k \<Longrightarrow> walk_back (Suc k) buf = walk_back k buf"
proof (induction k arbitrary: buf)
  case (Suc k)
  have "length (butlast buf) \<le> k" using Suc.prems by simp
  from Suc.IH[OF this] show ?case
    by (subst walk_back.simps, subst (2) walk_back.simps) (auto split: prod.splits)
qed simp

lemma TruncateRunes_valid_cut:
  assumes "valid_utf8 s" "0 < n" "n < int (length s)"
  shows "valid_utf8 (TruncateRunes s n) \<and> n - 3 \<le> int (length (TruncateRunes s n))"
proof -
  obtain chs where chs: "s = concat chs" "\<forall>c \<in> set chs. rune_code c"
    using valid_utf8_codes[OF assms(1)] by auto
  have lt: "nat n < length (concat chs)" using assms chs(1) by simp
  obtain ds ch j where t: "take (nat n) s = concat ds @ take j ch" "\<forall>d \<in> set ds. rune_code d"
      "rune_code ch" "j < length ch"
    using take_codes[OF chs(2) lt] unfolding chs(1) by blast
  have len: "nat n = length (concat ds) + j"
    using arg_cong[OF t(1), of length] assms t(4) by simp
  then have "TruncateRunes s n = concat ds"
    using walk_back_part[OF t(2-4), of "nat n"] assms t(1) by (simp add: TruncateRunes_def)
  moreover have "j \<le> 3" using rune_code_bytes(3)[OF t(3)] t(4) by simp
  ultimately show ?thesis using codes_valid_utf8[OF t(2)] len assms by simp
qed

section \<open>Properties\<close>

text \<open>
  \<open>TruncateRunes\<close> returns a prefix of its input of at most \<open>n\<close> bytes (nothing for a
  non-positive limit); cutting valid UTF-8 gives valid UTF-8, and drops at most three bytes
  more than the limit asks for.
\<close>

theorem TruncateRunes_rune_safe:
  "(\<exists>t. s = TruncateRunes s n @ t) \<and> int (length (TruncateRunes s n)) \<le> max 0 n
   \<and> (valid_utf8 s \<longrightarrow> valid_utf8 (TruncateRunes s n))
   \<and> (valid_utf8 s \<and> 0 < n \<longrightarrow> min n (int (length s)) - 3 \<le> int (length (TruncateRunes s n)))"
proof -
  obtain t where t: "take (nat n) s = walk_back (nat n) (take (nat n) s) @ t"
    using walk_back_prefix by blast
  have pre: "s = walk_back (nat n) (take (nat n) s) @ t @ drop (nat n) s"
    using t append_take_drop_id[of "nat n" s] by (metis append.assoc)
  have "length (walk_back (nat n) (take (nat n) s)) \<le> nat n"
    using arg_cong[OF t, of length] by simp
  then have "(\<exists>t. s = TruncateRunes s n @ t) \<and> int (length (TruncateRunes s n)) \<le> max 0 n"
    using pre by (auto simp: TruncateRunes_def)
  moreover have "valid_utf8 (TruncateRunes s n) \<and> (0 < n \<longrightarrow> min n (int (length s)) - 3 \<le> int (length (TruncateRunes s n)))"
    if v: "valid_utf8 s"
  proof (cases "0 < n \<and> n < int (length s)")
    case True
    then show ?thesis using TruncateRunes_valid_cut[OF v, of n] by simp
  next
    case False
    have "valid_utf8 []" by (simp add: valid_utf8_def)
    then show ?thesis using False v by (auto simp: TruncateRunes_def)
  qed
  ultimately show ?thesis by blast
qed

text \<open>The Euro sign takes three bytes: cutting after the third byte of \<open>a\<close>-Euro keeps only the \<open>a\<close>.\<close>

theorem TruncateRunes_rune_safe_witness:
  "valid_utf8 [CHR ''a'', CHR 0xE2, CHR 0x82, CHR 0xAC]
   \<and> valid_utf8 (TruncateRunes [CHR ''a'', CHR 0xE2, CHR 0x82, CHR 0xAC] 3)
   \<and> TruncateRunes [CHR ''a'', CHR 0xE2, CHR 0x82, CHR 0xAC] 3 = ''a''"
proof -
  have v: "valid_utf8 [CHR ''a'', CHR 0xE2, CHR 0x82, CHR 0xAC]"
    by (simp add: valid_utf8_def text_eval)
  have "rune_code ''a''" and "rune_code [CHR 0xE2, CHR 0x82, CHR 0xAC]"
    by (simp_all add: rune_code_def text_eval)
  then have "walk_back 3 (''a'' @ [CHR 0xE2, CHR 0x82]) = ''a''"
    using walk_back_part[of "[''a'']" "[CHR 0xE2, CHR 0x82, CHR 0xAC]" 2 3] by simp
  then have "TruncateRunes [CHR ''a'', CHR 0xE2, CHR 0x82, CHR 0xAC] 3 = ''a''"
    by (simp add: TruncateRunes_def)
  with v TruncateRunes_rune_safe[of "[CHR ''a'', CHR 0xE2, CHR 0x82, CHR 0xAC]" 3] show ?thesis by blast
qed

text \<open>
  C5. Batch planning with the word-count tokenizer loses, reorders and duplicates nothing:
  the batches concatenate to the texts (each text over the budget replaced by its cut, and
  exactly those reported as truncated), no batch is empty, none exceeds the batch size, and
  no batch exceeds the token budget.
\<close>

theorem PlanBatches_partition:
  assumes "0 \<le> ctxBudget" and "1 \<le> batchSize" and "PlanBatches texts None ctxBudget batchSize = (bs, tr)"
  shows "concat bs = map (fit_text WhitespaceCount ctxBudget) texts
    \<and> (\<forall>b \<in> set bs. b \<noteq> [] \<and> int (length b) \<le> batchSize \<and> sum_list (map WhitespaceCount b) \<le> ctxBudget)
    \<and> tr = map (fit_text WhitespaceCount ctxBudget) (filter (\<lambda>t. WhitespaceCount t > ctxBudget) texts)"
  using ws.plan_batches[OF assms(1,2)] assms(3) unfolding PlanBatches_default by blast

theorem PlanBatches_partition_witness:
  "PlanBatches [''a b'', ''c'', ''d e f g'', ''h''] None 3 2
     = ([[''a b'', ''c''], [''d e f''], [''h'']], [''d e f''])
   \<and> concat [[''a b'', ''c''], [''d e f''], [''h'']]
     = map (fit_text WhitespaceCount 3) [''a b'', ''c'', ''d e f g'', ''h'']"
proof -
  have run: "PlanBatches [''a b'', ''c'', ''d e f g'', ''h''] None 3 2
     = ([[''a b'', ''c''], [''d e f''], [''h'']], [''d e f''])"
    by (simp add: PlanBatches_def plan_step_def WhitespaceCount_def splitWordsTruncate_def str_fields_def text_eval)
  have "concat [[''a b'', ''c''], [''d e f''], [''h'']]
     = map (fit_text WhitespaceCount 3) [''a b'', ''c'', ''d e f g'', ''h'']"
    by (rule PlanBatches_partition[OF _ _ run, THEN conjunct1]) simp_all
  with run show ?thesis by (rule conjI)
qed

subsection \<open>Prefetch\<close>

lemma prefetch_gather_errs: "fst (prefetch_gather wrap fetch ks (e # es) out) \<noteq> []"
  by (induction ks arbitrary: e es out) (auto split: sum.splits)

lemma prefetch_gather_none:
  "fst (prefetch_gather wrap fetch ks [] out) = [] \<longleftrightarrow> (\<forall>k \<in> set ks. \<exists>v. fetch k = Inr v)"
proof (induction ks arbitrary: out)
  case (Cons k ks)
  then show ?case using prefetch_gather_errs[of wrap fetch ks] by (auto split: sum.splits)
qed simp

lemma prefetch_gather_map:
  "\<forall>k \<in> set ks. \<exists>v. fetch k = Inr v \<Longrightarrow>
   map_of (snd (prefetch_gather wrap fetch ks [] out)) k
     = (if k \<in> set ks then Some (projr (fetch k)) else map_of out k)"
  by (induction ks arbitrary: out) (auto simp: update_conv')

lemma prefetch_seq_Inr:
  "(\<exists>out'. prefetch_seq fetch ks out = Inr out') \<longleftrightarrow> (\<forall>k \<in> set ks. \<exists>v. fetch k = Inr v)"
  by (induction ks arbitrary: out) (auto split: sum.splits)

lemma prefetch_seq_map:
  "prefetch_seq fetch ks out = Inr out' \<Longrightarrow>
   map_of out' k = (if k \<in> set ks then Some (projr (fetch k)) else map_of out k)"
  by (induction ks arbitrary: out) (auto simp: update_conv' split: sum.splits)

lemma prefetch_run:
  assumes "set order = set keys"
  shows "((\<exists>out. Prefetch wrap keys fetch workers order = Inr out) \<longleftrightarrow> (\<forall>k \<in> set keys. \<exists>v. fetch k = Inr v))
    \<and> (\<forall>out k. Prefetch wrap keys fetch workers order = Inr out \<longrightarrow>
          map_of out k = (if k \<in> set keys then Some (projr (fetch k)) else None))"
proof (cases "length keys \<le> 1 \<or> workers \<le> 1")
  case True
  then have "Prefetch wrap keys fetch workers order = prefetch_seq fetch keys []"
    by (simp add: Prefetch_def)
  then show ?thesis using prefetch_seq_Inr[of fetch keys "[]"] prefetch_seq_map[of fetch keys "[]"]
    by simp
next
  case False
  obtain errs out where g: "prefetch_gather wrap fetch order [] [] = (errs, out)" by fastforce
  have none: "errs = [] \<longleftrightarrow> (\<forall>k \<in> set keys. \<exists>v. fetch k = Inr v)"
    using prefetch_gather_none[of wrap fetch order "[]"] g assms by simp
  have "map_of out k = (if k \<in> set keys then Some (projr (fetch k)) else None)" if "errs = []" for k
    using prefetch_gather_map[of order fetch wrap "[]" k] none that g assms by simp
  then show ?thesis using False none g by (cases errs) (auto simp: Prefetch_def)
qed

text \<open>
  C6. Prefetch is deterministic where it matters: whatever order the goroutines finish in
  and however many workers there are, it succeeds exactly when every key's fetch succeeds,
  and then returns for each key the text fetched for it and nothing else.
\<close>

theorem Prefetch_order_independent:
  assumes "set order = set keys"
  shows "((\<exists>out. Prefetch wrap keys fetch workers order = Inr out) \<longleftrightarrow> (\<forall>k \<in> set keys. \<exists>v. fetch k = Inr v))
    \<and> (\<forall>out k. Prefetch wrap keys fetch workers order = Inr out \<longrightarrow>
          map_of out k = (if k \<in> set keys then Some (projr (fetch k)) else None))"
  by (rule prefetch_run[OF assms])

theorem Prefetch_order_independent_witness:
  "\<exists>out. Prefetch (\<lambda>k e. e) [0, 1] (\<lambda>k. if k < (2::int) then Inr ''md'' else Inl ''gone'') 8 [1, 0] = Inr out
     \<and> map_of out 1 = Some ''md''"
proof -
  have s: "set [1, 0] = set [0, (1::int)]" by auto
  let ?f = "\<lambda>k. if k < (2::int) then Inr ''md'' else Inl ''gone''"
  have "\<forall>k \<in> set [0, 1]. \<exists>v. ?f k = Inr v" by simp
  then show ?thesis
    using Prefetch_order_independent[OF s, of "\<lambda>k e. e" ?f 8] by auto
qed

end
