(* ===== verification/EmbedClient.thy ===== *)
theory EmbedClient
  imports World Json Formats EmbedBatching
begin

text \<open>
  The embedding client (\<open>internal/pipeline/tei_client.go\<close>): three providers, one retry ladder
  with a circuit breaker, and the decoding of the three response shapes.  The network is a
  record of operations on an arbitrary state; what the standard library's floating point does
  with a JSON number is a parameter, everything the code does with it is not.
\<close>

section \<open>The network\<close>

record http_request =
  hq_Method :: string
  hq_URL :: string
  hq_Bearer :: "string option"
  hq_Body :: string

text \<open>\<open>NoReply\<close>: \<open>http.Do\<close> failed.  A body of \<open>None\<close> is one that cannot be read to the end of its value.\<close>

datatype http_reply = NoReply string | Reply int "string option"

record 's net =
  n_Do :: "http_request \<Rightarrow> ('s, goerr, http_reply) prog"
  n_BadURL :: "string \<Rightarrow> goerr option"                      \<comment> \<open>\<open>http.NewRequest\<close>\<close>
  n_Rand :: "int \<Rightarrow> ('s, goerr, int) prog"                   \<comment> \<open>\<open>rand.Int63n\<close>\<close>
  n_Sleep :: "int \<Rightarrow> ('s, goerr, unit) prog"                  \<comment> \<open>an error is the context's\<close>
  n_Float64 :: "string \<Rightarrow> rat option"                       \<comment> \<open>\<open>None\<close>: out of range\<close>
  n_Float32 :: "rat \<Rightarrow> rat"
  n_DecodeError :: "string option \<Rightarrow> string"
  n_Sprint :: "payload \<Rightarrow> string"                           \<comment> \<open>the \<open>%v\<close> verb\<close>

section \<open>JSON of any shape\<close>

fun json_text :: "json \<Rightarrow> string" where
  "json_text JNull = ''null''"
| "json_text (JBool b) = (if b then ''true'' else ''false'')"
| "json_text (JNum n) = n"
| "json_text (JStr s) = quoted s"
| "json_text (JArr vs) = CHR ''['' # join '','' (map json_text vs) @ '']''"
| "json_text (JObj ms) = CHR ''{'' # join '','' (map (\<lambda>(k, v). quoted k @ CHR '':'' # json_text v) ms) @ ''}''"

fun json_numbers :: "json \<Rightarrow> string list" where
  "json_numbers (JNum n) = [n]"
| "json_numbers (JArr vs) = concat (map json_numbers vs)"
| "json_numbers (JObj ms) = concat (map (\<lambda>(k, v). json_numbers v) ms)"
| "json_numbers _ = []"

text \<open>\<open>Decoder.Decode\<close> into \<open>any\<close>: the first value of the body, every number of it a float64.\<close>

definition decode_any :: "(string \<Rightarrow> rat option) \<Rightarrow> string \<Rightarrow> json option" where
  "decode_any f64 body =
     (case jvalue (2 * length body + 2) 10000 body of
        None \<Rightarrow> None
      | Some (v, rest) \<Rightarrow> if \<forall>n \<in> set (json_numbers v). f64 n \<noteq> None then Some v else None)"

section \<open>Vectors\<close>

fun to_vector :: "'s net \<Rightarrow> json list \<Rightarrow> string + vector" where
  "to_vector N [] = Inr []"
| "to_vector N (x # xs) =
     (case x of
        JNum n \<Rightarrow>
          (case to_vector N xs of
             Inl e \<Rightarrow> Inl e
           | Inr v \<Rightarrow> Inr (n_Float32 N (the (n_Float64 N n)) # v))
      | _ \<Rightarrow> Inl ''unexpected embedding value shape'')"

fun toVectors :: "'s net \<Rightarrow> json list \<Rightarrow> string + vector list" where
  "toVectors N [] = Inr []"
| "toVectors N (row # rows) =
     (case row of
        JArr arr \<Rightarrow>
          (case to_vector N arr of
             Inl e \<Rightarrow> Inl e
           | Inr v \<Rightarrow> (case toVectors N rows of Inl e \<Rightarrow> Inl e | Inr vs \<Rightarrow> Inr (v # vs)))
      | _ \<Rightarrow> Inl ''unexpected embedding row shape'')"

fun openai_rows :: "'s net \<Rightarrow> json list \<Rightarrow> string + vector list" where
  "openai_rows N [] = Inr []"
| "openai_rows N (row # rows) =
     (case row of
        JObj ms \<Rightarrow>
          (case map_of (last_wins ms) ''embedding'' of
             Some (JArr emb) \<Rightarrow>
               (case to_vector N emb of
                  Inl e \<Rightarrow> Inl e
                | Inr v \<Rightarrow> (case openai_rows N rows of Inl e \<Rightarrow> Inl e | Inr vs \<Rightarrow> Inr (v # vs)))
           | _ \<Rightarrow> Inl ''unexpected openai embedding shape'')
      | _ \<Rightarrow> Inl ''unexpected openai data row shape'')"

text \<open>The message of an object that is none of the three shapes.\<close>

definition odd_shape :: "'s net \<Rightarrow> payload \<Rightarrow> string" where
  "odd_shape N m =
     (case map_of m ''error'' of
        Some (JObj er) \<Rightarrow>
          (case get_str (last_wins er) ''message'' of
             Some msg \<Rightarrow> ''provider error: '' @ msg
           | None \<Rightarrow> take 100 (''unexpected embedding response shape: '' @ n_Sprint N m))
      | _ \<Rightarrow> take 100 (''unexpected embedding response shape: '' @ n_Sprint N m))"

definition decodeVectors :: "'s net \<Rightarrow> json \<Rightarrow> string + vector list" where
  "decodeVectors N data =
     (case data of
        JArr rows \<Rightarrow> toVectors N rows
      | JObj ms \<Rightarrow>
          let m = last_wins ms
          in (case map_of m ''embeddings'' of
                Some (JArr em) \<Rightarrow> toVectors N em
              | _ \<Rightarrow> (case map_of m ''data'' of
                       Some (JArr dl) \<Rightarrow> openai_rows N dl
                     | _ \<Rightarrow> Inl (odd_shape N m)))
      | _ \<Rightarrow> Inl ''unexpected embedding response shape'')"

section \<open>The client\<close>

record EmbedSpec =
  es_Provider :: string
  es_ModelID :: string
  es_IngestURL :: string
  es_QueryURL :: string
  es_APIKey :: string
  es_TruncateChars :: int

record embed_client =
  ec_spec :: EmbedSpec
  ec_plane :: string
  ec_maxRetries :: nat
  ec_breakerThreshold :: int
  ec_consecutiveFailed :: int

definition TeiUnavailable :: "string \<Rightarrow> goerr" where
  "TeiUnavailable detail = Plain (''TEI unavailable: '' @ detail)"

definition DimMismatchError :: "int \<Rightarrow> int \<Rightarrow> goerr" where
  "DimMismatchError expected actual =
     Plain (''embed dim mismatch: model declares '' @ itoa expected @ '', backend returned '' @ itoa actual)"

definition NewEmbedClient :: "EmbedSpec \<Rightarrow> string \<Rightarrow> goerr + embed_client" where
  "NewEmbedClient spec0 plane =
     (let spec = spec0\<lparr>es_Provider := to_lower (es_Provider spec0)\<rparr>
      in if es_Provider spec \<notin> {''tei'', ''ollama'', ''openai''}
         then Inl (Plain (''unsupported embed provider: '' @ es_Provider spec))
         else if plane \<noteq> ''ingest'' \<and> plane \<noteq> ''query'' then Inl (Plain (''unknown embed plane: '' @ plane))
         else Inr \<lparr>ec_spec = spec, ec_plane = plane, ec_maxRetries = 5, ec_breakerThreshold = 5,
                   ec_consecutiveFailed = 0\<rparr>)"

definition trim_right_slash :: "string \<Rightarrow> string" where
  "trim_right_slash s = rev (dropWhile (\<lambda>c. c = CHR ''/'') (rev s))"

definition baseURL :: "embed_client \<Rightarrow> string" where
  "baseURL c = trim_right_slash (if ec_plane c = ''query'' then es_QueryURL (ec_spec c) else es_IngestURL (ec_spec c))"

definition bearer :: "embed_client \<Rightarrow> string option" where
  "bearer c = (if es_Provider (ec_spec c) = ''openai'' \<and> es_APIKey (ec_spec c) \<noteq> [] then Some (es_APIKey (ec_spec c)) else None)"

text \<open>The keys of a marshalled map are sorted.\<close>

definition embed_request :: "embed_client \<Rightarrow> string list \<Rightarrow> http_request" where
  "embed_request c texts =
     (let input = JArr (map JStr texts);
          modelled = JObj [(''input'', input), (''model'', JStr (es_ModelID (ec_spec c)))];
          (path, payload) =
            (if es_Provider (ec_spec c) = ''ollama'' then (''/api/embed'', modelled)
             else if es_Provider (ec_spec c) = ''openai'' then (''/v1/embeddings'', modelled)
             else (''/embed'', JObj [(''inputs'', input)]))
      in \<lparr>hq_Method = ''POST'', hq_URL = baseURL c @ path, hq_Bearer = bearer c, hq_Body = json_text payload\<rparr>)"

definition circuit_open :: "embed_client \<Rightarrow> goerr" where
  "circuit_open c = TeiUnavailable (''circuit open after '' @ itoa (ec_consecutiveFailed c) @ '' consecutive failures'')"

definition failed_once :: "embed_client \<Rightarrow> embed_client" where
  "failed_once c = c\<lparr>ec_consecutiveFailed := ec_consecutiveFailed c + 1\<rparr>"

definition check_dims :: "int \<Rightarrow> vector list \<Rightarrow> goerr + vector list" where
  "check_dims width vs =
     (if 0 < width then
        (case find (\<lambda>v. int (length v) \<noteq> width) vs of
           Some v \<Rightarrow> Inl (DimMismatchError width (int (length v)))
         | None \<Rightarrow> Inr vs)
      else Inr vs)"

text \<open>What one reply means: \<open>Final\<close> is returned, \<open>Again\<close> is a failure the ladder may retry.\<close>

datatype 'a step = Final 'a | Again goerr

definition embed_reply :: "'s net \<Rightarrow> int \<Rightarrow> embed_client \<Rightarrow> http_reply \<Rightarrow> (goerr + vector list) step \<times> embed_client" where
  "embed_reply N width c reply =
     (case reply of
        NoReply e \<Rightarrow> (Again (TeiUnavailable (''transport error: '' @ e)), failed_once c)
      | Reply status body \<Rightarrow>
          if status = 429 \<or> status = 503
          then (Again (TeiUnavailable (''TEI returned '' @ itoa status)), failed_once c)
          else if 400 \<le> status
          then (Final (Inl (TeiUnavailable (''TEI returned '' @ itoa status @ '': ''
                  @ (case body of None \<Rightarrow> [] | Some b \<Rightarrow> take 200 b)))), c)
          else
            (case Option.bind body (decode_any (n_Float64 N)) of
               None \<Rightarrow> (Again (TeiUnavailable (''bad response body: '' @ n_DecodeError N body)), failed_once c)
             | Some data \<Rightarrow>
                 (Final (case decodeVectors N data of
                           Inl m \<Rightarrow> Inl (TeiUnavailable m)
                         | Inr vs \<Rightarrow> check_dims width vs),
                  c\<lparr>ec_consecutiveFailed := 0\<rparr>)))"

definition max_delay :: int where
  "max_delay = 30000000000"

definition backoff_wait :: "'s net \<Rightarrow> int \<Rightarrow> ('s, goerr, unit) prog" where
  "backoff_wait N delay = bnd (n_Rand N (go_div delay 2)) (\<lambda>jitter. n_Sleep N (delay + jitter))"

text \<open>The ladder with \<open>n\<close> attempts left.\<close>

fun embed_ladder ::
  "'s net \<Rightarrow> http_request \<Rightarrow> int \<Rightarrow> nat \<Rightarrow> int \<Rightarrow> goerr option \<Rightarrow> embed_client \<Rightarrow>
   ('s, goerr, (goerr + vector list) \<times> embed_client) prog" where
  "embed_ladder N rq width 0 delay lastErr c = ret (Inl (the lastErr), c)"
| "embed_ladder N rq width (Suc n) delay lastErr c =
     bnd (n_Do N rq) (\<lambda>reply.
     case embed_reply N width c reply of
       (Final r, c1) \<Rightarrow> ret (r, c1)
     | (Again e, c1) \<Rightarrow>
         if ec_breakerThreshold c1 \<le> ec_consecutiveFailed c1 then ret (Inl (circuit_open c1), c1)
         else if n = 0 then embed_ladder N rq width n delay (Some e) c1
         else bnd (attempt (backoff_wait N delay)) (\<lambda>r.
              case r of
                Inl ctx \<Rightarrow> ret (Inl ctx, c1)
              | Inr _ \<Rightarrow> embed_ladder N rq width n (min max_delay (2 * delay)) (Some e) c1))"

text \<open>
  \<open>Embed\<close> gives its result together with the client, whose failure count is all that changes.
\<close>

definition Embed ::
  "'s net \<Rightarrow> embed_client \<Rightarrow> string list \<Rightarrow> int \<Rightarrow> ('s, goerr, (goerr + vector list) \<times> embed_client) prog" where
  "Embed N c texts0 width =
     (if ec_breakerThreshold c \<le> ec_consecutiveFailed c then ret (Inl (circuit_open c), c)
      else if texts0 = [] then ret (Inr [], c)
      else
        let trunc = es_TruncateChars (ec_spec c);
            texts = (if 0 < trunc then map (\<lambda>t. TruncateRunes t trunc) texts0 else texts0);
            rq = embed_request c texts
        in case n_BadURL N (hq_URL rq) of
             Some e \<Rightarrow> ret (Inl e, c)
           | None \<Rightarrow> embed_ladder N rq width (Suc (ec_maxRetries c)) 500000000 None c)"

section \<open>The probe\<close>

record probe_result =
  pb_Reachable :: bool
  pb_LatencyMS :: int
  pb_Dim :: int
  pb_Detail :: string

definition probe_path :: "embed_client \<Rightarrow> string" where
  "probe_path c =
     (if es_Provider (ec_spec c) = ''ollama'' then ''/api/tags''
      else if es_Provider (ec_spec c) = ''openai'' then ''/v1/models'' else ''/health'')"

definition Probe ::
  "'s net \<Rightarrow> ('s, goerr, int) prog \<Rightarrow> embed_client \<Rightarrow> ('s, goerr, probe_result \<times> embed_client) prog" where
  "Probe N elapsedMS c =
     (let url = baseURL c @ probe_path c;
          down = (\<lambda>d. \<lparr>pb_Reachable = False, pb_LatencyMS = 0, pb_Dim = 0, pb_Detail = d\<rparr>)
      in if n_BadURL N url \<noteq> None then ret (down ''probe request build failed'', c)
         else bnd (n_Do N \<lparr>hq_Method = ''GET'', hq_URL = url, hq_Bearer = bearer c, hq_Body = []\<rparr>) (\<lambda>reply.
         case reply of
           NoReply e \<Rightarrow> ret (down (''unreachable: '' @ e), c)
         | Reply status body \<Rightarrow>
             if status \<noteq> 200 then ret (down (''health returned '' @ itoa status), c)
             else bnd (Embed N c [''ping''] 0) (\<lambda>(r, c1).
                  bnd elapsedMS (\<lambda>ms.
                  case r of
                    Inl e \<Rightarrow> ret (\<lparr>pb_Reachable = True, pb_LatencyMS = ms, pb_Dim = 0,
                                   pb_Detail = ''healthy; dim probe failed: '' @ error_text e\<rparr>, c1)
                  | Inr vs \<Rightarrow>
                      (case vs of
                         v # _ \<Rightarrow>
                           if v = []
                           then ret (\<lparr>pb_Reachable = True, pb_LatencyMS = ms, pb_Dim = 0,
                                      pb_Detail = ''healthy; dim probe returned empty vector''\<rparr>, c1)
                           else ret (\<lparr>pb_Reachable = True, pb_LatencyMS = ms, pb_Dim = int (length v), pb_Detail = ''ok''\<rparr>, c1)
                       | [] \<Rightarrow> ret (\<lparr>pb_Reachable = True, pb_LatencyMS = ms, pb_Dim = 0,
                                     pb_Detail = ''healthy; dim probe returned empty vector''\<rparr>, c1))))))"

section \<open>How often the ladder asks\<close>

text \<open>\<open>sent\<close> counts the requests the network has seen; waiting sends none.\<close>

definition counts :: "'s net \<Rightarrow> ('s \<Rightarrow> nat) \<Rightarrow> bool" where
  "counts N sent \<longleftrightarrow>
     (\<forall>rq s. sent (snd (n_Do N rq s)) = Suc (sent s))
     \<and> (\<forall>k s. sent (snd (n_Rand N k s)) = sent s) \<and> (\<forall>d s. sent (snd (n_Sleep N d s)) = sent s)"

lemma embed_reply_again: "embed_reply N width c reply = (Again e, c1) \<Longrightarrow> c1 = failed_once c"
  by (auto simp: embed_reply_def split: http_reply.splits if_splits option.splits)

lemma embed_reply_final:
  "embed_reply N width c reply = (Final (Inr vs), c1) \<Longrightarrow>
   ec_consecutiveFailed c1 = 0 \<and> (0 < width \<longrightarrow> (\<forall>v \<in> set vs. int (length v) = width))"
  by (auto simp: embed_reply_def check_dims_def find_None_iff split: http_reply.splits if_splits option.splits sum.splits)

lemma backoff_wait_counts: "counts N sent \<Longrightarrow> sent (snd (backoff_wait N delay s)) = sent s"
  by (auto simp: counts_def backoff_wait_def bnd_def split: prod.splits sum.splits) (metis snd_conv)+

lemma ladder_attempts:
  assumes "counts N sent" "ec_consecutiveFailed c < ec_breakerThreshold c"
  shows "int (sent (snd (embed_ladder N rq width n delay lastErr c s)))
    \<le> int (sent s) + min (int n) (ec_breakerThreshold c - ec_consecutiveFailed c)"
  using assms(2)
proof (induction n arbitrary: delay lastErr c s)
  case (Suc n)
  obtain r s1 where d: "n_Do N rq s = (r, s1)" by fastforce
  then have s1: "sent s1 = Suc (sent s)" using assms(1) unfolding counts_def by (metis snd_conv)
  show ?case
  proof (cases r)
    case (Inr reply)
    obtain st c1 where rep: "embed_reply N width c reply = (st, c1)" by fastforce
    show ?thesis
    proof (cases st)
      case (Final x)
      then show ?thesis using d Inr rep s1 Suc.prems by (simp add: bnd_def)
    next
      case (Again e)
      have c1: "ec_consecutiveFailed c1 = ec_consecutiveFailed c + 1" "ec_breakerThreshold c1 = ec_breakerThreshold c"
        using embed_reply_again[of N width c reply e c1] rep Again by (simp_all add: failed_once_def)
      obtain w s2 where b: "backoff_wait N delay s1 = (w, s2)" by fastforce
      then have s2: "sent s2 = sent s1" using backoff_wait_counts[OF assms(1), of delay s1] by simp
      show ?thesis
      proof (cases "ec_breakerThreshold c1 \<le> ec_consecutiveFailed c1 \<or> n = 0")
        case True
        then show ?thesis using d Inr rep Again s1 Suc.prems by (auto simp: bnd_def)
      next
        case False
        then have "ec_consecutiveFailed c1 < ec_breakerThreshold c1" by simp
        from Suc.IH[OF this, of "min max_delay (2 * delay)" "Some e" s2] show ?thesis
          using d Inr rep Again s1 s2 b False c1 by (cases w) (auto simp: bnd_def attempt_def)
      qed
    qed
  qed (use d s1 Suc.prems in \<open>simp add: bnd_def\<close>)
qed simp

lemma ladder_result:
  "embed_ladder N rq width n delay lastErr c s = (Inr (Inr vs, c1), s') \<Longrightarrow>
   ec_consecutiveFailed c1 = 0 \<and> (0 < width \<longrightarrow> (\<forall>v \<in> set vs. int (length v) = width))"
proof (induction n arbitrary: delay lastErr c s)
  case (Suc n)
  obtain r s1 where d: "n_Do N rq s = (r, s1)" by fastforce
  show ?case
  proof (cases r)
    case (Inr reply)
    obtain st c2 where rep: "embed_reply N width c reply = (st, c2)" by fastforce
    show ?thesis
    proof (cases st)
      case (Final x)
      then show ?thesis using Suc.prems d Inr rep embed_reply_final[of N width c reply vs c1] by (simp add: bnd_def)
    next
      case (Again e)
      then show ?thesis
        using Suc.prems d Inr rep Suc.IH
        by (auto simp: bnd_def attempt_def split: if_splits prod.splits sum.splits)
    qed
  qed (use Suc.prems d in \<open>simp add: bnd_def\<close>)
qed simp

text \<open>
  C25. A call of the embedding client sends at most five requests, however many retries it is
  configured for: with the breaker's threshold of five the sixth attempt of the ladder never
  happens.  A result means that the failure count is back at zero and that every vector has
  the declared dimension.
\<close>

theorem Embed_bounded:
  assumes "NewEmbedClient spec plane = Inr c0" "counts N sent"
    and "0 \<le> ec_consecutiveFailed c" "c = c0\<lparr>ec_consecutiveFailed := ec_consecutiveFailed c\<rparr>"
    and "Embed N c texts width s = (Inr (r, c1), s')"
  shows "sent s' \<le> sent s + 5
    \<and> (\<forall>vs. r = Inr vs \<and> texts \<noteq> [] \<longrightarrow> ec_consecutiveFailed c1 = 0
         \<and> (0 < width \<longrightarrow> (\<forall>v \<in> set vs. int (length v) = width)))"
proof -
  obtain c: "ec_maxRetries c = 5" "ec_breakerThreshold c = 5"
    using assms(1,4) by (auto simp: NewEmbedClient_def Let_def split: if_splits)
      (metis embed_client.select_convs(3,4) embed_client.simps(10) embed_client.surjective)+
  consider (stop) "s' = s" "\<forall>vs. r = Inr vs \<longrightarrow> texts = []"
    | (ladder) rq where "ec_consecutiveFailed c < ec_breakerThreshold c"
        "embed_ladder N rq width (Suc (ec_maxRetries c)) 500000000 None c s = (Inr (r, c1), s')"
    using assms(5) unfolding Embed_def Let_def by (fastforce split: if_splits option.splits)
  then show ?thesis
  proof cases
    case stop
    then show ?thesis by auto
  next
    case ladder
    have "int (sent s') \<le> int (sent s) + min (int (Suc (ec_maxRetries c))) (ec_breakerThreshold c - ec_consecutiveFailed c)"
      using ladder_attempts[OF assms(2) ladder(1), of rq width "Suc (ec_maxRetries c)" 500000000 None s] ladder(2) by simp
    then have "sent s' \<le> sent s + 5" using c assms(3) by (simp add: min_def split: if_splits)
    moreover have "\<forall>vs. r = Inr vs \<longrightarrow> ec_consecutiveFailed c1 = 0 \<and> (0 < width \<longrightarrow> (\<forall>v \<in> set vs. int (length v) = width))"
      using ladder_result[of N rq width "Suc (ec_maxRetries c)" 500000000 None c s _ c1 s'] ladder(2) by blast
    ultimately show ?thesis by blast
  qed
qed

text \<open>A backend that always answers 503.\<close>

definition busy_net :: "nat net" where
  "busy_net = \<lparr>n_Do = (\<lambda>rq s. (Inr (Reply 503 (Some [])), Suc s)), n_BadURL = (\<lambda>_. None), n_Rand = (\<lambda>_. ret 0),
     n_Sleep = (\<lambda>_. ret ()), n_Float64 = (\<lambda>_. Some 0), n_Float32 = id, n_DecodeError = (\<lambda>_. []), n_Sprint = (\<lambda>_. [])\<rparr>"

definition tei_spec :: EmbedSpec where
  "tei_spec = \<lparr>es_Provider = ''tei'', es_ModelID = ''m'', es_IngestURL = ''http://i/'', es_QueryURL = ''http://q'',
     es_APIKey = [], es_TruncateChars = 0\<rparr>"

definition tei_client :: embed_client where
  "tei_client = \<lparr>ec_spec = tei_spec, ec_plane = ''ingest'', ec_maxRetries = 5, ec_breakerThreshold = 5,
     ec_consecutiveFailed = 0\<rparr>"

lemma new_tei_client: "NewEmbedClient tei_spec ''ingest'' = Inr tei_client"
proof -
  have "to_lower ''tei'' = ''tei''" by (rule to_lower_id) (simp add: lower_rune_def)
  then show ?thesis by (simp add: NewEmbedClient_def tei_spec_def tei_client_def)
qed

theorem Embed_bounded_witness:
  "\<exists>r c1 s'. Embed busy_net tei_client [''a''] 3 0 = (Inr (r, c1), s') \<and> s' \<le> 5"
proof -
  have k: "counts busy_net (\<lambda>s. s)" by (simp add: counts_def busy_net_def)
  have c: "0 \<le> ec_consecutiveFailed tei_client"
    "tei_client = tei_client\<lparr>ec_consecutiveFailed := ec_consecutiveFailed tei_client\<rparr>" by (simp_all add: tei_client_def)
  obtain r c1 s' where e: "Embed busy_net tei_client [''a''] 3 0 = (Inr (r, c1), s')"
    by (simp add: Embed_def tei_client_def tei_spec_def busy_net_def embed_request_def baseURL_def Let_def bnd_def
        embed_reply_def failed_once_def backoff_wait_def attempt_def eval_nat_numeral)
  show ?thesis using Embed_bounded[OF new_tei_client k c e] e by auto
qed

end
