(* ===== verification/EmbedHandler.thy ===== *)
theory EmbedHandler
  imports ParseHandler Stitch TierInv ChunkStore Registry EmbedClient
begin

text \<open>
  The embedder handler (\<open>internal/service/embedder.go\<close>, \<open>convert.go\<close>): the settled shards of a
  book are fetched, stitched, chunked, deduplicated and embedded with no transaction open, then
  one short transaction replaces the document's chunks.  Markdown is bytes until it is chunked;
  \<open>runes\<close> and \<open>utf8\<close> go between bytes and code points.
\<close>

section \<open>Chunks to rows\<close>

text \<open>Blanks after the \<open>#\<close> run, and what is trimmed at the end.\<close>

definition hblank :: "char \<Rightarrow> bool" where
  "hblank c \<longleftrightarrow> byte c = 32 \<or> byte c = 9"

definition trimHeadingPrefix :: "string \<Rightarrow> string" where
  "trimHeadingPrefix line =
     (let body = dropWhile hblank (dropWhile (\<lambda>c. c = CHR ''#'') line)
      in rev (dropWhile (\<lambda>c. hblank c \<or> byte c = 13) (rev body)))"

definition headingPathFromBreadcrumb :: "string \<Rightarrow> string list" where
  "headingPathFromBreadcrumb breadcrumb =
     (if breadcrumb = [] then []
      else filter (\<lambda>l. l \<noteq> []) (map trimHeadingPrefix (split_on newline breadcrumb)))"

definition strPtr2 :: "string \<Rightarrow> string option" where
  "strPtr2 s = (if s = [] then None else Some s)"

definition toStoreParent :: "splitChunk \<Rightarrow> ParentRow" where
  "toStoreParent p =
     \<lparr>pa_ID = [], pa_Seq = Seq p, pa_PageStart = PageStartOf p, pa_PageEnd = PageEndOf p,
      pa_HeadingPath = headingPathFromBreadcrumb (utf8 (ContextHeader p)), pa_HeaderBreadcrumb = None,
      pa_Text = utf8 (Content p), pa_TokenCount = ApproxTokenCount (Content p) LangMixed, pa_ChunkHash = ChunkHash p\<rparr>"

definition toStoreParents :: "splitChunk list \<Rightarrow> ParentRow list" where
  "toStoreParents parents = map toStoreParent parents"

definition toStoreChild :: "ChildChunk \<Rightarrow> ChildRow" where
  "toStoreChild k =
     (let c = cc_chunk k
      in \<lparr>ch_ID = [], ch_ParentID = None, ch_Seq = Seq c, ch_PageStart = PageStartOf c, ch_PageEnd = PageEndOf c,
          ch_HeadingPath = headingPathFromBreadcrumb (utf8 (ContextHeader c)),
          ch_HeaderBreadcrumb = strPtr2 (utf8 (ContextHeader c)), ch_Text = utf8 (Content c),
          ch_TokenCount = ApproxTokenCount (Content c) LangMixed, ch_ChunkHash = ChunkHash c\<rparr>)"

definition toStoreChildren :: "ChildChunk list \<Rightarrow> ChildRow list" where
  "toStoreChildren children = map toStoreChild children"

section \<open>From shards to chunks\<close>

definition docCollection :: "Document \<Rightarrow> string" where
  "docCollection doc = derefStr (d_CollectionID doc)"

definition docTerminal :: "DocState \<Rightarrow> bool" where
  "docTerminal st \<longleftrightarrow> st \<in> {StateFailed, StateReady, StatePartial, StateArchived}"

definition child_hash :: "ChildChunk \<Rightarrow> string" where
  "child_hash k = ChunkHash (cc_chunk k)"

definition child_seq :: "ChildChunk \<Rightarrow> int \<Rightarrow> ChildChunk" where
  "child_seq k n = k\<lparr>cc_chunk := (cc_chunk k)\<lparr>Seq := n\<rparr>\<rparr>"

text \<open>A child whose text is a parent's is dropped; the others are numbered on.\<close>

fun drop_parent_texts :: "string list \<Rightarrow> int \<Rightarrow> ChildChunk list \<Rightarrow> ChildChunk list" where
  "drop_parent_texts pHashes n [] = []"
| "drop_parent_texts pHashes n (k # ks) =
     (if child_hash k \<in> set pHashes then drop_parent_texts pHashes n ks
      else child_seq k n # drop_parent_texts pHashes (n + 1) ks)"

definition split_config :: "config \<Rightarrow> SplitterConfig" where
  "split_config s =
     \<lparr>cf_ChunkSize = ChunkSize s, cf_ChunkOverlap = ChunkOverlap s, cf_Separators = DefaultSeparators,
      cf_Strategy = ChunkStrategy s, cf_TokenLimit = 0, cf_Languages = []\<rparr>"

definition chunk_markdown :: "config \<Rightarrow> stitched_doc \<Rightarrow> ParentChildResult" where
  "chunk_markdown s st =
     (let (parentCfg, childCfg) = DeriveParentChildConfigs (split_config s) (ParentChunkSize s) (ChildChunkSize s)
      in SplitParentChild (runes (Markdown st)) (case Pages st of None \<Rightarrow> [] | Some ps \<Rightarrow> ps) parentCfg childCfg)"

text \<open>The two deduplications of one document, before the global numbering.\<close>

definition dedupe_chunks :: "ParentChildResult \<Rightarrow> splitChunk list \<times> ChildChunk list" where
  "dedupe_chunks res =
     (let parents = DropDuplicateChunks ChunkHash (\<lambda>c n. c\<lparr>Seq := n\<rparr>) (pc_Parents res);
          children = DropDuplicateChunks child_hash child_seq (pc_Children res)
      in (parents, drop_parent_texts (map ChunkHash parents) 0 children))"

definition numbered :: "splitChunk list \<times> ChildChunk list \<Rightarrow> splitChunk list \<times> ChildChunk list" where
  "numbered pc = (case RenumberGlobal (fst pc) (snd pc) of (ps, ks, n) \<Rightarrow> (ps, ks))"

text \<open>The row of a child with its parent, when that parent survived the deduplication.\<close>

definition linked_child :: "string \<Rightarrow> string list \<Rightarrow> ChildChunk \<Rightarrow> ChildRow" where
  "linked_child docID surviving k =
     (if ParentHash k = [] \<or> ParentHash k \<notin> set surviving then toStoreChild k
      else (toStoreChild k)\<lparr>ch_ParentID := Some (deterministicUUID docID (ParentHash k))\<rparr>)"

section \<open>Vectors to rows\<close>

fun batch_rows :: "string list \<Rightarrow> nat \<Rightarrow> vector list \<Rightarrow> EmbeddingRow list" where
  "batch_rows ids j [] = []"
| "batch_rows ids j (v # vs) =
     (if j < length ids then [\<lparr>er_ChunkID = ids ! j, er_Vector = v\<rparr>] else []) @ batch_rows ids (Suc j) vs"

fun assemble_from :: "string list \<Rightarrow> nat \<Rightarrow> (string list \<times> vector list) list \<Rightarrow> EmbeddingRow list" where
  "assemble_from ids offset [] = []"
| "assemble_from ids offset ((batch, vs) # rest) =
     batch_rows ids offset vs @ assemble_from ids (offset + length batch) rest"

definition assembleEmbeddingRows :: "string list \<Rightarrow> string list list \<Rightarrow> vector list list \<Rightarrow> EmbeddingRow list" where
  "assembleEmbeddingRows chunkIDs planned vectorsByBatch = assemble_from chunkIDs 0 (zip planned vectorsByBatch)"

section \<open>The retry cap\<close>

definition embedMaxAttempts :: int where
  "embedMaxAttempts = 5"

definition retries_key :: "string \<Rightarrow> string" where
  "retries_key docID = ''embed:retries:'' @ docID"

definition bumpEmbedRetries :: "'x redis_ops \<Rightarrow> string \<Rightarrow> ('x world, goerr, int) prog" where
  "bumpEmbedRetries R docID =
     bnd (on_ext (Streams.Incr R (retries_key docID))) (\<lambda>n.
     bnd (attempt (on_ext (Streams.Expire R (retries_key docID) (6 * 3600 * second)))) (\<lambda>_. ret n))"

definition resetEmbedRetries :: "'x redis_ops \<Rightarrow> string \<Rightarrow> ('x world, goerr, unit) prog" where
  "resetEmbedRetries R docID = on_ext (Streams.Del R (retries_key docID))"

definition capped :: "'x redis_ops \<Rightarrow> string \<Rightarrow> goerr \<Rightarrow> ('x world, goerr, unit) prog" where
  "capped R docID cause =
     bnd (attempt (bumpEmbedRetries R docID)) (\<lambda>r.
     let attempts = (case r of Inl _ \<Rightarrow> 1 | Inr n \<Rightarrow> n)
     in if attempts < embedMaxAttempts then raise cause
        else TxWithRetry 3 (SetDocState docID StateFailed (Some (code_text CodeDocEmbedFailed))
               (Some (''embed failed '' @ itoa attempts @ ''x: '' @ error_text cause))))"

section \<open>The handler\<close>

text \<open>
  What the handler needs beyond the shared dependencies: the network, and the order in which the
  parallel reads of the shards finish.
\<close>

record 'x embed_deps = "'x deps" +
  EmbedNet :: "'x world net"
  FetchOrder :: "int list \<Rightarrow> int list"

definition prefetchWorkers :: int where
  "prefetchWorkers = 8"

definition shard_error :: "int \<Rightarrow> goerr \<Rightarrow> goerr" where
  "shard_error k e = Wrap (''shard '' @ itoa k @ '': '') e"

fun fetch_all :: "(int \<Rightarrow> ('x world, goerr, string) prog) \<Rightarrow> int list \<Rightarrow> ('x world, goerr, (int \<times> (goerr + string)) list) prog" where
  "fetch_all fetch [] = ret []"
| "fetch_all fetch (k # ks) =
     bnd (attempt (fetch k)) (\<lambda>r. bnd (fetch_all fetch ks) (\<lambda>rs. ret ((k, r) # rs)))"

definition prefetch_shards :: "'x embed_deps \<Rightarrow> string \<Rightarrow> int list \<Rightarrow> ('x world, goerr, (int \<times> string) list) prog" where
  "prefetch_shards D docID keys =
     bnd (fetch_all (\<lambda>idx. GetText D (S3BucketParsed (Config D)) (ParsedKey docID idx)) (FetchOrder D keys)) (\<lambda>rs.
     of_sum (Prefetch shard_error keys (\<lambda>k. case map_of rs k of None \<Rightarrow> Inl (Plain []) | Some r \<Rightarrow> r)
       prefetchWorkers (FetchOrder D keys)))"

definition shard_ranges :: "Shard list \<Rightarrow> (int \<times> (int \<times> int)) list" where
  "shard_ranges rows = map (\<lambda>sh. (s_Idx sh, (s_PageStart sh, s_PageEnd sh))) rows"

definition embed_spec :: "EmbeddingModel \<Rightarrow> EmbedSpec" where
  "embed_spec m =
     \<lparr>es_Provider = em_Provider m, es_ModelID = em_ModelID m, es_IngestURL = em_IngestURL m,
      es_QueryURL = em_QueryURL m, es_APIKey = [], es_TruncateChars = em_TruncateChars m\<rparr>"

text \<open>Phase E: the planned in order, the client threaded through; the first error ends it.\<close>

fun embed_batches ::
  "'s net \<Rightarrow> int \<Rightarrow> embed_client \<Rightarrow> string list list \<Rightarrow> ('s, goerr, goerr + vector list list) prog" where
  "embed_batches N width c [] = ret (Inr [])"
| "embed_batches N width c (b # bs) =
     bnd (Embed N c b width) (\<lambda>(r, c1).
     case r of
       Inl e \<Rightarrow> ret (Inl e)
     | Inr vs \<Rightarrow> bnd (embed_batches N width c1 bs) (\<lambda>rs.
         case rs of Inl e \<Rightarrow> ret (Inl e) | Inr vss \<Rightarrow> ret (Inr (vs # vss))))"

text \<open>Phase W.\<close>

definition embed_tx ::
  "string \<Rightarrow> string \<Rightarrow> splitChunk list \<Rightarrow> ChildChunk list \<Rightarrow> EmbeddingRow list \<Rightarrow> ('x world, goerr, unit) prog" where
  "embed_tx docID coll parents children rows =
     bnd (DeleteDocChunksTx docID) (\<lambda>_.
     bnd (InsertParents docID coll (toStoreParents parents)) (\<lambda>_.
     bnd (InsertChunks docID coll (map (linked_child docID (map ChunkHash parents)) children)) (\<lambda>_.
     bnd (CopyEmbeddings rows) (\<lambda>_.
     SetChunkCountAndCompleteness docID (int (length children))))))"

definition no_chunks :: string where
  "no_chunks = ''stitch/chunk produced no chunks on a settled book''"

definition child_texts :: "ChildChunk list \<Rightarrow> string list" where
  "child_texts children = map (\<lambda>k. utf8 (EmbeddingContent (cc_chunk k))) children"

definition child_ids :: "string \<Rightarrow> ChildChunk list \<Rightarrow> string list" where
  "child_ids docID children = map (\<lambda>k. deterministicUUID docID (child_hash k)) children"

definition embed_chunks ::
  "'x embed_deps \<Rightarrow> string \<Rightarrow> Document \<Rightarrow> splitChunk list \<Rightarrow> ChildChunk list \<Rightarrow> ('x world, goerr, unit) prog" where
  "embed_chunks D docID doc parents children =
     bnd (ResolveCollectionModel (docCollection doc)) (\<lambda>mo.
     case mo of
       None \<Rightarrow> raise (NewPlatformError CodeEmbedDimMismatch ''no embedding model configured'')
     | Some m \<Rightarrow>
         bnd (of_sum (NewEmbedClient (embed_spec m) ''ingest'')) (\<lambda>client.
         let planned = fst (PlanBatches (child_texts children) (Some WhitespaceCount) (em_CtxBudget m) (em_BatchSize m))
         in bnd (embed_batches (EmbedNet D) (em_VectorDim m) client planned) (\<lambda>r.
            case r of
              Inl e \<Rightarrow> capped (Redis D) docID e
            | Inr vss \<Rightarrow>
                bnd (TxWithRetry 3 (embed_tx docID (docCollection doc) parents children
                       (assembleEmbeddingRows (child_ids docID children) planned vss))) (\<lambda>_.
                bnd (attempt (resetEmbedRetries (Redis D) docID)) (\<lambda>_. ret ())))))"

definition embed_book :: "'x embed_deps \<Rightarrow> string \<Rightarrow> Document \<Rightarrow> Shard list \<Rightarrow> ('x world, goerr, unit) prog" where
  "embed_book D docID doc rows =
     bnd (prefetch_shards D docID (map s_Idx rows)) (\<lambda>fetched.
     let res = chunk_markdown (Config D) (Stitch fetched (shard_ranges rows));
         deduped = dedupe_chunks res
     in if pc_Children res = [] \<and> pc_Parents res = [] then failDocTerminal docID CodePDFCorrupt no_chunks
        else if snd deduped = [] \<and> fst deduped = [] then failDocTerminal docID CodePDFCorrupt no_chunks
        else case numbered deduped of (parents, children) \<Rightarrow> embed_chunks D docID doc parents children)"

definition HandleEmbed :: "'x embed_deps \<Rightarrow> payload \<Rightarrow> ('x world, goerr, unit) prog" where
  "HandleEmbed D job =
     bnd (of_sum (jobString job ''doc_id'')) (\<lambda>docID.
     bnd (GetDocument docID) (\<lambda>d.
     case d of
       None \<Rightarrow> ret ()
     | Some doc \<Rightarrow>
         if docTerminal (d_State doc) then ret ()
         else
           bnd (SettledShards docID) (\<lambda>rows.
           if rows = [] then failDocTerminal docID CodePDFCorrupt ''no parsed shards to embed''
           else embed_book D docID doc rows)))"

section \<open>The hashes of a book\<close>

lemma child_hash_seq [simp]: "child_hash (child_seq k n) = child_hash k"
  by (simp add: child_hash_def child_seq_def ChunkHash_def)

lemma drop_parent_texts_hashes:
  "map child_hash (drop_parent_texts ph n ks) = filter (\<lambda>h. h \<notin> set ph) (map child_hash ks)"
  by (induction ks arbitrary: n) auto

lemma dedupe_hashes: "distinct (map ChunkHash (fst (dedupe_chunks res)) @ map child_hash (snd (dedupe_chunks res)))"
proof -
  have p: "map ChunkHash (DropDuplicateChunks ChunkHash (\<lambda>c n. c\<lparr>Seq := n\<rparr>) cs) = firsts [] (map ChunkHash cs)" for cs
    unfolding DropDuplicateChunks_def
    using drop_duplicates_firsts[of ChunkHash "\<lambda>c n. c\<lparr>Seq := n\<rparr>" Seq "[]" 0 cs] by (simp add: ChunkHash_def)
  have k: "map child_hash (DropDuplicateChunks child_hash child_seq ks) = firsts [] (map child_hash ks)" for ks
    unfolding DropDuplicateChunks_def
    by (rule drop_duplicates_firsts[of child_hash child_seq "\<lambda>k. Seq (cc_chunk k)", THEN conjunct1])
      (simp_all add: child_hash_seq, simp add: child_seq_def)
  have d: "distinct (firsts [] hs)" for hs :: "string list" by (simp add: firsts_rev_remdups)
  show ?thesis unfolding dedupe_chunks_def Let_def fst_conv snd_conv drop_parent_texts_hashes k
    using p d by (auto simp: distinct_filter)
qed

lemma renumber_parents_hashes: "map ChunkHash (renumber_parents n ps) = map ChunkHash ps"
  by (induction ps arbitrary: n) (simp_all add: ChunkHash_def)

lemma renumber_children_hashes: "map child_hash (renumber_children n ks) = map child_hash ks"
  by (induction ks arbitrary: n) (simp_all add: child_hash_def ChunkHash_def)

lemmas renumber_hashes = renumber_parents_hashes renumber_children_hashes

lemma numbered_hashes:
  "map ChunkHash (fst (numbered pc)) = map ChunkHash (fst pc)" "map child_hash (snd (numbered pc)) = map child_hash (snd pc)"
  by (simp_all add: numbered_def RenumberGlobal_def renumber_hashes)

section \<open>What phase W writes\<close>

text \<open>The index of the books: the chunks of each document, in the order of the table.\<close>

definition index :: "tables \<Rightarrow> string \<Rightarrow> Chunk list" where
  "index t d = filter (\<lambda>c. c_DocID c = d) (chunks t)"

definition parent_rows :: "string \<Rightarrow> string \<Rightarrow> splitChunk list \<Rightarrow> Chunk list" where
  "parent_rows docID coll parents = map (parent_row docID coll) (toStoreParents parents)"

definition child_rows :: "string \<Rightarrow> string \<Rightarrow> splitChunk list \<Rightarrow> ChildChunk list \<Rightarrow> Chunk list" where
  "child_rows docID coll parents children =
     map (child_row docID coll) (map (linked_child docID (map ChunkHash parents)) children)"

definition book_rows :: "string \<Rightarrow> string \<Rightarrow> splitChunk list \<Rightarrow> ChildChunk list \<Rightarrow> int \<Rightarrow> Chunk list" where
  "book_rows docID coll parents children now =
     map (stamped now) (unseen_rows [] (parent_rows docID coll parents)
       @ unseen_rows [] (child_rows docID coll parents children))"

definition finish_doc :: "int \<Rightarrow> int \<Rightarrow> Document \<Rightarrow> Document" where
  "finish_doc now n d =
     d\<lparr>d_ChunkCount := Some n, d_Completeness := completeness_of (d_TotalShards d) (d_ShardsFailed d),
       d_State := (if 0 < d_ShardsFailed d then StatePartial else StateReady), d_ReadyAt := Some now, d_UpdatedAt := now\<rparr>"

lemma row_sel [simp]:
  "c_DocID (parent_row d coll p) = d" "c_ChunkHash (parent_row d coll p) = pa_ChunkHash p"
  "c_DocID (child_row d coll k) = d" "c_ChunkHash (child_row d coll k) = ch_ChunkHash k"
  by (simp_all add: parent_row_def child_row_def)

lemma linked_child_sel: "ch_ChunkHash (linked_child d hs k) = child_hash k" "ch_ID (linked_child d hs k) = []"
  by (simp_all add: linked_child_def toStoreChild_def child_hash_def Let_def)

lemma rows_hashes:
  "map c_ChunkHash (parent_rows d coll ps) = map ChunkHash ps" "map c_ChunkHash (child_rows d coll ps ks) = map child_hash ks"
  "\<forall>r \<in> set (parent_rows d coll ps) \<union> set (child_rows d coll ps ks). c_DocID r = d"
  by (auto simp: parent_rows_def child_rows_def toStoreParents_def toStoreParent_def linked_child_sel)

lemma child_rows_ids: "map c_ID (child_rows d coll ps ks) = child_ids d ks"
  by (simp add: child_rows_def child_row_def id_or_derived_def linked_child_sel child_ids_def ids_agree)

lemma post_finish:
  "post (SetChunkCountAndCompleteness docID n)
     (\<lambda>now t x u. u = update_docs (doc_is docID) (finish_doc now n) t)"
proof -
  have e: "update_docs p g (update_docs p f t) = update_docs p (\<lambda>d. g (f d)) t" if "\<And>d. p (f d) = p d" for p f g t
    using that by (simp add: update_docs_def)
  show ?thesis unfolding SetChunkCountAndCompleteness_def
    by (rule post_weaken[OF post_bnd[OF post_tx_stmt post_tx_stmt]]) (auto simp: e finish_doc_def[abs_def])
qed

lemma post_delete: "post (DeleteDocChunksTx docID) (\<lambda>now t x u. u = delete_doc_chunks docID t)"
  unfolding DeleteDocChunksTx_def by (rule post_weaken[OF post_tx_stmt]) auto

lemma vectored_other:
  assumes "fresh_ids cs rs" "er_ChunkID ` set rows \<subseteq> c_ID ` set rs" "c \<in> set cs"
  shows "vectored now rows c = c"
proof -
  have "find (\<lambda>r. er_ChunkID r = c_ID c) rows = None" using assms by (fastforce simp: find_None_iff fresh_ids_def image_iff subset_iff)
  then show ?thesis by (simp add: vectored_def)
qed

lemma vectored_doc [simp]: "c_DocID (vectored now rows c) = c_DocID c"
  by (simp add: vectored_def set_vector_def split: option.splits)

text \<open>The tables after phase W, given the tables it found.\<close>

definition book_written ::
  "string \<Rightarrow> string \<Rightarrow> splitChunk list \<Rightarrow> ChildChunk list \<Rightarrow> EmbeddingRow list \<Rightarrow> int \<Rightarrow> tables \<Rightarrow> tables \<Rightarrow> bool" where
  "book_written docID coll ps ks rows now t u \<longleftrightarrow>
     index u = (index t)(docID := map (vectored now rows) (book_rows docID coll ps ks now))
     \<and> documents u = map (\<lambda>d. if d_ID d = docID then finish_doc now (int (length ks)) d else d) (documents t)
     \<and> shards u = shards t"

lemma filter_doc:
  assumes "\<forall>r \<in> set rs. c_DocID r = d"
  shows "filter (\<lambda>c. c_DocID c = e) rs = (if e = d then rs else [])"
  using assms by (auto simp: filter_empty_conv filter_id_conv)

lemma book_written_by:
  assumes h: "distinct (map ChunkHash ps @ map child_hash ks)" and er: "er_ChunkID ` set rows \<subseteq> set (child_ids docID ks)"
    and d1: "t1 = delete_doc_chunks docID t"
    and p: "new_rows docID (chunks t1) (parent_rows docID coll ps) \<longrightarrow> rows_added now (unseen_rows [] (parent_rows docID coll ps)) t1 t2"
    and k: "new_rows docID (chunks t2) (child_rows docID coll ps ks) \<longrightarrow> rows_added now (unseen_rows [] (child_rows docID coll ps ks)) t2 t3"
    and v: "t4 = t3\<lparr>chunks := map (vectored now rows) (chunks t3)\<rparr>"
    and u: "u = update_docs (doc_is docID) (finish_doc now (int (length ks))) t4"
  shows "book_written docID coll ps ks rows now t u"
proof -
  let ?P = "unseen_rows [] (parent_rows docID coll ps)" and ?K = "unseen_rows [] (child_rows docID coll ps ks)"
  let ?old = "filter (\<lambda>c. c_DocID c \<noteq> docID) (chunks t)"
  note rh = rows_hashes(1)[of docID coll ps] rows_hashes(2)[of docID coll ps ks] rows_hashes(3)[of docID coll ps ks]
  have "new_rows docID (chunks t1) (parent_rows docID coll ps)"
    using h rh by (auto simp: new_rows_def d1 delete_doc_chunks_def)
  then have t2: "t2 = t1\<lparr>chunks := ?old @ map (stamped now) ?P\<rparr>"
    using p by (auto simp: rows_added_def d1 delete_doc_chunks_def)
  have ph: "c_ChunkHash ` set ?P \<subseteq> set (map ChunkHash ps)"
    using unseen_rows_set rh(1) by (metis image_mono list.set_map subsetI)
  have "new_rows docID (chunks t2) (child_rows docID coll ps ks)"
    unfolding new_rows_def
  proof (intro conjI ballI impI)
    fix c assume "c \<in> set (chunks t2)" "c_DocID c = docID"
    then have "c_ChunkHash c \<in> set (map ChunkHash ps)" using ph by (auto simp: t2)
    then show "c_ChunkHash c \<notin> c_ChunkHash ` set (child_rows docID coll ps ks)"
      using h rh(2) by (metis IntI distinct_append empty_iff list.set_map)
  qed (use h rh in auto)
  then have t3: "t3 = t2\<lparr>chunks := chunks t2 @ map (stamped now) ?K\<rparr>" and fr: "fresh_ids (chunks t2) ?K"
    using k by (auto simp: rows_added_def)
  have ids: "er_ChunkID ` set rows \<subseteq> c_ID ` set ?K"
    using er unseen_rows_ids[of "[]" "child_rows docID coll ps ks"] child_rows_ids[of docID coll ps ks]
    by (metis Diff_empty list.set(1) list.set_map)
  have "vectored now rows c = c" if "c \<in> set ?old" for c
    using vectored_other[OF fr ids, of c] that by (simp add: t2)
  then have old: "map (vectored now rows) ?old = ?old" by (rule map_idI)
  have new: "book_rows docID coll ps ks now = map (stamped now) (?P @ ?K)" by (simp add: book_rows_def)
  have cu: "chunks u = ?old @ map (vectored now rows) (book_rows docID coll ps ks now)"
    unfolding new by (simp add: u v t3 t2 old)
  have nd: "\<forall>r \<in> set (map (vectored now rows) (book_rows docID coll ps ks now)). c_DocID r = docID"
    using rh(3) unseen_rows_set by (fastforce simp: new)
  have "index u e = ((index t)(docID := map (vectored now rows) (book_rows docID coll ps ks now))) e" for e
    unfolding index_def cu filter_append filter_doc[OF nd] by (auto simp: filter_empty_conv intro: filter_cong)
  then have "index u = (index t)(docID := map (vectored now rows) (book_rows docID coll ps ks now))" by (rule ext)
  moreover have "documents t4 = documents t" "shards t4 = shards t"
    by (simp_all add: v t3 t2 d1 delete_doc_chunks_def)
  ultimately show ?thesis by (simp add: book_written_def u)
qed

lemma post_embed_tx:
  assumes "distinct (map ChunkHash ps @ map child_hash ks)" "er_ChunkID ` set rows \<subseteq> set (child_ids docID ks)"
  shows "post (embed_tx docID coll ps ks rows) (\<lambda>now t x u. book_written docID coll ps ks rows now t u)"
  unfolding embed_tx_def InsertParents_def InsertChunks_def parent_rows_def[symmetric] child_rows_def[symmetric]
  by (rule post_weaken[OF post_bnd[OF post_delete post_bnd[OF post_insert_rows[of _ docID]
        post_bnd[OF post_insert_rows[of _ docID] post_bnd[OF post_CopyEmbeddings post_finish]]]]])
    (elim exE conjE, rule book_written_by[OF assms])

end
