(* ===== verification/EmbedRefines.thy ===== *)
theory EmbedRefines
  imports EmbedHandler Counters
begin

text \<open>
  The embedder handler against its contract: a run either leaves every table as it was, marks
  the document failed, or replaces the document's chunks by the rows of the book that its
  settled shards spell out.  Reading objects is given by a function \<open>objects\<close>, and the calls
  to the backend leave the tables alone.
\<close>

section \<open>The book a set of shards spells out\<close>

definition settled_rows :: "string \<Rightarrow> tables \<Rightarrow> Shard list" where
  "settled_rows docID t = sort_key s_PageStart (filter (\<lambda>s. s_DocID s = docID \<and> s_State s = ShardDone) (shards t))"

definition shard_texts :: "config \<Rightarrow> (string \<Rightarrow> string \<Rightarrow> goerr + string) \<Rightarrow> string \<Rightarrow> Shard list \<Rightarrow> (int \<times> string) list" where
  "shard_texts cfg objects docID rows =
     map (\<lambda>sh. (s_Idx sh, projr (objects (S3BucketParsed cfg) (ParsedKey docID (s_Idx sh))))) rows"

definition the_book ::
  "config \<Rightarrow> (string \<Rightarrow> string \<Rightarrow> goerr + string) \<Rightarrow> string \<Rightarrow> tables \<Rightarrow> splitChunk list \<times> ChildChunk list" where
  "the_book cfg objects docID t =
     (let rows = settled_rows docID t
      in numbered (dedupe_chunks (chunk_markdown cfg (Stitch (shard_texts cfg objects docID rows) (shard_ranges rows)))))"

section \<open>The contract\<close>

definition failed_book :: "string \<Rightarrow> tables \<Rightarrow> tables \<Rightarrow> bool" where
  "failed_book docID t u \<longleftrightarrow>
     (\<exists>code detail now evs. u = (set_doc_state docID StateFailed code detail now t)\<lparr>events := evs\<rparr>)"

definition embedded ::
  "bool \<Rightarrow> string \<Rightarrow> string \<Rightarrow> splitChunk list \<times> ChildChunk list \<Rightarrow> tables \<Rightarrow> tables \<Rightarrow> bool" where
  "embedded honest docID coll book t u \<longleftrightarrow>
     (\<exists>rows now. book_written docID coll (fst book) (snd book) rows now t u
        \<and> (honest \<longrightarrow> map er_ChunkID rows = child_ids docID (snd book)))"

definition embed_contract ::
  "bool \<Rightarrow> config \<Rightarrow> (string \<Rightarrow> string \<Rightarrow> goerr + string) \<Rightarrow> string \<Rightarrow> tables \<Rightarrow> tables \<Rightarrow> bool" where
  "embed_contract honest cfg objects docID t u \<longleftrightarrow>
     (case doc_by_id docID t of
        None \<Rightarrow> u = t
      | Some doc \<Rightarrow>
          if docTerminal (d_State doc) then u = t
          else if settled_rows docID t = [] \<or> the_book cfg objects docID t = ([], []) then failed_book docID t u
          else failed_book docID t u \<or> embedded honest docID (docCollection doc) (the_book cfg objects docID t) t u)"

section \<open>Work that leaves the tables alone\<close>

definition quiet :: "('x world, goerr, 'a) prog \<Rightarrow> bool" where
  "quiet m \<longleftrightarrow> (\<forall>w. db (snd (m w)) = db w)"

definition quiet_net :: "'x world net \<Rightarrow> bool" where
  "quiet_net N \<longleftrightarrow> (\<forall>rq. quiet (n_Do N rq)) \<and> (\<forall>k. quiet (n_Rand N k)) \<and> (\<forall>d. quiet (n_Sleep N d))"

abbreviation same_db :: "tables \<Rightarrow> 'x world \<Rightarrow> bool" where
  "same_db t \<equiv> (\<lambda>w. db w = t)"

lemma quietD: "quiet m \<Longrightarrow> m w = (r, w') \<Longrightarrow> db w' = db w"
  unfolding quiet_def by (metis snd_conv)

lemma quiet_triple: "quiet m \<Longrightarrow> triple (same_db t) m (\<lambda>_. same_db t) (same_db t)"
  by (intro tripleI) (auto dest: quietD)

named_theorems quiet_rules \<open>work that leaves the tables alone\<close>

lemma quiet_bnd [quiet_rules]: "quiet m \<Longrightarrow> (\<And>x. quiet (f x)) \<Longrightarrow> quiet (bnd m f)"
  by (auto simp: quiet_def bnd_def split: prod.splits sum.splits) (metis snd_conv)+

lemma quiet_base [quiet_rules]: "quiet (ret x)" "quiet (raise e)" "quiet (of_sum v)" "quiet (on_ext m)"
  by (simp_all add: quiet_def ret_def raise_def of_sum_def on_ext_def split: sum.splits prod.splits)

lemma quiet_attempt [quiet_rules]: "quiet m \<Longrightarrow> quiet (attempt m)"
  unfolding quiet_def by (simp add: attempt_apply split_beta)

lemma quiet_case [quiet_rules]:
  "(\<And>x. quiet (f x)) \<Longrightarrow> (\<And>y. quiet (g y)) \<Longrightarrow> quiet (case v of Inl x \<Rightarrow> f x | Inr y \<Rightarrow> g y)"
  "quiet m \<Longrightarrow> (\<And>y. quiet (g y)) \<Longrightarrow> quiet (case o1 of None \<Rightarrow> m | Some y \<Rightarrow> g y)"
  "(\<And>a b. quiet (h a b)) \<Longrightarrow> quiet (case p of (a, b) \<Rightarrow> h a b)"
  "(\<And>x. quiet (f2 x)) \<Longrightarrow> (\<And>y. quiet (g2 y)) \<Longrightarrow> quiet (case st of Final x \<Rightarrow> f2 x | Again y \<Rightarrow> g2 y)"
  "quiet m \<Longrightarrow> quiet n \<Longrightarrow> quiet (if c then m else n)"
  by (simp_all split: sum.splits option.splits prod.splits step.splits)

lemma quiet_netD [quiet_rules]:
  "quiet_net N \<Longrightarrow> quiet (n_Do N rq)" "quiet_net N \<Longrightarrow> quiet (n_Rand N k)" "quiet_net N \<Longrightarrow> quiet (n_Sleep N d)"
  by (simp_all add: quiet_net_def)

lemma quiet_ladder [quiet_rules]:
  assumes "quiet_net N"
  shows "quiet (embed_ladder N rq width n delay lastErr c)"
proof (induction n arbitrary: delay lastErr c)
  case (Suc n)
  then show ?case unfolding embed_ladder.simps backoff_wait_def by (intro quiet_rules assms)
qed (simp add: quiet_base)

lemma quiet_Embed [quiet_rules]: "quiet_net N \<Longrightarrow> quiet (Embed N c texts width)"
  unfolding Embed_def Let_def by (intro quiet_rules)

lemma quiet_embed_batches [quiet_rules]:
  assumes "quiet_net N"
  shows "quiet (embed_batches N width c bs)"
proof (induction bs arbitrary: c)
  case (Cons b bs)
  then show ?case unfolding embed_batches.simps by (intro quiet_rules assms)
qed (simp add: quiet_base)

section \<open>Vectors line up with chunks\<close>

definition honest_net :: "'x world net \<Rightarrow> bool" where
  "honest_net N \<longleftrightarrow>
     (\<forall>c b width w vs c1 w'. Embed N c b width w = (Inr (Inr vs, c1), w') \<longrightarrow> length vs = length b)"

lemma embed_batches_lengths:
  assumes "honest_net N"
  shows "embed_batches N width c bs w = (Inr (Inr vss), w') \<Longrightarrow> map length vss = map length bs"
proof (induction bs arbitrary: c vss w w')
  case (Cons b bs)
  obtain r c1 w1 where e: "Embed N c b width w = (Inr (r, c1), w1)"
    using Cons.prems by (auto simp: bnd_eq_Inr)
  then obtain vs where r: "r = Inr vs" using Cons.prems by (cases r) (auto simp: bnd_def)
  obtain rs w2 where 2: "embed_batches N width c1 bs w1 = (Inr rs, w2)"
    using Cons.prems e r by (auto simp: bnd_eq_Inr)
  then obtain vss2 where rs: "rs = Inr vss2" using Cons.prems e r by (cases rs) (auto simp: bnd_def)
  have "vss = vs # vss2" using Cons.prems e r 2 rs by (simp add: bnd_def)
  moreover have "length vs = length b" using assms e r unfolding honest_net_def by blast
  ultimately show ?case using Cons.IH 2 rs by simp
qed simp

lemma batch_rows_ids:
  "j + length vs \<le> length ids \<Longrightarrow> map er_ChunkID (batch_rows ids j vs) = take (length vs) (drop j ids)
     \<and> map er_Vector (batch_rows ids j vs) = vs"
proof (induction vs arbitrary: j)
  case (Cons v vs)
  then have "drop j ids = ids ! j # drop (Suc j) ids" by (intro Cons_nth_drop_Suc[symmetric]) simp
  then show ?case using Cons by simp
qed simp

lemma batch_rows_subset: "er_ChunkID ` set (batch_rows ids j vs) \<subseteq> set ids"
  by (induction vs arbitrary: j) auto

lemma assemble_from_subset: "er_ChunkID ` set (assemble_from ids offset bvs) \<subseteq> set ids"
proof (induction bvs arbitrary: offset)
  case (Cons p bvs)
  obtain b vs where p: "p = (b, vs)" by fastforce
  show ?case using batch_rows_subset[of ids offset vs] Cons[of "offset + length b"] by (simp add: p image_Un)
qed simp

lemma assemble_from_aligned:
  "map length (map snd bvs) = map length (map fst bvs) \<Longrightarrow> offset + length (concat (map fst bvs)) \<le> length ids \<Longrightarrow>
   map er_ChunkID (assemble_from ids offset bvs) = take (length (concat (map fst bvs))) (drop offset ids)
     \<and> map er_Vector (assemble_from ids offset bvs) = concat (map snd bvs)"
proof (induction bvs arbitrary: offset)
  case (Cons p bvs)
  obtain b vs where p: "p = (b, vs)" by fastforce
  with Cons.prems have "length vs = length b" by simp
  then show ?case using Cons.IH[of "offset + length b"] Cons.prems batch_rows_ids[of offset vs ids]
    by (simp add: p take_add add.commute)
qed simp

lemma assemble_aligned:
  assumes "map length vss = map length planned" "length (concat planned) = length ids"
  shows "map er_ChunkID (assembleEmbeddingRows ids planned vss) = ids
    \<and> map er_Vector (assembleEmbeddingRows ids planned vss) = concat vss"
proof -
  have "length vss = length planned" using assms(1) by (rule map_eq_imp_length_eq)
  then show ?thesis using assemble_from_aligned[of "zip planned vss" 0 ids] assms by (simp add: assembleEmbeddingRows_def)
qed

lemma plan_step_length:
  "length (concat (batches (plan_step count budget bsize text st)) @ cur (plan_step count budget bsize text st))
    = Suc (length (concat (batches st) @ cur st))"
  by (simp add: plan_step_def Let_def)

lemma plan_fold_length:
  "length (concat (batches (fold (plan_step count budget bsize) texts st)) @ cur (fold (plan_step count budget bsize) texts st))
    = length texts + length (concat (batches st) @ cur st)"
  by (induction texts arbitrary: st) (simp_all add: plan_step_length del: length_append)

lemma planned_length: "length (concat (fst (PlanBatches texts tok budget bsize))) = length texts"
proof -
  define count where "count = (case tok of None \<Rightarrow> WhitespaceCount | Some c \<Rightarrow> c)"
  show ?thesis
    using plan_fold_length[of count budget bsize texts "\<lparr>batches = [], truncated = [], cur = [], curTokens = 0\<rparr>"]
    unfolding PlanBatches_def Let_def count_def[symmetric] by auto
qed

section \<open>The shards, whatever order they arrive in\<close>

lemma stitch_loop_cong:
  "(\<And>k. k \<in> set idxs \<Longrightarrow> map_of docs k = map_of docs' k) \<Longrightarrow>
   stitch_loop docs ranges idxs ls ps = stitch_loop docs' ranges idxs ls ps"
  by (induction docs ranges idxs ls ps rule: stitch_loop.induct) (simp_all add: Let_def split: option.splits)

lemma Stitch_cong:
  assumes "distinct (map fst docs)" "distinct (map fst docs')" "map_of docs = map_of docs'"
  shows "Stitch docs ranges = Stitch docs' ranges"
proof -
  have "fst ` set docs = fst ` set docs'" using assms(3) by (simp add: dom_map_of_conv_image_fst[symmetric])
  then have "sort (map fst docs) = sort (map fst docs')"
    using assms(1,2) by (metis list.set_map sorted_list_of_set_sort_remdups distinct_remdups_id)
  moreover have "stitch_loop docs ranges idxs [] [] = stitch_loop docs' ranges idxs [] []" for idxs
    by (rule stitch_loop_cong) (simp add: assms(3))
  ultimately show ?thesis by (simp only: Stitch_def)
qed

lemma prefetch_seq_distinct:
  "prefetch_seq fetch ks out = Inr out' \<Longrightarrow> distinct (map fst out) \<Longrightarrow> distinct (map fst out')"
  by (induction ks arbitrary: out) (auto simp: distinct_update split: sum.splits)

lemma prefetch_gather_distinct:
  "distinct (map fst out) \<Longrightarrow> distinct (map fst (snd (prefetch_gather wrap fetch ks es out)))"
  by (induction ks arbitrary: es out) (auto simp: distinct_update split: sum.splits)

lemma Prefetch_distinct: "Prefetch wrap keys fetch workers order = Inr out \<Longrightarrow> distinct (map fst out)"
  using prefetch_seq_distinct[of fetch keys "[]" out] prefetch_gather_distinct[of "[]" wrap fetch order "[]"]
  by (auto simp: Prefetch_def split: if_splits prod.splits list.splits)

definition reads_objects :: "'x embed_deps \<Rightarrow> (string \<Rightarrow> string \<Rightarrow> goerr + string) \<Rightarrow> bool" where
  "reads_objects D objects \<longleftrightarrow> (\<forall>b k w. fst (GetText D b k w) = objects b k \<and> db (snd (GetText D b k w)) = db w)"

lemma fetch_all_run:
  assumes "\<And>k w. fst (f k w) = v k \<and> db (snd (f k w)) = db w"
  shows "\<exists>w'. fetch_all f ks w = (Inr (map (\<lambda>k. (k, v k)) ks), w') \<and> db w' = db w"
proof (induction ks arbitrary: w)
  case (Cons k ks)
  obtain w1 where w1: "f k w = (v k, w1)" "db w1 = db w" using assms[of k w] by (metis prod.collapse)
  obtain w2 where "fetch_all f ks w1 = (Inr (map (\<lambda>k. (k, v k)) ks), w2)" "db w2 = db w1" using Cons by blast
  then show ?case using w1 by (simp add: bnd_def attempt_def ret_def)
qed (simp add: ret_def)

lemma map_of_keys: "map_of (map (\<lambda>k. (k, f k)) ks) k = (if k \<in> set ks then Some (f k) else None)"
  by (induction ks) auto

lemma prefetch_triple:
  assumes "reads_objects D objects" "\<And>ks. set (FetchOrder D ks) = set ks"
  shows "triple (same_db t) (prefetch_shards D docID keys)
    (\<lambda>out w. db w = t \<and> distinct (map fst out) \<and> (\<forall>k. map_of out k =
       (if k \<in> set keys then Some (projr (objects (S3BucketParsed (Config D)) (ParsedKey docID k))) else None)))
    (same_db t)"
proof -
  let ?v = "\<lambda>k. objects (S3BucketParsed (Config D)) (ParsedKey docID k)"
  let ?f = "\<lambda>k. case map_of (map (\<lambda>k. (k, ?v k)) (FetchOrder D keys)) k of None \<Rightarrow> Inl (Plain []) | Some r \<Rightarrow> r"
  have v: "?f k = ?v k" if "k \<in> set keys" for k using that assms(2) by (simp add: map_of_keys)
  note run = prefetch_run[OF assms(2), of shard_error keys ?f prefetchWorkers]
  have out: "distinct (map fst out) \<and> map_of out k = (if k \<in> set keys then Some (projr (?v k)) else None)"
    if "Prefetch shard_error keys ?f prefetchWorkers (FetchOrder D keys) = Inr out" for out k
    using run that Prefetch_distinct[OF that] v by simp
  have "triple (same_db t) (fetch_all (\<lambda>idx. GetText D (S3BucketParsed (Config D)) (ParsedKey docID idx)) (FetchOrder D keys))
      (\<lambda>rs w. db w = t \<and> rs = map (\<lambda>k. (k, ?v k)) (FetchOrder D keys)) (same_db t)"
  proof (rule tripleI, goal_cases)
    case (1 w rs w')
    then show ?case
      using fetch_all_run[of "\<lambda>idx. GetText D (S3BucketParsed (Config D)) (ParsedKey docID idx)" ?v "FetchOrder D keys" w]
        assms(1) by (auto simp: reads_objects_def)
  next
    case (2 w rs w')
    then show ?case
      using fetch_all_run[of "\<lambda>idx. GetText D (S3BucketParsed (Config D)) (ParsedKey docID idx)" ?v "FetchOrder D keys" w]
        assms(1) by (auto simp: reads_objects_def)
  qed
  then show ?thesis unfolding prefetch_shards_def
    by (rule triple_bnd, intro triple_of_sum) (use out in auto)
qed

lemma stitched_shards:
  assumes "distinct (map s_Idx rows)" "distinct (map fst out)"
    and "\<forall>k. map_of out k = (if k \<in> set (map s_Idx rows)
           then Some (projr (objects (S3BucketParsed cfg) (ParsedKey docID k))) else None)"
  shows "Stitch out (shard_ranges rows) = Stitch (shard_texts cfg objects docID rows) (shard_ranges rows)"
proof (rule Stitch_cong[OF assms(2)])
  have e: "shard_texts cfg objects docID rows = map (\<lambda>k. (k, projr (objects (S3BucketParsed cfg) (ParsedKey docID k)))) (map s_Idx rows)"
    by (simp add: shard_texts_def)
  show "distinct (map fst (shard_texts cfg objects docID rows))"
    using assms(1) by (simp add: shard_texts_def comp_def)
  show "map_of out = map_of (shard_texts cfg objects docID rows)"
    unfolding e by (rule ext) (simp only: map_of_keys assms(3))
qed

section \<open>Every branch of the handler\<close>

lemma triple_tx:
  assumes "post fn R"
  shows "triple (same_db t) (TxWithRetry n fn) (\<lambda>x w. \<exists>now. R now t x (db w)) (same_db t)"
  by (rule triple_conseq[OF triple_db[OF post_TxWithRetry[OF assms] atomic_TxWithRetry, of "\<lambda>u _. u = t" "\<lambda>x u _. \<exists>now. R now t x u"]])
    auto

lemma failDocTerminal_fails:
  "triple (same_db t) (failDocTerminal docID code detail) (\<lambda>_ w. failed_book docID t (db w)) (same_db t)"
proof -
  have "post (terminal_write docID code detail) (\<lambda>now t x u. failed_book docID t u)"
    unfolding terminal_write_def SetDocState_def WriteEvent_def
    by (rule post_weaken[OF post_bnd[OF post_tx_stmt post_tx_stmt]]) (fastforce simp: failed_book_def insert_event_def)
  from triple_attempt[OF triple_tx[OF this, of t 3], of "same_db t"] show ?thesis
    unfolding failDocTerminal_def
    by (rule triple_bnd) (auto intro!: triple_ret triple_raise split: sum.splits)
qed

lemma capped_fails: "triple (same_db t) (capped R docID cause) (\<lambda>_ w. failed_book docID t (db w)) (same_db t)"
proof -
  have s: "post (SetDocState docID StateFailed c e) (\<lambda>now t x u. failed_book docID t u)" for c e
    unfolding SetDocState_def
  proof (rule post_weaken[OF post_tx_stmt], goal_cases)
    case (1 now t x u)
    then have "u = (set_doc_state docID StateFailed c e now t)\<lparr>events := events u\<rparr>" by auto
    then show ?case unfolding failed_book_def by blast
  qed
  have q: "quiet (bumpEmbedRetries R docID)" unfolding bumpEmbedRetries_def by (intro quiet_rules)
  show ?thesis unfolding capped_def Let_def
  proof (rule triple_bnd[OF quiet_triple[OF quiet_attempt[OF q]]], rule triple_if)
    show "triple (same_db t) (raise cause) (\<lambda>_ w. failed_book docID t (db w)) (same_db t)" by (rule triple_raise)
    show "triple (same_db t) (TxWithRetry 3 (SetDocState docID StateFailed c e)) (\<lambda>_ w. failed_book docID t (db w)) (same_db t)" for c e
      by (rule triple_conseq[OF triple_tx[OF s, of t 3]]) auto
  qed
qed

lemma embed_chunks_effect:
  assumes "quiet_net (EmbedNet D)" "distinct (map ChunkHash ps @ map child_hash ks)"
  shows "triple (same_db t) (embed_chunks D docID doc ps ks)
    (\<lambda>_ w. failed_book docID t (db w) \<or> embedded (honest_net (EmbedNet D)) docID (docCollection doc) (ps, ks) t (db w)) (same_db t)"
proof -
  let ?Q = "\<lambda>(_::unit) w. failed_book docID t (db w) \<or> embedded (honest_net (EmbedNet D)) docID (docCollection doc) (ps, ks) t (db w)"
  have batches: "triple (same_db t) (embed_batches (EmbedNet D) width c planned)
      (\<lambda>r w. db w = t \<and> (\<forall>vss. r = Inr vss \<and> honest_net (EmbedNet D) \<longrightarrow> map length vss = map length planned)) (same_db t)"
    for width c planned
    using embed_batches_lengths[of "EmbedNet D" width c planned] quietD[OF quiet_embed_batches[OF assms(1)]]
    by (intro tripleI) fastforce+
  have wr: "triple (same_db t) (TxWithRetry 3 (embed_tx docID (docCollection doc) ps ks rows)) ?Q (same_db t)"
    if "rows = assembleEmbeddingRows (child_ids docID ks) planned vss" "length (concat planned) = length ks"
      "honest_net (EmbedNet D) \<longrightarrow> map length vss = map length planned" for rows planned vss
  proof -
    have sub: "er_ChunkID ` set rows \<subseteq> set (child_ids docID ks)"
      using that(1) assemble_from_subset by (simp add: assembleEmbeddingRows_def)
    have al: "honest_net (EmbedNet D) \<longrightarrow> map er_ChunkID rows = child_ids docID ks"
      using assemble_aligned[of vss planned "child_ids docID ks"] that by (simp add: child_ids_def)
    show ?thesis
      by (rule triple_conseq[OF triple_tx[OF post_embed_tx[OF assms(2) sub, of "docCollection doc"], of t 3]])
        (use al in \<open>auto simp: embedded_def\<close>)
  qed
  have resolve: "triple (same_db t) (ResolveCollectionModel (docCollection doc)) (\<lambda>_. same_db t) (same_db t)"
    unfolding ResolveCollectionModel_def by (rule triple_conseq[OF triple_query[of "\<lambda>u _. u = t"]]) auto
  have finish: "triple (\<lambda>w. ?Q () w) (bnd (attempt (resetEmbedRetries R docID)) (\<lambda>_. ret ())) ?Q (same_db t)" for R
  proof (rule tripleI, goal_cases)
    case (1 w x w')
    have "quiet (bnd (attempt (resetEmbedRetries R docID)) (\<lambda>_. ret ()))"
      unfolding resetEmbedRetries_def by (intro quiet_rules)
    from quietD[OF this 1(2)] 1(1) show ?case by simp
  next
    case (2 w e w')
    then show ?case by (simp add: bnd_def attempt_apply ret_def split: prod.splits)
  qed
  show ?thesis unfolding embed_chunks_def
  proof (rule triple_bnd[OF resolve], goal_cases)
    case (1 mo)
    show ?case
    proof (cases mo)
      case None
      then show ?thesis by (simp add: triple_raise)
    next
      case (Some m)
      let ?planned = "fst (PlanBatches (child_texts ks) (Some WhitespaceCount) (em_CtxBudget m) (em_BatchSize m))"
      have len: "length (concat ?planned) = length ks" by (simp add: planned_length child_texts_def)
      show ?thesis unfolding Some option.case Let_def
      proof (rule triple_bnd[OF triple_of_sum[of _ _ _ "\<lambda>_. same_db t"]], simp, simp,
          rule triple_bnd[OF batches[of "em_VectorDim m" _ ?planned]], goal_cases)
        case (1 client r)
        show ?case
        proof (cases r)
          case (Inl e)
          show ?thesis unfolding Inl sum.case by (rule triple_conseq[OF capped_fails[of t]]) auto
        next
          case (Inr vss)
          show ?thesis unfolding Inr sum.case
          proof (rule triple_bnd[OF _ finish], rule tripleI, goal_cases)
            case (1 w x w')
            then show ?case using tripleD(1)[OF wr[OF refl len, of vss]] by blast
          next
            case (2 w e w')
            then show ?case using tripleD(2)[OF wr[OF refl len, of vss]] by blast
          qed
        qed
      qed
    qed
  qed
qed

lemma numbered_empty: "numbered pc = ([], []) \<longleftrightarrow> pc = ([], [])"
  using numbered_hashes[of pc] by (cases pc; cases "numbered pc") auto

lemma dedupe_empty: "pc_Children res = [] \<Longrightarrow> pc_Parents res = [] \<Longrightarrow> dedupe_chunks res = ([], [])"
  by (simp add: dedupe_chunks_def DropDuplicateChunks_def)

lemma embed_book_cases:
  assumes "book = numbered (dedupe_chunks (chunk_markdown (Config D) st))"
  shows "(let res = chunk_markdown (Config D) st; deduped = dedupe_chunks res
      in if pc_Children res = [] \<and> pc_Parents res = [] then failDocTerminal docID CodePDFCorrupt no_chunks
         else if snd deduped = [] \<and> fst deduped = [] then failDocTerminal docID CodePDFCorrupt no_chunks
         else case numbered deduped of (parents, children) \<Rightarrow> embed_chunks D docID doc parents children)
    = (if book = ([], []) then failDocTerminal docID CodePDFCorrupt no_chunks
       else embed_chunks D docID doc (fst book) (snd book))"
proof -
  have "book = ([], []) \<longleftrightarrow> snd (dedupe_chunks (chunk_markdown (Config D) st)) = [] \<and> fst (dedupe_chunks (chunk_markdown (Config D) st)) = []"
    unfolding assms numbered_empty by (auto simp: prod_eq_iff)
  then show ?thesis using dedupe_empty[of "chunk_markdown (Config D) st"]
    by (auto simp: Let_def assms[symmetric] split: prod.splits)
qed

lemma the_book_hashes:
  "distinct (map ChunkHash (fst (the_book cfg objects docID t)) @ map child_hash (snd (the_book cfg objects docID t)))"
  unfolding the_book_def Let_def numbered_hashes by (rule dedupe_hashes)

lemma embed_book_effect:
  assumes "reads_objects D objects" "\<And>ks. set (FetchOrder D ks) = set ks" "quiet_net (EmbedNet D)"
    and "distinct (map s_Idx rows)" "rows = settled_rows docID t"
    and book: "book = the_book (Config D) objects docID t"
  shows "triple (same_db t) (embed_book D docID doc rows)
    (\<lambda>_ w. if book = ([], []) then failed_book docID t (db w)
       else failed_book docID t (db w) \<or> embedded (honest_net (EmbedNet D)) docID (docCollection doc) book t (db w)) (same_db t)"
    (is "triple _ _ ?Q _")
  unfolding embed_book_def
proof (rule triple_bnd[OF prefetch_triple[OF assms(1,2)]], goal_cases)
  case (1 out)
  let ?m = "let res = chunk_markdown (Config D) (Stitch out (shard_ranges rows)); deduped = dedupe_chunks res
      in if pc_Children res = [] \<and> pc_Parents res = [] then failDocTerminal docID CodePDFCorrupt no_chunks
         else if snd deduped = [] \<and> fst deduped = [] then failDocTerminal docID CodePDFCorrupt no_chunks
         else case numbered deduped of (parents, children) \<Rightarrow> embed_chunks D docID doc parents children"
  have m: "triple (same_db t) ?m ?Q (same_db t)"
    if "distinct (map fst out)" "\<forall>k. map_of out k = (if k \<in> set (map s_Idx rows)
       then Some (projr (objects (S3BucketParsed (Config D)) (ParsedKey docID k))) else None)"
  proof -
    have b: "book = numbered (dedupe_chunks (chunk_markdown (Config D) (Stitch out (shard_ranges rows))))"
      unfolding book the_book_def Let_def stitched_shards[of rows out objects "Config D" docID, OF assms(4) that] assms(5)[symmetric] ..
    have h: "distinct (map ChunkHash (fst book) @ map child_hash (snd book))" unfolding book by (rule the_book_hashes)
    show ?thesis unfolding embed_book_cases[OF b]
      using failDocTerminal_fails[of t docID] embed_chunks_effect[OF assms(3) h, of t docID doc]
      by (cases "book = ([], [])") simp_all
  qed
  show ?case using m unfolding triple_def by (fast)
qed

section \<open>The handler\<close>

lemma settled_idx:
  assumes "keys_ok t"
  shows "distinct (map s_Idx (settled_rows docID t))"
proof -
  have "distinct (map s_Idx (filter (\<lambda>s. s_DocID s = docID \<and> s_State s = ShardDone) (shards t)))"
    using assms by (auto simp: keys_ok_def distinct_map inj_on_def)
  then show ?thesis by (simp add: settled_rows_def distinct_map)
qed

lemma HandleEmbed_effect:
  assumes "jobString job ''doc_id'' = Inr docID" "keys_ok t"
    and "reads_objects D objects" "\<And>ks. set (FetchOrder D ks) = set ks" "quiet_net (EmbedNet D)"
  shows "triple (same_db t) (HandleEmbed D job)
    (\<lambda>_ w. embed_contract (honest_net (EmbedNet D)) (Config D) objects docID t (db w)) (same_db t)"
proof -
  let ?C = "embed_contract (honest_net (EmbedNet D)) (Config D) objects docID t"
  have q: "triple (same_db t) (pool_stmt (query f)) (\<lambda>x w. x = f t \<and> db w = t) (same_db t)" for f :: "tables \<Rightarrow> 'c"
    by (rule triple_conseq[OF triple_query[of "\<lambda>u _. u = t"]]) auto
  have fail: "triple (same_db t) (failDocTerminal docID c e) (\<lambda>_ w. ?C (db w)) (same_db t)"
    if "doc_by_id docID t = Some doc" "\<not> docTerminal (d_State doc)" "settled_rows docID t = []" for c e doc
    by (rule triple_conseq[OF failDocTerminal_fails]) (use that in \<open>auto simp: embed_contract_def\<close>)
  have book: "triple (same_db t) (embed_book D docID doc (settled_rows docID t)) (\<lambda>_ w. ?C (db w)) (same_db t)"
    if "doc_by_id docID t = Some doc" "\<not> docTerminal (d_State doc)" "settled_rows docID t \<noteq> []" for doc
    by (rule triple_conseq[OF embed_book_effect[OF assms(3,4,5) settled_idx refl refl, of t]])
      (use that assms(2) in \<open>auto simp: embed_contract_def split: if_splits\<close>)
  show ?thesis
    unfolding HandleEmbed_def assms(1) bnd_of_sum GetDocument_def SettledShards_def settled_rows_def[symmetric]
  proof (rule triple_bnd[OF q], goal_cases)
    case (1 d)
    show ?case
    proof (cases d)
      case None
      then show ?thesis by (auto intro!: triple_ret simp: embed_contract_def)
    next
      case (Some doc)
      show ?thesis
      proof (cases "docTerminal (d_State doc) \<or> doc_by_id docID t \<noteq> Some doc")
        case True
        then show ?thesis unfolding Some option.case
          by (intro tripleI) (auto simp: embed_contract_def ret_def split: option.splits)
      next
        case False
        then have d: "doc_by_id docID t = Some doc" "\<not> docTerminal (d_State doc)" by simp_all
        have "triple (\<lambda>w. x = settled_rows docID t \<and> db w = t)
            (if x = [] then failDocTerminal docID CodePDFCorrupt ''no parsed shards to embed'' else embed_book D docID doc x)
            (\<lambda>_ w. ?C (db w)) (same_db t)" for x
        proof (cases "x = settled_rows docID t")
          case True
          then show ?thesis
            using triple_conseq[OF fail[OF d], where P' = "\<lambda>w. x = settled_rows docID t \<and> db w = t"]
              triple_conseq[OF book[OF d], where P' = "\<lambda>w. x = settled_rows docID t \<and> db w = t"] by auto
        qed (simp add: triple_def)
        note r = this
        have q1: "triple (\<lambda>w. Some doc = doc_by_id docID t \<and> db w = t) (pool_stmt (query (settled_rows docID)))
          (\<lambda>x w. x = settled_rows docID t \<and> db w = t) (same_db t)"
          by (rule triple_conseq[OF q]) auto
        show ?thesis unfolding Some option.case if_not_P[OF d(2)] by (rule triple_bnd[OF q1 r])
      qed
    qed
  qed
qed


text \<open>A document without settled shards.\<close>

definition deaf_net :: "mem world net" where
  "deaf_net = \<lparr>n_Do = (\<lambda>rq. ret (NoReply ''dial tcp'')), n_BadURL = (\<lambda>_. None), n_Rand = (\<lambda>_. ret 0),
     n_Sleep = (\<lambda>_. ret ()), n_Float64 = (\<lambda>_. Some 0), n_Float32 = id, n_DecodeError = (\<lambda>_. []), n_Sprint = (\<lambda>_. [])\<rparr>"

definition sample_embed_deps :: "mem embed_deps" where
  "sample_embed_deps = deps.extend (sample_deps damaged_lib) \<lparr>EmbedNet = deaf_net, FetchOrder = rev\<rparr>"


end
