(* ===== verification/Schema.thy ===== *)
theory Schema
  imports EmbedHandler
begin

text \<open>
  The schema (\<open>internal/store/schema.sql\<close>) as an invariant of the tables: primary and unique
  keys, foreign keys and checks.  The workers touch the tables only through a few kinds of
  statement; \<open>kept_tables\<close> is what an invariant needs of those, and every handler keeps it
  then.  The foreign key of \<open>parent_id\<close> is checked by the inserts and left out here.
\<close>

section \<open>The invariant\<close>

text \<open>A nullable reference names an existing row.\<close>

definition known :: "'i option \<Rightarrow> 'i set \<Rightarrow> bool" where
  "known r ids \<longleftrightarrow> (case r of None \<Rightarrow> True | Some i \<Rightarrow> i \<in> ids)"

definition docs_ok :: "Document list \<Rightarrow> Collection list \<Rightarrow> bool" where
  "docs_ok ds ks \<longleftrightarrow>
     distinct (map d_ID ds)
     \<and> distinct (map (\<lambda>d. (d_CollectionID d, d_ContentSHA256 d)) (filter (\<lambda>d. d_CollectionID d \<noteq> None) ds))
     \<and> (\<forall>d \<in> set ds. known (d_CollectionID d) (k_ID ` set ks))"

definition shards_ok :: "Shard list \<Rightarrow> Document list \<Rightarrow> bool" where
  "shards_ok ss ds \<longleftrightarrow>
     distinct (map (\<lambda>s. (s_DocID s, s_Idx s)) ss) \<and> s_DocID ` set ss \<subseteq> d_ID ` set ds"

definition chunks_ok :: "Chunk list \<Rightarrow> Document list \<Rightarrow> bool" where
  "chunks_ok cs ds \<longleftrightarrow>
     distinct (map c_ID cs) \<and> distinct (map (\<lambda>c. (c_DocID c, c_ChunkHash c)) cs)
     \<and> c_DocID ` set cs \<subseteq> d_ID ` set ds"

definition models_ok :: "(EmbeddingModel \<times> string option) list \<Rightarrow> bool" where
  "models_ok ms \<longleftrightarrow>
     distinct (map (em_ID \<circ> fst) ms) \<and> distinct (map (em_Name \<circ> fst) ms) \<and> (\<forall>r \<in> set ms. model_checks (fst r))"

definition rerankers_ok :: "(RerankModel \<times> string option) list \<Rightarrow> bool" where
  "rerankers_ok rs \<longleftrightarrow>
     distinct (map (rm_ID \<circ> fst) rs) \<and> distinct (map (rm_Name \<circ> fst) rs) \<and> (\<forall>r \<in> set rs. reranker_checks (fst r))"

definition collections_ok ::
  "Collection list \<Rightarrow> (EmbeddingModel \<times> string option) list \<Rightarrow> (RerankModel \<times> string option) list \<Rightarrow> bool" where
  "collections_ok ks ms rs \<longleftrightarrow>
     distinct (map k_ID ks)
     \<and> (\<forall>k \<in> set ks. known (k_EmbeddingModelID k) (em_ID ` fst ` set ms) \<and> known (k_RerankModelID k) (rm_ID ` fst ` set rs))"

definition schema_ok :: "tables \<Rightarrow> bool" where
  "schema_ok t \<longleftrightarrow>
     docs_ok (documents t) (collections t) \<and> shards_ok (shards t) (documents t) \<and> chunks_ok (chunks t) (documents t)
     \<and> models_ok (embedding_models t) \<and> rerankers_ok (rerank_models t)
     \<and> collections_ok (collections t) (embedding_models t) (rerank_models t)"

section \<open>What the workers need of an invariant\<close>

definition doc_key :: "Document \<Rightarrow> string \<times> string option \<times> string" where
  "doc_key d = (d_ID d, d_CollectionID d, d_ContentSHA256 d)"

definition shard_key :: "Shard \<Rightarrow> string \<times> int" where
  "shard_key s = (s_DocID s, s_Idx s)"

definition chunk_key :: "Chunk \<Rightarrow> string \<times> string \<times> string" where
  "chunk_key c = (c_ID c, c_DocID c, c_ChunkHash c)"

text \<open>What an invariant of the tables says of a world: the runner's open transaction keeps it too.\<close>

definition holds :: "(tables \<Rightarrow> bool) \<Rightarrow> 'x world \<Rightarrow> bool" where
  "holds I w \<longleftrightarrow> I (db w) \<and> (\<forall>t. I t \<longrightarrow> I (runner_log w t))"

definition stmt_keeps :: "(tables \<Rightarrow> bool) \<Rightarrow> 'a stmt \<Rightarrow> bool" where
  "stmt_keeps I st \<longleftrightarrow> (\<forall>now t x u. I t \<and> st now t = (Inr x, u) \<longrightarrow> I u)"

text \<open>Work outside the database.\<close>

definition outside :: "('x world, goerr, 'a) prog \<Rightarrow> bool" where
  "outside m \<longleftrightarrow> (\<forall>w. db (snd (m w)) = db w \<and> runner_log (snd (m w)) = runner_log w)"

named_theorems kept \<open>computations that keep an invariant of the tables\<close>
named_theorems stmts \<open>statements that keep an invariant of the tables\<close>

lemma holdsD: "holds I w \<Longrightarrow> I (db w)"
  by (simp add: holds_def)

lemma holds_same: "holds I w \<Longrightarrow> db w' = db w \<Longrightarrow> runner_log w' = runner_log w \<Longrightarrow> holds I w'"
  by (simp add: holds_def)

lemmas [kept] = keeps_intros

lemma keeps_outside: "outside m \<Longrightarrow> keeps (holds I) m"
  by (intro keepsI) (auto simp: outside_def intro: holds_same)

lemma outside_on_ext [kept]: "keeps (holds I) (on_ext m)"
  by (rule keeps_outside) (simp add: outside_def on_ext_def split: prod.splits)

lemma keeps_next_fault [kept]: "keeps (holds I) next_fault"
  by (rule keeps_outside) (simp add: outside_def next_fault_def)

lemma keeps_now [kept]: "keeps (holds I) now_is"
  by (simp add: now_is_def keeps_intros)

lemma keeps_pool_stmt [kept]:
  fixes st :: "'a stmt"
  assumes "stmt_keeps I st"
  shows "keeps (holds I) (pool_stmt st :: ('x world, goerr, 'a) prog)"
proof (rule keepsI)
  fix w :: "'x world" assume h: "holds I w"
  obtain r w' where p: "pool_stmt st w = (r, w')" by fastforce
  show "holds I (snd (pool_stmt st w))" unfolding p snd_conv
  proof (cases r)
    case (Inl e)
    then show "holds I w'" using p pool_stmt_Inl[of st w e w'] h by (auto intro: holds_same)
  next
    case (Inr x)
    then obtain t where t: "st (clock w) (db w) = (Inr x, t)" "w' = w\<lparr>nstmt := Suc (nstmt w), db := t\<rparr>"
      using p by (auto simp: pool_stmt_Inr)
    then have "I t" using assms h unfolding stmt_keeps_def holds_def by blast
    then show "holds I w'" using t(2) h by (simp add: holds_def)
  qed
qed

lemma keeps_tx_stmt [kept]:
  fixes st :: "'a stmt"
  assumes "stmt_keeps I st"
  shows "keeps (holds I) (tx_stmt st :: ('x world, goerr, 'a) prog)"
proof (rule keepsI)
  fix w :: "'x world" assume h: "holds I w"
  obtain r w' where p: "tx_stmt st w = (r, w')" by fastforce
  show "holds I (snd (tx_stmt st w))" unfolding p snd_conv
  proof (cases r)
    case (Inl e)
    then show "holds I w'" using p tx_stmt_Inl[of st w e w'] h by (auto intro: holds_same)
  next
    case (Inr x)
    then have "pool_stmt st w = (Inr x, w')" using p by (simp add: tx_stmt_Inr)
    then show "holds I w'" using keepsD[OF keeps_pool_stmt[OF assms] h] by simp
  qed
qed

lemma keeps_runner_stmt [kept]:
  assumes "\<And>now t. I t \<Longrightarrow> I (upd now t)"
  shows "keeps (holds I) (runner_stmt upd)"
proof (rule keepsI)
  fix w :: "'a world" assume "holds I w"
  then show "holds I (snd (runner_stmt upd w))"
    using assms by (simp add: runner_stmt_def bnd_def next_fault_def modify_def holds_def split: option.splits)
qed

lemma keeps_Tx [kept]:
  assumes "keeps (holds I) fn"
  shows "keeps (holds I) (Tx fn)"
proof (rule keepsI)
  fix w :: "'a world" assume h: "holds I w"
  let ?w0 = "w\<lparr>nstmt := Suc (nstmt w), aborted := False\<rparr>"
  obtain r w2 where f: "fn ?w0 = (r, w2)" by fastforce
  have "holds I ?w0" using h by (rule holds_same) simp_all
  then have "holds I w2" using keepsD[OF assms] f by (metis snd_conv)
  then show "holds I (snd (Tx fn w))"
    using f h by (cases r) (auto simp: Tx_def next_fault_def holds_def split: option.splits)
qed

lemma keeps_TxWithRetry [kept]:
  assumes "keeps (holds I) fn"
  shows "keeps (holds I) (TxWithRetry n fn)"
proof -
  have "keeps (holds I) (retry_loop k (Tx fn) lastErr)" for k lastErr
  proof (induction k arbitrary: lastErr)
    case (Suc k)
    show ?case
    proof (rule keepsI)
      fix w :: "'a world" assume h: "holds I w"
      obtain r w1 where t: "Tx fn w = (r, w1)" by fastforce
      then have "holds I w1" using keepsD[OF keeps_Tx[OF assms] h] by simp
      then show "holds I (snd (retry_loop (Suc k) (Tx fn) lastErr w))"
        using t keepsD[OF Suc] by (cases r) auto
    qed
  qed (simp add: keeps_def)
  then show ?thesis by (simp add: TxWithRetry_def txWithRetryLoop_def)
qed

lemma keeps_RunnerTx [kept]:
  assumes "keeps (holds I) h"
  shows "keeps (holds I) (RunnerTx h)"
proof (rule keepsI)
  fix w :: "'a world" assume w: "holds I w"
  let ?w0 = "w\<lparr>nstmt := Suc (nstmt w), runner_log := id\<rparr>"
  obtain r w2 where f: "h ?w0 = (r, w2)" by fastforce
  have "holds I ?w0" using w by (simp add: holds_def)
  then have "holds I w2" using keepsD[OF assms] f by (metis snd_conv)
  then show "holds I (snd (RunnerTx h w))"
    using f w by (cases r) (auto simp: RunnerTx_def next_fault_def holds_def split: option.splits)
qed

lemma stmt_keeps_query [stmts]: "stmt_keeps I (query f)"
  by (simp add: stmt_keeps_def)

lemma stmt_keeps_exec [stmts]: "(\<And>now t. I t \<Longrightarrow> I (f now t)) \<Longrightarrow> stmt_keeps I (exec f)"
  by (simp add: stmt_keeps_def)

lemma stmt_keeps_count [stmts]: "(\<And>now t. I t \<Longrightarrow> I (f now t)) \<Longrightarrow> stmt_keeps I (\<lambda>now t. (Inr (n now t), f now t))"
  by (simp add: stmt_keeps_def)

lemma outside_base: "outside (ret x)" "outside (raise e)" "outside (of_sum v)"
  by (simp_all add: outside_def)

lemma outside_bnd: "outside m \<Longrightarrow> (\<And>x. outside (f x)) \<Longrightarrow> outside (bnd m f)"
  unfolding outside_def bnd_def by (auto split: prod.splits sum.splits) (metis snd_conv)+

lemma outside_case: "outside m \<Longrightarrow> (\<And>x. outside (f x)) \<Longrightarrow> outside (case v of None \<Rightarrow> m | Some x \<Rightarrow> f x)"
  by (simp split: option.splits)

text \<open>What the handlers do outside the database.\<close>

definition outside_host :: "'x host \<Rightarrow> bool" where
  "outside_host H \<longleftrightarrow> outside (ElapsedMS H) \<and> outside (CurrentRSSMB H)"

definition outside_fs :: "'x fs_ops \<Rightarrow> bool" where
  "outside_fs F \<longleftrightarrow> (\<forall>p. outside (MkdirAll F p)) \<and> (\<forall>p b. outside (WriteFile F p b)) \<and> (\<forall>p. outside (ReadPath F p))
     \<and> (\<forall>p. outside (StatPath F p)) \<and> (\<forall>p q. outside (Rename F p q)) \<and> (\<forall>p. outside (RemovePath F p))"

definition outside_net :: "'x world net \<Rightarrow> bool" where
  "outside_net N \<longleftrightarrow> (\<forall>rq. outside (n_Do N rq)) \<and> (\<forall>k. outside (n_Rand N k)) \<and> (\<forall>d. outside (n_Sleep N d))"

definition outside_deps :: "('x, 'z) deps_scheme \<Rightarrow> bool" where
  "outside_deps D \<longleftrightarrow>
     outside (MkdirTemp D) \<and> (\<forall>b k. outside (DownloadTo D b k)) \<and> (\<forall>b k v c. outside (UploadText D b k v c))
     \<and> (\<forall>b k. outside (GetText D b k)) \<and> outside (ShortID D) \<and> outside_host (Host D) \<and> outside_fs (Fs D)
     \<and> (\<forall>req. outside (p_Parse (AnyDoc (Parser D)) req)) \<and> (\<forall>p n v. outside (Docling (Parser D) p n v))"

lemma outside_netD: "outside_net N \<Longrightarrow> outside (n_Do N rq) \<and> outside (n_Rand N k) \<and> outside (n_Sleep N d)"
  by (simp add: outside_net_def)

section \<open>Every handler keeps such an invariant\<close>

locale kept_tables =
  fixes I :: "tables \<Rightarrow> bool"
  assumes update_docs: "(\<And>d. doc_key (f d) = doc_key d) \<Longrightarrow> I t \<Longrightarrow> I (update_docs p f t)"
    and update_shards: "(\<And>s. shard_key (g s) = shard_key s) \<Longrightarrow> I t \<Longrightarrow> I (update_shards q g t)"
    and update_chunks: "(\<And>c. chunk_key (h c) = chunk_key c) \<Longrightarrow> I t \<Longrightarrow> I (t\<lparr>chunks := map h (chunks t)\<rparr>)"
    and append_event: "I t \<Longrightarrow> I (t\<lparr>events := es\<rparr>)"
    and insert_shard: "I t \<Longrightarrow> insert_shard docID idx b now t = (Inr x, u) \<Longrightarrow> I u"
    and copy_chunks: "I t \<Longrightarrow> copy_chunks rs now t = (Inr x, u) \<Longrightarrow> I u"
    and delete_doc_chunks: "I t \<Longrightarrow> I (delete_doc_chunks docID t)"
begin

lemma set_doc_state: "I t \<Longrightarrow> I (set_doc_state docID st code detail now t)"
  unfolding set_doc_state_def by (rule update_docs) (simp_all add: doc_key_def)

lemma insert_event: "I t \<Longrightarrow> I (insert_event l st m d i c w ctx now t)"
  unfolding insert_event_def by (rule append_event)

lemma WriteEvent: "keeps (holds I) (WriteEvent l st m d i c w ctx)"
  unfolding WriteEvent_def by (intro kept stmts insert_event)

lemma SetDocState: "keeps (holds I) (SetDocState docID st code detail)"
  unfolding SetDocState_def by (intro kept stmts set_doc_state)

lemma insert_shards_from: "keeps (holds I) (insert_shards_from docID bs i)"
proof (induction bs arbitrary: i)
  case (Cons b bs)
  have "stmt_keeps I (insert_shard docID i b)" using insert_shard unfolding stmt_keeps_def by blast
  then show ?case unfolding insert_shards_from.simps by (intro kept Cons)
qed (simp add: keeps_intros)

lemma InsertShards: "keeps (holds I) (InsertShards docID bs i)"
  unfolding InsertShards_def by (intro kept insert_shards_from)

lemma failDocTerminal: "keeps (holds I) (failDocTerminal docID code detail)"
  unfolding failDocTerminal_def terminal_write_def by (intro kept SetDocState WriteEvent)

lemma enqueue_all: "keeps (holds I) (enqueue_all R jobs)"
  unfolding enqueue_all_def enqueue_parse_def by (intro kept)

lemma commitSplit: "keeps (holds I) (commitSplit docID bs n)"
  unfolding commitSplit_def split_tx_def updateSplitMeta_def
  by (intro kept stmts SetDocState InsertShards update_docs) (simp_all add: doc_key_def)

lemma already_split: "keeps (holds I) (already_split doc)"
  unfolding already_split_def SetDocStateRunner_def by (intro kept set_doc_state)

lemma HandleSplit:
  assumes "outside_deps D"
  shows "keeps (holds I) (HandleSplit D job)"
proof -
  have o: "outside (MkdirTemp D)" "\<And>b k. outside (DownloadTo D b k)" using assms by (simp_all add: outside_deps_def)
  have s: "keeps (holds I) (splitSingleShard D doc)" for doc
    unfolding splitSingleShard_def GetShard_def by (intro kept stmts commitSplit enqueue_all already_split)
  have p: "keeps (holds I) (split_pdf D doc bytes)" for doc bytes
    unfolding split_pdf_def by (intro kept commitSplit enqueue_all)
  show ?thesis unfolding HandleSplit_def split_source_def GetDocument_def GetShard_def
    by (intro kept stmts s p already_split failDocTerminal o[THEN keeps_outside])
qed

lemma resplitShard: "keeps (holds I) (resplitShard D doc shard)"
proof -
  have k: "keeps (holds I) (SkipShard docID i)" for docID i
    unfolding SkipShard_def by (intro kept stmts update_shards) (simp_all add: shard_key_def)
  have t: "keeps (holds I) (set_total docID n)" for docID n
    unfolding set_total_def by (intro kept stmts update_docs) (simp_all add: doc_key_def)
  show ?thesis unfolding resplitShard_def resplit_tx_def NextShardIdx_def
    by (intro kept stmts k t InsertShards WriteEvent enqueue_all)
qed

lemma claimShard: "keeps (holds I) (claimShard docID i worker lease)"
  unfolding claimShard_def ClaimShard_def Let_def
  by (intro kept stmts update_shards) (simp_all add: shard_key_def claim_row_def)

lemma finishParse: "keeps (holds I) (finishParse D docID i ms rss uri ocr chars)"
proof -
  have m: "keeps (holds I) (MarkShardDone docID i ms rss uri ocr chars)"
    unfolding MarkShardDone_def bump_done_def
    by (intro kept stmts update_shards update_docs) (simp_all add: shard_key_def doc_key_def done_row_def)
  show ?thesis unfolding finishParse_def finish_tx_def GetDocumentTx_def by (intro kept stmts m)
qed

lemma Parse:
  assumes "outside_deps D"
  shows "keeps (holds I) (Parse (Host D) P (Parser D) req)"
proof -
  have o: "outside (ElapsedMS (Host D))" "outside (CurrentRSSMB (Host D))" "\<And>rq. outside (p_Parse (AnyDoc (Parser D)) rq)"
    "\<And>p n v. outside (Docling (Parser D) p n v)" using assms by (simp_all add: outside_deps_def outside_host_def)
  show ?thesis
    unfolding Parse_def anydoc_tier_def docling_tier_def docling_named_def Convert_def result_of_def by (intro kept o[THEN keeps_outside])
qed

lemma fetch_source:
  assumes "outside_deps D"
  shows "keeps (holds I) (fetch_source D docID fmt)"
proof -
  have o: "\<And>b k. outside (DownloadTo D b k)" "\<And>p. outside (MkdirAll (Fs D) p)" "\<And>p b. outside (WriteFile (Fs D) p b)"
    "\<And>p. outside (ReadPath (Fs D) p)" "\<And>p. outside (StatPath (Fs D) p)" "\<And>p q. outside (Rename (Fs D) p q)"
    "\<And>p. outside (RemovePath (Fs D) p)" using assms by (simp_all add: outside_deps_def outside_fs_def)
  have d: "keeps (holds I) (download_source D docID)"
    unfolding download_source_def downloadTerminal_def by (intro kept failDocTerminal o[THEN keeps_outside])
  show ?thesis unfolding fetch_source_def copyFileLocal_def StorePDFCache_def by (intro kept d o[THEN keeps_outside])
qed

lemma HandleParse:
  assumes "outside_deps D"
  shows "keeps (holds I) (HandleParse D job)"
proof -
  have o: "outside (MkdirTemp D)" "\<And>b k v c. outside (UploadText D b k v c)" "outside (ShortID D)" "outside (ElapsedMS (Host D))"
    using assms by (simp_all add: outside_deps_def outside_host_def)
  have r: "keeps (holds I) (store_result D docID i res)" for docID i res
    unfolding store_result_def by (intro kept finishParse o[THEN keeps_outside])
  have p: "keeps (holds I) (parse_shard D doc shard textOnly i a b)" for doc shard textOnly i a b
    unfolding parse_shard_def by (intro kept r o[THEN keeps_outside] fetch_source[OF assms] Parse[OF assms])
  show ?thesis unfolding HandleParse_def ladder_step_def SplitAndRequeue_def GetDocument_def
    by (intro kept stmts p resplitShard claimShard o[THEN keeps_outside])
qed

lemma copyChunksWithFallback: "keeps (holds I) (copyChunksWithFallback rows)"
proof -
  have c: "stmt_keeps I (copy_chunks rs)" for rs using copy_chunks unfolding stmt_keeps_def by blast
  have u: "stmt_keeps I (upsert_chunk r)" for r
    using c[of "[r]"] by (auto simp: upsert_chunk_def stmt_keeps_def split: if_splits)
  have b: "keeps (holds I) (rollback_to t)" if "I t" for t
    unfolding rollback_to_def using that by (intro kept keepsI) (simp_all add: holds_def)
  have r: "triple (holds I) (tx_stmt (query (\<lambda>t. t))) (\<lambda>saved w. holds I w \<and> I saved) (holds I)"
  proof (rule tripleI)
    fix w :: "'x world" and saved w'
    assume h: "holds I w" and t: "tx_stmt (query (\<lambda>t. t)) w = (Inr saved, w')"
    have "holds I w'" using keepsD[OF keeps_tx_stmt[OF stmt_keeps_query[of I "\<lambda>t. t"]] h] t by simp
    then show "holds I w' \<and> I saved" using t h by (auto simp: tx_stmt_Inr pool_stmt_Inr holds_def)
  next
    fix w :: "'x world" and e w'
    assume h: "holds I w" and t: "tx_stmt (query (\<lambda>t. t)) w = (Inl e, w')"
    show "holds I w'" using keepsD[OF keeps_tx_stmt[OF stmt_keeps_query[of I "\<lambda>t. t"]] h] t by simp
  qed
  have "triple (\<lambda>w. holds I w \<and> I saved) (bnd (attempt (tx_stmt (copy_chunks rows))) (\<lambda>r. case r of
       Inr _ \<Rightarrow> ret ()
     | Inl e \<Rightarrow> bnd (rollback_to saved) (\<lambda>_. for_each (\<lambda>row. tx_stmt (upsert_chunk row)) rows)))
     (\<lambda>_. holds I) (holds I)" for saved
  proof (cases "I saved")
    case True
    have "keeps (holds I) (bnd (attempt (tx_stmt (copy_chunks rows))) (\<lambda>r. case r of
       Inr _ \<Rightarrow> ret ()
     | Inl e \<Rightarrow> bnd (rollback_to saved) (\<lambda>_. for_each (\<lambda>row. tx_stmt (upsert_chunk row)) rows)))"
      by (intro kept c u b True)
    then show ?thesis using True by (simp add: triple_keeps)
  qed (simp add: triple_def)
  from triple_bnd[OF r this] show ?thesis unfolding copyChunksWithFallback_def triple_keeps .
qed

lemma embed_tx: "keeps (holds I) (embed_tx docID coll ps ks rows)"
proof -
  have i: "keeps (holds I) (insert_rows rs)" for rs
    unfolding insert_rows_def by (intro kept copyChunksWithFallback)
  have d: "keeps (holds I) (DeleteDocChunksTx docID)"
    unfolding DeleteDocChunksTx_def by (intro kept stmts delete_doc_chunks)
  have c: "keeps (holds I) (CopyEmbeddings rows)"
    unfolding CopyEmbeddings_def update_batch_def
    by (intro kept stmts update_chunks) (simp_all add: chunk_key_def set_vector_def split: option.splits)
  have s: "keeps (holds I) (SetChunkCountAndCompleteness docID n)" for n
    unfolding SetChunkCountAndCompleteness_def by (intro kept stmts update_docs) (simp_all add: doc_key_def)
  show ?thesis unfolding embed_tx_def InsertParents_def InsertChunks_def by (intro kept i d c s)
qed

lemma HandleEmbed:
  assumes "outside_deps D" "outside_net (EmbedNet D)"
  shows "keeps (holds I) (HandleEmbed D job)"
proof -
  have o: "\<And>b k. outside (GetText D b k)" "\<And>rq. outside (n_Do (EmbedNet D) rq)" "\<And>k. outside (n_Rand (EmbedNet D) k)"
    "\<And>d. outside (n_Sleep (EmbedNet D) d)" using assms by (simp_all add: outside_deps_def outside_net_def)
  have l: "keeps (holds I) (embed_ladder (EmbedNet D) rq width n delay lastErr c)" for rq width n delay lastErr c
  proof (induction n arbitrary: delay lastErr c)
    case (Suc n)
    have st: "keeps (holds I) (case st of Final x \<Rightarrow> f x | Again e \<Rightarrow> g e)"
      if "\<And>x. keeps (holds I) (f x)" "\<And>e. keeps (holds I) (g e)" for st f and g :: "goerr \<Rightarrow> ('x world, goerr, 'b) prog"
      using that by (cases st) simp_all
    show ?case unfolding embed_ladder.simps backoff_wait_def by (intro kept st o[THEN keeps_outside] Suc)
  qed (simp add: keeps_intros)
  have b: "keeps (holds I) (embed_batches (EmbedNet D) width c bs)" for width c bs
  proof (induction bs arbitrary: c)
    case (Cons x bs)
    show ?case unfolding embed_batches.simps Embed_def by (intro kept l Cons)
  qed (simp add: keeps_intros)
  have f: "keeps (holds I) (fetch_all (\<lambda>i. GetText D bk (key i)) xs)" for bk key xs
  proof (induction xs)
    case (Cons x xs)
    show ?case unfolding fetch_all.simps by (intro kept Cons o[THEN keeps_outside])
  qed (simp only: fetch_all.simps keeps_ret)
  have c: "keeps (holds I) (capped (Redis D) docID e)" for docID e
    unfolding capped_def bumpEmbedRetries_def by (intro kept SetDocState)
  have "keeps (holds I) (embed_chunks D docID doc ps ks)" for docID doc ps ks
    unfolding embed_chunks_def ResolveCollectionModel_def resetEmbedRetries_def by (intro kept stmts b c embed_tx)
  then show ?thesis unfolding HandleEmbed_def embed_book_def prefetch_shards_def GetDocument_def SettledShards_def
    by (intro kept stmts f failDocTerminal)
qed

lemma Pass: "keeps (holds I) (Pass R pf ord cfg lastBucket)"
proof -
  have q: "keeps (holds I) (write_quarantine v)" for v unfolding write_quarantine_def by (rule WriteEvent)
  have x: "keeps (holds I) RequeueExpiredLeases"
    unfolding RequeueExpiredLeases_def by (intro kept stmts update_shards) (simp_all add: shard_key_def reap_row_def)
  have e: "keeps (holds I) (escalate cfg)"
    unfolding escalate_def EscalateStuckShards_def BumpShardsFailed_def bump_failed_def ignore_def
    by (intro kept stmts update_shards update_docs WriteEvent) (simp_all add: shard_key_def doc_key_def escalate_row_def)
  have u: "keeps (holds I) (UpsertMetricsRollup row)" for row
    unfolding UpsertMetricsRollup_def by (intro kept keepsI) (simp_all add: holds_def)
  show ?thesis
    unfolding Pass_def NonTerminalDocs_def embedSweep_def pendingShardSweep_def rescue_shards_def rescue_event_def
      NeverAttemptedShards_def stuckWarn_def StuckDocs_def rollup_def ShardsDoneBetween_def EmbeddedChunksSince_def enqueue_parse_def
    by (intro kept stmts q x e u WriteEvent)
qed

end

section \<open>The schema is such an invariant\<close>

lemma map_keep: "(\<And>x. k (f x) = k x) \<Longrightarrow> map k (map (\<lambda>x. if p x then f x else x) xs) = map k xs"
  by simp

lemma docs_ok_update:
  assumes "\<And>d. doc_key (f d) = doc_key d" "docs_ok ds ks"
  shows "docs_ok (map (\<lambda>d. if p d then f d else d) ds) ks"
proof -
  let ?g = "\<lambda>d. if p d then f d else d"
  have k: "d_ID (?g d) = d_ID d" "d_CollectionID (?g d) = d_CollectionID d" "d_ContentSHA256 (?g d) = d_ContentSHA256 d" for d
    using assms(1)[of d] by (simp_all add: doc_key_def)
  have "docs_ok (map ?g ds) ks = docs_ok ds ks" unfolding docs_ok_def
    by (simp only: map_map comp_def filter_map k set_map ball_simps)
  then show ?thesis using assms(2) by simp
qed

lemma doc_ids_update: "(\<And>d. doc_key (f d) = doc_key d) \<Longrightarrow> d_ID ` set (map (\<lambda>d. if p d then f d else d) ds) = d_ID ` set ds"
  unfolding set_map image_image by (rule image_cong) (simp_all add: doc_key_def)

lemma schema_update_docs:
  "(\<And>d. doc_key (f d) = doc_key d) \<Longrightarrow> schema_ok t \<Longrightarrow> schema_ok (update_docs p f t)"
  unfolding schema_ok_def shards_ok_def chunks_ok_def
  by (simp add: docs_ok_update doc_ids_update update_docs_def del: set_map)

lemma schema_update_shards:
  assumes "\<And>s. shard_key (g s) = shard_key s" "schema_ok t"
  shows "schema_ok (update_shards q g t)"
proof -
  let ?h = "\<lambda>s. if q s then g s else s"
  have k: "s_DocID (?h s) = s_DocID s" "s_Idx (?h s) = s_Idx s" for s
    using assms(1)[of s] by (simp_all add: shard_key_def)
  have "shards_ok (map ?h (shards t)) (documents t) = shards_ok (shards t) (documents t)"
    unfolding shards_ok_def by (simp only: map_map comp_def k set_map image_image)
  then show ?thesis using assms(2) unfolding schema_ok_def by (simp add: update_shards_def)
qed

lemma schema_update_chunks:
  assumes "\<And>c. chunk_key (h c) = chunk_key c" "schema_ok t"
  shows "schema_ok (t\<lparr>chunks := map h (chunks t)\<rparr>)"
proof -
  have k: "c_ID (h c) = c_ID c" "c_DocID (h c) = c_DocID c" "c_ChunkHash (h c) = c_ChunkHash c" for c
    using assms(1)[of c] by (simp_all add: chunk_key_def)
  have "chunks_ok (map h (chunks t)) (documents t) = chunks_ok (chunks t) (documents t)"
    unfolding chunks_ok_def by (simp only: map_map comp_def k set_map image_image)
  then show ?thesis using assms(2) unfolding schema_ok_def by simp
qed

lemma schema_insert_shard:
  assumes "schema_ok t" "insert_shard docID idx b now t = (Inr x, u)"
  shows "schema_ok u"
proof -
  have u: "u = t\<lparr>shards := shards t @ [new_shard docID idx (fst b) (snd b) now]\<rparr>"
    and n: "\<not> (\<exists>s \<in> set (shards t). s_DocID s = docID \<and> s_Idx s = idx)" and d: "\<exists>d \<in> set (documents t). d_ID d = docID"
    using assms(2) by (auto simp: insert_shard_def split: if_splits)
  have "shards_ok (shards u) (documents t)"
    using assms(1) n d by (auto simp: u schema_ok_def shards_ok_def new_shard_def)
  then show ?thesis using assms(1) by (simp add: u schema_ok_def)
qed

lemma add_rows_keys:
  "add_rows now cs rs = Inr cs' \<Longrightarrow> distinct (map c_ID cs) \<and> distinct (map (\<lambda>c. (c_DocID c, c_ChunkHash c)) cs) \<Longrightarrow>
   distinct (map c_ID cs') \<and> distinct (map (\<lambda>c. (c_DocID c, c_ChunkHash c)) cs')"
proof (induction rs arbitrary: cs)
  case (Cons r rs)
  then have c: "clash cs r = None" and a: "add_rows now (cs @ [stamped now r]) rs = Inr cs'"
    by (auto simp: stamped_def split: option.splits)
  show ?case by (rule Cons.IH[OF a]) (use Cons.prems(2) c in \<open>auto simp: clash_def split: if_splits\<close>)
qed simp

lemma schema_copy_chunks:
  assumes "schema_ok t" "copy_chunks rows now t = (Inr x, u)"
  shows "schema_ok u"
proof -
  obtain cs where a: "add_rows now (chunks t) rows = Inr cs" and u: "u = t\<lparr>chunks := cs\<rparr>"
    and f: "\<forall>r \<in> set rows. row_refs_ok t cs r"
    using assms(2) by (auto simp: copy_chunks_def split: sum.splits if_splits)
  have "c_DocID ` set cs \<subseteq> d_ID ` set (documents t)"
    using f assms(1) add_rows_Inr[OF a] by (force simp: row_refs_ok_def schema_ok_def chunks_ok_def)
  then have "chunks_ok cs (documents t)"
    using add_rows_keys[OF a] assms(1) by (simp add: chunks_ok_def schema_ok_def)
  then show ?thesis using assms(1) by (simp add: u schema_ok_def)
qed

lemma schema_delete_doc_chunks: "schema_ok t \<Longrightarrow> schema_ok (delete_doc_chunks docID t)"
  by (auto simp: schema_ok_def chunks_ok_def delete_doc_chunks_def distinct_map_filter)

lemma schema_events: "schema_ok t \<Longrightarrow> schema_ok (t\<lparr>events := es\<rparr>)"
  by (simp add: schema_ok_def)

interpretation schema: kept_tables schema_ok
  by unfold_locales (fact schema_update_docs schema_update_shards schema_update_chunks schema_events schema_insert_shard
    schema_copy_chunks schema_delete_doc_chunks)+

text \<open>The keys the counters rest on are another.\<close>

interpretation keys: kept_tables keys_ok
proof unfold_locales
  show "keys_ok t \<Longrightarrow> insert_shard docID idx b now t = (Inr x, u) \<Longrightarrow> keys_ok u" for t docID idx b now x u
    using insert_shard_keys by blast
  show "keys_ok t \<Longrightarrow> copy_chunks rows now t = (Inr x, u) \<Longrightarrow> keys_ok u" for t rows now x u
    by (auto simp: copy_chunks_def keys_ok_def split: sum.splits if_splits)
  show "keys_ok t \<Longrightarrow> keys_ok (delete_doc_chunks docID t)" for t docID
    by (simp add: keys_ok_def delete_doc_chunks_def)
  show "keys_ok (update_docs p f t)" if "\<And>d. doc_key (f d) = doc_key d" "keys_ok t" for p f t
    using that(2) by (rule keys_ok_after) (use that(1) in \<open>simp_all add: doc_key_def\<close>)
  show "keys_ok (update_shards q g t)" if "\<And>s. shard_key (g s) = shard_key s" "keys_ok t" for q g t
    using that(2) by (rule keys_ok_after) (use that(1) in \<open>simp_all add: shard_key_def\<close>)
qed (simp_all add: keys_ok_def)

section \<open>The operations of the console\<close>

lemma stmt_keepsI: "(\<And>now t x u. I t \<Longrightarrow> st now t = (Inr x, u) \<Longrightarrow> I u) \<Longrightarrow> stmt_keeps I st"
  unfolding stmt_keeps_def by blast

lemma filter_ids: "x ` set (filter (\<lambda>d. P (x d)) ds) = {i \<in> x ` set ds. P i}"
  by auto

lemma docs_ok_filter: "docs_ok ds ks \<Longrightarrow> docs_ok (filter P ds) ks"
  unfolding docs_ok_def by (auto simp: distinct_map_filter filter_filter conj_commute distinct_map inj_on_def)

lemma schema_delete_docs: "schema_ok t \<Longrightarrow> schema_ok (delete_docs p t)"
  unfolding schema_ok_def delete_docs_def
  by (auto simp: docs_ok_filter shards_ok_def chunks_ok_def distinct_map_filter)

lemma schema_delete_doc_shards: "schema_ok t \<Longrightarrow> schema_ok (delete_doc_shards docID t)"
  unfolding schema_ok_def delete_doc_shards_def by (auto simp: shards_ok_def distinct_map_filter)

lemma InsertDocument_schema: "keeps (holds schema_ok) (InsertDocument doc)"
  unfolding InsertDocument_def
proof (intro kept stmt_keepsI, goal_cases)
  case (1 now t x u)
  define d where "d = doc\<lparr>d_Filename := None, d_PageCount := None, d_ErrorCode := None, d_ErrorDetail := None,
            d_TotalShards := None, d_ShardsDone := 0, d_ShardsFailed := 0, d_ChunkCount := None,
            d_Completeness := None, d_CreatedAt := now, d_UpdatedAt := now, d_ReadyAt := None\<rparr>"
  have d: "doc_key d = doc_key doc" by (simp add: d_def doc_key_def)
  have u: "u = t\<lparr>documents := documents t @ [d]\<rparr>" and n: "\<forall>e \<in> set (documents t). d_ID e \<noteq> d_ID doc"
      "\<forall>e \<in> set (documents t). d_CollectionID e = None \<or> d_CollectionID e \<noteq> d_CollectionID doc \<or> d_ContentSHA256 e \<noteq> d_ContentSHA256 doc"
      "\<forall>c. d_CollectionID doc = Some c \<longrightarrow> c \<in> k_ID ` set (collections t)"
    using 1(2) unfolding d_def[symmetric] by (auto split: if_splits option.splits)
  have "docs_ok (documents t @ [d]) (collections t)"
    using 1(1) d n by (auto simp: schema_ok_def docs_ok_def doc_key_def known_def split: option.splits)
  moreover have "shards_ok (shards t) (documents t @ [d])" "chunks_ok (chunks t) (documents t @ [d])"
    using 1(1) by (auto simp: schema_ok_def shards_ok_def chunks_ok_def)
  ultimately show ?case using 1(1) by (simp add: u schema_ok_def)
qed

lemma DeleteDocument_schema: "keeps (holds schema_ok) (DeleteDocument docID)"
  unfolding DeleteDocument_def by (intro kept stmts schema_delete_docs)

lemma DeleteDocumentsBatch_schema: "keeps (holds schema_ok) (DeleteDocumentsBatch ids)"
  unfolding DeleteDocumentsBatch_def by (intro kept stmts schema_delete_docs)

lemma ResetDocForFullRetry_schema: "keeps (holds schema_ok) (ResetDocForFullRetry docID)"
  unfolding ResetDocForFullRetry_def by (intro kept stmts schema_delete_doc_chunks schema_delete_doc_shards schema_update_docs) (simp_all add: doc_key_def)

lemma ResetDocForRechunk_schema: "keeps (holds schema_ok) (ResetDocForRechunk docID)"
  unfolding ResetDocForRechunk_def by (intro kept stmts schema_delete_doc_chunks schema_update_docs) (simp_all add: doc_key_def)

lemma RequeueFailedShards_schema: "keeps (holds schema_ok) (RequeueFailedShards docID)"
  unfolding RequeueFailedShards_def by (intro kept stmts schema_update_shards schema_update_docs) (simp_all add: doc_key_def shard_key_def requeue_row_def)

lemma RepairDocCounters_schema: "keeps (holds schema_ok) (RepairDocCounters docID)"
  unfolding RepairDocCounters_def SetChunkCountAndCompleteness_def by (intro kept stmts schema_update_docs) (simp_all add: doc_key_def)

lemma MarkShardFailed_schema: "keeps (holds schema_ok) (MarkShardFailed docID idx code detail)"
  unfolding MarkShardFailed_def by (intro kept stmts schema_update_shards schema_update_docs) (simp_all add: doc_key_def shard_key_def)

lemmas documents_schema = DeleteDocument_schema DeleteDocumentsBatch_schema ResetDocForFullRetry_schema ResetDocForRechunk_schema RequeueFailedShards_schema RepairDocCounters_schema MarkShardFailed_schema

lemma EnsureDimIndex_schema: "keeps (holds schema_ok) (EnsureDimIndex n)"
proof -
  have o: "keeps (holds schema_ok) (ensureDimIndexOnce n)"
    unfolding ensureDimIndexOnce_def create_index_def deferring_def wrapping_def
    by (intro kept stmts) (simp add: schema_ok_def)
  have "keeps (holds schema_ok) (ensure_attempts k n lastErr)" for k lastErr
  proof (induction k arbitrary: lastErr)
    case (Suc k)
    show ?case unfolding ensure_attempts.simps by (intro kept o Suc)
  qed (simp add: keeps_intros)
  then show ?thesis unfolding EnsureDimIndex_def by (intro kept)
qed

lemma known_mono: "known x A \<Longrightarrow> A \<subseteq> B \<Longrightarrow> known x B"
  by (auto simp: known_def split: option.splits)

lemma collections_ok_model:
  assumes "collections_ok ks ms rs" "em_ID ` fst ` set ms \<subseteq> em_ID ` fst ` set ms'" "rm_ID ` fst ` set rs \<subseteq> rm_ID ` fst ` set rs'"
  shows "collections_ok ks ms' rs'"
  using assms(1) known_mono[OF _ assms(2)] known_mono[OF _ assms(3)] unfolding collections_ok_def by blast

lemma insert_model_schema: "stmt_keeps schema_ok (insert_model uuid m apiKey)"
proof (rule stmt_keepsI)
  fix now t x u assume a: "schema_ok t" "insert_model uuid m apiKey now t = (Inr x, u)"
  let ?r = "(m\<lparr>em_ID := uuid, em_CreatedAt := now, em_UpdatedAt := now\<rparr>, apiKey)"
  have u: "u = t\<lparr>embedding_models := embedding_models t @ [?r]\<rparr>" and c: "model_checks m"
    and n: "\<forall>r \<in> set (embedding_models t). em_ID (fst r) \<noteq> uuid \<and> em_Name (fst r) \<noteq> em_Name m"
    using a(2) by (auto simp: insert_model_def Let_def split: if_splits)
  have "models_ok (embedding_models t @ [?r])"
    using a(1) c n by (auto simp: schema_ok_def models_ok_def model_checks_def)
  moreover have "collections_ok (collections t) (embedding_models t @ [?r]) (rerank_models t)"
    by (rule collections_ok_model[of _ "embedding_models t" "rerank_models t"]) (use a(1) in \<open>auto simp: schema_ok_def\<close>)
  ultimately show "schema_ok u" using a(1) by (simp add: u schema_ok_def)
qed

lemma distinct_map_update:
  assumes "distinct (map k xs)" "\<And>x. x \<in> set xs \<Longrightarrow> p x \<Longrightarrow> k (f x) = c"
    and "\<And>x y. x \<in> set xs \<Longrightarrow> y \<in> set xs \<Longrightarrow> p x \<Longrightarrow> p y \<Longrightarrow> x = y" "\<And>x. x \<in> set xs \<Longrightarrow> \<not> p x \<Longrightarrow> k x \<noteq> c"
  shows "distinct (map k (map (\<lambda>x. if p x then f x else x) xs))"
  using assms(1) assms(2-4)
proof (induction xs)
  case (Cons x xs)
  have IH: "distinct (map k (map (\<lambda>x. if p x then f x else x) xs))"
    using Cons by (auto simp: distinct_map)
  have "k (if p x then f x else x) \<noteq> k (if p y then f y else y)" if y: "y \<in> set xs" for y
  proof -
    have ne: "k x \<noteq> k y" using Cons.prems(1) y by auto
    show ?thesis using ne y Cons.prems(2)[of x] Cons.prems(2)[of y] Cons.prems(3)[of x y] Cons.prems(4)[of x] Cons.prems(4)[of y]
      by auto
  qed
  then show ?case using IH by (simp add: image_iff)
qed simp

lemma update_model_schema: "stmt_keeps schema_ok (update_model i m apiKey)"
proof (rule stmt_keepsI)
  fix now t x u assume a: "schema_ok t" "update_model i m apiKey now t = (Inr x, u)"
  let ?f = "\<lambda>r. if em_ID (fst r) = i then updated_model m apiKey now r else r"
  show "schema_ok u"
  proof (cases "find (\<lambda>r. em_ID (fst r) = i) (embedding_models t)")
    case None
    then show ?thesis using a by (simp add: update_model_def)
  next
    case (Some row)
    then have u: "u = t\<lparr>embedding_models := map ?f (embedding_models t)\<rparr>" and c: "model_checks m"
      and n: "\<forall>r \<in> set (embedding_models t). em_ID (fst r) \<noteq> i \<longrightarrow> em_Name (fst r) \<noteq> em_Name m"
      using a(2) by (auto simp: update_model_def split: if_splits)
    have ok: "models_ok (embedding_models t)" using a(1) by (simp add: schema_ok_def)
    have ids: "em_ID (fst (?f r)) = em_ID (fst r)" for r by (simp add: updated_model_def)
    have one: "r = s" if "r \<in> set (embedding_models t)" "s \<in> set (embedding_models t)" "em_ID (fst r) = i" "em_ID (fst s) = i" for r s
      using ok that by (auto simp: models_ok_def distinct_map inj_on_def)
    have "distinct (map (em_Name \<circ> fst) (map ?f (embedding_models t)))"
      by (rule distinct_map_update[where c = "em_Name m"])
        (use ok n one in \<open>auto simp: models_ok_def updated_model_def\<close>)
    moreover have "distinct (map (em_ID \<circ> fst) (map ?f (embedding_models t)))"
      using ok by (simp add: models_ok_def comp_def ids del: map_map) (simp add: comp_def ids)
    ultimately have "models_ok (map ?f (embedding_models t))"
      using ok c by (auto simp: models_ok_def updated_model_def model_checks_def)
    moreover have e: "em_ID ` fst ` set (map ?f (embedding_models t)) = em_ID ` fst ` set (embedding_models t)"
      by (simp only: set_map image_image ids)
    have "collections_ok (collections t) (embedding_models t) (rerank_models t)" using a(1) by (simp add: schema_ok_def)
    then have "collections_ok (collections t) (map ?f (embedding_models t)) (rerank_models t)"
      by (rule collections_ok_model[OF _ equalityD2[OF e] order_refl])
    ultimately show ?thesis using a(1) by (simp add: u schema_ok_def)
  qed
qed

lemma delete_model_schema: "stmt_keeps schema_ok (delete_model i)"
proof (rule stmt_keepsI)
  fix now t x u assume a: "schema_ok t" "delete_model i now t = (Inr x, u)"
  have u: "u = t\<lparr>embedding_models := filter (\<lambda>r. em_ID (fst r) \<noteq> i) (embedding_models t)\<rparr>"
    and n: "\<forall>c \<in> set (collections t). k_EmbeddingModelID c \<noteq> Some i"
    using a(2) by (auto simp: delete_model_def split: if_splits)
  let ?ms = "filter (\<lambda>r. em_ID (fst r) \<noteq> i) (embedding_models t)"
  have ids: "em_ID ` fst ` set ?ms = em_ID ` fst ` set (embedding_models t) - {i}"
    unfolding image_image set_filter by blast
  have k: "known r (ids - {i})" if "known r ids" "r \<noteq> Some i" for r ids
    using that by (auto simp: known_def split: option.splits)
  have ok: "collections_ok (collections t) (embedding_models t) (rerank_models t)" using a(1) by (simp add: schema_ok_def)
  have "collections_ok (collections t) ?ms (rerank_models t)"
    unfolding collections_ok_def ids using ok n k unfolding collections_ok_def by blast
  moreover have "models_ok (filter (\<lambda>r. em_ID (fst r) \<noteq> i) (embedding_models t))"
    using a(1) by (auto simp: schema_ok_def models_ok_def distinct_map_filter)
  ultimately show "schema_ok u" using a(1) by (simp add: u schema_ok_def)
qed

lemma model_refs: "em_ID m \<in> em_ID ` fst ` set ms \<longleftrightarrow> \<not> (\<forall>r \<in> set ms. em_ID (fst r) \<noteq> em_ID m)"
  by force

lemma insert_collection_schema: "stmt_keeps schema_ok (insert_collection i name m)"
proof (rule stmt_keepsI)
  fix now t x u assume a: "schema_ok t" "insert_collection i name m now t = (Inr x, u)"
  let ?k = "new_collection i name m now"
  have u: "u = t\<lparr>collections := collections t @ [?k]\<rparr>" and n: "\<forall>c \<in> set (collections t). k_ID c \<noteq> i"
    and r: "em_ID m \<in> em_ID ` fst ` set (embedding_models t)"
    using a(2) unfolding model_refs by (auto simp: insert_collection_def split: if_splits)
  have "collections_ok (collections t @ [?k]) (embedding_models t) (rerank_models t)"
    using a(1) n r by (auto simp: schema_ok_def collections_ok_def new_collection_def known_def)
  moreover have "k_ID ` set (collections t) \<subseteq> k_ID ` set (collections t @ [?k])" by auto
  then have "docs_ok (documents t) (collections t @ [?k])"
    using a(1) known_mono unfolding schema_ok_def docs_ok_def by blast
  ultimately show "schema_ok u" using a(1) by (simp add: u schema_ok_def)
qed

lemma schema_rebind:
  assumes "schema_ok t" "\<And>c. k_ID (f c) = k_ID c"
    and "\<And>c. c \<in> set (collections t) \<Longrightarrow> known (k_EmbeddingModelID (f c)) (em_ID ` fst ` set (embedding_models t))
      \<and> known (k_RerankModelID (f c)) (rm_ID ` fst ` set (rerank_models t))"
  shows "schema_ok (t\<lparr>collections := map (\<lambda>c. if p c then f c else c) (collections t)\<rparr>)"
proof -
  let ?g = "\<lambda>c. if p c then f c else c"
  have i: "k_ID (?g c) = k_ID c" for c using assms(2) by simp
  have e: "k_ID ` set (map ?g (collections t)) = k_ID ` set (collections t)" by (simp only: set_map image_image i)
  have "map k_ID (map ?g (collections t)) = map k_ID (collections t)" by (simp only: map_map comp_def i)
  then have "collections_ok (map ?g (collections t)) (embedding_models t) (rerank_models t)"
    using assms(1,3) unfolding schema_ok_def collections_ok_def by (simp del: map_map) blast
  moreover have "docs_ok (documents t) (map ?g (collections t))"
    using assms(1) unfolding schema_ok_def docs_ok_def e by blast
  ultimately show ?thesis using assms(1) by (simp add: schema_ok_def)
qed

lemma bind_collection_schema: "stmt_keeps schema_ok (bind_collection cid m)"
proof (rule stmt_keepsI)
  fix now t x u assume a: "schema_ok t" "bind_collection cid m now t = (Inr x, u)"
  have ok: "collections_ok (collections t) (embedding_models t) (rerank_models t)" using a(1) by (simp add: schema_ok_def)
  have "u = t \<or> em_ID m \<in> em_ID ` fst ` set (embedding_models t)
      \<and> u = t\<lparr>collections := map (\<lambda>c. if k_ID c = cid then bound_to m c else c) (collections t)\<rparr>"
    using a(2) unfolding model_refs by (auto simp: bind_collection_def split: option.splits if_splits)
  then show "schema_ok u"
    using a(1) ok schema_rebind[of t "bound_to m" "\<lambda>c. k_ID c = cid"]
    by (auto simp: bound_to_def known_def collections_ok_def)
qed

lemma bind_reranker_schema: "stmt_keeps schema_ok (bind_reranker cid mid)"
proof (rule stmt_keepsI)
  fix now t x u assume a: "schema_ok t" "bind_reranker cid mid now t = (Inr x, u)"
  have ok: "collections_ok (collections t) (embedding_models t) (rerank_models t)" using a(1) by (simp add: schema_ok_def)
  have "u = t \<or> known mid (rm_ID ` fst ` set (rerank_models t))
      \<and> u = t\<lparr>collections := map (\<lambda>c. if k_ID c = cid then c\<lparr>k_RerankModelID := mid\<rparr> else c) (collections t)\<rparr>"
    using a(2) by (auto simp: bind_reranker_def known_def image_iff split: option.splits if_splits)
  then show "schema_ok u"
    using a(1) ok schema_rebind[of t "\<lambda>c. c\<lparr>k_RerankModelID := mid\<rparr>" "\<lambda>c. k_ID c = cid"]
    by (auto simp: collections_ok_def)
qed

lemma insert_reranker_schema: "stmt_keeps schema_ok (insert_reranker uuid m apiKey)"
proof (rule stmt_keepsI)
  fix now t x u assume a: "schema_ok t" "insert_reranker uuid m apiKey now t = (Inr x, u)"
  let ?r = "(m\<lparr>rm_ID := uuid, rm_CreatedAt := now, rm_UpdatedAt := now\<rparr>, apiKey)"
  have u: "u = t\<lparr>rerank_models := rerank_models t @ [?r]\<rparr>" and c: "reranker_checks m"
    and n: "\<forall>r \<in> set (rerank_models t). rm_ID (fst r) \<noteq> uuid \<and> rm_Name (fst r) \<noteq> rm_Name m"
    using a(2) by (auto simp: insert_reranker_def Let_def split: if_splits)
  have "rerankers_ok (rerank_models t @ [?r])"
    using a(1) c n by (auto simp: schema_ok_def rerankers_ok_def reranker_checks_def)
  moreover have "collections_ok (collections t) (embedding_models t) (rerank_models t @ [?r])"
    by (rule collections_ok_model[of _ "embedding_models t" "rerank_models t"]) (use a(1) in \<open>auto simp: schema_ok_def\<close>)
  ultimately show "schema_ok u" using a(1) by (simp add: u schema_ok_def)
qed

lemma delete_reranker_schema: "stmt_keeps schema_ok (delete_reranker i)"
proof (rule stmt_keepsI)
  fix now t x u assume a: "schema_ok t" "delete_reranker i now t = (Inr x, u)"
  let ?rs = "filter (\<lambda>r. rm_ID (fst r) \<noteq> i) (rerank_models t)"
  have u: "u = t\<lparr>rerank_models := ?rs\<rparr>" and n: "\<forall>c \<in> set (collections t). k_RerankModelID c \<noteq> Some i"
    using a(2) by (auto simp: delete_reranker_def split: if_splits)
  have ids: "rm_ID ` fst ` set ?rs = rm_ID ` fst ` set (rerank_models t) - {i}"
    unfolding image_image set_filter by blast
  have k: "known r (ids - {i})" if "known r ids" "r \<noteq> Some i" for r ids
    using that by (auto simp: known_def split: option.splits)
  have ok: "collections_ok (collections t) (embedding_models t) (rerank_models t)" using a(1) by (simp add: schema_ok_def)
  have "collections_ok (collections t) (embedding_models t) ?rs"
    unfolding collections_ok_def ids using ok n k unfolding collections_ok_def by blast
  moreover have "rerankers_ok ?rs"
    using a(1) by (auto simp: schema_ok_def rerankers_ok_def distinct_map_filter)
  ultimately show "schema_ok u" using a(1) by (simp add: u schema_ok_def)
qed

lemma registry_schema:
  "keeps (holds schema_ok) (InsertEmbeddingModel uuid m key)" "keeps (holds schema_ok) (UpdateEmbeddingModel i m key)"
  "keeps (holds schema_ok) (DeleteEmbeddingModel i)" "keeps (holds schema_ok) (InsertCollection i name m)"
  "keeps (holds schema_ok) (BindCollectionModel cid mid)" "keeps (holds schema_ok) (InsertRerankModel uuid rm key)"
  "keeps (holds schema_ok) (DeleteRerankModel i)" "keeps (holds schema_ok) (BindCollectionReranker cid mid)"
  unfolding InsertEmbeddingModel_def UpdateEmbeddingModel_def DeleteEmbeddingModel_def GetEmbeddingModel_def
    CountCollectionRefs_def InsertCollection_def BindCollectionModel_def InsertRerankModel_def DeleteRerankModel_def
    GetRerankModel_def CountCollectionRerankRefs_def BindCollectionReranker_def
  by (intro kept stmts EnsureDimIndex_schema insert_model_schema update_model_schema delete_model_schema insert_collection_schema
      bind_collection_schema insert_reranker_schema delete_reranker_schema bind_reranker_schema)+

section \<open>Properties\<close>


text \<open>
  The console's operations keep the schema as well: a document, collection, model or
  reranker is only inserted, updated, bound or deleted when no key, reference or check is
  broken by it, and a deletion takes the rows that depend on it along or is refused.
\<close>

theorem console_keeps_schema:
  "keeps (holds schema_ok) (InsertDocument doc) \<and> keeps (holds schema_ok) (DeleteDocument docID)
   \<and> keeps (holds schema_ok) (DeleteDocumentsBatch ids) \<and> keeps (holds schema_ok) (ResetDocForFullRetry docID)
   \<and> keeps (holds schema_ok) (ResetDocForRechunk docID) \<and> keeps (holds schema_ok) (RequeueFailedShards docID)
   \<and> keeps (holds schema_ok) (InsertEmbeddingModel uuid em key) \<and> keeps (holds schema_ok) (UpdateEmbeddingModel i em key)
   \<and> keeps (holds schema_ok) (DeleteEmbeddingModel i) \<and> keeps (holds schema_ok) (InsertCollection i name em)
   \<and> keeps (holds schema_ok) (BindCollectionModel cid mid) \<and> keeps (holds schema_ok) (InsertRerankModel uuid rm key)
   \<and> keeps (holds schema_ok) (DeleteRerankModel i) \<and> keeps (holds schema_ok) (BindCollectionReranker cid mid)"
  by (intro conjI InsertDocument_schema documents_schema registry_schema)

section \<open>Instances\<close>

text \<open>A document with two shards in a collection; every call outside succeeds at once.\<close>

definition sample_schema :: tables where
  "sample_schema = (sample_tables ShardPending)\<lparr>collections :=
     [\<lparr>k_ID = ''c'', k_Name = ''C'', k_EmbeddingModel = ''m'', k_VectorDim = 3, k_EmbeddingModelID = None,
       k_RerankModelID = None, k_CreatedAt = 0\<rparr>]\<rparr>"

definition silent_net :: "mem world net" where
  "silent_net = \<lparr>n_Do = (\<lambda>rq. ret (NoReply ''dial tcp'')), n_BadURL = (\<lambda>_. None), n_Rand = (\<lambda>_. ret 0),
     n_Sleep = (\<lambda>_. ret ()), n_Float64 = (\<lambda>_. Some 0), n_Float32 = id, n_DecodeError = (\<lambda>_. []), n_Sprint = (\<lambda>_. [])\<rparr>"

definition embed_sample :: "mem embed_deps" where
  "embed_sample = deps.extend (sample_deps damaged_lib) \<lparr>EmbedNet = silent_net, FetchOrder = rev\<rparr>"

lemma sample_schema_ok: "holds schema_ok (sample_world sample_schema mem_empty)"
  by (simp add: holds_def sample_world_def sample_schema_def sample_tables_def empty_tables_def schema_ok_def docs_ok_def
      shards_ok_def chunks_ok_def models_ok_def rerankers_ok_def collections_ok_def known_def sample_doc_def new_shard_def)


end
