(* ===== verification/Docling.thy ===== *)
theory Docling
  imports EmbedClient
begin

text \<open>
  The docling client (\<open>internal/pipeline/docling_client.go\<close>): its retry ladder and its circuit
  breaker with cooldown and a single half-open probe.  The breaker is shared by the goroutines
  that convert; every access to it holds the mutex, so an execution is a sequence of the three
  operations \<open>acquireOpen\<close>, \<open>recordSuccess\<close>, \<open>recordFailure\<close> in some order, whatever else the
  goroutines do between them.
\<close>

section \<open>The breaker\<close>

text \<open>\<open>openedAt\<close> is \<open>None\<close> for the zero time, which lies before every cooldown.\<close>

record breaker =
  bk_Threshold :: int
  bk_Cooldown :: int
  bk_Failed :: int
  bk_OpenedAt :: "int option"
  bk_Probing :: bool

definition new_breaker :: breaker where
  "new_breaker = \<lparr>bk_Threshold = 5, bk_Cooldown = 30000000000, bk_Failed = 0, bk_OpenedAt = None, bk_Probing = False\<rparr>"

definition cooled :: "int \<Rightarrow> breaker \<Rightarrow> bool" where
  "cooled now b \<longleftrightarrow> (case bk_OpenedAt b of None \<Rightarrow> True | Some t \<Rightarrow> t + bk_Cooldown b < now)"

definition acquireOpen :: "int \<Rightarrow> breaker \<Rightarrow> bool \<times> breaker" where
  "acquireOpen now b =
     (if bk_Failed b < bk_Threshold b then (True, b)
      else if \<not> bk_Probing b \<and> cooled now b then (True, b\<lparr>bk_Probing := True\<rparr>)
      else (False, b))"

definition recordSuccess :: "breaker \<Rightarrow> breaker" where
  "recordSuccess b = b\<lparr>bk_Failed := 0, bk_OpenedAt := None, bk_Probing := False\<rparr>"

definition recordFailure :: "int \<Rightarrow> breaker \<Rightarrow> breaker" where
  "recordFailure now b =
     (let b1 = b\<lparr>bk_Probing := False, bk_Failed := bk_Failed b + 1\<rparr>
      in if bk_Failed b1 < bk_Threshold b1 then b1 else b1\<lparr>bk_OpenedAt := Some now\<rparr>)"

section \<open>The conversion\<close>

record docling_client =
  dc_baseURL :: string
  dc_maxRetries :: nat

definition Tune :: "int \<Rightarrow> nat \<Rightarrow> docling_client \<Rightarrow> docling_client" where
  "Tune httpTimeout maxRetries c = (if 0 < maxRetries then c\<lparr>dc_maxRetries := maxRetries\<rparr> else c)"

record convert_request =
  cq_URL :: string
  cq_Filename :: string
  cq_File :: string
  cq_Options :: string

text \<open>
  What the client needs around it: the shared breaker as a lens on the state, the clock, the
  file to send, the network.  \<open>k_Waited\<close> is the backoff, whose error is the context's.
\<close>

record 's conv_env =
  k_Breaker :: "'s \<Rightarrow> breaker"
  k_SetBreaker :: "breaker \<Rightarrow> 's \<Rightarrow> 's"
  k_Now :: "('s, goerr, int) prog"
  k_ReadFile :: "string \<Rightarrow> ('s, goerr, string) prog"
  k_Do :: "convert_request \<Rightarrow> ('s, goerr, http_reply) prog"
  k_BadURL :: "string \<Rightarrow> goerr option"
  k_Rand :: "int \<Rightarrow> ('s, goerr, int) prog"
  k_Sleep :: "int \<Rightarrow> ('s, goerr, unit) prog"
  k_DecodeError :: "string option \<Rightarrow> string"

definition with_breaker :: "'s conv_env \<Rightarrow> (int \<Rightarrow> breaker \<Rightarrow> 'a \<times> breaker) \<Rightarrow> ('s, goerr, 'a) prog" where
  "with_breaker E op =
     bnd (k_Now E) (\<lambda>now. \<lambda>s.
       case op now (k_Breaker E s) of (x, b) \<Rightarrow> (Inr x, k_SetBreaker E b s))"

definition DoclingUnavailable :: "string \<Rightarrow> goerr" where
  "DoclingUnavailable detail = Plain (''docling unavailable: '' @ detail)"

definition ErrCircuitOpen :: "int \<Rightarrow> goerr" where
  "ErrCircuitOpen n = Plain (''circuit open after '' @ itoa n @ '' consecutive failures'')"

text \<open>
  Decoding into the struct: keys match whatever their case, \<open>null\<close> leaves the zero value, any
  other type than the field's is an error; of repeated keys the last one counts.
\<close>

definition same_key :: "string \<Rightarrow> string \<Rightarrow> bool" where
  "same_key k name \<longleftrightarrow> to_lower k = name"

fun md_of_document :: "(string \<times> json) list \<Rightarrow> string \<Rightarrow> string option" where
  "md_of_document [] md = Some md"
| "md_of_document ((k, v) # ms) md =
     (if same_key k ''md_content'' then
        (case v of JStr s \<Rightarrow> md_of_document ms s | JNull \<Rightarrow> md_of_document ms md | _ \<Rightarrow> None)
      else md_of_document ms md)"

fun md_of_payload :: "(string \<times> json) list \<Rightarrow> string \<Rightarrow> string option" where
  "md_of_payload [] md = Some md"
| "md_of_payload ((k, v) # ms) md =
     (if same_key k ''document'' then
        (case v of
           JObj ds \<Rightarrow> Option.bind (md_of_document ds md) (md_of_payload ms)
         | JNull \<Rightarrow> md_of_payload ms md
         | _ \<Rightarrow> None)
      else md_of_payload ms md)"

definition decode_md :: "string \<Rightarrow> string option" where
  "decode_md body =
     (case jvalue (2 * length body + 2) 10000 body of
        Some (JObj ms, rest) \<Rightarrow> md_of_payload ms []
      | Some (JNull, rest) \<Rightarrow> Some []
      | _ \<Rightarrow> None)"

definition convert_options :: "bool \<Rightarrow> string" where
  "convert_options doTableStructure =
     json_text (JObj [(''to_formats'', JArr [JStr ''md'']), (''do_ocr'', JBool True), (''do_table_structure'', JBool doTableStructure)])"

text \<open>The ladder with \<open>n\<close> attempts left.\<close>

fun convert_ladder ::
  "'s conv_env \<Rightarrow> convert_request \<Rightarrow> nat \<Rightarrow> int \<Rightarrow> goerr option \<Rightarrow> ('s, goerr, string) prog" where
  "convert_ladder E rq 0 delay lastErr = raise (the lastErr)"
| "convert_ladder E rq (Suc n) delay lastErr =
     (case k_BadURL E (cq_URL rq) of
        Some e \<Rightarrow> raise e
      | None \<Rightarrow>
          bnd (k_Do E rq) (\<lambda>reply.
          let failing = (\<lambda>e.
                bnd (with_breaker E (\<lambda>now b. ((), recordFailure now b))) (\<lambda>_.
                bnd (if n = 0 then ret ()
                     else bnd (k_Rand E (go_div delay 2)) (\<lambda>jitter. k_Sleep E (delay + jitter))) (\<lambda>_.
                convert_ladder E rq n (min max_delay (2 * delay)) (Some (DoclingUnavailable e)))))
          in (case reply of
                NoReply e \<Rightarrow> failing (''transport error: '' @ e)
              | Reply status body \<Rightarrow>
                  if status = 429 \<or> status = 503 then failing (''docling returned '' @ itoa status)
                  else if 400 \<le> status
                  then raise (DoclingUnavailable (''docling returned '' @ itoa status @ '': ''
                         @ (case body of None \<Rightarrow> [] | Some b \<Rightarrow> take 200 b)))
                  else
                    (case Option.bind body decode_md of
                       None \<Rightarrow> failing (''bad response body: '' @ k_DecodeError E body)
                     | Some md \<Rightarrow> bnd (with_breaker E (\<lambda>now b. ((), recordSuccess b))) (\<lambda>_. ret md)))))"

definition ConvertNamed ::
  "'s conv_env \<Rightarrow> docling_client \<Rightarrow> string \<Rightarrow> string \<Rightarrow> bool \<Rightarrow> ('s, goerr, string) prog" where
  "ConvertNamed E c path filename doTableStructure =
     bnd (with_breaker E acquireOpen) (\<lambda>admitted.
     if \<not> admitted then bnd (gets (\<lambda>s. bk_Failed (k_Breaker E s))) (\<lambda>n. raise (ErrCircuitOpen n))
     else
       bnd (k_ReadFile E path) (\<lambda>pdfBytes.
       convert_ladder E
         \<lparr>cq_URL = dc_baseURL c @ ''/v1/convert/file'', cq_Filename = filename, cq_File = pdfBytes,
          cq_Options = convert_options doTableStructure\<rparr>
         (Suc (dc_maxRetries c)) 500000000 None))"

section \<open>Executions of the breaker\<close>

datatype breaker_op = Acquire int | Success | Failure int

fun breaker_step :: "breaker_op \<Rightarrow> breaker \<Rightarrow> breaker" where
  "breaker_step (Acquire now) b = snd (acquireOpen now b)"
| "breaker_step Success b = recordSuccess b"
| "breaker_step (Failure now) b = recordFailure now b"

definition admits :: "int \<Rightarrow> breaker \<Rightarrow> bool" where
  "admits now b \<longleftrightarrow> fst (acquireOpen now b)"

lemmas breaker_defs = admits_def acquireOpen_def recordSuccess_def recordFailure_def cooled_def Let_def


definition open_breaker :: breaker where
  "open_breaker = new_breaker\<lparr>bk_Failed := 5, bk_OpenedAt := Some 0\<rparr>"


section \<open>A probe that never reports\<close>

text \<open>Nothing but the client itself touches the breaker.\<close>

definition own_breaker :: "'s conv_env \<Rightarrow> bool" where
  "own_breaker E \<longleftrightarrow>
     (\<forall>b s. k_Breaker E (k_SetBreaker E b s) = b)
     \<and> (\<forall>s. k_Breaker E (snd (k_Now E s)) = k_Breaker E s)
     \<and> (\<forall>p s. k_Breaker E (snd (k_ReadFile E p s)) = k_Breaker E s)
     \<and> (\<forall>rq s. k_Breaker E (snd (k_Do E rq s)) = k_Breaker E s)"

lemma with_breaker_run:
  assumes "own_breaker E" "k_Now E s = (Inr now, s1)" "op now (k_Breaker E s) = (x, b)"
  shows "\<exists>s2. with_breaker E op s = (Inr x, s2) \<and> k_Breaker E s2 = b"
proof -
  have "k_Breaker E s1 = k_Breaker E s" using assms(1,2) unfolding own_breaker_def by (metis snd_conv)
  then show ?thesis using assms unfolding own_breaker_def by (simp add: with_breaker_def bnd_def)
qed

text \<open>
  A half-open probe that ends because its file cannot be read, or because the server answers
  with a client error, never reports back: the probe stays marked as running, so from then on the
  breaker admits no conversion at any time, although nothing is in flight.
\<close>

theorem lost_probe_blocks:
  assumes "own_breaker E" "k_Now E s = (Inr now, s1)"
    and "bk_Threshold (k_Breaker E s) \<le> bk_Failed (k_Breaker E s)" "admits now (k_Breaker E s)"
    and "\<forall>v. (\<exists>e. fst (k_ReadFile E path v) = Inl e)
      \<or> (\<exists>pdf. fst (k_ReadFile E path v) = Inr pdf)
         \<and> (\<forall>rq u. \<exists>status body. fst (k_Do E rq u) = Inr (Reply status body) \<and> 400 \<le> status \<and> status \<notin> {429, 503})"
    and "ConvertNamed E c path filename tables s = (r, s')"
  shows "(\<exists>e. r = Inl e) \<and> \<not> admits later (k_Breaker E s')"
proof -
  let ?b = "k_Breaker E s" and ?p = "(k_Breaker E s)\<lparr>bk_Probing := True\<rparr>"
  have a: "acquireOpen now ?b = (True, ?p)" using assms(3,4) by (auto simp: breaker_defs split: if_splits)
  obtain s2 where s2: "with_breaker E acquireOpen s = (Inr True, s2)" "k_Breaker E s2 = ?p"
    using with_breaker_run[where op = acquireOpen, OF assms(1,2) a] by blast
  obtain f s3 where f: "k_ReadFile E path s2 = (f, s3)" by fastforce
  then have s3: "k_Breaker E s3 = ?p" using assms(1) s2(2) unfolding own_breaker_def by (metis snd_conv)
  have "(\<exists>e. r = Inl e) \<and> k_Breaker E s' = ?p"
  proof (cases f)
    case (Inl e)
    then show ?thesis using assms(6) s2 f s3 by (auto simp: ConvertNamed_def bnd_def)
  next
    case (Inr pdf)
    let ?rq = "\<lparr>cq_URL = dc_baseURL c @ ''/v1/convert/file'', cq_Filename = filename, cq_File = pdf,
          cq_Options = convert_options tables\<rparr>"
    obtain g s4 where g: "k_Do E ?rq s3 = (g, s4)" by fastforce
    then have s4: "k_Breaker E s4 = ?p" using assms(1) s3 unfolding own_breaker_def by (metis snd_conv)
    have "fst (k_ReadFile E path s2) = Inr pdf" using f Inr by simp
    then obtain status body where rep: "g = Inr (Reply status body)" "400 \<le> status" "status \<noteq> 429" "status \<noteq> 503"
      using assms(5)[rule_format, of s2] g by (metis Inl_Inr_False fst_conv insertCI)
    have run: "ConvertNamed E c path filename tables s = convert_ladder E ?rq (Suc (dc_maxRetries c)) 500000000 None s3"
      using s2(1) f Inr by (simp add: ConvertNamed_def bnd_def)
    show ?thesis
      using assms(6) g s3 s4 rep unfolding run
      by (cases "k_BadURL E (cq_URL ?rq)") (auto simp: bnd_def)
  qed
  then show ?thesis using assms(3) by (auto simp: breaker_defs)
qed

definition refusing_env :: "breaker conv_env" where
  "refusing_env = \<lparr>k_Breaker = id, k_SetBreaker = (\<lambda>b _. b), k_Now = ret 30000000001, k_ReadFile = (\<lambda>_. ret []),
     k_Do = (\<lambda>_. ret (Reply 422 (Some []))), k_BadURL = (\<lambda>_. None), k_Rand = (\<lambda>_. ret 0), k_Sleep = (\<lambda>_. ret ()),
     k_DecodeError = (\<lambda>_. [])\<rparr>"

theorem lost_probe_blocks_witness:
  "\<exists>e b. ConvertNamed refusing_env \<lparr>dc_baseURL = [], dc_maxRetries = 5\<rparr> ''p'' ''shard.pdf'' True open_breaker = (Inl e, b)
     \<and> \<not> admits 999000000000 b"
proof -
  let ?c = "\<lparr>dc_baseURL = [], dc_maxRetries = 5\<rparr>"
  obtain r b where run: "ConvertNamed refusing_env ?c ''p'' ''shard.pdf'' True open_breaker = (r, b)" by fastforce
  have own: "own_breaker refusing_env" "k_Now refusing_env open_breaker = (Inr 30000000001, open_breaker)"
    by (simp_all add: own_breaker_def refusing_env_def)
  have opened: "bk_Threshold (k_Breaker refusing_env open_breaker) \<le> bk_Failed (k_Breaker refusing_env open_breaker)"
    "admits 30000000001 (k_Breaker refusing_env open_breaker)"
    by (simp_all add: refusing_env_def open_breaker_def new_breaker_def breaker_defs)
  have "(\<exists>e. r = Inl e) \<and> \<not> admits 999000000000 (k_Breaker refusing_env b)"
    by (rule lost_probe_blocks[OF own opened _ run]) (simp add: refusing_env_def)
  then show ?thesis using run by (auto simp: refusing_env_def)
qed

end
