(* ===== verification/Http.thy ===== *)
theory Http
  imports StoreSweeps
begin

text \<open>
  What the console's handlers share (\<open>internal/api/middleware.go\<close>, \<open>documents.go\<close>): the two
  shapes of a response, requests, and the checks of identifiers.  A body is the decoded value;
  \<open>None\<close> stands for a body \<open>Decode\<close> rejects.  The rendering of a reply as JSON is left out: a
  reply carries the value the handler passes to \<open>WriteJSON\<close>.
\<close>

section \<open>Requests and responses\<close>

record request =
  rq_Method :: string
  rq_Path :: string
  rq_Authorization :: string

datatype 'a response =
    Detail int string
  | Answer int 'a

type_synonym ('x, 'a) handler = "('x world, goerr, 'a response) prog"

definition writeDetail :: "int \<Rightarrow> string \<Rightarrow> ('x, 'a) handler" where
  "writeDetail code detail = ret (Detail code detail)"

definition WriteJSON :: "int \<Rightarrow> 'a \<Rightarrow> ('x, 'a) handler" where
  "WriteJSON code v = ret (Answer code v)"

text \<open>\<open>x, err := m(); if err != nil { writeDetail(w, code, prefix+err.Error()); return }\<close>\<close>

definition or_fail ::
  "int \<Rightarrow> string \<Rightarrow> ('x world, goerr, 'b) prog \<Rightarrow> ('b \<Rightarrow> ('x, 'a) handler) \<Rightarrow> ('x, 'a) handler" where
  "or_fail code prefix m k = bnd (attempt m) (\<lambda>r.
     case r of Inl e \<Rightarrow> writeDetail code (prefix @ error_text e) | Inr x \<Rightarrow> k x)"

definition or500 :: "('x world, goerr, 'b) prog \<Rightarrow> ('b \<Rightarrow> ('x, 'a) handler) \<Rightarrow> ('x, 'a) handler" where
  "or500 m k = or_fail 500 [] m k"

text \<open>\<open>_ = m()\<close>\<close>

definition best_effort :: "('x world, goerr, 'b) prog \<Rightarrow> ('x world, goerr, unit) prog" where
  "best_effort m = bnd (attempt m) (\<lambda>_. ret ())"

text \<open>\<open>errors.Is\<close>\<close>

fun errors_is :: "goerr \<Rightarrow> goerr \<Rightarrow> bool" where
  "errors_is target (Wrap p e) = (Wrap p e = target \<or> errors_is target e)"
| "errors_is target (WrapAfter e m) = (WrapAfter e m = target \<or> errors_is target e)"
| "errors_is target (HttpError st e) = (HttpError st e = target \<or> errors_is target e)"
| "errors_is target e = (e = target)"

section \<open>Paths\<close>

definition has_suffix :: "string \<Rightarrow> string \<Rightarrow> bool" where
  "has_suffix s suf \<longleftrightarrow> length suf \<le> length s \<and> drop (length s - length suf) s = suf"

lemma has_suffix_rev: "has_suffix s suf \<longleftrightarrow> take (length suf) (rev s) = rev suf"
proof
  assume "has_suffix s suf"
  then have "take (length suf) (rev s) = rev (drop (length s - length suf) s)"
    unfolding has_suffix_def by (metis rev_drop diff_diff_cancel)
  then show "take (length suf) (rev s) = rev suf" using \<open>has_suffix s suf\<close> by (simp add: has_suffix_def)
next
  assume eq: "take (length suf) (rev s) = rev suf"
  then have "length suf \<le> length s" by (metis length_rev length_take min.cobounded1)
  moreover have "drop (length s - length suf) s = suf" using eq by (metis rev_rev_ident take_rev)
  ultimately show "has_suffix s suf" by (simp add: has_suffix_def)
qed

lemma has_suffix_append [simp]: "has_suffix (s @ suf) suf"
  by (simp add: has_suffix_def)

section \<open>Identifiers\<close>

definition isHexDigit :: "char \<Rightarrow> bool" where
  "isHexDigit b \<longleftrightarrow> (48 \<le> byte b \<and> byte b \<le> 57) \<or> (97 \<le> byte b \<and> byte b \<le> 102) \<or> (65 \<le> byte b \<and> byte b \<le> 70)"

text \<open>
  The runes of a string with the byte offset each starts at, as \<open>range\<close> gives them, and the
  conversion \<open>byte(c)\<close>, which drops the high bits of a rune.
\<close>

fun with_offset :: "nat \<Rightarrow> (nat \<times> nat) list \<Rightarrow> (nat \<times> nat) list" where
  "with_offset i [] = []"
| "with_offset i ((r, n) # rs) = (i, r) # with_offset (i + n) rs"

definition low_byte :: "nat \<Rightarrow> char" where
  "low_byte r = char_of (r mod 256)"

definition uuid_rune :: "nat \<times> nat \<Rightarrow> bool" where
  "uuid_rune p = (let (i, c) = p in if i \<in> {8, 13, 18, 23} then c = 45 else isHexDigit (low_byte c))"

definition isUUID :: "string \<Rightarrow> bool" where
  "isUUID s \<longleftrightarrow> length s = 36 \<and> list_all uuid_rune (with_offset 0 (rune_steps s))"

text \<open>On ASCII text the runes are the bytes.\<close>

lemma rune_steps_ascii: "\<forall>c \<in> set s. byte c < 128 \<Longrightarrow> rune_steps s = map (\<lambda>c. (byte c, 1)) s"
  by (induction s) (simp_all add: rune_steps.simps decode_rune.simps(2))

lemma with_offset_ascii: "with_offset i (map (\<lambda>c. (byte c, 1)) s) = enumerate i (map byte s)"
  by (induction s arbitrary: i) simp_all

lemma isUUID_ascii:
  "\<forall>c \<in> set s. byte c < 128 \<Longrightarrow>
   isUUID s \<longleftrightarrow> length s = 36 \<and> list_all uuid_rune (enumerate 0 (map byte s))"
  by (simp only: isUUID_def rune_steps_ascii with_offset_ascii)

section \<open>Reasoning about handlers\<close>

lemma or500_Inl: "m w = (Inl e, w1) \<Longrightarrow> or500 m k w = (Inr (Detail 500 (error_text e)), w1)"
  by (simp add: or500_def or_fail_def bnd_def attempt_def writeDetail_def ret_def)

lemma or500_Inr: "m w = (Inr x, w1) \<Longrightarrow> or500 m k w = k x w1"
  by (simp add: or500_def or_fail_def bnd_def attempt_def)

lemma or_fail_Inl: "m w = (Inl e, w1) \<Longrightarrow> or_fail c p m k w = (Inr (Detail c (p @ error_text e)), w1)"
  by (simp add: or_fail_def bnd_def attempt_def writeDetail_def ret_def)

lemma or_fail_Inr: "m w = (Inr x, w1) \<Longrightarrow> or_fail c p m k w = k x w1"
  by (simp add: or_fail_def bnd_def attempt_def)

text \<open>A reply other than a failure of \<open>m\<close> comes from what follows it.\<close>

lemma or_fail_Answer:
  assumes "or_fail c p m k w = (Inr (Answer code v), w')"
  obtains x w1 where "m w = (Inr x, w1)" "k x w1 = (Inr (Answer code v), w')"
proof (cases "m w")
  case (Pair r w1)
  show thesis
  proof (cases r)
    case (Inl e)
    then show thesis using assms Pair by (simp add: or_fail_Inl)
  next
    case (Inr x)
    then show thesis using assms Pair that by (simp add: or_fail_Inr)
  qed
qed

lemma writeDetail_no_answer [simp]: "writeDetail code msg w \<noteq> (Inr (Answer c v), w')"
  by (simp add: writeDetail_def ret_def)

lemma best_effort_run: "best_effort m w = (Inr (), snd (m w))"
  by (simp add: best_effort_def bnd_def attempt_def ret_def split: prod.splits)

end
