(* ===== verification/Keys.thy ===== *)
theory Keys
  imports Http Hashes
begin

text \<open>
  API keys (\<open>internal/store/keys.go\<close>) and their three endpoints (\<open>internal/api/keys.go\<close>).  The
  id the database generates and the 32 random bytes of a new key are arguments.
\<close>

section \<open>The store\<close>

definition HashKey :: "string \<Rightarrow> string" where
  "HashKey raw = hex (sha256 (bytes_of raw))"

definition ErrKeyInvalid :: goerr where "ErrKeyInvalid = Plain ''invalid key''"
definition ErrKeyExpired :: goerr where "ErrKeyExpired = Plain ''key expired''"
definition ErrKeyNoScope :: goerr where "ErrKeyNoScope = Plain ''key lacks required scope''"

definition ValidScopes :: "string set" where
  "ValidScopes = {''search'', ''ingest'', ''admin''}"

definition new_key :: "string \<Rightarrow> string \<Rightarrow> string \<Rightarrow> string list \<Rightarrow> string list \<Rightarrow> int option \<Rightarrow> int \<Rightarrow> ApiKey" where
  "new_key uuid name keyHash scopes cols expiresAt now =
     \<lparr>ak_ID = uuid, ak_Name = Some name, ak_KeyHash = keyHash, ak_Scopes = scopes, ak_Collections = cols,
      ak_ExpiresAt = expiresAt, ak_RevokedAt = None, ak_LastUsedAt = None, ak_CreatedAt = now\<rparr>"

definition insert_key :: "ApiKey \<Rightarrow> ApiKey stmt" where
  "insert_key k now t =
     (if \<exists>r \<in> set (api_keys t). ak_ID r = ak_ID k then (Inl (PgError ''23505'' ''api_keys_pkey''), t)
      else if \<exists>r \<in> set (api_keys t). ak_KeyHash r = ak_KeyHash k
      then (Inl (PgError ''23505'' ''api_keys_key_hash_key''), t)
      else (Inr k, t\<lparr>api_keys := api_keys t @ [k]\<rparr>))"

definition CreateKey ::
  "string \<Rightarrow> string \<Rightarrow> string \<Rightarrow> string list \<Rightarrow> string list \<Rightarrow> int option \<Rightarrow> ('x world, goerr, ApiKey) prog" where
  "CreateKey uuid name keyHash scopes cols expiresAt =
     pool_stmt (\<lambda>now. insert_key (new_key uuid name keyHash scopes cols expiresAt now) now)"

text \<open>\<open>ORDER BY last_used_at DESC NULLS LAST\<close>\<close>

definition ListKeys :: "('x world, goerr, ApiKey list) prog" where
  "ListKeys = pool_stmt (query (\<lambda>t.
     sort_key (\<lambda>k. - the (ak_LastUsedAt k)) (filter (\<lambda>k. ak_LastUsedAt k \<noteq> None) (api_keys t))
     @ filter (\<lambda>k. ak_LastUsedAt k = None) (api_keys t)))"

definition GetKey :: "string \<Rightarrow> ('x world, goerr, ApiKey) prog" where
  "GetKey keyID =
     bnd (pool_stmt (query (\<lambda>t. find (\<lambda>k. ak_ID k = keyID) (api_keys t)))) (\<lambda>o'.
     case o' of None \<Rightarrow> raise ErrKeyInvalid | Some k \<Rightarrow> ret k)"

definition update_keys :: "(ApiKey \<Rightarrow> bool) \<Rightarrow> (ApiKey \<Rightarrow> ApiKey) \<Rightarrow> tables \<Rightarrow> tables" where
  "update_keys p f t = t\<lparr>api_keys := map (\<lambda>k. if p k then f k else k) (api_keys t)\<rparr>"

definition RevokeKey :: "string \<Rightarrow> ('x world, goerr, ApiKey) prog" where
  "RevokeKey keyID =
     bnd (pool_stmt (exec (\<lambda>now. update_keys (\<lambda>k. ak_ID k = keyID \<and> ak_RevokedAt k = None) (\<lambda>k. k\<lparr>ak_RevokedAt := Some now\<rparr>)))) (\<lambda>_.
     GetKey keyID)"

definition AuthenticateKey :: "string \<Rightarrow> ('x world, goerr, ApiKey) prog" where
  "AuthenticateKey rawKey =
     (let hash = HashKey rawKey
      in if length hash \<noteq> 64 then raise ErrKeyInvalid
         else bnd (pool_stmt (query (\<lambda>t. find (\<lambda>k. ak_KeyHash k = hash) (api_keys t)))) (\<lambda>o'.
         case o' of
           None \<Rightarrow> raise ErrKeyInvalid
         | Some k \<Rightarrow>
             if ak_RevokedAt k \<noteq> None then raise ErrKeyInvalid
             else bnd (gets clock) (\<lambda>now.
                  if (case ak_ExpiresAt k of None \<Rightarrow> False | Some e \<Rightarrow> e < now) then raise ErrKeyExpired
                  else ret k)))"

definition HasScope :: "ApiKey \<Rightarrow> string \<Rightarrow> bool" where
  "HasScope k scope \<longleftrightarrow> scope \<in> set (ak_Scopes k)"

definition RequireScope :: "ApiKey \<Rightarrow> string \<Rightarrow> goerr option" where
  "RequireScope k scope = (if \<not> HasScope k scope then Some (WrapAfter ErrKeyNoScope ('': '' @ scope)) else None)"

definition CollectionAllowed :: "ApiKey \<Rightarrow> string \<Rightarrow> bool" where
  "CollectionAllowed k collectionID \<longleftrightarrow>
     collectionID = [] \<or> ak_Collections k = [] \<or> collectionID \<in> set (ak_Collections k)"

definition TouchLastUsed :: "string \<Rightarrow> ('x world, goerr, unit) prog" where
  "TouchLastUsed keyID =
     best_effort (pool_stmt (exec (\<lambda>now. update_keys (\<lambda>k. ak_ID k = keyID) (\<lambda>k. k\<lparr>ak_LastUsedAt := Some now\<rparr>))))"

definition RecordUsage :: "string \<Rightarrow> string \<Rightarrow> string \<Rightarrow> ('x world, goerr, unit) prog" where
  "RecordUsage keyID surface action = pool_stmt (\<lambda>now t.
     if \<forall>k \<in> set (api_keys t). ak_ID k \<noteq> keyID then (Inl (PgError ''23503'' ''key_usage_api_key_id_fkey''), t)
     else (Inr (), t\<lparr>key_usage := key_usage t @
            [\<lparr>ku_KeyID = keyID, ku_Surface = surface, ku_Action = action, ku_CreatedAt = now\<rparr>]\<rparr>))"

record UsageSummaryRow =
  us_KeyID :: string
  us_Name :: "string option"
  us_Calls :: int
  us_LastUsedAt :: "int option"

definition usage_row :: "KeyUsage list \<Rightarrow> ApiKey \<Rightarrow> UsageSummaryRow" where
  "usage_row us k =
     (let mine = filter (\<lambda>u. ku_KeyID u = ak_ID k) us
      in \<lparr>us_KeyID = ak_ID k, us_Name = ak_Name k, us_Calls = int (length mine),
          us_LastUsedAt = Some (Max (ku_CreatedAt ` set mine))\<rparr>)"

definition UsageSummary :: "int \<Rightarrow> ('x world, goerr, UsageSummaryRow list) prog" where
  "UsageSummary since = pool_stmt (query (\<lambda>t.
     let us = filter (\<lambda>u. since \<le> ku_CreatedAt u) (key_usage t)
     in sort_key (\<lambda>r. - us_Calls r)
          (map (usage_row us) (filter (\<lambda>k. \<exists>u \<in> set us. ku_KeyID u = ak_ID k) (api_keys t)))))"

section \<open>The endpoints\<close>

record keyCreate =
  kc_Name :: string
  kc_Scopes :: "string list"
  kc_Collections :: "string list"
  kc_ExpiresIn :: string

record keyOut =
  ko_ID :: string
  ko_Name :: "string option"
  ko_Scopes :: "string list"
  ko_Collections :: "string list"
  ko_LastUsedAt :: "int option"
  ko_ExpiresAt :: "int option"
  ko_RevokedAt :: "int option"

definition toKeyOut :: "ApiKey \<Rightarrow> keyOut" where
  "toKeyOut k = \<lparr>ko_ID = ak_ID k, ko_Name = ak_Name k, ko_Scopes = ak_Scopes k, ko_Collections = ak_Collections k,
     ko_LastUsedAt = ak_LastUsedAt k, ko_ExpiresAt = ak_ExpiresAt k, ko_RevokedAt = ak_RevokedAt k\<rparr>"

definition expiryDays :: "(string \<times> int) list" where
  "expiryDays = [(''1d'', 1), (''7d'', 7), (''30d'', 30), (''90d'', 90)]"

definition day :: int where
  "day = 24 * 3600 * 1000000000"

definition joinScopes :: "string list \<Rightarrow> string" where
  "joinScopes xs = join '', '' xs"

definition quoteList :: "string list \<Rightarrow> string" where
  "quoteList xs = ''['' @ join '', '' (map (\<lambda>x. [CHR 0x27] @ x @ [CHR 0x27]) xs) @ '']''"

definition deref :: "string option \<Rightarrow> string" where
  "deref s = (case s of None \<Rightarrow> [] | Some x \<Rightarrow> x)"

text \<open>\<open>base64.RawURLEncoding\<close>\<close>

definition b64_char :: "nat \<Rightarrow> char" where
  "b64_char n = (if n < 26 then char_of (65 + n) else if n < 52 then char_of (97 + (n - 26))
     else if n < 62 then char_of (48 + (n - 52)) else if n = 62 then CHR ''-'' else CHR ''_'')"

fun b64url :: "nat list \<Rightarrow> string" where
  "b64url [] = []"
| "b64url [a] = map b64_char [a div 4, a mod 4 * 16]"
| "b64url [a, b] = map b64_char [a div 4, a mod 4 * 16 + b div 16, b mod 16 * 4]"
| "b64url (a # b # c # bs) =
     map b64_char [a div 4, a mod 4 * 16 + b div 16, b mod 16 * 4 + c div 64, c mod 64] @ b64url bs"

definition raw_key :: "nat list \<Rightarrow> string" where
  "raw_key bytes = ''ragk_'' @ b64url bytes"

text \<open>The checks of a new key: \<open>Inl\<close> is the 422 detail, \<open>Inr\<close> the days until it expires.\<close>

definition checked_key :: "keyCreate \<Rightarrow> string + int option" where
  "checked_key b =
     (let invalid = filter (\<lambda>s. s \<notin> ValidScopes) (kc_Scopes b);
          expires = (if kc_ExpiresIn b = [] then ''never'' else kc_ExpiresIn b)
      in if kc_Name b = [] \<or> 200 < length (kc_Name b) then Inl ''name must be 1-200 characters''
         else if kc_Scopes b = [] then Inl ''scopes must be a non-empty list''
         else if invalid \<noteq> [] then Inl (''unknown scopes: '' @ quoteList invalid)
         else if expires = ''never'' then Inr None
         else case map_of expiryDays expires of
                None \<Rightarrow> Inl ''expires_in must be one of 1d|7d|30d|90d|never''
              | Some d \<Rightarrow> Inr (Some d))"

definition created_event :: "keyCreate \<Rightarrow> ApiKey \<Rightarrow> ('x world, goerr, unit) prog" where
  "created_event b k =
     WriteEventPool ''info'' ''keys''
       (''api key '' @ [CHR 0x27] @ kc_Name b @ [CHR 0x27] @ '' created (scopes: '' @ joinScopes (kc_Scopes b) @ '')'')
       None None (Some ''created'') None
       [(''key_id'', JStr (ak_ID k)), (''name'', JStr (kc_Name b)), (''scopes'', JArr (map JStr (kc_Scopes b)))]"

text \<open>The reply carries the raw key, once.\<close>

definition handleCreateKey :: "string \<Rightarrow> nat list option \<Rightarrow> keyCreate option \<Rightarrow> ('x, keyOut \<times> string) handler" where
  "handleCreateKey uuid random body =
     (case body of
        None \<Rightarrow> writeDetail 422 ''invalid JSON body''
      | Some b \<Rightarrow>
          (case checked_key b of
             Inl msg \<Rightarrow> writeDetail 422 msg
           | Inr days \<Rightarrow>
               bnd (gets clock) (\<lambda>now.
               case random of
                 None \<Rightarrow> writeDetail 500 ''keygen failed''
               | Some bytes \<Rightarrow>
                   or500 (CreateKey uuid (kc_Name b) (HashKey (raw_key bytes)) (kc_Scopes b) (kc_Collections b)
                            (map_option (\<lambda>d. now + d * day) days)) (\<lambda>k.
                   bnd (best_effort (created_event b k)) (\<lambda>_.
                   WriteJSON 201 (toKeyOut k, raw_key bytes))))))"

definition handleListKeys :: "('x, keyOut list) handler" where
  "handleListKeys = or500 ListKeys (\<lambda>ks. WriteJSON 200 (map toKeyOut ks))"

definition revoked_event :: "ApiKey \<Rightarrow> ('x world, goerr, unit) prog" where
  "revoked_event k =
     WriteEventPool ''info'' ''keys'' (''api key '' @ [CHR 0x27] @ deref (ak_Name k) @ [CHR 0x27] @ '' revoked'')
       None None (Some ''revoked'') None [(''key_id'', JStr (ak_ID k)), (''name'', JStr (deref (ak_Name k)))]"

definition minute :: int where
  "minute = 60 * 1000000000"

definition handleRevokeKey :: "string \<Rightarrow> ('x, keyOut) handler" where
  "handleRevokeKey i =
     (if i = [] \<or> \<not> isUUID i then writeDetail 404 ''key not found''
      else bnd (attempt (RevokeKey i)) (\<lambda>r.
      case r of
        Inl e \<Rightarrow> writeDetail 404 ''key not found''
      | Inr k \<Rightarrow>
          bnd (gets clock) (\<lambda>now.
          bnd (if (case ak_RevokedAt k of None \<Rightarrow> False | Some t \<Rightarrow> now - minute < t)
               then best_effort (revoked_event k) else ret ()) (\<lambda>_.
          WriteJSON 200 (toKeyOut k)))))"

text \<open>The usage readout (\<open>internal/api/usage.go\<close>); \<open>midnight\<close> is the start of the local day.\<close>

definition periodCutoff :: "int \<Rightarrow> string \<Rightarrow> int \<Rightarrow> int option" where
  "periodCutoff midnight period now =
     (if period = ''today'' then Some midnight
      else if period = ''24h'' then Some (now - day)
      else if period = ''7d'' then Some (now - 7 * day)
      else if period = ''30d'' then Some (now - 30 * day)
      else None)"

definition handleUsageSummary :: "int \<Rightarrow> string \<Rightarrow> ('x, string \<times> int \<times> UsageSummaryRow list) handler" where
  "handleUsageSummary midnight asked =
     (let period = (if asked = [] then ''24h'' else asked)
      in bnd (gets clock) (\<lambda>now.
         case periodCutoff midnight period now of
           None \<Rightarrow> writeDetail 422 ''period must be one of today|24h|7d|30d''
         | Some cutoff \<Rightarrow>
             or500 (UsageSummary cutoff) (\<lambda>rows. WriteJSON 200 (period, sum_list (map us_Calls rows), rows))))"

section \<open>What a key grants\<close>

lemma length_hex: "length (hex bs) = 2 * length bs"
  by (induction bs) (simp_all add: hex_def)

lemma length_HashKey [simp]: "length (HashKey raw) = 64"
  by (simp add: HashKey_def length_hex sha256_def be32_def Let_def split: prod.splits)

text \<open>A key is valid for a token at a time.\<close>

definition valid_key :: "string \<Rightarrow> int \<Rightarrow> ApiKey \<Rightarrow> bool" where
  "valid_key raw now k \<longleftrightarrow>
     ak_KeyHash k = HashKey raw \<and> ak_RevokedAt k = None \<and> (\<forall>e. ak_ExpiresAt k = Some e \<longrightarrow> now \<le> e)"

lemma AuthenticateKey_db: "db (snd (AuthenticateKey raw w)) = db w \<and> clock (snd (AuthenticateKey raw w)) = clock w"
  by (simp add: AuthenticateKey_def bnd_def pool_stmt_def next_fault_def run_stmt_def raise_def gets_def ret_def
      split: option.splits)

lemma AuthenticateKey_Inr:
  assumes "AuthenticateKey raw w = (Inr k, w1)"
  shows "k \<in> set (api_keys (db w))" "valid_key raw (clock w) k" "w1 = w\<lparr>nstmt := Suc (nstmt w)\<rparr>"
  using assms
  by (auto simp: AuthenticateKey_def bnd_def pool_stmt_def next_fault_def run_stmt_def raise_def gets_def ret_def
      valid_key_def find_Some_iff split: option.splits if_splits)

text \<open>The endpoint only creates keys with known scopes, and the row never holds the raw key.\<close>

lemma checked_key_Inr:
  "checked_key b = Inr days \<Longrightarrow>
   kc_Name b \<noteq> [] \<and> length (kc_Name b) \<le> 200 \<and> kc_Scopes b \<noteq> [] \<and> set (kc_Scopes b) \<subseteq> ValidScopes"
  by (auto simp: checked_key_def Let_def filter_empty_conv split: if_splits)

end
