(* ===== verification/Access.thy ===== *)
theory Access
  imports Keys
begin

text \<open>
  Who may call what: the scope table and the authentication middleware
  (\<open>internal/api/middleware.go\<close>) against the routes the server registers
  (\<open>internal/api/server.go\<close>).
\<close>

section \<open>The scope of a path\<close>

abbreviation no_slash :: "string \<Rightarrow> bool" where
  "no_slash s \<equiv> CHR ''/'' \<notin> set s"

text \<open>The part of \<open>path\<close> behind \<open>pre\<close>, when it has it.\<close>

definition behind :: "string \<Rightarrow> string \<Rightarrow> string option" where
  "behind pre path = (if has_prefix path pre then Some (drop (length pre) path) else None)"

definition one_segment :: "string \<Rightarrow> bool" where
  "one_segment rest \<longleftrightarrow> rest \<noteq> [] \<and> no_slash rest"

definition matchModelID :: "string \<Rightarrow> bool" where
  "matchModelID path =
     (case behind ''/v1/models/'' path of None \<Rightarrow> False
      | Some rest \<Rightarrow> one_segment rest \<and> rest \<noteq> ''test'')"

definition matchRerankModelID :: "string \<Rightarrow> bool" where
  "matchRerankModelID path =
     (case behind ''/v1/rerank-models/'' path of None \<Rightarrow> False
      | Some rest \<Rightarrow> one_segment rest \<and> rest \<noteq> ''test'')"

text \<open>\<open>{id}\<close> followed by \<open>suf\<close> behind the prefix, the id not empty.\<close>

definition ends_in :: "string \<Rightarrow> string \<Rightarrow> bool" where
  "ends_in rest suf \<longleftrightarrow> has_suffix rest suf \<and> length suf < length rest"

definition matchCollectionSub :: "string \<Rightarrow> string \<Rightarrow> bool" where
  "matchCollectionSub path suf =
     (case behind ''/v1/collections/'' path of None \<Rightarrow> False | Some rest \<Rightarrow> ends_in rest suf)"

definition matchCollectionModelBind :: "string \<Rightarrow> bool" where
  "matchCollectionModelBind path \<longleftrightarrow>
     has_prefix path ''/v1/collections/'' \<and> has_suffix path ''/model''
     \<and> length ''/v1/collections/'' + length ''/model'' < length path"

definition matchCollectionRerankerBind :: "string \<Rightarrow> bool" where
  "matchCollectionRerankerBind path \<longleftrightarrow>
     has_prefix path ''/v1/collections/'' \<and> has_suffix path ''/reranker''
     \<and> length ''/v1/collections/'' + length ''/reranker'' < length path"

definition matchChunkID :: "string \<Rightarrow> bool" where
  "matchChunkID path =
     (case behind ''/v1/chunks/'' path of None \<Rightarrow> False | Some rest \<Rightarrow> one_segment rest)"

definition matchDocSub :: "string \<Rightarrow> string \<Rightarrow> bool" where
  "matchDocSub path suf =
     (case behind ''/v1/documents/'' path of None \<Rightarrow> False
      | Some rest \<Rightarrow> if suf = [] then one_segment rest else ends_in rest suf)"

definition matchKeyRevoke :: "string \<Rightarrow> bool" where
  "matchKeyRevoke path \<longleftrightarrow>
     has_prefix path ''/v1/keys/'' \<and> has_suffix path ''/revoke''
     \<and> length ''/v1/keys/'' + length ''/revoke'' < length path"

text \<open>The switch, in its order; \<open>[]\<close> means that no key is asked for.\<close>

definition routeScope :: "string \<Rightarrow> string \<Rightarrow> string" where
  "routeScope verb path =
     (if verb = ''POST'' \<and> path = ''/v1/documents/presign'' then ''ingest''
      else if path = ''/v1/documents/fetch-url'' \<and> verb = ''POST'' then ''ingest''
      else if matchDocSub path ''/commit'' then ''ingest''
      else if matchDocSub path ''/retry'' then ''admin''
      else if verb = ''DELETE'' \<and> matchDocSub path [] then ''admin''
      else if path = ''/v1/documents/batch'' \<and> verb = ''POST'' then ''admin''
      else if matchDocSub path ''/shards'' \<or> matchDocSub path [] \<or> path = ''/v1/documents'' \<and> verb = ''GET'' then ''search''
      else if path = ''/v1/connectors/opds/browse'' \<and> verb = ''POST''
            \<or> path = ''/v1/connectors/opds/sync'' \<and> verb = ''POST'' then ''ingest''
      else if path = ''/v1/collections'' \<and> verb = ''GET''
            \<or> has_prefix path ''/v1/collections/'' \<and> has_suffix path ''/stats'' then ''search''
      else if path = ''/v1/collections'' \<and> verb = ''POST'' \<or> matchCollectionModelBind path
            \<or> matchCollectionRerankerBind path then ''admin''
      else if matchCollectionSub path ''/chunks'' then ''search''
      else if path = ''/v1/models'' \<and> (verb = ''GET'' \<or> verb = ''POST'')
            \<or> path = ''/v1/models/test'' \<and> verb = ''POST'' \<or> matchModelID path then ''admin''
      else if path = ''/v1/rerank-models'' \<and> (verb = ''GET'' \<or> verb = ''POST'')
            \<or> path = ''/v1/rerank-models/test'' \<and> verb = ''POST'' \<or> matchRerankModelID path then ''admin''
      else if matchDocSub path ''/chunks'' \<or> matchChunkID path then ''search''
      else if path = ''/v1/search'' then ''search''
      else if path = ''/v1/system/settings'' \<and> verb = ''GET'' then ''search''
      else if path = ''/v1/keys'' then ''admin''
      else if matchKeyRevoke path then ''admin''
      else if path = ''/v1/usage/summary'' then ''admin''
      else [])"

section \<open>The routes\<close>

text \<open>A pattern is the path itself, or what stands before and behind its one parameter.\<close>

datatype route_pattern = Fixed string | Param string string

text \<open>\<open>Router\<close>, in its order; the mounted MCP handler authenticates by itself.\<close>

definition Router :: "(string \<times> route_pattern) list" where
  "Router =
     [(''POST'', Fixed ''/v1/documents/presign''),
      (''POST'', Param ''/v1/documents/'' ''/commit''),
      (''POST'', Fixed ''/v1/documents/fetch-url''),
      (''GET'', Fixed ''/v1/documents''),
      (''GET'', Param ''/v1/documents/'' []),
      (''DELETE'', Param ''/v1/documents/'' []),
      (''GET'', Param ''/v1/documents/'' ''/shards''),
      (''GET'', Param ''/v1/documents/'' ''/chunks''),
      (''GET'', Param ''/v1/chunks/'' []),
      (''POST'', Param ''/v1/documents/'' ''/retry''),
      (''POST'', Fixed ''/v1/documents/batch''),
      (''POST'', Fixed ''/v1/connectors/opds/browse''),
      (''POST'', Fixed ''/v1/connectors/opds/sync''),
      (''GET'', Fixed ''/v1/collections''),
      (''POST'', Fixed ''/v1/collections''),
      (''GET'', Param ''/v1/collections/'' ''/stats''),
      (''GET'', Param ''/v1/collections/'' ''/chunks''),
      (''POST'', Param ''/v1/collections/'' ''/model''),
      (''POST'', Param ''/v1/collections/'' ''/reranker''),
      (''GET'', Fixed ''/v1/models''),
      (''POST'', Fixed ''/v1/models''),
      (''POST'', Fixed ''/v1/models/test''),
      (''POST'', Param ''/v1/models/'' []),
      (''DELETE'', Param ''/v1/models/'' []),
      (''GET'', Fixed ''/v1/rerank-models''),
      (''POST'', Fixed ''/v1/rerank-models''),
      (''POST'', Fixed ''/v1/rerank-models/test''),
      (''POST'', Param ''/v1/rerank-models/'' []),
      (''DELETE'', Param ''/v1/rerank-models/'' []),
      (''POST'', Fixed ''/v1/search''),
      (''POST'', Fixed ''/v1/keys''),
      (''GET'', Fixed ''/v1/keys''),
      (''POST'', Param ''/v1/keys/'' ''/revoke''),
      (''GET'', Fixed ''/v1/usage/summary''),
      (''GET'', Fixed ''/v1/events''),
      (''GET'', Fixed ''/v1/events/stream''),
      (''GET'', Fixed ''/v1/system/health''),
      (''GET'', Fixed ''/v1/system/queues''),
      (''GET'', Fixed ''/v1/system/pipeline''),
      (''GET'', Fixed ''/v1/system/metrics''),
      (''GET'', Fixed ''/v1/system/settings''),
      (''GET'', Fixed ''/openapi.json'')]"

fun path_of :: "route_pattern \<Rightarrow> string \<Rightarrow> string" where
  "path_of (Fixed p) arg = p"
| "path_of (Param pre rest) arg = pre @ arg @ rest"

section \<open>The middleware\<close>

text \<open>
  \<open>strings.EqualFold(auth[:min(7, len(auth))], "bearer ")\<close>: no letter of the literal folds to a
  rune outside ASCII.
\<close>

definition lower_byte :: "char \<Rightarrow> nat" where
  "lower_byte c = (if 65 \<le> byte c \<and> byte c \<le> 90 then byte c + 32 else byte c)"

definition bearer_auth :: "string \<Rightarrow> bool" where
  "bearer_auth auth \<longleftrightarrow> auth \<noteq> [] \<and> map lower_byte (take 7 auth) = map lower_byte ''bearer ''"

definition bearer_token :: "string \<Rightarrow> string" where
  "bearer_token auth = trim_space (drop 7 auth)"

definition authMiddleware :: "(ApiKey option \<Rightarrow> ('x, 'a) handler) \<Rightarrow> request \<Rightarrow> ('x, 'a) handler" where
  "authMiddleware inner r =
     (let scope = routeScope (rq_Method r) (rq_Path r)
      in if scope = [] then inner None
         else if \<not> bearer_auth (rq_Authorization r) then writeDetail 401 ''missing bearer key''
         else bnd (attempt (AuthenticateKey (bearer_token (rq_Authorization r)))) (\<lambda>res.
         case res of
           Inl e \<Rightarrow> writeDetail 401 (if errors_is ErrKeyExpired e then ''key expired'' else ''invalid key'')
         | Inr key \<Rightarrow>
             (case RequireScope key scope of
                Some e \<Rightarrow> writeDetail 403 (error_text e)
              | None \<Rightarrow>
                  bnd (TouchLastUsed (ak_ID key)) (\<lambda>_.
                  bnd (best_effort (RecordUsage (ak_ID key) ''api'' (rq_Method r @ '' '' @ rq_Path r))) (\<lambda>_.
                  inner (Some key))))))"

section \<open>A guarded request\<close>

text \<open>Bookkeeping about keys changes nothing else.\<close>

definition keys_only :: "'x world \<Rightarrow> 'x world \<Rightarrow> bool" where
  "keys_only w w1 \<longleftrightarrow>
     db w1 = (db w)\<lparr>api_keys := api_keys (db w1), key_usage := key_usage (db w1)\<rparr>
     \<and> ext w1 = ext w \<and> runner_log w1 = runner_log w"

lemma keys_only_trans: "keys_only w w1 \<Longrightarrow> keys_only w1 w2 \<Longrightarrow> keys_only w w2"
  unfolding keys_only_def by (cases "db w2", cases "db w1", cases "db w") auto

lemma keys_only_pool:
  assumes "\<And>now t x u. st now t = (Inr x, u) \<Longrightarrow> u = t\<lparr>api_keys := api_keys u, key_usage := key_usage u\<rparr>"
  shows "keys_only w (snd (best_effort (pool_stmt st) w))"
  using assms
  by (auto simp: best_effort_run pool_stmt_def bnd_def next_fault_def run_stmt_def keys_only_def
      split: option.splits prod.splits sum.splits)

lemma keys_only_touch: "keys_only w (snd (TouchLastUsed i w))"
  unfolding TouchLastUsed_def by (rule keys_only_pool) (auto simp: update_keys_def)

lemma keys_only_usage: "keys_only w (snd (best_effort (RecordUsage i s a) w))"
  unfolding RecordUsage_def by (rule keys_only_pool) (auto split: if_splits)


text \<open>A world whose only key may search, and a request to list the keys with it.\<close>

definition sample_reader :: ApiKey where
  "sample_reader = new_key ''k'' ''reader'' (HashKey ''t'') [''search''] [] None 0"

definition sample_keys :: "unit world" where
  "sample_keys = \<lparr>db = empty_tables\<lparr>api_keys := [sample_reader]\<rparr>, runner_log = id, aborted = False,
     faults = \<lambda>_. None, nstmt = 0, clock = 0, rollups = [], ext = ()\<rparr>"

definition sample_list :: request where
  "sample_list = \<lparr>rq_Method = ''GET'', rq_Path = ''/v1/keys'', rq_Authorization = ''Bearer t''\<rparr>"


section \<open>Every route is in the table\<close>

text \<open>The routes that answer without a key: what the console's proxy polls.\<close>

definition public_paths :: "string list" where
  "public_paths = [''/v1/events'', ''/v1/events/stream'', ''/v1/system/health'', ''/v1/system/queues'',
     ''/v1/system/pipeline'', ''/v1/system/metrics'', ''/openapi.json'']"

lemma has_prefix_append [simp]: "has_prefix (p @ s) p"
  by (simp add: has_prefix_def)

lemma ends_in_append: "arg \<noteq> [] \<Longrightarrow> ends_in (arg @ suf) suf"
  by (simp add: ends_in_def)

lemma slash_differs:
  "CHR ''/'' \<notin> set ys \<Longrightarrow> arg @ CHR ''/'' # xs \<noteq> ys" "CHR ''/'' \<notin> set ys \<Longrightarrow> ys \<noteq> arg @ CHR ''/'' # xs"
  by auto

lemma ends_in_other:
  "take (length suf) (rev (arg @ xs)) \<noteq> rev suf \<Longrightarrow> \<not> ends_in (arg @ xs) suf"
  by (simp add: ends_in_def has_suffix_rev)

lemma one_segment_slash [simp]: "\<not> one_segment (arg @ CHR ''/'' # xs)"
  by (simp add: one_segment_def)

lemma ends_in_segment: "no_slash arg \<Longrightarrow> CHR ''/'' \<in> set suf \<Longrightarrow> \<not> ends_in arg suf"
  unfolding ends_in_def has_suffix_def by (metis in_set_dropD)

text \<open>The scope of each route with a parameter, whatever the parameter is.\<close>

named_theorems scope_simps

lemmas [scope_simps] = routeScope_def matchModelID_def matchRerankModelID_def matchCollectionSub_def
  matchCollectionModelBind_def matchCollectionRerankerBind_def matchChunkID_def matchDocSub_def matchKeyRevoke_def
  behind_def has_prefix_def

lemma document_scopes:
  assumes "one_segment arg"
  shows "routeScope ''POST'' (''/v1/documents/'' @ arg @ ''/commit'') = ''ingest''"
    and "routeScope ''GET'' (''/v1/documents/'' @ arg) = ''search''"
    and "routeScope ''DELETE'' (''/v1/documents/'' @ arg) = ''admin''"
    and "routeScope ''GET'' (''/v1/documents/'' @ arg @ ''/shards'') = ''search''"
    and "routeScope ''GET'' (''/v1/documents/'' @ arg @ ''/chunks'') = ''search''"
    and "routeScope ''POST'' (''/v1/documents/'' @ arg @ ''/retry'') = ''admin''"
  using assms ends_in_append[of arg "''/commit''"] ends_in_append[of arg "''/shards''"] ends_in_append[of arg "''/chunks''"]
    ends_in_append[of arg "''/retry''"]
  by (simp_all add: scope_simps slash_differs ends_in_segment ends_in_other one_segment_def)

lemma collection_scopes:
  assumes "one_segment arg"
  shows "routeScope ''GET'' (''/v1/collections/'' @ arg @ ''/stats'') = ''search''"
    and "routeScope ''GET'' (''/v1/collections/'' @ arg @ ''/chunks'') = ''search''"
    and "routeScope ''POST'' (''/v1/collections/'' @ arg @ ''/model'') = ''admin''"
    and "routeScope ''POST'' (''/v1/collections/'' @ arg @ ''/reranker'') = ''admin''"
  using assms ends_in_append[of arg "''/chunks''"]
  by (simp_all add: scope_simps slash_differs has_suffix_rev ends_in_other one_segment_def)

lemma other_scopes:
  assumes "one_segment arg"
  shows "routeScope ''GET'' (''/v1/chunks/'' @ arg) = ''search''"
    and "arg \<noteq> ''test'' \<Longrightarrow> routeScope ''POST'' (''/v1/models/'' @ arg) = ''admin''"
    and "arg \<noteq> ''test'' \<Longrightarrow> routeScope ''DELETE'' (''/v1/models/'' @ arg) = ''admin''"
    and "arg \<noteq> ''test'' \<Longrightarrow> routeScope ''POST'' (''/v1/rerank-models/'' @ arg) = ''admin''"
    and "arg \<noteq> ''test'' \<Longrightarrow> routeScope ''DELETE'' (''/v1/rerank-models/'' @ arg) = ''admin''"
    and "routeScope ''POST'' (''/v1/keys/'' @ arg @ ''/revoke'') = ''admin''"
  using assms by (simp_all add: scope_simps slash_differs has_suffix_rev ends_in_segment one_segment_def)

text \<open>What is claimed of a route: public or scoped, and strictly if it writes.\<close>

definition guarded :: "string \<Rightarrow> string \<Rightarrow> bool" where
  "guarded verb path \<longleftrightarrow>
     (routeScope verb path = [] \<longleftrightarrow> path \<in> set public_paths)
     \<and> (verb \<noteq> ''GET'' \<longrightarrow> path = ''/v1/search'' \<or> routeScope verb path \<in> {''ingest'', ''admin''})"

definition fixed_guarded :: "string \<times> route_pattern \<Rightarrow> bool" where
  "fixed_guarded r = (case r of (verb, Fixed p) \<Rightarrow> guarded verb p | (verb, Param pre rest) \<Rightarrow> True)"

lemma fixed_routes: "list_all fixed_guarded Router"
  by code_simp

lemma guardedI:
  "routeScope verb path = sc \<Longrightarrow> sc \<noteq> [] \<Longrightarrow> path \<notin> set public_paths \<Longrightarrow>
   verb = ''GET'' \<or> sc \<in> {''ingest'', ''admin''} \<Longrightarrow> guarded verb path"
  by (auto simp: guarded_def)

lemma param_routes:
  assumes "one_segment arg" "arg \<noteq> ''test''" "(verb, Param pre rest) \<in> set Router"
  shows "guarded verb (pre @ arg @ rest)"
proof -
  have "(verb, Param pre rest) \<in> set (filter (\<lambda>r. case snd r of Fixed p \<Rightarrow> False | Param a b \<Rightarrow> True) Router)"
    using assms(3) by simp
  then have "(verb, pre, rest) \<in> {(''POST'', ''/v1/documents/'', ''/commit''), (''GET'', ''/v1/documents/'', []),
      (''DELETE'', ''/v1/documents/'', []), (''GET'', ''/v1/documents/'', ''/shards''), (''GET'', ''/v1/documents/'', ''/chunks''),
      (''GET'', ''/v1/chunks/'', []), (''POST'', ''/v1/documents/'', ''/retry''), (''GET'', ''/v1/collections/'', ''/stats''),
      (''GET'', ''/v1/collections/'', ''/chunks''), (''POST'', ''/v1/collections/'', ''/model''),
      (''POST'', ''/v1/collections/'', ''/reranker''), (''POST'', ''/v1/models/'', []), (''DELETE'', ''/v1/models/'', []),
      (''POST'', ''/v1/rerank-models/'', []), (''DELETE'', ''/v1/rerank-models/'', []), (''POST'', ''/v1/keys/'', ''/revoke'')}"
    by (simp add: Router_def)
  then show ?thesis
    apply (simp only: insert_iff empty_iff prod.inject)
    apply (elim disjE conjE FalseE; simp only: append_Nil2;
      rule guardedI[OF document_scopes(1)[OF assms(1)]] guardedI[OF document_scopes(2)[OF assms(1)]]
        guardedI[OF document_scopes(3)[OF assms(1)]] guardedI[OF document_scopes(4)[OF assms(1)]]
        guardedI[OF document_scopes(5)[OF assms(1)]] guardedI[OF document_scopes(6)[OF assms(1)]]
        guardedI[OF collection_scopes(1)[OF assms(1)]] guardedI[OF collection_scopes(2)[OF assms(1)]]
        guardedI[OF collection_scopes(3)[OF assms(1)]] guardedI[OF collection_scopes(4)[OF assms(1)]]
        guardedI[OF other_scopes(1)[OF assms(1)]] guardedI[OF other_scopes(2)[OF assms(1,2)]]
        guardedI[OF other_scopes(3)[OF assms(1,2)]] guardedI[OF other_scopes(4)[OF assms(1,2)]]
        guardedI[OF other_scopes(5)[OF assms(1,2)]] guardedI[OF other_scopes(6)[OF assms(1)]];
      simp add: public_paths_def)
    done
qed



end
