(* ===== verification/SearchFilter.thy ===== *)
theory SearchFilter
  imports Errors GoText "HOL-Library.AList" "HOL-Library.Multiset"
begin

text \<open>
  The metadata filter of a search (\<open>internal/store/searchfilter.go\<close>): a map of conditions is
  compiled to an SQL predicate whose values are bound as parameters.  \<open>'f\<close> is \<open>float64\<close>;
  what the standard library does with it is the record \<open>floats\<close>.
\<close>

section \<open>The compiler\<close>

datatype 'f filter_value = VText string | VFloat 'f | VInt int | VOther

datatype 'f sql_arg = AText string | AFloat 'f | ABase nat    \<comment> \<open>\<open>ABase i\<close>: the template's own \<open>i\<close>th parameter\<close>

record 'f floats =
  ParseFloat :: "string \<Rightarrow> 'f option"
  float_of_int :: "int \<Rightarrow> 'f"
  sprint_q :: "string \<Rightarrow> string"      \<comment> \<open>the \<open>%q\<close> verb\<close>

definition ErrInvalidMetadataFilter :: goerr where
  "ErrInvalidMetadataFilter = Plain ''invalid metadata_filter''"

text \<open>\<open>^[A-Za-z0-9_]{1,64}$\<close>\<close>

definition key_byte :: "char \<Rightarrow> bool" where
  "key_byte c \<longleftrightarrow> (65 \<le> byte c \<and> byte c \<le> 90) \<or> (97 \<le> byte c \<and> byte c \<le> 122)
     \<or> (48 \<le> byte c \<and> byte c \<le> 57) \<or> byte c = 95"

definition safeFilterKey :: "string \<Rightarrow> bool" where
  "safeFilterKey key \<longleftrightarrow> 1 \<le> length key \<and> length key \<le> 64 \<and> list_all key_byte key"

definition yearRangeGuard :: string where
  "yearRangeGuard = ''^-?[0-9]+('' @ [CHR 0x5C] @ ''.[0-9]+)?$''"

definition filterNumber :: "'f floats \<Rightarrow> 'f filter_value \<Rightarrow> 'f option" where
  "filterNumber F v =
     (case v of VFloat x \<Rightarrow> Some x | VInt i \<Rightarrow> Some (float_of_int F i) | VText s \<Rightarrow> ParseFloat F s | VOther \<Rightarrow> None)"

text \<open>\<open>sortedKeys\<close>: insertion from the right, by bytes.\<close>

fun str_less :: "string \<Rightarrow> string \<Rightarrow> bool" where
  "str_less s [] = False"
| "str_less [] (d # t) = True"
| "str_less (c # s) (d # t) = (byte c < byte d \<or> byte c = byte d \<and> str_less s t)"

fun sink :: "string \<Rightarrow> string list \<Rightarrow> string list" where
  "sink k [] = [k]"
| "sink k (x # xs) = (if str_less k x then x # sink k xs else k # x # xs)"

definition sortedKeys :: "string list \<Rightarrow> string list" where
  "sortedKeys ks = rev (foldl (\<lambda>acc k. sink k acc) [] ks)"

definition quoted_lit :: "string \<Rightarrow> string" where
  "quoted_lit s = [CHR 0x27] @ s @ [CHR 0x27]"

definition range_head :: string where
  "range_head = ''(df.metadata->>'' @ quoted_lit ''year'' @ '') ~ '' @ quoted_lit yearRangeGuard
     @ '' AND (df.metadata->>'' @ quoted_lit ''year'' @ '')::numeric ''"

text \<open>The text of one condition: what comes before its placeholder and what comes behind.\<close>

definition condition_head :: "string \<Rightarrow> string" where
  "condition_head key =
     (if key = ''author'' then ''lower(df.author) = lower(''
      else if key = ''year_from'' \<or> key = ''year_to''
      then range_head @ (if key = ''year_to'' then ''<= '' else ''>= '')
      else ''df.metadata->>'' @ quoted_lit key @ '' = '')"

definition condition_tail :: "string \<Rightarrow> string" where
  "condition_tail key = (if key = ''author'' then '')'' else [])"

definition condition_text :: "string \<Rightarrow> nat \<Rightarrow> string" where
  "condition_text key n = condition_head key @ CHR ''$'' # itoa (int n) @ condition_tail key"

definition condition_arg ::
  "'f floats \<Rightarrow> string \<Rightarrow> 'f filter_value \<Rightarrow> goerr + 'f sql_arg" where
  "condition_arg F key v =
     (if key = ''author'' then
        (case v of VText s \<Rightarrow> Inr (AText s)
         | _ \<Rightarrow> Inl (WrapAfter ErrInvalidMetadataFilter '': author must be a string''))
      else if key = ''year_from'' \<or> key = ''year_to'' then
        (case filterNumber F v of
           Some x \<Rightarrow> Inr (AFloat x)
         | None \<Rightarrow> Inl (WrapAfter ErrInvalidMetadataFilter ('': '' @ key @ '' must be a number'')))
      else if \<not> safeFilterKey key
      then Inl (WrapAfter ErrInvalidMetadataFilter ('': key '' @ sprint_q F key @ '' must match ^[A-Za-z0-9_]{1,64}$''))
      else (case v of VText s \<Rightarrow> Inr (AText s)
            | _ \<Rightarrow> Inl (WrapAfter ErrInvalidMetadataFilter ('': '' @ key @ '' must be a string value''))))"

fun compile_keys ::
  "'f floats \<Rightarrow> (string \<Rightarrow> 'f filter_value) \<Rightarrow> string list
   \<Rightarrow> string list \<Rightarrow> 'f sql_arg list \<Rightarrow> goerr + (string list \<times> 'f sql_arg list)" where
  "compile_keys F f [] conds args = Inr (conds, args)"
| "compile_keys F f (key # keys) conds args =
     (case condition_arg F key (f key) of
        Inl e \<Rightarrow> Inl e
      | Inr a \<Rightarrow> compile_keys F f keys
                   (conds @ [condition_text key (length args + 1)]) (args @ [a]))"

definition exists_doc :: "string list \<Rightarrow> string" where
  "exists_doc conds =
     ''EXISTS (SELECT 1 FROM documents df WHERE df.id = chunks.doc_id AND '' @ join '' AND '' conds @ '')''"

definition BuildMetadataFilter ::
  "'f floats \<Rightarrow> (string \<times> 'f filter_value) list \<Rightarrow> goerr + (string \<times> 'f sql_arg list)" where
  "BuildMetadataFilter F f =
     (if f = [] then Inr ([], [])
      else case compile_keys F (\<lambda>k. the (map_of f k)) (sortedKeys (map fst f)) [] [] of
             Inl e \<Rightarrow> Inl e
           | Inr (conds, args) \<Rightarrow> Inr (exists_doc conds, args))"

section \<open>Renumbering\<close>

definition digit_byte :: "char \<Rightarrow> bool" where
  "digit_byte c \<longleftrightarrow> 48 \<le> byte c \<and> byte c \<le> 57"

text \<open>\<open>ReplaceAllStringFunc\<close> with \<open>\$(\d+)\<close>; \<open>Atoi\<close> refuses what does not fit an \<open>int\<close>.\<close>

function renumber :: "nat \<Rightarrow> string \<Rightarrow> string" where
  "renumber base [] = []"
| "renumber base (c # s) =
     (let ds = takeWhile digit_byte s
      in if c = CHR ''$'' \<and> ds \<noteq> [] then
           (if digits_value ds 0 < 2 ^ 63 then CHR ''$'' # itoa (int (base + digits_value ds 0)) else c # ds)
           @ renumber base (dropWhile digit_byte s)
         else c # renumber base s)"
  by pat_completeness auto
termination
  by (relation "measure (\<lambda>(b, s). length s)") (auto simp: length_dropWhile_le le_imp_less_Suc)

declare renumber.simps(2) [simp del]

definition renumberFilterParams :: "string \<Rightarrow> nat \<Rightarrow> string" where
  "renumberFilterParams fragment base = (if fragment = [] then [] else renumber base fragment)"

section \<open>What renumbering leaves alone\<close>

text \<open>No placeholder starts inside the text or is completed by what follows it.\<close>

fun inert :: "string \<Rightarrow> bool" where
  "inert [] = True"
| "inert (c # s) = ((c = CHR ''$'' \<longrightarrow> s \<noteq> [] \<and> \<not> digit_byte (hd s)) \<and> inert s)"

lemma renumber_inert: "inert s \<Longrightarrow> renumber base (s @ t) = s @ renumber base t"
proof (induction s)
  case (Cons c s)
  then have "c \<noteq> CHR ''$'' \<or> takeWhile digit_byte (s @ t) = []" by (cases s) auto
  then show ?case using Cons by (auto simp: Let_def renumber.simps(2))
qed simp

lemma inert_append: "inert s \<Longrightarrow> inert t \<Longrightarrow> inert (s @ t)"
proof (induction s)
  case (Cons c s)
  then show ?case by (cases s) auto
qed simp

lemma inert_plain: "CHR ''$'' \<notin> set s \<Longrightarrow> inert s"
  by (induction s) auto

lemma digits_of_itoa: "list_all digit_byte (itoa (int n))" "itoa (int n) \<noteq> []" "digits_value (itoa (int n)) 0 = n"
proof -
  have "digit_byte c" if c: "c \<in> set (nat_digits n)" for c
  proof -
    obtain d :: nat where "d < 10" "c = char_of (48 + d)" using nat_digits_set[of n] c by auto
    then show ?thesis by (simp add: digit_byte_def)
  qed
  then show "list_all digit_byte (itoa (int n))" by (simp add: itoa_def list_all_iff)
qed (simp_all add: itoa_def digits_value_digits)

lemma renumber_placeholder:
  assumes "n < 2 ^ 63" "t = [] \<or> \<not> digit_byte (hd t)"
  shows "renumber base (CHR ''$'' # itoa (int n) @ t) = CHR ''$'' # itoa (int (base + n)) @ renumber base t"
proof -
  have "takeWhile digit_byte (itoa (int n) @ t) = itoa (int n)" "dropWhile digit_byte (itoa (int n) @ t) = t"
    using digits_of_itoa(1)[of n] assms(2) by (cases t; simp add: list_all_iff takeWhile_append dropWhile_append)+
  then show ?thesis using digits_of_itoa[of n] assms(1) by (simp add: Let_def renumber.simps(2))
qed

lemma inert_ends:
  "inert ''lower(df.author) = lower(''" "inert ''df.metadata->>''" "inert range_head"
  by code_simp+

text \<open>The keys a compiled filter can have.\<close>

definition usable_key :: "string \<Rightarrow> bool" where
  "usable_key key \<longleftrightarrow> key = ''author'' \<or> key = ''year_from'' \<or> key = ''year_to'' \<or> safeFilterKey key"

lemma usable_plain: "usable_key key \<Longrightarrow> CHR ''$'' \<notin> set key"
  by (auto simp: usable_key_def safeFilterKey_def list_all_iff key_byte_def)

lemma inert_head:
  assumes "usable_key key"
  shows "inert (condition_head key)" "inert (condition_tail key)"
proof -
  have "inert ''<= ''" "inert ''>= ''" by code_simp+
  moreover have "inert (quoted_lit key @ '' = '')"
    using usable_plain[OF assms] by (intro inert_plain) (simp add: quoted_lit_def)
  ultimately show "inert (condition_head key)" using inert_ends by (simp add: condition_head_def inert_append)
  show "inert (condition_tail key)" by (simp add: condition_tail_def)
qed

lemma renumber_condition:
  assumes "usable_key key" "n < 2 ^ 63" "t = [] \<or> \<not> digit_byte (hd t)"
  shows "renumber base (condition_text key n @ t) = condition_text key (base + n) @ renumber base t"
proof -
  let ?u = "condition_tail key @ t"
  have "?u = [] \<or> \<not> digit_byte (hd ?u)" using assms(3) by (simp add: condition_tail_def digit_byte_def)
  then have "renumber base (CHR ''$'' # itoa (int n) @ ?u) = CHR ''$'' # itoa (int (base + n)) @ renumber base ?u"
    by (rule renumber_placeholder[OF assms(2)])
  then show ?thesis using inert_head[OF assms(1)] by (simp add: condition_text_def renumber_inert)
qed

section \<open>A compiled filter, shifted\<close>

lemma mset_sink: "mset (sink k xs) = add_mset k (mset xs)"
  by (induction xs) auto

lemma mset_sortedKeys: "mset (sortedKeys ks) = mset ks"
proof -
  have "mset (foldl (\<lambda>acc k. sink k acc) acc ks) = mset acc + mset ks" for acc
    by (induction ks arbitrary: acc) (auto simp: mset_sink)
  then show ?thesis by (simp add: sortedKeys_def)
qed

text \<open>The conditions on the keys in order, their placeholders counted from \<open>base + 1\<close>.\<close>

definition numbered_conditions :: "nat \<Rightarrow> string list \<Rightarrow> string list" where
  "numbered_conditions base ks = map (\<lambda>(i, k). condition_text k i) (enumerate (Suc base) ks)"

lemma compile_keys_Inr:
  assumes "compile_keys F f keys conds args = Inr (c, a)"
  shows "c = conds @ numbered_conditions (length args) keys \<and> list_all usable_key keys
    \<and> (\<exists>as. a = args @ as \<and> map Inr as = map (\<lambda>k. condition_arg F k (f k)) keys)"
  using assms
proof (induction keys arbitrary: conds args)
  case (Cons key keys)
  then obtain x where x: "condition_arg F key (f key) = Inr x"
    "compile_keys F f keys (conds @ [condition_text key (length args + 1)]) (args @ [x]) = Inr (c, a)"
    by (auto split: sum.splits)
  moreover have "usable_key key" using x(1) by (auto simp: condition_arg_def usable_key_def split: if_splits)
  ultimately show ?case using Cons.IH[OF x(2)] by (auto simp: numbered_conditions_def)
qed (simp add: numbered_conditions_def)

lemma renumber_conditions:
  assumes "list_all usable_key ks" "n + length ks < 2 ^ 63"
  shows "renumber base (join '' AND '' (numbered_conditions n ks) @ '')'') = join '' AND '' (numbered_conditions (base + n) ks) @ '')''"
  using assms
proof (induction ks arbitrary: n)
  case Nil
  have "renumber base '')'' = '')''" by (simp add: renumber.simps(2) Let_def)
  then show ?case by (simp add: numbered_conditions_def)
next
  case (Cons k ks)
  have split: "numbered_conditions m (k # ks) = condition_text k (Suc m) # numbered_conditions (Suc m) ks" for m
    by (simp add: numbered_conditions_def)
  have k: "usable_key k" "Suc n < 2 ^ 63" using Cons.prems by auto
  show ?case
  proof (cases ks)
    case Nil
    have "renumber base '')'' = '')''" by (simp add: renumber.simps(2) Let_def)
    then show ?thesis using renumber_condition[OF k, of "'')''" base] Nil
      by (simp add: numbered_conditions_def digit_byte_def)
  next
    case (Cons k' ks')
    have sep: "inert '' AND ''" by code_simp
    have j: "join '' AND '' (x # numbered_conditions (Suc m) ks) = x @ '' AND '' @ join '' AND '' (numbered_conditions (Suc m) ks)" for x m
      using Cons by (simp add: numbered_conditions_def)
    have "list_all usable_key ks" "Suc n + length ks < 2 ^ 63" using Cons.prems by auto
    note ih = Cons.IH[OF this]
    show ?thesis unfolding split j append_assoc
      using renumber_condition[OF k, of "'' AND '' @ join '' AND '' (numbered_conditions (Suc n) ks) @ '')''" base]
        renumber_inert[OF sep, of base "join '' AND '' (numbered_conditions (Suc n) ks) @ '')''"] ih
      by (simp add: digit_byte_def)
  qed
qed

text \<open>
  C30. A filter compiles to text that depends on its keys alone, every value being a bound
  parameter, with the keys checked to be plain identifiers; and renumbering that text for a
  template with \<open>base\<close> parameters of its own gives what compiling with the placeholders
  \<open>base + 1, base + 2, ...\<close> would have given, so that each condition still names its own value.
\<close>

theorem renumber_compiled:
  assumes "BuildMetadataFilter F f = Inr (sql, args)" "f \<noteq> []" "length f < 2 ^ 63"
  shows "sql = exists_doc (numbered_conditions 0 (sortedKeys (map fst f)))
    \<and> renumberFilterParams sql base = exists_doc (numbered_conditions base (sortedKeys (map fst f)))
    \<and> map Inr args = map (\<lambda>k. condition_arg F k (the (map_of f k))) (sortedKeys (map fst f))
    \<and> list_all usable_key (map fst f)"
proof -
  define ks where "ks = sortedKeys (map fst f)"
  have len: "length ks = length f" and st: "set ks = set (map fst f)"
    using mset_sortedKeys[of "map fst f"] mset_eq_length mset_eq_setD unfolding ks_def by fastforce+
  obtain c a where c: "compile_keys F (\<lambda>k. the (map_of f k)) ks [] [] = Inr (c, a)" "sql = exists_doc c" "args = a"
    using assms(1,2) unfolding BuildMetadataFilter_def ks_def by (auto split: sum.splits)
  note facts = compile_keys_Inr[OF c(1), simplified]
  have sql: "sql = exists_doc (numbered_conditions 0 ks)" using facts c(2) by simp
  have head: "inert ''EXISTS (SELECT 1 FROM documents df WHERE df.id = chunks.doc_id AND ''" by code_simp
  have "renumberFilterParams sql base = renumber base (exists_doc (numbered_conditions 0 ks))"
    unfolding renumberFilterParams_def sql exists_doc_def by simp
  also have "\<dots> = exists_doc (numbered_conditions base ks)"
    unfolding exists_doc_def renumber_inert[OF head] using renumber_conditions[of ks 0 base] facts assms(3) len by simp
  finally show ?thesis using sql facts c(3) st unfolding ks_def by (simp add: list_all_iff)
qed

lemma renumber_compiled_witness:
  "renumberFilterParams (exists_doc (numbered_conditions 0 [''author'', ''shelf''])) 5
   = exists_doc (numbered_conditions 5 [''author'', ''shelf''])"
proof -
  define F :: "int floats" where "F = \<lparr>ParseFloat = \<lambda>s. None, float_of_int = id, sprint_q = id\<rparr>"
  have k: "sortedKeys (map fst [(''shelf'', VText ''b''), (''author'', VText ''a'')]) = [''author'', ''shelf'']" by code_simp
  have b: "BuildMetadataFilter F [(''shelf'', VText ''b''), (''author'', VText ''a'')]
      = Inr (exists_doc (numbered_conditions 0 [''author'', ''shelf'']), [AText ''a'', AText ''b''])"
    unfolding BuildMetadataFilter_def k
    by (simp add: condition_arg_def safeFilterKey_def key_byte_def numbered_conditions_def)
  show ?thesis using renumber_compiled[OF b, of 5] unfolding k by simp
qed

end
