(* ===== verification/Search.thy ===== *)
theory Search
  imports Schema SearchFilter
begin

text \<open>
  Retrieval (\<open>internal/store/search.go\<close>): the hybrid search of one collection, the dense and
  the BM25 leg, and their fusion over several collections.  What the two index extensions do is
  the record \<open>engine\<close>: the order of rows by vector distance or by BM25 score, and the truth of
  a compiled metadata filter for a chunk.  Scores are exact rationals.
\<close>

section \<open>Hits and the index extensions\<close>

record SearchHit =
  h_ChunkID :: string
  h_DocID :: string
  h_DocTitle :: "string option"
  h_PageStart :: "int option"
  h_PageEnd :: "int option"
  h_HeadingPath :: "string list"
  h_ParentText :: string
  h_Text :: string
  h_Score :: rat
  h_Partial :: bool
  h_Completeness :: "int option"
  h_Reranked :: bool

definition RRFK :: rat where "RRFK = 60"
definition DenseWeight :: rat where "DenseWeight = 1"
definition BM25Weight :: rat where "BM25Weight = 3 / 10"

text \<open>
  \<open>nearest d v cs\<close>: the rows the vector index returns, nearest first; \<open>bm25 q cs\<close>: the rows that
  match, best first; \<open>scan\<close>: the order in which rows come out where no order is asked for;
  \<open>sql_true\<close>: a predicate with its parameters.
\<close>

record 'f engine =
  nearest :: "int \<Rightarrow> vector \<Rightarrow> Chunk list \<Rightarrow> Chunk list"
  bm25 :: "string \<Rightarrow> Chunk list \<Rightarrow> Chunk list"
  scan :: "(Chunk \<times> nat) list \<Rightarrow> (Chunk \<times> nat) list"
  sql_true :: "string \<Rightarrow> 'f sql_arg list \<Rightarrow> tables \<Rightarrow> Chunk \<Rightarrow> bool"

definition ErrDimMismatch :: goerr where
  "ErrDimMismatch = Plain ''vector dimension mismatch''"

definition mapDimErr :: "goerr \<Rightarrow> goerr" where
  "mapDimErr err =
     (if Streams.contains (error_text err) ''different vector dimensions''
         \<or> Streams.contains (error_text err) ''does not have dimensions''
      then WrapAfter ErrDimMismatch ('': '' @ error_text err) else err)"

definition mapping_dims :: "('x world, goerr, 'a) prog \<Rightarrow> ('x world, goerr, 'a) prog" where
  "mapping_dims m = bnd (attempt m) (\<lambda>r. case r of Inl e \<Rightarrow> raise (mapDimErr e) | Inr x \<Rightarrow> ret x)"

section \<open>The rows a leg may return\<close>

text \<open>\<open>vector_dims(embedding) = d\<close>\<close>

definition has_dims :: "int \<Rightarrow> Chunk \<Rightarrow> bool" where
  "has_dims d c = (case c_Embedding c of None \<Rightarrow> False | Some v \<Rightarrow> int (length v) = d)"

text \<open>\<open>($n = '{}'::text[] OR collection_id = ANY($n))\<close>\<close>

definition in_scope :: "string list \<Rightarrow> Chunk \<Rightarrow> bool" where
  "in_scope sc c \<longleftrightarrow> sc = [] \<or> c_CollectionID c \<in> set sc"

text \<open>\<open>($k = '' OR <fragment>)\<close>, the fragment renumbered past the template's \<open>base\<close> parameters.\<close>

definition meta_ok :: "'f engine \<Rightarrow> string \<Rightarrow> 'f sql_arg list \<Rightarrow> nat \<Rightarrow> tables \<Rightarrow> Chunk \<Rightarrow> bool" where
  "meta_ok E metaFilter metaArgs base t c \<longleftrightarrow>
     (let metaSQL = renumberFilterParams metaFilter base
      in metaFilter = []
         \<or> sql_true E (if metaSQL = [] then ''TRUE'' else metaSQL) (map ABase [0..<base] @ metaArgs) t c)"

text \<open>A chunk with its document and its parent's text, as the legs project it.\<close>

definition hit_of :: "tables \<Rightarrow> rat \<Rightarrow> Chunk \<Rightarrow> SearchHit option" where
  "hit_of t score c =
     map_option (\<lambda>d. \<lparr>h_ChunkID = c_ID c, h_DocID = d_ID d, h_DocTitle = d_Title d,
         h_PageStart = c_PageStart c, h_PageEnd = c_PageEnd c, h_HeadingPath = c_HeadingPath c,
         h_ParentText = (case find (\<lambda>p. Some (c_ID p) = c_ParentID c) (chunks t) of None \<Rightarrow> [] | Some p \<Rightarrow> c_Text p),
         h_Text = c_Text c, h_Score = score,
         h_Partial = (case d_Completeness d of None \<Rightarrow> False | Some x \<Rightarrow> x < 10000),
         h_Completeness = d_Completeness d, h_Reranked = False\<rparr>)
       (find (\<lambda>d. d_ID d = c_DocID c) (documents t))"

definition negative_limit :: goerr where
  "negative_limit = PgError ''2201W'' ''LIMIT must not be negative''"

definition leg_query :: "int \<Rightarrow> (tables \<Rightarrow> Chunk list) \<Rightarrow> ('x world, goerr, SearchHit list) prog" where
  "leg_query limit rows =
     mapping_dims (pool_stmt (\<lambda>now t.
       if limit < 0 then (Inl negative_limit, t)
       else (Inr (List.map_filter (hit_of t 0) (take (nat limit) (rows t))), t)))"

definition out_of_range :: "int \<Rightarrow> goerr" where
  "out_of_range d = Plain (''query dim '' @ itoa d @ '' out of range 1..2000'')"

definition dense_rows ::
  "'f engine \<Rightarrow> vector \<Rightarrow> int \<Rightarrow> string list \<Rightarrow> string list \<Rightarrow> string \<Rightarrow> 'f sql_arg list \<Rightarrow> tables \<Rightarrow> Chunk list" where
  "dense_rows E queryVec d cols sc metaFilter metaArgs t =
     nearest E d queryVec
       (filter (\<lambda>c. \<not> c_IsParent c \<and> has_dims d c \<and> c_CollectionID c \<in> set cols \<and> in_scope sc c
                   \<and> meta_ok E metaFilter metaArgs 5 t c) (chunks t))"

definition HybridDenseSearch ::
  "'f engine \<Rightarrow> vector \<Rightarrow> int \<Rightarrow> string list \<Rightarrow> string list \<Rightarrow> int \<Rightarrow> string \<Rightarrow> 'f sql_arg list
   \<Rightarrow> ('x world, goerr, SearchHit list) prog" where
  "HybridDenseSearch E queryVec d cols sc limit metaFilter metaArgs =
     (if d < 1 \<or> 2000 < d then raise (out_of_range d)
      else leg_query limit (dense_rows E queryVec d cols sc metaFilter metaArgs))"

definition bm25_rows ::
  "'f engine \<Rightarrow> string list \<Rightarrow> string list \<Rightarrow> string \<Rightarrow> string \<Rightarrow> 'f sql_arg list \<Rightarrow> tables \<Rightarrow> Chunk list" where
  "bm25_rows E cols sc bm25Query metaFilter metaArgs t =
     bm25 E bm25Query
       (filter (\<lambda>c. \<not> c_IsParent c \<and> in_scope cols c \<and> in_scope sc c \<and> meta_ok E metaFilter metaArgs 5 t c) (chunks t))"

definition HybridBMSearch ::
  "'f engine \<Rightarrow> string list \<Rightarrow> string list \<Rightarrow> string \<Rightarrow> int \<Rightarrow> string \<Rightarrow> 'f sql_arg list
   \<Rightarrow> ('x world, goerr, SearchHit list) prog" where
  "HybridBMSearch E cols sc bm25Query limit metaFilter metaArgs =
     leg_query limit (bm25_rows E cols sc bm25Query metaFilter metaArgs)"

section \<open>One collection\<close>

definition one_collection :: "string \<Rightarrow> string list \<Rightarrow> Chunk \<Rightarrow> bool" where
  "one_collection col sc c \<longleftrightarrow> \<not> c_IsParent c \<and> (col = [] \<or> c_CollectionID c = col) \<and> in_scope sc c"

text \<open>A row of the full outer join: its rank in each leg that has it.\<close>

definition joined :: "(Chunk \<times> nat) list \<Rightarrow> (Chunk \<times> nat) list \<Rightarrow> (Chunk \<times> nat option \<times> nat option) list" where
  "joined ds bs =
     map (\<lambda>(c, i). (c, Some i, map_option snd (find (\<lambda>(b, j). c_ID b = c_ID c) bs))) ds
     @ map (\<lambda>(c, j). (c, None, Some j)) (filter (\<lambda>(c, j). \<forall>(d, i) \<in> set ds. c_ID d \<noteq> c_ID c) bs)"

definition rank_score :: "nat option \<Rightarrow> rat" where
  "rank_score r = (case r of None \<Rightarrow> 0 | Some i \<Rightarrow> 1 / (RRFK + of_nat i))"

definition rrf_score :: "nat option \<Rightarrow> nat option \<Rightarrow> rat" where
  "rrf_score d b = rank_score d * DenseWeight + rank_score b * BM25Weight"

definition hybrid_hits :: "tables \<Rightarrow> nat \<Rightarrow> (Chunk \<times> nat) list \<Rightarrow> (Chunk \<times> nat) list \<Rightarrow> SearchHit list" where
  "hybrid_hits t limit ds bs =
     take limit (sort_key (\<lambda>h. - h_Score h)
       (List.map_filter (\<lambda>(c, d, b). hit_of t (rrf_score d b) c) (joined ds bs)))"

definition ranked :: "Chunk list \<Rightarrow> (Chunk \<times> nat) list" where
  "ranked cs = zip cs [1..<Suc (length cs)]"

text \<open>
  The dense leg is cut after it is ordered; the BM25 leg only numbers its rows by score, and
  \<open>LIMIT\<close> takes them in the order they come.
\<close>

definition HybridSearch ::
  "'f engine \<Rightarrow> vector \<Rightarrow> int \<Rightarrow> string \<Rightarrow> string list \<Rightarrow> string \<Rightarrow> int \<Rightarrow> string \<Rightarrow> 'f sql_arg list
   \<Rightarrow> ('x world, goerr, SearchHit list) prog" where
  "HybridSearch E queryVec d col sc bm25Query0 limit metaFilter metaArgs =
     (if d < 1 \<or> 2000 < d then raise (out_of_range d)
      else
        let bm25Query = (if bm25Query0 = [] then ''*'' else bm25Query0)
        in mapping_dims (pool_stmt (\<lambda>now t.
             let rows = filter (\<lambda>c. one_collection col sc c \<and> meta_ok E metaFilter metaArgs 6 t c) (chunks t);
                 ds = take (nat limit) (ranked (nearest E d queryVec (filter (has_dims d) rows)));
                 bs = take (nat limit) (scan E (ranked (bm25 E bm25Query rows)))
             in if limit < 0 then (Inl negative_limit, t)
                else (Inr (hybrid_hits t (nat limit) ds bs), t))))"

section \<open>Several collections\<close>

record group =
  g_model :: EmbeddingModel
  g_cols :: "string list"
  g_vec :: vector

definition search_targets :: "string list \<Rightarrow> string list \<Rightarrow> ('x world, goerr, string list) prog" where
  "search_targets cols sc =
     bnd (if cols = [] then pool_stmt (query (\<lambda>t. map k_ID (sort_key k_CreatedAt (collections t)))) else ret cols) (\<lambda>targets.
     ret (if sc \<noteq> [] then filter (\<lambda>i. i \<in> set sc) targets else targets))"

text \<open>The groups in the order of their first collection; the query is embedded once for each model.\<close>

definition add_col :: "string \<Rightarrow> group \<Rightarrow> group" where
  "add_col cid g = g\<lparr>g_cols := g_cols g @ [cid]\<rparr>"

fun group_targets ::
  "(EmbeddingModel \<Rightarrow> ('x world, goerr, vector) prog) \<Rightarrow> (string \<rightharpoonup> EmbeddingModel) \<Rightarrow> string list \<Rightarrow> group list
   \<Rightarrow> ('x world, goerr, group list) prog" where
  "group_targets embedder models [] gs = ret gs"
| "group_targets embedder models (cid # cids) gs =
     (case models cid of
        None \<Rightarrow> group_targets embedder models cids gs
      | Some m \<Rightarrow>
          if \<exists>g \<in> set gs. em_ID (g_model g) = em_ID m
          then group_targets embedder models cids
                 (map (\<lambda>g. if em_ID (g_model g) = em_ID m then add_col cid g else g) gs)
          else bnd (embedder m) (\<lambda>vec.
               group_targets embedder models cids (gs @ [\<lparr>g_model = m, g_cols = [cid], g_vec = vec\<rparr>])))"

text \<open>
  \<open>scores\<close> and \<open>best\<close> of the code, one entry per chunk: the sum so far and the copy of the hit
  with the longest text.
\<close>

type_synonym fusion = "(string \<times> rat \<times> SearchHit) list"

definition add_hit :: "rat \<Rightarrow> nat \<times> SearchHit \<Rightarrow> fusion \<Rightarrow> fusion" where
  "add_hit weight p m =
     (let (i, h) = p; s = weight / (RRFK + of_nat (i + 1))
      in case map_of m (h_ChunkID h) of
           None \<Rightarrow> m @ [(h_ChunkID h, s, h)]
         | Some (old, prev) \<Rightarrow>
             AList.update (h_ChunkID h)
               (old + s, if length (h_Text prev) < length (h_Text h) then h else prev) m)"

definition addLeg :: "SearchHit list \<times> rat \<Rightarrow> fusion \<Rightarrow> fusion" where
  "addLeg leg m = fold (add_hit (snd leg)) (enumerate 0 (fst leg)) m"

fun dense_legs ::
  "'f engine \<Rightarrow> group list \<Rightarrow> string list \<Rightarrow> int \<Rightarrow> string \<Rightarrow> 'f sql_arg list
   \<Rightarrow> ('x world, goerr, (SearchHit list \<times> rat) list) prog" where
  "dense_legs E [] sc topK metaFilter metaArgs = ret []"
| "dense_legs E (g # gs) sc topK metaFilter metaArgs =
     bnd (HybridDenseSearch E (g_vec g) (em_VectorDim (g_model g)) (g_cols g) sc topK metaFilter metaArgs) (\<lambda>hits.
     bnd (dense_legs E gs sc topK metaFilter metaArgs) (\<lambda>legs.
     ret ((hits, DenseWeight) # legs)))"

text \<open>
  \<open>shuffle\<close> is the order in which the map is ranged over, together with what the unstable sort
  does to equal scores.  A negative \<open>topK\<close> has failed in the first leg already.
\<close>

definition fuse_legs :: "(fusion \<Rightarrow> fusion) \<Rightarrow> int \<Rightarrow> (SearchHit list \<times> rat) list \<Rightarrow> SearchHit list" where
  "fuse_legs shuffle topK legs =
     map (\<lambda>(i, score, h). h\<lparr>h_Score := score\<rparr>)
       (take (nat topK) (sort_key (\<lambda>(i, score, h). - score) (shuffle (fold addLeg legs []))))"

definition MultiHybridSearch ::
  "'f engine \<Rightarrow> (fusion \<Rightarrow> fusion) \<Rightarrow> string \<Rightarrow> string list \<Rightarrow> string list \<Rightarrow> int \<Rightarrow> string \<Rightarrow> 'f sql_arg list
   \<Rightarrow> (EmbeddingModel \<Rightarrow> ('x world, goerr, vector) prog) \<Rightarrow> ('x world, goerr, SearchHit list) prog" where
  "MultiHybridSearch E shuffle q cols sc topK metaFilter metaArgs embedder =
     bnd (search_targets cols sc) (\<lambda>targets.
     bnd (GetModelsByCollectionIDs targets) (\<lambda>models.
     bnd (group_targets embedder models targets []) (\<lambda>groups.
     bnd (HybridBMSearch E targets sc q topK metaFilter metaArgs) (\<lambda>bm25Hits.
     bnd (dense_legs E groups sc topK metaFilter metaArgs) (\<lambda>legs.
     ret (fuse_legs shuffle topK ((bm25Hits, BM25Weight) # legs)))))))"

section \<open>What the fusion returns\<close>

text \<open>The reciprocal-rank score of a chunk over all legs.\<close>

definition leg_terms :: "SearchHit list \<times> rat \<Rightarrow> (SearchHit \<times> rat) list" where
  "leg_terms leg = map (\<lambda>(i, h). (h, snd leg / (RRFK + of_nat (i + 1)))) (enumerate 0 (fst leg))"

definition leg_score :: "(SearchHit list \<times> rat) list \<Rightarrow> string \<Rightarrow> rat" where
  "leg_score legs i = (\<Sum>(h, s)\<leftarrow>concat (map leg_terms legs). if h_ChunkID h = i then s else 0)"

definition add_term :: "SearchHit \<times> rat \<Rightarrow> fusion \<Rightarrow> fusion" where
  "add_term p m =
     (let (h, s) = p
      in case map_of m (h_ChunkID h) of
           None \<Rightarrow> m @ [(h_ChunkID h, s, h)]
         | Some (old, prev) \<Rightarrow>
             AList.update (h_ChunkID h)
               (old + s, if length (h_Text prev) < length (h_Text h) then h else prev) m)"

lemma addLeg_terms: "addLeg leg = fold add_term (leg_terms leg)"
proof -
  have "add_hit (snd leg) = add_term \<circ> (\<lambda>(i, h). (h, snd leg / (RRFK + of_nat (i + 1))))"
    by (auto simp: add_hit_def add_term_def Let_def fun_eq_iff)
  then show ?thesis by (intro ext) (simp only: addLeg_def leg_terms_def fold_map)
qed

lemma fold_addLeg: "fold addLeg legs m = fold add_term (concat (map leg_terms legs)) m"
  by (induction legs arbitrary: m) (simp_all add: addLeg_terms)

text \<open>The fusion after some terms: their chunks, each with its sum and a copy of its hit.\<close>

definition term_ids :: "(SearchHit \<times> rat) list \<Rightarrow> string set" where
  "term_ids ts = (\<lambda>p. h_ChunkID (fst p)) ` set ts"

definition term_sum :: "(SearchHit \<times> rat) list \<Rightarrow> string \<Rightarrow> rat" where
  "term_sum ts i = (\<Sum>(h, s)\<leftarrow>ts. if h_ChunkID h = i then s else 0)"

definition fused :: "(SearchHit \<times> rat) list \<Rightarrow> fusion \<Rightarrow> bool" where
  "fused ts m \<longleftrightarrow> distinct (map fst m) \<and> dom (map_of m) = term_ids ts
     \<and> (\<forall>i s h. map_of m i = Some (s, h) \<longrightarrow> h_ChunkID h = i \<and> h \<in> fst ` set ts \<and> s = term_sum ts i)"

lemma term_sum_other: "i \<notin> term_ids ts \<Longrightarrow> term_sum ts i = 0"
  by (induction ts) (auto simp: term_ids_def term_sum_def)

lemma term_snoc:
  "term_ids (ts @ [(h, s)]) = insert (h_ChunkID h) (term_ids ts)"
  "term_sum (ts @ [(h, s)]) i = term_sum ts i + (if h_ChunkID h = i then s else 0)"
  by (simp_all add: term_ids_def term_sum_def)

lemma add_term_map:
  "map_of (add_term (h, s) m) = (map_of m)(h_ChunkID h \<mapsto>
     (case map_of m (h_ChunkID h) of None \<Rightarrow> (s, h)
      | Some (old, prev) \<Rightarrow> (old + s, if length (h_Text prev) < length (h_Text h) then h else prev)))"
  by (auto simp: add_term_def Let_def update_conv' map_add_def fun_eq_iff split: option.splits)

lemma add_term_distinct: "distinct (map fst m) \<Longrightarrow> distinct (map fst (add_term (h, s) m))"
  by (auto simp: add_term_def Let_def distinct_update map_of_eq_None_iff split: option.splits)

lemma fused_step:
  assumes "fused ts m"
  shows "fused (ts @ [(h, s)]) (add_term (h, s) m)"
  unfolding fused_def
proof (intro conjI allI impI)
  note f = assms[unfolded fused_def]
  show "distinct (map fst (add_term (h, s) m))" using f add_term_distinct by blast
  show "dom (map_of (add_term (h, s) m)) = term_ids (ts @ [(h, s)])" using f by (simp add: add_term_map term_snoc)
  fix i x g assume e: "map_of (add_term (h, s) m) i = Some (x, g)"
  have "(h_ChunkID g = i \<and> g \<in> fst ` set (ts @ [(h, s)])) \<and> x = term_sum (ts @ [(h, s)]) i"
  proof (cases "i = h_ChunkID h")
    case True
    show ?thesis
    proof (cases "map_of m i")
      case None
      then have "i \<notin> term_ids ts" using f by blast
      then show ?thesis using e True None by (simp add: add_term_map term_snoc term_sum_other)
    next
      case (Some v)
      obtain old prev where v: "v = (old, prev)" by (cases v)
      then have "h_ChunkID prev = i \<and> prev \<in> fst ` set ts \<and> old = term_sum ts i" using f Some by blast
      then show ?thesis using e True Some v by (auto simp: add_term_map term_snoc image_iff split: if_splits)
    qed
  next
    case False
    then have "map_of m i = Some (x, g)" using e by (simp add: add_term_map)
    then have "h_ChunkID g = i \<and> g \<in> fst ` set ts \<and> x = term_sum ts i" using f by blast
    then show ?thesis using False by (auto simp: term_snoc)
  qed
  then show "h_ChunkID g = i" "g \<in> fst ` set (ts @ [(h, s)])" "x = term_sum (ts @ [(h, s)]) i" by blast+
qed

lemma fused_fold: "fused ts (fold add_term ts [])"
proof (induction ts rule: rev_induct)
  case Nil
  show ?case by (simp add: fused_def term_ids_def)
next
  case (snoc p ts)
  then show ?case using fused_step by (cases p) simp
qed

lemma leg_score_sum: "leg_score legs i = term_sum (concat (map leg_terms legs)) i"
  by (simp add: leg_score_def term_sum_def)

text \<open>The chunks the legs have found.\<close>

definition pooled :: "(SearchHit list \<times> rat) list \<Rightarrow> SearchHit set" where
  "pooled legs = (\<Union>leg \<in> set legs. set (fst leg))"

lemma pooled_terms: "fst ` set (concat (map leg_terms legs)) = pooled legs"
proof -
  have "map fst (leg_terms leg) = fst leg" for leg
    by (simp add: leg_terms_def comp_def split_def)
  then have "fst ` set (leg_terms leg) = set (fst leg)" for leg by (metis list.set_map)
  then show ?thesis by (auto simp: pooled_def image_UN)
qed

lemma take_sorted_key:
  assumes "sorted (map f xs)" "x \<in> set (take n xs)" "y \<in> set (drop n xs)"
  shows "f x \<le> f y"
proof -
  have "sorted (map f (take n xs) @ map f (drop n xs))" using assms(1) by (simp flip: map_append)
  then show ?thesis using assms(2,3) unfolding sorted_append by simp
qed

definition set_score :: "string \<times> rat \<times> SearchHit \<Rightarrow> SearchHit" where
  "set_score e = (case e of (i, score, h) \<Rightarrow> h\<lparr>h_Score := score\<rparr>)"

text \<open>The ranked pool the result is cut from: a permutation of the fusion, best first.\<close>

lemma fuse_legs_pool:
  assumes "\<And>m. mset (shuffle m) = mset m"
  obtains m where "fuse_legs shuffle topK legs = map set_score (take (nat topK) m)"
    "sorted (map (\<lambda>e. - fst (snd e)) m)" "distinct (map fst m)" "fst ` set m = h_ChunkID ` pooled legs"
    "\<And>i s h. (i, s, h) \<in> set m \<Longrightarrow> h_ChunkID h = i \<and> h \<in> pooled legs \<and> s = leg_score legs i"
proof -
  define ts where "ts = concat (map leg_terms legs)"
  define F where "F = fold addLeg legs []"
  have F: "fused ts F" unfolding F_def ts_def fold_addLeg by (rule fused_fold)
  note f = F[unfolded fused_def]
  define m where "m = sort_key (\<lambda>e. - fst (snd e)) (shuffle F)"
  have ms: "mset m = mset F" using assms by (simp add: m_def)
  have "fuse_legs shuffle topK legs = map set_score (take (nat topK) m)"
    by (simp add: fuse_legs_def m_def F_def set_score_def split_def)
  moreover have "sorted (map (\<lambda>e. - fst (snd e)) m)" by (simp add: m_def)
  moreover have "distinct (map fst m)"
    using f ms by (metis mset_eq_imp_distinct_iff mset_map)
  moreover have "fst ` set m = h_ChunkID ` pooled legs"
  proof -
    have "fst ` set m = dom (map_of F)" using ms mset_eq_setD[OF ms] by (simp add: dom_map_of_conv_image_fst)
    also have "\<dots> = h_ChunkID ` pooled legs"
      using f by (simp add: term_ids_def ts_def image_image flip: pooled_terms)
    finally show ?thesis .
  qed
  moreover have "h_ChunkID h = i \<and> h \<in> pooled legs \<and> s = leg_score legs i" if "(i, s, h) \<in> set m" for i s h
  proof -
    have "(i, s, h) \<in> set F" using that mset_eq_setD[OF ms] by simp
    then have "map_of F i = Some (s, h)" using f by simp
    then have "h_ChunkID h = i \<and> h \<in> fst ` set ts \<and> s = term_sum ts i" using f by blast
    then show ?thesis unfolding ts_def leg_score_sum pooled_terms by blast
  qed
  ultimately show thesis by (rule that)
qed

text \<open>
  C31. The fused result is the best of the pool: every returned hit is one that a leg found, with
  the sum of its reciprocal ranks over all legs as its score; the hits are ordered by score, no
  chunk comes twice, none of the pool that is left out scores better than one returned, and the
  result is as long as \<open>topK\<close> and the pool allow.
\<close>

theorem fuse_legs_best:
  assumes "\<And>m. mset (shuffle m) = mset m"
  shows "let out = fuse_legs shuffle topK legs in
    sorted (map (\<lambda>h. - h_Score h) out) \<and> distinct (map h_ChunkID out)
    \<and> length out = min (nat topK) (card (h_ChunkID ` pooled legs))
    \<and> (\<forall>h \<in> set out. h_Score h = leg_score legs (h_ChunkID h) \<and> (\<exists>g \<in> pooled legs. h = g\<lparr>h_Score := h_Score h\<rparr>))
    \<and> (\<forall>g \<in> pooled legs. h_ChunkID g \<notin> h_ChunkID ` set out \<longrightarrow>
          (\<forall>h \<in> set out. leg_score legs (h_ChunkID g) \<le> h_Score h))"
proof -
  define out where "out = fuse_legs shuffle topK legs"
  obtain m where m: "out = map set_score (take (nat topK) m)" "sorted (map (\<lambda>e. - fst (snd e)) m)" "distinct (map fst m)"
    "fst ` set m = h_ChunkID ` pooled legs"
    "\<And>i s h. (i, s, h) \<in> set m \<Longrightarrow> h_ChunkID h = i \<and> h \<in> pooled legs \<and> s = leg_score legs i"
    using fuse_legs_pool[OF assms(1)] unfolding out_def by blast
  define top where "top = take (nat topK) m"
  have sc: "h_Score (set_score e) = fst (snd e)" for e by (simp add: set_score_def split: prod.splits)
  have sub: "set top \<subseteq> set m" by (simp add: top_def set_take_subset)
  have ids: "h_ChunkID (set_score e) = fst e" if "e \<in> set m" for e
    using m(5) that by (cases e) (auto simp: set_score_def)
  have idmap: "map h_ChunkID out = map fst top"
    unfolding m(1) top_def[symmetric] map_map using sub ids by (intro map_cong) auto
  have "sorted (map (\<lambda>h. - h_Score h) out)"
    using sorted_wrt_take[OF m(2), of "nat topK"] by (simp add: m(1) comp_def sc take_map)
  moreover have "distinct (map h_ChunkID out)" unfolding idmap top_def using m(3) by (simp flip: take_map)
  moreover have "length out = min (nat topK) (card (h_ChunkID ` pooled legs))"
    using distinct_card[OF m(3)] m(4) by (simp add: m(1))
  moreover have "h_Score h = leg_score legs (h_ChunkID h) \<and> (\<exists>g \<in> pooled legs. h = g\<lparr>h_Score := h_Score h\<rparr>)"
    if "h \<in> set out" for h
  proof -
    obtain i s g where "(i, s, g) \<in> set m" "h = set_score (i, s, g)"
      using \<open>h \<in> set out\<close> sub unfolding m(1) top_def[symmetric] by auto
    then show ?thesis using m(5)[of i s g] by (auto simp: set_score_def)
  qed
  moreover have "leg_score legs (h_ChunkID g) \<le> h_Score h"
    if g: "g \<in> pooled legs" "h_ChunkID g \<notin> h_ChunkID ` set out" and h: "h \<in> set out" for g h
  proof -
    obtain e where e: "e \<in> set m" "fst e = h_ChunkID g" using g(1) m(4) by (metis imageE imageI)
    have "fst e \<notin> fst ` set top" using g(2) e(2) idmap by (metis list.set_map)
    then have "e \<in> set (drop (nat topK) m)" using e(1) unfolding top_def
      by (metis Un_iff append_take_drop_id imageI set_append)
    moreover obtain e' where e': "e' \<in> set (take (nat topK) m)" "h = set_score e'" using h unfolding m(1) by auto
    ultimately have "- fst (snd e') \<le> - fst (snd e)" using take_sorted_key[OF m(2)] by blast
    moreover have "fst (snd e) = leg_score legs (fst e)" using m(5)[of "fst e" "fst (snd e)" "snd (snd e)"] e(1) by simp
    ultimately show ?thesis using e(2) e'(2) sc by simp
  qed
  ultimately show ?thesis unfolding Let_def out_def[symmetric] by blast
qed

text \<open>Two hits, one of them found by both legs.\<close>

definition sample_hit :: "string \<Rightarrow> SearchHit" where
  "sample_hit i = \<lparr>h_ChunkID = i, h_DocID = ''d'', h_DocTitle = None, h_PageStart = None, h_PageEnd = None,
     h_HeadingPath = [], h_ParentText = [], h_Text = i, h_Score = 0, h_Partial = False, h_Completeness = None,
     h_Reranked = False\<rparr>"

lemma fuse_legs_best_witness:
  "length (fuse_legs id 1 [([sample_hit ''a'', sample_hit ''b''], BM25Weight), ([sample_hit ''b''], DenseWeight)]) = 1"
proof -
  have "h_ChunkID ` pooled [([sample_hit ''a'', sample_hit ''b''], BM25Weight), ([sample_hit ''b''], DenseWeight)] = {''a'', ''b''}"
    by (auto simp: pooled_def sample_hit_def)
  then show ?thesis
    using fuse_legs_best[of id 1 "[([sample_hit ''a'', sample_hit ''b''], BM25Weight), ([sample_hit ''b''], DenseWeight)]"]
    by (simp add: Let_def)
qed

section \<open>Where the hits come from\<close>

text \<open>The index extensions only ever return rows they were given.\<close>

definition selects :: "'f engine \<Rightarrow> bool" where
  "selects E \<longleftrightarrow> (\<forall>d v cs. set (nearest E d v cs) \<subseteq> set cs) \<and> (\<forall>q cs. set (bm25 E q cs) \<subseteq> set cs)"

text \<open>A chunk a search may show: a child in scope that satisfies the filter.\<close>

definition allowed :: "'f engine \<Rightarrow> string list \<Rightarrow> string list \<Rightarrow> string \<Rightarrow> 'f sql_arg list \<Rightarrow> tables \<Rightarrow> SearchHit \<Rightarrow> bool" where
  "allowed E cols sc metaFilter metaArgs t h \<longleftrightarrow>
     (\<exists>c \<in> set (chunks t). c_ID c = h_ChunkID h \<and> \<not> c_IsParent c \<and> in_scope sc c \<and> in_scope cols c
        \<and> meta_ok E metaFilter metaArgs 5 t c)"

lemma leg_query_Inr:
  assumes "leg_query limit rows w = (Inr hs, w')"
  shows "db w' = db w" "h \<in> set hs \<Longrightarrow> \<exists>c \<in> set (rows (db w)). c_ID c = h_ChunkID h"
proof -
  have run: "\<exists>w1. w' = w1 \<and> db w1 = db w \<and> hs = List.map_filter (hit_of (db w) 0) (take (nat limit) (rows (db w)))"
    using assms by (auto simp: leg_query_def mapping_dims_def bnd_def attempt_def pool_stmt_def next_fault_def run_stmt_def
        raise_def ret_def split: option.splits prod.splits sum.splits if_splits)
  then show "db w' = db w" by blast
  assume "h \<in> set hs"
  then obtain c where "c \<in> set (rows (db w))" "hit_of (db w) 0 c = Some h"
    using run by (auto simp: List.map_filter_def dest: in_set_takeD)
  then show "\<exists>c \<in> set (rows (db w)). c_ID c = h_ChunkID h" by (auto simp: hit_of_def)
qed

lemma bm25_allowed:
  assumes "selects E" "HybridBMSearch E cols sc q limit mf ma w = (Inr hs, w')"
  shows "db w' = db w" "h \<in> set hs \<Longrightarrow> allowed E cols sc mf ma (db w) h"
proof -
  note r = leg_query_Inr[OF assms(2)[unfolded HybridBMSearch_def]]
  show "db w' = db w" by (rule r(1))
  assume "h \<in> set hs"
  then obtain c where "c \<in> set (bm25_rows E cols sc q mf ma (db w))" "c_ID c = h_ChunkID h" using r(2) by blast
  then show "allowed E cols sc mf ma (db w) h" using assms(1) unfolding bm25_rows_def selects_def allowed_def by fastforce
qed

lemma dense_allowed:
  assumes "selects E" "HybridDenseSearch E v d cols sc limit mf ma w = (Inr hs, w')" "cols \<noteq> []"
  shows "db w' = db w" "h \<in> set hs \<Longrightarrow> allowed E cols sc mf ma (db w) h"
proof -
  have "leg_query limit (dense_rows E v d cols sc mf ma) w = (Inr hs, w')"
    using assms(2) by (auto simp: HybridDenseSearch_def raise_def split: if_splits)
  note r = leg_query_Inr[OF this]
  show "db w' = db w" by (rule r(1))
  assume "h \<in> set hs"
  then obtain c where "c \<in> set (dense_rows E v d cols sc mf ma (db w))" "c_ID c = h_ChunkID h" using r(2) by blast
  then show "allowed E cols sc mf ma (db w) h"
    using assms(1,3) unfolding dense_rows_def selects_def allowed_def in_scope_def by fastforce
qed

lemma allowed_mono: "set cols \<subseteq> set cols' \<Longrightarrow> cols \<noteq> [] \<Longrightarrow> allowed E cols sc mf ma t h \<Longrightarrow> allowed E cols' sc mf ma t h"
  unfolding allowed_def in_scope_def by auto

lemma group_targets_Inr:
  assumes "group_targets emb models cids gs w = (Inr out, w')" "\<And>m. outside (emb m)"
    "\<And>g. g \<in> set gs \<Longrightarrow> g_cols g \<noteq> [] \<and> set (g_cols g) \<subseteq> T" "set cids \<subseteq> T"
  shows "db w' = db w \<and> (\<forall>g \<in> set out. g_cols g \<noteq> [] \<and> set (g_cols g) \<subseteq> T)"
  using assms
proof (induction cids arbitrary: gs w)
  case Nil
  then show ?case by (simp add: ret_def)
next
  case (Cons cid cids)
  show ?case
  proof (cases "models cid")
    case None
    then show ?thesis using Cons.IH[of gs w] Cons.prems by simp
  next
    case (Some m)
    show ?thesis
    proof (cases "\<exists>g \<in> set gs. em_ID (g_model g) = em_ID m")
      case True
      let ?gs = "map (\<lambda>g. if em_ID (g_model g) = em_ID m then add_col cid g else g) gs"
      have run: "group_targets emb models cids ?gs w = (Inr out, w')" using Cons.prems(1) Some True by simp
      have ok: "g_cols g \<noteq> [] \<and> set (g_cols g) \<subseteq> T" if "g \<in> set ?gs" for g
      proof -
        obtain x where x: "x \<in> set gs" "g = (if em_ID (g_model x) = em_ID m then add_col cid x else x)"
          using \<open>g \<in> set ?gs\<close> unfolding set_map by blast
        have "g_cols x \<noteq> []" "set (g_cols x) \<subseteq> T" "cid \<in> T" using Cons.prems(3)[OF x(1)] Cons.prems(4) by auto
        then show ?thesis using x(2) by (simp add: add_col_def)
      qed
      show ?thesis by (rule Cons.IH[OF run]) (use Cons.prems(2,4) ok in auto)
    next
      case False
      then obtain vec w1 where v: "emb m w = (Inr vec, w1)"
        "group_targets emb models cids (gs @ [\<lparr>g_model = m, g_cols = [cid], g_vec = vec\<rparr>]) w1 = (Inr out, w')"
        using Cons.prems(1) Some by (auto simp: bnd_def split: prod.splits sum.splits)
      have d: "db w1 = db w" using Cons.prems(2)[of m] v(1) unfolding outside_def by (metis snd_conv)
      have "db w' = db w1 \<and> (\<forall>g \<in> set out. g_cols g \<noteq> [] \<and> set (g_cols g) \<subseteq> T)"
        by (rule Cons.IH[OF v(2)]) (use Cons.prems(2-4) in auto)
      then show ?thesis using d by simp
    qed
  qed
qed

lemma dense_legs_Inr:
  assumes "dense_legs E gs sc topK mf ma w = (Inr legs, w')" "selects E"
    "\<forall>g \<in> set gs. g_cols g \<noteq> [] \<and> set (g_cols g) \<subseteq> set T" "leg \<in> set legs" "h \<in> set (fst leg)"
  shows "allowed E T sc mf ma (db w) h"
  using assms
proof (induction gs arbitrary: w legs)
  case Nil
  then show ?case by (simp add: ret_def)
next
  case (Cons g gs)
  obtain hits w1 legs1 where d: "HybridDenseSearch E (g_vec g) (em_VectorDim (g_model g)) (g_cols g) sc topK mf ma w = (Inr hits, w1)"
    "dense_legs E gs sc topK mf ma w1 = (Inr legs1, w')" "legs = (hits, DenseWeight) # legs1"
    using Cons.prems(1) by (auto simp: bnd_def ret_def split: prod.splits sum.splits)
  have g: "g_cols g \<noteq> []" "set (g_cols g) \<subseteq> set T" using Cons.prems(3) by auto
  note da = dense_allowed[OF Cons.prems(2) d(1) g(1)]
  show ?case
  proof (cases "leg = (hits, DenseWeight)")
    case True
    then show ?thesis using allowed_mono[OF g(2,1) da(2)] Cons.prems(5) by simp
  next
    case False
    then show ?thesis using Cons.IH[OF d(2) Cons.prems(2)] Cons.prems(3-5) d(3) da(1) by simp
  qed
qed

lemma allowed_any: "allowed E cols sc mf ma t h \<Longrightarrow> allowed E [] sc mf ma t h"
  unfolding allowed_def in_scope_def by auto

lemma fuse_legs_mem:
  assumes "\<And>m. mset (shuffle m) = mset m" "h \<in> set (fuse_legs shuffle topK legs)"
  obtains leg g where "leg \<in> set legs" "g \<in> set (fst leg)" "h_ChunkID h = h_ChunkID g"
proof -
  obtain m where m: "fuse_legs shuffle topK legs = map set_score (take (nat topK) m)"
    "\<And>i s h. (i, s, h) \<in> set m \<Longrightarrow> h_ChunkID h = i \<and> h \<in> pooled legs \<and> s = leg_score legs i"
    by (rule fuse_legs_pool[OF assms(1), where legs = legs and topK = topK]) (rule that, assumption+)
  obtain i s g where e: "(i, s, g) \<in> set m" "h = set_score (i, s, g)"
    using assms(2) unfolding m(1) by (auto dest: in_set_takeD)
  have "g \<in> pooled legs" "h_ChunkID h = h_ChunkID g" using m(2)[OF e(1)] e(2) by (simp_all add: set_score_def)
  then show thesis using that unfolding pooled_def by blast
qed

lemma search_targets_Inr:
  assumes "search_targets cols sc w = (Inr ts, w')"
  shows "db w' = db w" "cols \<noteq> [] \<Longrightarrow> ts = filter (\<lambda>i. sc = [] \<or> i \<in> set sc) cols"
  using assms
  by (auto simp: search_targets_def bnd_def ret_def pool_stmt_def next_fault_def run_stmt_def
      split: if_splits option.splits prod.splits sum.splits)

lemma models_db: "GetModelsByCollectionIDs ids w = (Inr ms, w') \<Longrightarrow> db w' = db w"
  by (auto simp: GetModelsByCollectionIDs_def ret_def pool_stmt_def bnd_def next_fault_def run_stmt_def
      split: if_splits option.splits)

text \<open>Over several collections: a chunk of one asked for, as long as any of those is in scope.\<close>

lemma multi_allowed:
  assumes "MultiHybridSearch E shuffle q cols sc topK mf ma emb w = (Inr hits, w')"
    and "selects E" "\<And>m. outside (emb m)" "\<And>m. mset (shuffle m) = mset m" "h \<in> set hits"
  shows "allowed E (filter (\<lambda>i. sc = [] \<or> i \<in> set sc) cols) sc mf ma (db w) h"
proof -
  obtain ts w1 models w2 gs w3 bh w4 legs where run:
    "search_targets cols sc w = (Inr ts, w1)" "GetModelsByCollectionIDs ts w1 = (Inr models, w2)"
    "group_targets emb models ts [] w2 = (Inr gs, w3)" "HybridBMSearch E ts sc q topK mf ma w3 = (Inr bh, w4)"
    "dense_legs E gs sc topK mf ma w4 = (Inr legs, w')" "hits = fuse_legs shuffle topK ((bh, BM25Weight) # legs)"
    using assms(1) by (auto simp: MultiHybridSearch_def bnd_def ret_def split: prod.splits sum.splits)
  have g: "db w3 = db w2" "\<forall>g \<in> set gs. g_cols g \<noteq> [] \<and> set (g_cols g) \<subseteq> set ts"
    using group_targets_Inr[OF run(3) assms(3), of "set ts"] by simp_all
  have d3: "db w3 = db w" using search_targets_Inr(1)[OF run(1)] models_db[OF run(2)] g(1) by simp
  have d4: "db w4 = db w" using bm25_allowed(1)[OF assms(2) run(4)] d3 by simp
  obtain leg g where l: "leg \<in> set ((bh, BM25Weight) # legs)" "g \<in> set (fst leg)" "h_ChunkID h = h_ChunkID g"
    using fuse_legs_mem[OF assms(4)] assms(5) unfolding run(6) by blast
  have "allowed E ts sc mf ma (db w) g"
  proof (cases "leg = (bh, BM25Weight)")
    case True
    then show ?thesis using bm25_allowed(2)[OF assms(2) run(4)] l(2) d3 by simp
  next
    case False
    then show ?thesis using dense_legs_Inr[OF run(5) assms(2) g(2)] l(1,2) d4 by simp
  qed
  then have "allowed E ts sc mf ma (db w) h" using l(3) by (simp add: allowed_def)
  then show ?thesis using search_targets_Inr(2)[OF run(1)] allowed_any by (cases "cols = []") auto
qed


section \<open>Instances\<close>

text \<open>A child chunk in the collection \<open>c\<close>, and an engine that returns every row as it comes.\<close>

definition sample_chunk :: Chunk where
  "sample_chunk = \<lparr>c_ID = ''x'', c_DocID = ''d'', c_CollectionID = ''c'', c_ChunkHash = ''h'', c_ParentID = None,
     c_IsParent = False, c_Seq = 0, c_PageStart = None, c_PageEnd = None, c_HeadingPath = [], c_HeaderBreadcrumb = None,
     c_Text = ''t'', c_TokenCount = 1, c_Embedding = None, c_EmbeddedAt = None, c_CreatedAt = 0\<rparr>"

definition sample_engine :: "int engine" where
  "sample_engine = \<lparr>nearest = \<lambda>d v cs. cs, bm25 = \<lambda>q cs. cs, scan = id, sql_true = \<lambda>s as t c. True\<rparr>"

definition sample_library :: "unit world" where
  "sample_library = \<lparr>db = empty_tables\<lparr>documents := [sample_doc], chunks := [sample_chunk]\<rparr>, runner_log = id, aborted = False,
     faults = \<lambda>_. None, nstmt = 0, clock = 0, rollups = [], ext = ()\<rparr>"


end
