(* ===== verification/Rerank.thy ===== *)
theory Rerank
  imports Search
begin

text \<open>
  The optional rerank stage: the cross-encoder client (\<open>internal/pipeline/rerank_client.go\<close>), the
  rule that picks a reranker and the reordering of hits (\<open>internal/service/rerank.go\<close>), wired as
  \<open>cmd/lybrix-server/helpers.go\<close> wires them.  \<open>Exp\<close> is \<open>math.Exp\<close>.
\<close>

section \<open>The client\<close>

record RerankClient =
  rc_provider :: string
  rc_modelID :: string
  rc_queryURL :: string
  rc_apiKey :: string
  rc_truncateChars :: int

definition RerankUnavailable :: "string \<Rightarrow> goerr" where
  "RerankUnavailable detail = Plain (''rerank unavailable: '' @ detail)"

definition NewRerankClient :: "string \<Rightarrow> string \<Rightarrow> string \<Rightarrow> string \<Rightarrow> int \<Rightarrow> goerr + RerankClient" where
  "NewRerankClient provider modelID queryURL apiKey truncateChars =
     (if provider \<noteq> ''tei'' \<and> provider \<noteq> ''openai'' then Inl (Plain (''unsupported rerank provider: '' @ provider))
      else Inr \<lparr>rc_provider = provider, rc_modelID = modelID, rc_queryURL = queryURL, rc_apiKey = apiKey,
                rc_truncateChars = (if truncateChars < 0 then 6000 else truncateChars)\<rparr>)"

text \<open>The keys of a marshalled map are sorted.\<close>

definition rerank_request :: "RerankClient \<Rightarrow> string \<Rightarrow> string list \<Rightarrow> http_request" where
  "rerank_request c q texts =
     (let docs = JArr (map JStr texts);
          (path, payload) =
            (if rc_provider c = ''openai''
             then (''/v1/rerank'', JObj [(''documents'', docs), (''model'', JStr (rc_modelID c)), (''query'', JStr q),
                     (''return_documents'', JBool False), (''top_n'', JNum (itoa (int (length texts))))])
             else (''/rerank'', JObj [(''query'', JStr q), (''raw_scores'', JBool True), (''texts'', docs),
                     (''truncate'', JBool True)]))
      in \<lparr>hq_Method = ''POST'', hq_URL = rc_queryURL c @ path,
          hq_Bearer = (if rc_apiKey c \<noteq> [] then Some (rc_apiKey c) else None), hq_Body = json_text payload\<rparr>)"

subsection \<open>Typed decoding\<close>

text \<open>
  \<open>Decode\<close> into \<open>[][]float64\<close> and into \<open>rerankResponse\<close>: \<open>null\<close> leaves the zero value, a field's
  name is matched without regard to (ASCII) case and the last match counts, an index is a
  literal without fraction or exponent.
\<close>

definition decode_number :: "'s net \<Rightarrow> json \<Rightarrow> rat option" where
  "decode_number N v = (case v of JNum n \<Rightarrow> n_Float64 N n | JNull \<Rightarrow> Some 0 | _ \<Rightarrow> None)"

definition decode_numbers :: "'s net \<Rightarrow> json \<Rightarrow> rat list option" where
  "decode_numbers N v =
     (case v of JArr xs \<Rightarrow> those (map (decode_number N) xs) | JNull \<Rightarrow> Some [] | _ \<Rightarrow> None)"

definition decode_matrix :: "'s net \<Rightarrow> json \<Rightarrow> rat list list option" where
  "decode_matrix N v =
     (case v of JArr xs \<Rightarrow> those (map (decode_numbers N) xs) | JNull \<Rightarrow> Some [] | _ \<Rightarrow> None)"

definition int_literal :: "string \<Rightarrow> int option" where
  "int_literal s =
     (let neg = (s \<noteq> [] \<and> hd s = CHR ''-''); ds = (if neg then tl s else s);
          v = (if neg then - int (digits_value ds 0) else int (digits_value ds 0))
      in if ds \<noteq> [] \<and> list_all digit_byte ds \<and> - (2 ^ 63) \<le> v \<and> v < 2 ^ 63 then Some v else None)"

definition field_ci :: "string \<Rightarrow> payload \<Rightarrow> json option" where
  "field_ci name ms = map_option snd (find (\<lambda>(k, v). equalFold k name) (rev ms))"

definition decode_result :: "'s net \<Rightarrow> json \<Rightarrow> (int \<times> rat) option" where
  "decode_result N v =
     (case v of
        JNull \<Rightarrow> Some (0, 0)
      | JObj ms \<Rightarrow>
          Option.bind (case field_ci ''index'' ms of
                         None \<Rightarrow> Some 0 | Some JNull \<Rightarrow> Some 0 | Some (JNum n) \<Rightarrow> int_literal n | _ \<Rightarrow> None) (\<lambda>i.
          Option.bind (case field_ci ''relevance_score'' ms of
                         None \<Rightarrow> Some 0 | Some x \<Rightarrow> decode_number N x) (\<lambda>s. Some (i, s)))
      | _ \<Rightarrow> None)"

definition decode_results :: "'s net \<Rightarrow> json \<Rightarrow> (int \<times> rat) list option" where
  "decode_results N v =
     (case v of
        JNull \<Rightarrow> Some []
      | JObj ms \<Rightarrow>
          (case field_ci ''results'' ms of
             None \<Rightarrow> Some [] | Some JNull \<Rightarrow> Some []
           | Some (JArr xs) \<Rightarrow> those (map (decode_result N) xs)
           | _ \<Rightarrow> None)
      | _ \<Rightarrow> None)"

definition decode_as :: "(json \<Rightarrow> 'a option) \<Rightarrow> string option \<Rightarrow> 'a option" where
  "decode_as f body =
     Option.bind body (\<lambda>b. Option.bind (jvalue (2 * length b + 2) 10000 b) (\<lambda>(v, rest). f v))"

subsection \<open>Scores\<close>

definition sigmoid :: "(rat \<Rightarrow> rat) \<Rightarrow> rat \<Rightarrow> rat" where
  "sigmoid Exp x = 1 / (1 + Exp (- x))"

definition place_scores :: "nat \<Rightarrow> (int \<times> rat) list \<Rightarrow> rat list" where
  "place_scores n rs =
     foldl (\<lambda>scores (i, s). if 0 \<le> i \<and> i < int n then scores[nat i := s] else scores) (replicate n 0) rs"

definition row_scores :: "(rat \<Rightarrow> rat) \<Rightarrow> nat \<Rightarrow> rat list \<Rightarrow> rat list" where
  "row_scores Exp n row = map (\<lambda>i. if i < length row then sigmoid Exp (row ! i) else 0) [0..<n]"

definition bad_body :: "'s net \<Rightarrow> string option \<Rightarrow> goerr" where
  "bad_body N body = RerankUnavailable (''bad response body: '' @ n_DecodeError N body)"

definition rerank_reply ::
  "'s net \<Rightarrow> (rat \<Rightarrow> rat) \<Rightarrow> RerankClient \<Rightarrow> nat \<Rightarrow> http_reply \<Rightarrow> goerr + rat list" where
  "rerank_reply N Exp c n reply =
     (case reply of
        NoReply e \<Rightarrow> Inl (RerankUnavailable (''transport error: '' @ e))
      | Reply status body \<Rightarrow>
          if 400 \<le> status
          then Inl (RerankUnavailable (''rerank returned '' @ itoa status @ '': ''
                      @ (case body of None \<Rightarrow> [] | Some b \<Rightarrow> take 200 b)))
          else if rc_provider c = ''openai'' then
            (case decode_as (decode_results N) body of
               None \<Rightarrow> Inl (bad_body N body)
             | Some rs \<Rightarrow> Inr (place_scores n rs))
          else
            (case decode_as (decode_matrix N) body of
               None \<Rightarrow> Inl (bad_body N body)
             | Some [] \<Rightarrow> Inl (RerankUnavailable ''empty rerank response'')
             | Some (row # rows) \<Rightarrow> Inr (row_scores Exp n row)))"

definition Rerank ::
  "'s net \<Rightarrow> (rat \<Rightarrow> rat) \<Rightarrow> RerankClient \<Rightarrow> string \<Rightarrow> string list \<Rightarrow> ('s, goerr, rat list) prog" where
  "Rerank N Exp c q texts0 =
     (if texts0 = [] then ret []
      else
        let texts = (if 0 < rc_truncateChars c then map (\<lambda>t. TruncateRunes t (rc_truncateChars c)) texts0 else texts0);
            rq = rerank_request c q texts
        in case n_BadURL N (hq_URL rq) of
             Some e \<Rightarrow> raise e
           | None \<Rightarrow> bnd (n_Do N rq) (\<lambda>reply. of_sum (rerank_reply N Exp c (length texts) reply)))"

definition probe_pair :: "'s net \<Rightarrow> (rat \<Rightarrow> rat) \<Rightarrow> RerankClient \<Rightarrow> ('s, goerr, rat list) prog" where
  "probe_pair N Exp c = Rerank N Exp c ''ping'' [''pong'', ''unrelated text'']"

text \<open>Reachable, the latency, and the detail.\<close>

definition Probe_rerank ::
  "'s net \<Rightarrow> (rat \<Rightarrow> rat) \<Rightarrow> ('s, goerr, int) prog \<Rightarrow> RerankClient \<Rightarrow> ('s, goerr, bool \<times> int \<times> string) prog" where
  "Probe_rerank N Exp elapsedMS c =
     (if rc_provider c = ''tei'' then
        let url = rc_queryURL c @ ''/health''
        in case n_BadURL N url of
             Some e \<Rightarrow> ret (False, 0, ''unreachable: '' @ error_text e)
           | None \<Rightarrow>
             bnd (n_Do N \<lparr>hq_Method = ''GET'', hq_URL = url, hq_Bearer = None, hq_Body = []\<rparr>) (\<lambda>reply.
             case reply of
               NoReply e \<Rightarrow> ret (False, 0, ''unreachable: '' @ e)
             | Reply status body \<Rightarrow>
                 if status \<noteq> 200 then ret (False, 0, ''health returned '' @ itoa status)
                 else bnd (attempt (probe_pair N Exp c)) (\<lambda>r.
                      bnd elapsedMS (\<lambda>ms.
                      ret (True, ms, case r of
                          Inl e \<Rightarrow> ''healthy; rerank probe failed: '' @ error_text e
                        | Inr scores \<Rightarrow> if length scores \<noteq> 2 then ''healthy; rerank probe returned wrong arity'' else ''ok''))))
      else bnd (attempt (probe_pair N Exp c)) (\<lambda>r.
           case r of
             Inl e \<Rightarrow> ret (False, 0, error_text e)
           | Inr _ \<Rightarrow> bnd elapsedMS (\<lambda>ms. ret (True, ms, ''ok''))))"

section \<open>Which reranker\<close>

definition ErrRerankModelUnknown :: goerr where
  "ErrRerankModelUnknown = Plain ''rerank model not found''"

definition ErrRerankNotConfigured :: goerr where
  "ErrRerankNotConfigured = Plain ''no reranker configured''"

record RerankResolveRequest =
  rr_SingleCollection :: string
  rr_Rerank :: "bool option"
  rr_RerankModelID :: string

definition none_resolved :: "RerankResolveRequest \<Rightarrow> ('x world, goerr, RerankModel option) prog" where
  "none_resolved req = (if rr_Rerank req = Some True then raise ErrRerankNotConfigured else ret None)"

definition ResolveRerankModel :: "RerankResolveRequest \<Rightarrow> ('x world, goerr, RerankModel option) prog" where
  "ResolveRerankModel req =
     (if rr_Rerank req = Some False then ret None
      else if rr_RerankModelID req \<noteq> [] then
        bnd (GetRerankModel (rr_RerankModelID req)) (\<lambda>m.
        case m of None \<Rightarrow> raise ErrRerankModelUnknown | Some m' \<Rightarrow> ret (Some m'))
      else if rr_SingleCollection req \<noteq> [] then
        bnd (ResolveCollectionReranker (rr_SingleCollection req)) (\<lambda>m.
        case m of None \<Rightarrow> none_resolved req | Some m' \<Rightarrow> ret (Some m'))
      else none_resolved req)"

section \<open>The stage\<close>

record RerankStatus =
  rs_Applied :: bool
  rs_Reason :: string

definition Degraded :: "RerankStatus \<Rightarrow> bool" where
  "Degraded s \<longleftrightarrow> \<not> rs_Applied s \<and> rs_Reason s \<noteq> [] \<and> rs_Reason s \<noteq> ''off''"

definition not_applied :: "string \<Rightarrow> RerankStatus" where
  "not_applied reason = \<lparr>rs_Applied = False, rs_Reason = reason\<rparr>"

definition reranked :: "SearchHit \<times> rat \<Rightarrow> SearchHit" where
  "reranked p = (fst p)\<lparr>h_Score := snd p, h_Reranked := True\<rparr>"

definition rerank_order :: "SearchHit list \<Rightarrow> rat list \<Rightarrow> (SearchHit \<times> rat) list" where
  "rerank_order hits scores =
     sort_key (\<lambda>p. - snd p) (zip hits (map (\<lambda>i. if i < length scores then scores ! i else 0) [0..<length hits]))"

definition RerankHits ::
  "'s net \<Rightarrow> (rat \<Rightarrow> rat) \<Rightarrow> RerankClient \<Rightarrow> string \<Rightarrow> SearchHit list \<Rightarrow> int
   \<Rightarrow> ('s, goerr, SearchHit list \<times> RerankStatus) prog" where
  "RerankHits N Exp c q hits topK0 =
     (if hits = [] \<or> topK0 < 1 then ret (hits, not_applied ''off'')
      else
        let topK = min (nat topK0) (length hits)
        in bnd (attempt (Rerank N Exp c q (map h_Text hits))) (\<lambda>r.
           case r of
             Inl e \<Rightarrow> ret (take topK hits, not_applied (error_text e))
           | Inr scores \<Rightarrow>
               ret (map reranked (take topK (rerank_order hits scores)), \<lparr>rs_Applied = True, rs_Reason = []\<rparr>)))"

text \<open>\<open>rerankHitsFn\<close>: the row is read again, with its key.\<close>

definition rerankHitsFn ::
  "'x world net \<Rightarrow> (rat \<Rightarrow> rat) \<Rightarrow> RerankModel \<Rightarrow> string \<Rightarrow> SearchHit list \<Rightarrow> int
   \<Rightarrow> ('x world, goerr, SearchHit list \<times> RerankStatus) prog" where
  "rerankHitsFn N Exp rm q hits topK =
     bnd (attempt (GetRerankModelWithKey (rm_ID rm))) (\<lambda>r.
     case r of
       Inl e \<Rightarrow> ret (hits, not_applied (error_text e))
     | Inr None \<Rightarrow> ret (hits, not_applied ''rerank model vanished'')
     | Inr (Some (m, key)) \<Rightarrow>
         (case NewRerankClient (rm_Provider m) (rm_ModelID m) (rm_QueryURL m) key (rm_TruncateChars m) of
            Inl e \<Rightarrow> ret (hits, not_applied (error_text e))
          | Inr c \<Rightarrow> RerankHits N Exp c q hits topK))"

definition RerankNote :: "string \<Rightarrow> string" where
  "RerankNote reason = ''rerank not applied: '' @ reason @ '' (results are RRF order)''"

section \<open>What the stage keeps\<close>

text \<open>A hit without what the stage writes into it.\<close>

definition unscored :: "SearchHit \<Rightarrow> SearchHit" where
  "unscored h = h\<lparr>h_Score := 0, h_Reranked := False\<rparr>"

lemma rerank_order_facts:
  "map fst (zip hits (map (f :: nat \<Rightarrow> rat) [0..<length hits])) = hits"
  "sorted (map (\<lambda>p. - snd p) (rerank_order hits scores))"
  "mset (map fst (rerank_order hits scores)) = mset hits"
  "length (rerank_order hits scores) = length hits"
proof -
  show m: "map fst (zip hits (map f [0..<length hits])) = hits" for f :: "nat \<Rightarrow> rat" by simp
  have "mset (map fst (sort_key k zs)) = mset (map fst zs)" for k :: "SearchHit \<times> rat \<Rightarrow> rat" and zs
    by (metis mset_map mset_sort)
  then show "mset (map fst (rerank_order hits scores)) = mset hits" unfolding rerank_order_def by (simp only: m)
qed (simp_all add: rerank_order_def)

text \<open>
  Reranking never fails a search and never invents a hit.  With hits and a positive
  \<open>topK\<close> it returns as many as both allow: when the model answered, hits of the pool, none
  more often than there, ordered by its score, none left out scoring better; otherwise the
  pool's first hits unchanged.
\<close>

theorem RerankHits_keeps_pool:
  assumes "hits \<noteq> []" "1 \<le> topK"
  shows "\<exists>out st w'. RerankHits N Exp c q hits topK w = (Inr (out, st), w')
    \<and> length out = min (nat topK) (length hits)
    \<and> (if rs_Applied st
       then sorted (map (\<lambda>h. - h_Score h) out) \<and> mset (map unscored out) \<subseteq># mset (map unscored hits)
       else out = take (nat topK) hits)"
proof -
  obtain r w' where run: "Rerank N Exp c q (map h_Text hits) w = (r, w')" by fastforce
  show ?thesis
  proof (cases r)
    case (Inl e)
    have "RerankHits N Exp c q hits topK w = (Inr (take (min (nat topK) (length hits)) hits, not_applied (error_text e)), w')"
      using assms run Inl by (simp add: RerankHits_def Let_def bnd_attempt)
    then show ?thesis by (simp add: not_applied_def min_def)
  next
    case (Inr scores)
    define rows where "rows = rerank_order hits scores"
    define out where "out = map reranked (take (min (nat topK) (length hits)) rows)"
    have eq: "RerankHits N Exp c q hits topK w = (Inr (out, \<lparr>rs_Applied = True, rs_Reason = []\<rparr>), w')"
      using assms run Inr by (simp add: RerankHits_def Let_def bnd_attempt out_def rows_def)
    have "map (\<lambda>h. - h_Score h) out = take (min (nat topK) (length hits)) (map (\<lambda>p. - snd p) rows)"
      by (simp add: out_def take_map reranked_def)
    then have "sorted (map (\<lambda>h. - h_Score h) out)"
      using rerank_order_facts(2)[of hits scores] unfolding rows_def by (simp add: sorted_wrt_take)
    moreover have "map unscored out = take (min (nat topK) (length hits)) (map unscored (map fst rows))"
      by (simp add: out_def take_map reranked_def unscored_def)
    then have "mset (map unscored out) \<subseteq># mset (map unscored (map fst rows))"
      by (metis append_take_drop_id mset_append mset_subset_eq_add_left)
    then have "mset (map unscored out) \<subseteq># mset (map unscored hits)"
      by (metis rows_def mset_map rerank_order_facts(3))
    moreover have "length out = min (nat topK) (length hits)"
      using rerank_order_facts(4)[of hits scores] by (simp add: out_def rows_def)
    ultimately show ?thesis using eq by simp
  qed
qed

lemma RerankHits_keeps_pool_witness:
  "\<exists>out st w'. RerankHits silent_net id \<lparr>rc_provider = ''tei'', rc_modelID = [], rc_queryURL = [], rc_apiKey = [], rc_truncateChars = 9\<rparr>
     ''q'' [sample_hit ''a'', sample_hit ''b''] 1 (sample_world empty_tables mem_empty) = (Inr (out, st), w') \<and> length out = 1"
  using RerankHits_keeps_pool[of "[sample_hit ''a'', sample_hit ''b'']" 1 silent_net id
      "\<lparr>rc_provider = ''tei'', rc_modelID = [], rc_queryURL = [], rc_apiKey = [], rc_truncateChars = 9\<rparr>" "''q''"
      "sample_world empty_tables mem_empty"]
  by auto

end
