(* ===== verification/SearchApi.thy ===== *)
theory SearchApi
  imports Rerank Keys
begin

text \<open>
  The search endpoint (\<open>internal/api/search.go\<close>) with the query embedding it is wired to
  (\<open>cmd/lybrix-server/helpers.go\<close>).
\<close>

section \<open>The query plane's embedding\<close>

definition query_spec :: "EmbeddingModel \<Rightarrow> EmbedSpec" where
  "query_spec m = \<lparr>es_Provider = em_Provider m, es_ModelID = em_ModelID m, es_IngestURL = em_IngestURL m,
     es_QueryURL = em_QueryURL m, es_APIKey = [], es_TruncateChars = em_TruncateChars m\<rparr>"

definition embedForModelFn :: "'x world net \<Rightarrow> EmbeddingModel \<Rightarrow> string \<Rightarrow> ('x world, goerr, vector) prog" where
  "embedForModelFn N m asked =
     (case NewEmbedClient (query_spec m) ''query'' of
        Inl e \<Rightarrow> raise e
      | Inr c \<Rightarrow>
          bnd (Embed N c [em_QueryPrefix m @ asked] (em_VectorDim m)) (\<lambda>(r, c1).
          case r of
            Inl e \<Rightarrow> raise e
          | Inr [] \<Rightarrow> raise (Plain ''empty embedding response'')
          | Inr (v # vs) \<Rightarrow> ret v))"

definition embedQueryFn ::
  "'x world net \<Rightarrow> string \<Rightarrow> string \<Rightarrow> ('x world, goerr, vector \<times> EmbeddingModel) prog" where
  "embedQueryFn N collection asked =
     bnd (ResolveCollectionModel collection) (\<lambda>mo.
     case mo of
       None \<Rightarrow> raise (NewPlatformError CodeEmbedDimMismatch ''no embedding model configured'')
     | Some m \<Rightarrow> bnd (embedForModelFn N m asked) (\<lambda>vec. ret (vec, m)))"

section \<open>The endpoint\<close>

record 'f searchRequest =
  sq_Query :: string
  sq_Collection :: "string option"
  sq_Collections :: "string list"
  sq_TopK :: int
  sq_Rerank :: "bool option"
  sq_RerankModelID :: "string option"
  sq_MetadataFilter :: "(string \<times> 'f filter_value) list"

record searchHit =
  sh_ChunkID :: string
  sh_DocID :: string
  sh_DocTitle :: "string option"
  sh_PageStart :: "int option"
  sh_PageEnd :: "int option"
  sh_HeadingPath :: "string list"
  sh_Text :: string
  sh_Score :: rat
  sh_Partial :: bool
  sh_Reranked :: bool

definition search_hit :: "SearchHit \<Rightarrow> searchHit" where
  "search_hit h = \<lparr>sh_ChunkID = h_ChunkID h, sh_DocID = h_DocID h, sh_DocTitle = h_DocTitle h,
     sh_PageStart = h_PageStart h, sh_PageEnd = h_PageEnd h, sh_HeadingPath = h_HeadingPath h, sh_Text = h_Text h,
     sh_Score = h_Score h, sh_Partial = h_Partial h, sh_Reranked = h_Reranked h\<rparr>"

record search_settings =
  SearchDefaultTopK :: int
  SearchMaxTopK :: int
  RerankCandidates :: int

text \<open>What the search needs from outside the code: index, map order, network, floats.\<close>

record ('x, 'f) search_deps =
  sd_Engine :: "'f engine"
  sd_Shuffle :: "fusion \<Rightarrow> fusion"
  sd_Net :: "'x world net"
  sd_Exp :: "rat \<Rightarrow> rat"
  sd_Floats :: "'f floats"

definition singleTarget :: "string list \<Rightarrow> string" where
  "singleTarget targets = (case targets of [t] \<Rightarrow> t | _ \<Rightarrow> [])"

definition key_scope :: "ApiKey option \<Rightarrow> string list" where
  "key_scope key = (case key of None \<Rightarrow> [] | Some k \<Rightarrow> ak_Collections k)"

definition request_targets :: "'f searchRequest \<Rightarrow> string list" where
  "request_targets b =
     (if sq_Collections b = [] \<and> sq_Collection b \<noteq> None \<and> sq_Collection b \<noteq> Some []
      then [the (sq_Collection b)] else sq_Collections b)"

text \<open>The effective \<open>top_k\<close>; \<open>None\<close> is a 422.\<close>

definition effective_topK :: "search_settings \<Rightarrow> int \<Rightarrow> int option" where
  "effective_topK S asked =
     (let k = (if asked = 0 then SearchDefaultTopK S else asked)
      in if k < 1 then None else Some (if SearchMaxTopK S < k then SearchMaxTopK S else k))"

definition search_pool ::
  "('x, 'f) search_deps \<Rightarrow> search_settings \<Rightarrow> string \<Rightarrow> string list \<Rightarrow> string list \<Rightarrow> int \<Rightarrow> RerankModel option
   \<Rightarrow> string \<Rightarrow> 'f sql_arg list \<Rightarrow> ('x world, goerr, int \<times> goerr + SearchHit list) prog" where
  "search_pool D S q targets sc topK reranker mf ma =
     (case targets of
        [t] \<Rightarrow>
          bnd (attempt (embedQueryFn (sd_Net D) t q)) (\<lambda>r.
          case r of
            Inl e \<Rightarrow> ret (Inl (503, e))
          | Inr (vec, m) \<Rightarrow>
              let poolSize = (if reranker \<noteq> None \<and> topK < RerankCandidates S then RerankCandidates S else topK)
              in bnd (attempt (HybridSearch (sd_Engine D) vec (em_VectorDim m) t sc q poolSize mf ma)) (\<lambda>h.
                 ret (case h of Inl e \<Rightarrow> Inl (500, e) | Inr hs \<Rightarrow> Inr hs)))
      | _ \<Rightarrow>
          bnd (attempt (MultiHybridSearch (sd_Engine D) (sd_Shuffle D) q targets sc topK mf ma
                          (\<lambda>m. embedForModelFn (sd_Net D) m q))) (\<lambda>h.
          ret (case h of Inl e \<Rightarrow> Inl (500, e) | Inr hs \<Rightarrow> Inr hs)))"

text \<open>The hits after the rerank stage, with the state the header reports.\<close>

definition rerank_stage ::
  "('x, 'f) search_deps \<Rightarrow> RerankModel option \<Rightarrow> string \<Rightarrow> int \<Rightarrow> SearchHit list
   \<Rightarrow> ('x world, goerr, SearchHit list \<times> string) prog" where
  "rerank_stage D reranker q topK hits =
     (case reranker of
        None \<Rightarrow> ret (hits, ''off'')
      | Some rm \<Rightarrow>
          bnd (attempt (rerankHitsFn (sd_Net D) (sd_Exp D) rm q hits topK)) (\<lambda>r.
          case r of
            Inl e \<Rightarrow> ret (hits, ''degraded'')
          | Inr (hs, status) \<Rightarrow> ret (hs, if rs_Applied status then ''applied'' else ''degraded'')))"

text \<open>From the pool to the reply.\<close>

definition search_answer ::
  "('x, 'f) search_deps \<Rightarrow> search_settings \<Rightarrow> 'f searchRequest \<Rightarrow> string list \<Rightarrow> int \<Rightarrow> RerankModel option
   \<Rightarrow> string \<Rightarrow> 'f sql_arg list \<Rightarrow> ('x, string \<times> searchHit list) handler" where
  "search_answer D S b sc topK reranker mf ma =
     bnd (search_pool D S (sq_Query b) (request_targets b) sc topK reranker mf ma) (\<lambda>pool.
     case pool of
       Inl (code, e) \<Rightarrow> writeDetail code (error_text e)
     | Inr hits \<Rightarrow>
         bnd (rerank_stage D reranker (sq_Query b) topK hits) (\<lambda>(hs, state).
         WriteJSON 200 (state, map search_hit (take (nat topK) hs))))"

definition resolve_request :: "'f searchRequest \<Rightarrow> RerankResolveRequest" where
  "resolve_request b = \<lparr>rr_SingleCollection = singleTarget (request_targets b), rr_Rerank = sq_Rerank b,
     rr_RerankModelID = deref (sq_RerankModelID b)\<rparr>"

definition handleSearch ::
  "('x, 'f) search_deps \<Rightarrow> search_settings \<Rightarrow> ApiKey option \<Rightarrow> 'f searchRequest option
   \<Rightarrow> ('x, string \<times> searchHit list) handler" where
  "handleSearch D S key body =
     (case body of
        None \<Rightarrow> writeDetail 422 ''invalid JSON body''
      | Some b \<Rightarrow>
          if trim_space (sq_Query b) = [] then writeDetail 422 ''field required: query''
          else case effective_topK S (sq_TopK b) of
            None \<Rightarrow> writeDetail 422 ''top_k must be >= 1''
          | Some topK \<Rightarrow>
              (case BuildMetadataFilter (sd_Floats D) (sq_MetadataFilter b) of
                 Inl e \<Rightarrow> writeDetail 422 (error_text e)
               | Inr (mf, ma) \<Rightarrow>
                   bnd (attempt (ResolveRerankModel (resolve_request b))) (\<lambda>rr.
                   case rr of
                     Inl e \<Rightarrow>
                       if e = ErrRerankModelUnknown then writeDetail 404 ''rerank model not found''
                       else writeDetail 422 (error_text e)
                   | Inr reranker \<Rightarrow> search_answer D S b (key_scope key) topK reranker mf ma)))"

section \<open>What a reply shows\<close>

text \<open>A chunk a key may see through a filter; the two templates differ in their own parameters.\<close>

definition visible :: "'f engine \<Rightarrow> string list \<Rightarrow> string \<Rightarrow> 'f sql_arg list \<Rightarrow> tables \<Rightarrow> string \<Rightarrow> bool" where
  "visible E sc mf ma t i \<longleftrightarrow>
     (\<exists>c \<in> set (chunks t). c_ID c = i \<and> \<not> c_IsParent c \<and> in_scope sc c \<and> (meta_ok E mf ma 5 t c \<or> meta_ok E mf ma 6 t c))"

lemma allowed_visible: "allowed E cols sc mf ma t h \<Longrightarrow> visible E sc mf ma t (h_ChunkID h)"
  unfolding allowed_def visible_def by blast

lemma ranked_mem: "(c, i) \<in> set (ranked cs) \<Longrightarrow> c \<in> set cs"
  by (auto simp: ranked_def dest: set_zip_leftD)

lemma joined_mem: "(c, d, b) \<in> set (joined ds bs) \<Longrightarrow> c \<in> fst ` set ds \<union> fst ` set bs"
  by (force simp: joined_def image_iff)

definition engine_ok :: "'f engine \<Rightarrow> bool" where
  "engine_ok E \<longleftrightarrow> selects E \<and> (\<forall>xs. set (scan E xs) \<subseteq> set xs)"

lemma hybrid_visible:
  assumes "HybridSearch E v d col sc q limit mf ma w = (Inr hs, w')" "engine_ok E" "h \<in> set hs"
  shows "visible E sc mf ma (db w) (h_ChunkID h)"
proof -
  let ?t = "db w"
  define rows where "rows = filter (\<lambda>c. one_collection col sc c \<and> meta_ok E mf ma 6 ?t c) (chunks ?t)"
  define ds where "ds = take (nat limit) (ranked (nearest E d v (filter (has_dims d) rows)))"
  define bs where "bs = take (nat limit) (scan E (ranked (bm25 E (if q = [] then ''*'' else q) rows)))"
  have hs: "hs = hybrid_hits ?t (nat limit) ds bs"
    using assms(1) unfolding ds_def bs_def rows_def
    by (auto simp: HybridSearch_def Let_def mapping_dims_def bnd_def attempt_def pool_stmt_def next_fault_def run_stmt_def
        raise_def ret_def split: option.splits prod.splits sum.splits if_splits)
  obtain c i b where c: "(c, i, b) \<in> set (joined ds bs)" "hit_of ?t (rrf_score i b) c = Some h"
    using assms(3) unfolding hs hybrid_hits_def by (auto simp: List.map_filter_def dest!: in_set_takeD)
  have sel: "set (nearest E d v cs) \<subseteq> set cs" "set (bm25 E q' cs) \<subseteq> set cs" "set (scan E xs) \<subseteq> set xs" for cs q' xs
    using assms(2) by (simp_all add: engine_ok_def selects_def)
  have rk: "fst ` set (ranked cs) \<subseteq> set cs" for cs using ranked_mem by fastforce
  have "set ds \<subseteq> set (ranked (nearest E d v (filter (has_dims d) rows)))" unfolding ds_def by (rule set_take_subset)
  then have "fst ` set ds \<subseteq> set (nearest E d v (filter (has_dims d) rows))" using rk by blast
  then have "fst ` set ds \<subseteq> set rows" using sel(1) filter_is_subset by fast
  moreover have "set bs \<subseteq> set (ranked (bm25 E (if q = [] then ''*'' else q) rows))"
    unfolding bs_def using set_take_subset sel(3) by fast
  then have "fst ` set bs \<subseteq> set rows" using rk sel(2) by blast
  ultimately have "c \<in> set rows" using joined_mem[OF c(1)] by blast
  moreover have "c_ID c = h_ChunkID h" using c(2) by (auto simp: hit_of_def)
  ultimately show ?thesis unfolding rows_def one_collection_def visible_def by auto
qed

lemma outside_keeps_db: "outside m \<Longrightarrow> m w = (r, w') \<Longrightarrow> db w' = db w"
  unfolding outside_def by (metis snd_conv)

lemma outside_splits:
  "(\<And>e. outside (f e)) \<Longrightarrow> (\<And>x. outside (g x)) \<Longrightarrow> outside (case v of Inl e \<Rightarrow> f e | Inr x \<Rightarrow> g x)"
  "(\<And>a b. outside (h a b)) \<Longrightarrow> outside (case p of (a, b) \<Rightarrow> h a b)"
  "outside m1 \<Longrightarrow> outside m2 \<Longrightarrow> outside (if c then m1 else m2)"
  "(\<And>x. outside (k x)) \<Longrightarrow> (\<And>e. outside (l e)) \<Longrightarrow> outside (case st of Final x \<Rightarrow> k x | Again e \<Rightarrow> l e)"
  "outside m1 \<Longrightarrow> (\<And>x xs. outside (n x xs)) \<Longrightarrow> outside (case ys of [] \<Rightarrow> m1 | x # xs \<Rightarrow> n x xs)"
  "(\<And>x. outside (q x)) \<Longrightarrow> outside (let x = z in q x)"
  by (simp_all add: Let_def split: sum.splits prod.splits step.splits list.splits)

lemma outside_attempt: "outside m \<Longrightarrow> outside (attempt m)"
  by (simp add: outside_def attempt_apply)

lemmas outsides = outside_base outside_bnd outside_case outside_splits outside_attempt

lemma outside_ladder:
  assumes "outside_net N"
  shows "outside (embed_ladder N rq width n delay lastErr c)"
proof (induction n arbitrary: delay lastErr c)
  case 0
  show ?case by (simp only: embed_ladder.simps outsides)
next
  case (Suc n)
  have o: "outside (n_Do N rq)" "outside (n_Rand N k)" "outside (n_Sleep N t)" for rq k t
    using outside_netD[OF assms] by blast+
  show ?case unfolding embed_ladder.simps backoff_wait_def by (intro outsides o Suc)
qed

lemma embedForModel_outside:
  assumes "outside_net N"
  shows "outside (embedForModelFn N m asked)"
  unfolding embedForModelFn_def Embed_def by (intro outsides outside_ladder assms)

lemma Rerank_outside:
  assumes "outside_net N"
  shows "outside (RerankHits N Exp c q hits topK)"
proof -
  have "outside (n_Do N rq)" for rq using outside_netD[OF assms] by blast
  then show ?thesis unfolding RerankHits_def Rerank_def by (intro outsides)
qed

text \<open>The rerank stage only shows hits of the pool.\<close>

lemma RerankHits_mem:
  assumes "RerankHits N Exp c q hits topK w = (Inr (hs, st), w')" "h \<in> set hs"
  shows "h_ChunkID h \<in> h_ChunkID ` set hits"
proof -
  have "fst ` set (rerank_order hits scores) = set hits" for scores
    using mset_eq_setD[OF rerank_order_facts(3)[of hits scores]] by simp
  then have "g \<in> set (map reranked (take n (rerank_order hits scores))) \<Longrightarrow> h_ChunkID g \<in> h_ChunkID ` set hits" for g n scores
    by (auto simp: reranked_def dest!: in_set_takeD) (metis fst_conv image_eqI)
  then show ?thesis using assms
    by (auto simp: RerankHits_def Let_def bnd_def attempt_def ret_def split: if_splits prod.splits sum.splits dest: in_set_takeD)
qed

lemma rerank_stage_mem:
  assumes "rerank_stage D reranker q topK hits w = (Inr (hs, st), w')" "h \<in> set hs"
  shows "h_ChunkID h \<in> h_ChunkID ` set hits"
  using assms RerankHits_mem
  by (auto simp: rerank_stage_def rerankHitsFn_def bnd_def attempt_def ret_def
      split: option.splits prod.splits sum.splits)

lemma search_pool_visible:
  assumes "search_pool D S q targets sc topK reranker mf ma w = (Inr (Inr hits), w')" "engine_ok (sd_Engine D)"
    "outside_net (sd_Net D)" "\<And>m. mset (sd_Shuffle D m) = mset m" "h \<in> set hits"
  shows "visible (sd_Engine D) sc mf ma (db w) (h_ChunkID h)"
proof (cases "\<exists>t. targets = [t]")
  case True
  then obtain t where t: "targets = [t]" by blast
  obtain r w1 where e: "embedQueryFn (sd_Net D) t q w = (r, w1)" by fastforce
  then obtain vec m where r: "r = Inr (vec, m)" using assms(1) t
    by (auto simp: search_pool_def bnd_attempt ret_def split: sum.splits)
  let ?n = "if reranker \<noteq> None \<and> topK < RerankCandidates S then RerankCandidates S else topK"
  obtain x w2 where h: "HybridSearch (sd_Engine D) vec (em_VectorDim m) t sc q ?n mf ma w1 = (x, w2)" by fastforce
  have "x = Inr hits" using assms(1) t e r h
    by (simp add: search_pool_def bnd_attempt ret_def Let_def split: sum.splits)
  moreover have "outside (embedQueryFn (sd_Net D) t q)"
    unfolding embedQueryFn_def ResolveCollectionModel_def pool_stmt_def
    by (intro outsides embedForModel_outside assms(3)) (simp_all add: outside_def next_fault_def run_stmt_def)
  then have "db w1 = db w" using outside_keeps_db e by blast
  ultimately show ?thesis using hybrid_visible[OF _ assms(2,5)] h by metis
next
  case False
  then have sp: "search_pool D S q targets sc topK reranker mf ma =
     bnd (attempt (MultiHybridSearch (sd_Engine D) (sd_Shuffle D) q targets sc topK mf ma (\<lambda>m. embedForModelFn (sd_Net D) m q)))
       (\<lambda>h. ret (case h of Inl e \<Rightarrow> Inl (500, e) | Inr hs \<Rightarrow> Inr hs))"
    by (auto simp: search_pool_def split: list.splits)
  obtain x w2 where h: "MultiHybridSearch (sd_Engine D) (sd_Shuffle D) q targets sc topK mf ma
      (\<lambda>m. embedForModelFn (sd_Net D) m q) w = (x, w2)" by fastforce
  have "x = Inr hits" using assms(1) h unfolding sp by (simp add: bnd_attempt ret_def split: sum.splits)
  note run = h[unfolded this]
  have "selects (sd_Engine D)" using assms(2) by (simp add: engine_ok_def)
  note al = multi_allowed[OF run this embedForModel_outside[OF assms(3)] assms(4,5)]
  show ?thesis by (rule allowed_visible[OF al])
qed

lemma search_answer_visible:
  assumes "search_answer D S b sc topK reranker mf ma w = (Inr (Answer code (state, out)), w')" "engine_ok (sd_Engine D)"
    "outside_net (sd_Net D)" "\<And>m. mset (sd_Shuffle D m) = mset m"
  shows "\<forall>x \<in> set out. visible (sd_Engine D) sc mf ma (db w) (sh_ChunkID x)" "length out \<le> nat topK"
proof -
  obtain p w1 where p: "search_pool D S (sq_Query b) (request_targets b) sc topK reranker mf ma w = (p, w1)" by fastforce
  obtain hits where h: "p = Inr (Inr hits)"
  proof (cases p)
    case (Inr x)
    then show ?thesis using assms(1) p that
      by (cases x) (auto simp: search_answer_def bnd_Inr[where m = "search_pool D S (sq_Query b) (request_targets b) sc topK reranker mf ma", OF p[unfolded Inr]] writeDetail_no_answer split: prod.splits)
  qed (use assms(1) p in \<open>simp add: search_answer_def bnd_def\<close>)
  obtain s w2 where s: "rerank_stage D reranker (sq_Query b) topK hits w1 = (s, w2)" by fastforce
  have "\<exists>hs. s = Inr (hs, state) \<and> out = map search_hit (take (nat topK) hs)"
    using assms(1) s unfolding search_answer_def bnd_Inr[where m = "search_pool D S (sq_Query b) (request_targets b) sc topK reranker mf ma", OF p[unfolded h]]
    by (auto simp: bnd_def WriteJSON_def split: sum.splits)
  then obtain hs where hs: "s = Inr (hs, state)" "out = map search_hit (take (nat topK) hs)" by blast
  show "length out \<le> nat topK" using hs(2) by simp
  show "\<forall>x \<in> set out. visible (sd_Engine D) sc mf ma (db w) (sh_ChunkID x)"
  proof
    fix x assume "x \<in> set out"
    then obtain g where g: "g \<in> set hs" "x = search_hit g" using hs(2) by (auto dest: in_set_takeD)
    obtain g' where "g' \<in> set hits" "h_ChunkID g = h_ChunkID g'" using rerank_stage_mem[OF s[unfolded hs(1)] g(1)] by blast
    then show "visible (sd_Engine D) sc mf ma (db w) (sh_ChunkID x)"
      using search_pool_visible[OF p[unfolded h] assms(2-4)] g(2) by (simp add: search_hit_def)
  qed
qed

text \<open>
  C33. The search endpoint shows a key nothing outside its collections, on either search path and
  with or without reranking: every hit of a reply is a child chunk in the key's scope that
  satisfies the request's metadata filter, and there are no more hits than the configured maximum.
\<close>

theorem handleSearch_scoped:
  assumes "handleSearch D S key (Some b) w = (Inr (Answer code (state, out)), w')"
    and "engine_ok (sd_Engine D)" "outside_net (sd_Net D)" "\<And>m. mset (sd_Shuffle D m) = mset m"
  shows "\<exists>mf ma. BuildMetadataFilter (sd_Floats D) (sq_MetadataFilter b) = Inr (mf, ma)
    \<and> (\<forall>h \<in> set out. visible (sd_Engine D) (key_scope key) mf ma (db w) (sh_ChunkID h))
    \<and> int (length out) \<le> max 0 (SearchMaxTopK S)"
proof -
  have nd: "writeDetail c m v \<noteq> (Inr (Answer code (state, out)), w')" for c m v by (rule writeDetail_no_answer)
  have q: "trim_space (sq_Query b) \<noteq> []" using assms(1) nd by (auto simp: handleSearch_def)
  obtain topK where k: "effective_topK S (sq_TopK b) = Some topK"
    using assms(1) nd q by (cases "effective_topK S (sq_TopK b)") (auto simp: handleSearch_def)
  obtain mf ma where f: "BuildMetadataFilter (sd_Floats D) (sq_MetadataFilter b) = Inr (mf, ma)"
    using assms(1) nd q k by (cases "BuildMetadataFilter (sd_Floats D) (sq_MetadataFilter b)") (auto simp: handleSearch_def)
  obtain r w1 where r: "ResolveRerankModel (resolve_request b) w = (r, w1)" by fastforce
  have run: "(case r of Inl e \<Rightarrow> if e = ErrRerankModelUnknown then writeDetail 404 ''rerank model not found''
        else writeDetail 422 (error_text e)
      | Inr reranker \<Rightarrow> search_answer D S b (key_scope key) topK reranker mf ma) w1 = (Inr (Answer code (state, out)), w')"
    using assms(1) q k f by (simp add: handleSearch_def bnd_attempt[where m = "ResolveRerankModel (resolve_request b)", OF r])
  then obtain reranker where rr: "r = Inr reranker" using nd by (cases r) (auto split: if_splits)
  have "outside (ResolveRerankModel (resolve_request b))"
    unfolding ResolveRerankModel_def none_resolved_def GetRerankModel_def ResolveCollectionReranker_def pool_stmt_def
    by (intro outsides) (simp_all add: outside_def next_fault_def run_stmt_def)
  then have d: "db w1 = db w" using outside_keeps_db r by blast
  have ans: "search_answer D S b (key_scope key) topK reranker mf ma w1 = (Inr (Answer code (state, out)), w')"
    using run rr by simp
  note v = search_answer_visible[OF ans assms(2-4)]
  have "topK \<le> SearchMaxTopK S" using k by (auto simp: effective_topK_def Let_def split: if_splits)
  then have "int (length out) \<le> max 0 (SearchMaxTopK S)" using v(2) by linarith
  then show ?thesis using f v(1) d by auto
qed

section \<open>An instance\<close>

text \<open>A key for the collection \<open>c\<close> searches everything.\<close>

definition quiet_net' :: "unit world net" where
  "quiet_net' = \<lparr>n_Do = (\<lambda>rq. ret (NoReply [])), n_BadURL = (\<lambda>_. None), n_Rand = (\<lambda>_. ret 0),
     n_Sleep = (\<lambda>_. ret ()), n_Float64 = (\<lambda>_. Some 0), n_Float32 = id, n_DecodeError = (\<lambda>_. []), n_Sprint = (\<lambda>_. [])\<rparr>"

definition sample_search :: "(unit, int) search_deps" where
  "sample_search = \<lparr>sd_Engine = sample_engine, sd_Shuffle = id, sd_Net = quiet_net', sd_Exp = id,
     sd_Floats = \<lparr>ParseFloat = \<lambda>s. None, float_of_int = id, sprint_q = id\<rparr>\<rparr>"

definition sample_asked :: "int searchRequest" where
  "sample_asked = \<lparr>sq_Query = ''q'', sq_Collection = None, sq_Collections = [''c'', ''z''], sq_TopK = 5, sq_Rerank = None,
     sq_RerankModelID = None, sq_MetadataFilter = []\<rparr>"

lemma handleSearch_scoped_witness:
  "visible sample_engine [''c''] [] [] (db sample_library) ''x''"
proof -
  define S where "S = \<lparr>SearchDefaultTopK = 10, SearchMaxTopK = 50, RerankCandidates = 30\<rparr>"
  define k where "k = new_key ''k'' ''n'' [] [''search''] [''c''] None 0"
  define h where "h = (sample_hit ''x'')\<lparr>h_Text := ''t'', h_Score := BM25Weight / (RRFK + 1)\<rparr>"
  have t: "trim_space ''q'' \<noteq> []" by code_simp
  have b: "BuildMetadataFilter (sd_Floats sample_search) (sq_MetadataFilter sample_asked) = Inr ([], [])"
    by (simp add: BuildMetadataFilter_def sample_asked_def)
  have k: "effective_topK S (sq_TopK sample_asked) = Some 5" by (simp add: effective_topK_def S_def sample_asked_def)
  have r: "ResolveRerankModel (resolve_request sample_asked) sample_library = (Inr None, sample_library)"
    by (simp add: ResolveRerankModel_def resolve_request_def sample_asked_def request_targets_def singleTarget_def deref_def
        none_resolved_def)
  have sc: "key_scope (Some k) = [''c'']" by (simp add: key_scope_def k_def new_key_def)
  have m: "MultiHybridSearch sample_engine id ''q'' [''c'', ''z''] [''c''] 5 [] [] emb sample_library
      = (Inr [h], sample_library\<lparr>nstmt := 2\<rparr>)" for emb
    by (simp add: MultiHybridSearch_def search_targets_def GetModelsByCollectionIDs_def HybridBMSearch_def leg_query_def
        mapping_dims_def bnd_def attempt_def pool_stmt_def next_fault_def run_stmt_def sample_library_def empty_tables_def
        bound_model_def sample_engine_def bm25_rows_def sample_chunk_def in_scope_def meta_ok_def List.map_filter_def hit_of_def
        sample_doc_def fuse_legs_def addLeg_def add_hit_def h_def sample_hit_def Let_def)
  have a: "search_answer sample_search S sample_asked [''c''] 5 None [] [] sample_library
      = (Inr (Answer 200 (''off'', [search_hit h])), sample_library\<lparr>nstmt := 2\<rparr>)"
    by (simp add: search_answer_def search_pool_def request_targets_def sample_asked_def sample_search_def bnd_def attempt_def m
        rerank_stage_def WriteJSON_def)
  have run: "handleSearch sample_search S (Some k) (Some sample_asked) sample_library
      = (Inr (Answer 200 (''off'', [search_hit h])), sample_library\<lparr>nstmt := 2\<rparr>)"
    using t b k r sc a
    by (simp add: handleSearch_def bnd_attempt[where m = "ResolveRerankModel (resolve_request sample_asked)", OF r])
      (simp add: sample_asked_def)
  have o: "engine_ok (sd_Engine sample_search)" "outside_net (sd_Net sample_search)" "\<And>m. mset (sd_Shuffle sample_search m) = mset m"
    by (simp_all add: engine_ok_def selects_def sample_engine_def sample_search_def outside_net_def quiet_net'_def outside_def)
  show ?thesis using handleSearch_scoped[OF run o] b sc by (simp add: search_hit_def h_def sample_hit_def sample_search_def)
qed

end
