(* ===== verification/Uploads.thy ===== *)
theory Uploads
  imports Schema Keys
begin

text \<open>
  Presigned uploads and their commit (\<open>handlePresign\<close>, \<open>handleCommit\<close>, \<open>verifyRawObject\<close> of
  \<open>internal/api/documents.go\<close>, \<open>verifyNonPDF\<close> of \<open>internal/api/ingest.go\<close>).  The object store,
  Redis, the random source, temporary files, the PDF library and the zip reader are the
  parameter \<open>D\<close>.
\<close>

section \<open>Dependencies\<close>

record api_settings =
  MaxParseBacklog :: int
  MaxDocumentPages :: int
  MaxNonPdfBytes :: int
  RawBucket :: string

text \<open>
  A body is the bytes it delivers and the error it fails with behind them, if it does not end.  The
  temporary file's calls are split as the two handlers use them: creating a directory and a file,
  writing, closing, and reading back what was written.
\<close>

type_synonym body = "string \<times> goerr option"

record 'x api_deps =
  Settings :: api_settings
  Broker :: "'x redis_ops"
  RandomBytes :: "'x \<Rightarrow> Hashes.byte list \<times> 'x"
  PresignPut :: "string \<Rightarrow> string \<Rightarrow> ('x world, goerr, string) prog"
  GetReader :: "string \<Rightarrow> string \<Rightarrow> ('x world, goerr, body) prog"
  UploadFile :: "string \<Rightarrow> string \<Rightarrow> string \<Rightarrow> string \<Rightarrow> ('x world, goerr, unit) prog"
  IngestDir :: "('x world, goerr, unit) prog"
  CreateTemp :: "('x world, goerr, unit) prog"
  WriteTemp :: "string \<Rightarrow> ('x world, goerr, unit) prog"
  CloseTemp :: "('x world, goerr, unit) prog"
  ReadTemp :: "string \<Rightarrow> goerr + string"
  ZipMembers :: "string \<Rightarrow> goerr + nat"
  Pdf :: pdf_lib

section \<open>Identifiers\<close>

text \<open>\<open>newUUID\<close>: a random UUID of version 4.\<close>

definition uuid_groups :: "string \<Rightarrow> string" where
  "uuid_groups h = substr 0 8 h @ ''-'' @ substr 8 12 h @ ''-'' @ substr 12 16 h @ ''-'' @ substr 16 20 h @ ''-''
     @ substr 20 32 h"

definition uuid_v4 :: "Hashes.byte list \<Rightarrow> string" where
  "uuid_v4 b0 =
     (let b1 = b0[6 := (b0 ! 6 AND 0x0f) OR 0x40];
          b2 = b1[8 := (b1 ! 8 AND 0x3f) OR 0x80]
      in uuid_groups (hex b2))"

definition newUUID :: "'x api_deps \<Rightarrow> ('x world, goerr, string) prog" where
  "newUUID D = on_ext (\<lambda>x. let (b, x') = RandomBytes D x in (Inr (uuid_v4 b), x'))"

section \<open>Verification\<close>

text \<open>\<open>io.ReadFull\<close> on a buffer of \<open>n\<close> bytes: \<open>None\<close> is an error other than \<open>ErrUnexpectedEOF\<close>.\<close>

definition read_full :: "nat \<Rightarrow> body \<Rightarrow> string option" where
  "read_full n b =
     (let (bytes, fails) = b
      in if n \<le> length bytes then Some (take n bytes)
         else if fails \<noteq> None \<or> bytes = [] then None else Some bytes)"

text \<open>The table for the formats that are not PDF; \<open>None\<close> is a file that passes.\<close>

definition verifyNonPDF :: "'x api_deps \<Rightarrow> Format \<Rightarrow> string \<Rightarrow> string option" where
  "verifyNonPDF D f path =
     (if f \<in> {FmtEPUB, FmtDOCX, FmtPPTX, FmtXLSX} then
        (case ZipMembers D path of
           Inl e \<Rightarrow> Some (''unreadable '' @ Ext f @ '': '' @ error_text e)
         | Inr n \<Rightarrow> if n = 0 then Some (''empty '' @ Ext f @ '' container'') else None)
      else if f \<in> {FmtTXT, FmtMD, FmtHTML} then
        (case ReadTemp D path of
           Inl e \<Rightarrow> Some (''unreadable '' @ Ext f @ '': '' @ error_text e)
         | Inr b \<Rightarrow>
             if b = [] then Some (''empty '' @ Ext f @ '' file'')
             else if \<not> valid_utf8 b then Some (Ext f @ '' file is not valid UTF-8'')
             else if f = FmtHTML \<and> CHR ''<'' \<notin> set b then Some ''html file contains no markup''
             else None)
      else Some ''unsupported format'')"

definition errObjectNotUploaded :: goerr where "errObjectNotUploaded = Plain ''object not uploaded''"
definition errObjectNotPDF :: goerr where "errObjectNotPDF = Plain ''uploaded object is not an ingestible file''"
definition errSHAMismatch :: goerr where "errSHAMismatch = Plain ''content_sha256 mismatch''"
definition errTooLarge :: goerr where "errTooLarge = Plain ''uploaded object too large to verify''"

definition errUnreadablePDF :: "string \<Rightarrow> goerr" where
  "errUnreadablePDF msg = Plain (''unreadable PDF: '' @ msg)"

definition errOverCap :: "int \<Rightarrow> int \<Rightarrow> goerr" where
  "errOverCap pages cap = Plain (itoa pages @ '' pages over cap '' @ itoa cap)"

text \<open>The rest of the body, read in buffers of 64 KB; the limit is checked after every buffer.\<close>

function read_rest :: "int \<Rightarrow> bool \<Rightarrow> string \<Rightarrow> string \<Rightarrow> goerr + string" where
  "read_rest cap fails acc rest =
     (if rest = [] then (if fails then Inl errObjectNotUploaded else Inr acc)
      else let acc' = acc @ take 65536 rest
           in if cap < int (length acc') then Inl errTooLarge else read_rest cap fails acc' (drop 65536 rest))"
  by pat_completeness auto
termination
  by (relation "measure (\<lambda>(cap, fails, acc, rest). length rest)") auto

declare read_rest.simps [simp del]

definition body_cap :: "api_settings \<Rightarrow> Format \<Rightarrow> int" where
  "body_cap S f = (if f = FmtPDF then MaxDocumentPages S * 40 * 1024 else MaxNonPdfBytes S)"

definition verified_pages :: "'x api_deps \<Rightarrow> Format \<Rightarrow> string \<Rightarrow> ('x world, goerr, int) prog" where
  "verified_pages D f bytes =
     (if f \<noteq> FmtPDF then
        bnd (CreateTemp D) (\<lambda>_.
        bnd (WriteTemp D bytes) (\<lambda>_.
        bnd (CloseTemp D) (\<lambda>_.
        case verifyNonPDF D f bytes of Some m \<Rightarrow> raise (errUnreadablePDF m) | None \<Rightarrow> ret 1)))
      else case PageCountBytes (Pdf D) bytes of
             Inl e \<Rightarrow> raise (errUnreadablePDF (error_text e))
           | Inr n \<Rightarrow>
               if MaxDocumentPages (Settings D) < n then raise (errOverCap n (MaxDocumentPages (Settings D))) else ret n)"

definition verifyRawObject :: "'x api_deps \<Rightarrow> string \<Rightarrow> string \<Rightarrow> ('x world, goerr, int \<times> Format) prog" where
  "verifyRawObject D rawKey clientSHA =
     bnd (attempt (GetReader D (RawBucket (Settings D)) rawKey)) (\<lambda>r.
     case r of
       Inl e \<Rightarrow> raise errObjectNotUploaded
     | Inr (bytes, fails) \<Rightarrow>
         (case read_full 64 (bytes, fails) of
            None \<Rightarrow> raise errObjectNotUploaded
          | Some head \<Rightarrow>
              (case DetectFormat head rawKey of
                 Inl e \<Rightarrow> raise errObjectNotPDF
               | Inr f \<Rightarrow>
                   (case read_rest (body_cap (Settings D) f) (fails \<noteq> None) head (drop 64 bytes) of
                      Inl e \<Rightarrow> raise e
                    | Inr b \<Rightarrow>
                        if hex (sha256 (bytes_of b)) \<noteq> to_lower clientSHA then raise errSHAMismatch
                        else bnd (verified_pages D f b) (\<lambda>n. ret (n, f))))))"

section \<open>Presign and commit\<close>

definition handlePresign :: "'x api_deps \<Rightarrow> (string \<times> int) option \<Rightarrow> ('x, string \<times> string) handler" where
  "handlePresign D b =
     (case b of
        None \<Rightarrow> writeDetail 422 ''invalid JSON body''
      | Some req \<Rightarrow>
          bnd (newUUID D) (\<lambda>docID.
          or_fail 500 ''presign failed: '' (PresignPut D (RawBucket (Settings D)) (RawKey docID)) (\<lambda>url.
          WriteJSON 200 (docID, url))))"

record commitRequest =
  cr_CollectionID :: string
  cr_ContentSHA256 :: string
  cr_Title :: "string option"
  cr_Author :: "string option"
  cr_Metadata :: "payload option"

definition keyName :: "ApiKey option \<Rightarrow> string option" where
  "keyName k = (case k of None \<Rightarrow> None | Some key \<Rightarrow> ak_Name key)"

definition source_uri :: "api_settings \<Rightarrow> string \<Rightarrow> string" where
  "source_uri S docID = ''s3://'' @ RawBucket S @ ''/'' @ RawKey docID"

definition committed_doc ::
  "api_settings \<Rightarrow> ApiKey option \<Rightarrow> string \<Rightarrow> commitRequest \<Rightarrow> int \<Rightarrow> Format \<Rightarrow> Document" where
  "committed_doc S key docID b pageCount f =
     \<lparr>d_ID = docID, d_CollectionID = Some (cr_CollectionID b), d_Title = cr_Title b, d_Author = cr_Author b,
      d_Filename = None, d_ByteSize = None, d_SourceURI = source_uri S docID,
      d_ContentSHA256 = cr_ContentSHA256 b, d_PageCount = Some pageCount, d_MimeType = Some (MimeType f),
      d_State = StateUploaded, d_ErrorCode = None, d_ErrorDetail = None, d_TotalShards = None, d_ShardsDone = 0,
      d_ShardsFailed = 0, d_ChunkCount = None, d_Completeness = None,
      d_Metadata = (case cr_Metadata b of None \<Rightarrow> [] | Some m \<Rightarrow> m), d_UploadedBy = keyName key,
      d_CreatedAt = 0, d_UpdatedAt = 0, d_ReadyAt = None\<rparr>"

definition split_job :: "api_settings \<Rightarrow> string \<Rightarrow> SplitJob" where
  "split_job S docID = \<lparr>sj_SchemaVersion = SchemaVersion, sj_DocID = docID, sj_SourceURI = source_uri S docID\<rparr>"

definition over_backlog :: "int \<Rightarrow> string" where
  "over_backlog n = ''parse backlog '' @ itoa n @ '' over cap; retry later''"

definition commit_verified ::
  "'x api_deps \<Rightarrow> ApiKey option \<Rightarrow> string \<Rightarrow> commitRequest \<Rightarrow> int \<Rightarrow> Format \<Rightarrow> ('x, string \<times> string) handler" where
  "commit_verified D key docID b pageCount f =
     or500 (InsertDocument (committed_doc (Settings D) key docID b pageCount f)) (\<lambda>_.
     or_fail 500 ''enqueue split failed: ''
       (on_ext (XAddJob (Broker D) StreamSplit (split_fields (split_job (Settings D) docID)))) (\<lambda>_.
     WriteJSON 202 (docID, doc_state_text StateUploaded)))"

definition handleCommit ::
  "'x api_deps \<Rightarrow> ApiKey option \<Rightarrow> string \<Rightarrow> commitRequest option \<Rightarrow> ('x, string \<times> string) handler" where
  "handleCommit D key docID b0 =
     (if docID = [] \<or> \<not> isUUID docID then writeDetail 422 ''invalid doc_id''
      else case b0 of
        None \<Rightarrow> writeDetail 422 ''invalid JSON body''
      | Some b \<Rightarrow>
          if cr_CollectionID b = [] then writeDetail 422 ''field required: collection_id''
          else if length (cr_ContentSHA256 b) \<noteq> 64 then writeDetail 422 ''content_sha256 must be exactly 64 characters''
          else or_fail 500 ''queue depth read failed: '' (on_ext (QueueDepth (Broker D) StreamParse)) (\<lambda>backlog.
               if MaxParseBacklog (Settings D) < backlog then writeDetail 429 (over_backlog backlog)
               else or500 (FindDuplicate (cr_CollectionID b) (cr_ContentSHA256 b)) (\<lambda>dup.
               if dup \<noteq> None then writeDetail 409 ''duplicate document in collection''
               else or_fail 400 '''' (verifyRawObject D (RawKey docID) (cr_ContentSHA256 b)) (\<lambda>(pageCount, f).
               commit_verified D key docID b pageCount f))))"

section \<open>What a commit accepts\<close>

lemma read_rest_all:
  "read_rest cap fails acc rest =
     (if rest \<noteq> [] \<and> cap < int (length (acc @ rest)) then Inl errTooLarge
      else if fails then Inl errObjectNotUploaded else Inr (acc @ rest))"
proof (induction cap fails acc rest rule: read_rest.induct)
  case (1 cap fails acc rest)
  have split: "acc @ rest = (acc @ take 65536 rest) @ drop 65536 rest" by simp
  show ?case
  proof (cases "rest = []")
    case True
    then show ?thesis by (simp add: read_rest.simps)
  next
    case False
    have len: "length (acc @ take 65536 rest) \<le> length (acc @ rest)" by simp
    show ?thesis
    proof (cases "cap < int (length (acc @ take 65536 rest))")
      case True
      then have "cap < int (length (acc @ rest))" using len by linarith
      then show ?thesis using True \<open>rest \<noteq> []\<close> by (simp add: read_rest.simps[of cap fails acc rest] Let_def)
    next
      case small: False
      have "read_rest cap fails acc rest = read_rest cap fails (acc @ take 65536 rest) (drop 65536 rest)"
        using small False by (simp add: read_rest.simps[of cap fails acc rest] Let_def)
      also have "\<dots> = (if drop 65536 rest \<noteq> [] \<and> cap < int (length (acc @ rest)) then Inl errTooLarge
          else if fails then Inl errObjectNotUploaded else Inr (acc @ rest))"
        using 1[OF False refl] small split by metis
      also have "\<dots> = (if rest \<noteq> [] \<and> cap < int (length (acc @ rest)) then Inl errTooLarge
          else if fails then Inl errObjectNotUploaded else Inr (acc @ rest))"
        using small False by (cases "drop 65536 rest = []") auto
      finally show ?thesis .
    qed
  qed
qed

lemma read_full_take: "read_full n (bytes, fails) = Some head \<Longrightarrow> head = take n bytes"
  by (auto simp: read_full_def split: if_splits)

text \<open>The key of a raw object ends in \<open>.pdf\<close> whatever was uploaded.\<close>

lemma extFormat_RawKey: "extFormat (RawKey docID) = FmtPDF"
proof -
  have "file_ext (RawKey docID) = ''.pdf''" by (simp add: file_ext_def RawKey_def Let_def)
  moreover have "to_lower ''pdf'' = ''pdf''" by (rule to_lower_id) (simp add: Formats.lower_rune_def)
  ultimately show ?thesis by (simp add: extFormat_def trim_prefix_def has_prefix_def)
qed

definition outside_uploads :: "'x api_deps \<Rightarrow> bool" where
  "outside_uploads D \<longleftrightarrow> (\<forall>b k. outside (GetReader D b k)) \<and> outside (CreateTemp D) \<and> (\<forall>b. outside (WriteTemp D b))
     \<and> outside (CloseTemp D)"

lemma verified_pages_Inr:
  assumes "verified_pages D f bytes w = (Inr n, w')" "outside_uploads D"
  shows "db w' = db w" "n \<le> max 1 (MaxDocumentPages (Settings D))"
proof -
  have "outside (verified_pages D f bytes)"
    using assms(2) unfolding verified_pages_def outside_uploads_def
    by (auto intro!: outside_bnd outside_base split: option.splits sum.splits)
  then show "db w' = db w" using assms(1) unfolding outside_def by (metis snd_conv)
  show "n \<le> max 1 (MaxDocumentPages (Settings D))"
    using assms(1) unfolding verified_pages_def by (auto simp: bnd_eq_Inr split: if_splits option.splits sum.splits)
qed

lemma verifyRawObject_Inr:
  assumes "verifyRawObject D rawKey sha w = (Inr (n, f), w')" "outside_uploads D"
  obtains bytes w1 w2 where "GetReader D (RawBucket (Settings D)) rawKey w1 = (Inr (bytes, None), w2)"
    and "DetectFormat (take 64 bytes) rawKey = Inr f" "to_lower sha = hex (sha256 (bytes_of bytes))"
    and "int (length bytes) \<le> max 64 (body_cap (Settings D) f)"
    and "n \<le> max 1 (MaxDocumentPages (Settings D))" "db w' = db w"
proof -
  let ?get = "GetReader D (RawBucket (Settings D)) rawKey"
  obtain r w2 where g: "?get w = (r, w2)" by fastforce
  obtain body where r: "r = Inr body" using assms(1) g by (cases r) (auto simp: verifyRawObject_def bnd_attempt)
  obtain bytes fails where body: "body = (bytes, fails)" by fastforce
  have d: "db w2 = db w" using g assms(2) unfolding outside_uploads_def outside_def by (metis snd_conv)
  obtain head where head: "read_full 64 (bytes, fails) = Some head"
    using assms(1) g r body by (cases "read_full 64 (bytes, fails)") (auto simp: verifyRawObject_def bnd_attempt)
  note h = read_full_take[OF head]
  obtain f' where f': "DetectFormat head rawKey = Inr f'"
    using assms(1) g r body head by (cases "DetectFormat head rawKey") (auto simp: verifyRawObject_def bnd_attempt)
  obtain b where b: "read_rest (body_cap (Settings D) f') (fails \<noteq> None) head (drop 64 bytes) = Inr b"
    using assms(1) g r body head f'
    by (cases "read_rest (body_cap (Settings D) f') (fails \<noteq> None) head (drop 64 bytes)") (auto simp: verifyRawObject_def bnd_attempt)
  have whole: "b = bytes" "fails = None" and cap: "drop 64 bytes = [] \<or> int (length bytes) \<le> body_cap (Settings D) f'"
    using b by (auto simp: read_rest_all h split: if_splits)
  have run: "(if hex (sha256 (bytes_of b)) \<noteq> to_lower sha then raise errSHAMismatch
      else bnd (verified_pages D f' b) (\<lambda>n. ret (n, f'))) w2 = (Inr (n, f), w')"
    using assms(1) g r body head f' b by (simp add: verifyRawObject_def bnd_attempt)
  then have sha: "to_lower sha = hex (sha256 (bytes_of bytes))" "f' = f" and v: "verified_pages D f b w2 = (Inr n, w')"
    using whole by (auto simp: bnd_eq_Inr split: if_splits)
  show thesis
  proof (rule that)
    show "GetReader D (RawBucket (Settings D)) rawKey w = (Inr (bytes, None), w2)" using g r body whole by simp
    show "DetectFormat (take 64 bytes) rawKey = Inr f" using f' h sha by simp
    show "to_lower sha = hex (sha256 (bytes_of bytes))" by (rule sha)
    show "int (length bytes) \<le> max 64 (body_cap (Settings D) f)" using cap sha(2) by auto
    show "n \<le> max 1 (MaxDocumentPages (Settings D))" by (rule verified_pages_Inr(2)[OF v assms(2)])
    show "db w' = db w" using verified_pages_Inr(1)[OF v assms(2)] d by simp
  qed
qed

lemma detected_from_RawKey:
  "DetectFormat head (RawKey docID) = Inr f \<Longrightarrow> f \<in> {FmtPDF, FmtEPUB, FmtTXT, FmtHTML}"
  by (auto simp: DetectFormat_def extFormat_RawKey Let_def split: if_splits)

lemma InsertDocument_Inr:
  assumes "InsertDocument doc w = (Inr (), w')"
  obtains d where "db w' = (db w)\<lparr>documents := documents (db w) @ [d]\<rparr>" "d_ID d = d_ID doc" "d_State d = d_State doc"
    "d_ContentSHA256 d = d_ContentSHA256 doc" "d_CollectionID d = d_CollectionID doc" "d_PageCount d = None"
    "d_Filename d = None" "d_ID doc \<notin> d_ID ` set (documents (db w))"
  using assms unfolding InsertDocument_def by (fastforce simp: pool_stmt_Inr split: if_splits)

lemma query_keeps_db: "pool_stmt (query f) w = (r, w') \<Longrightarrow> db w' = db w"
  by (cases r) (auto dest: pool_stmt_Inl simp: pool_stmt_Inr)

text \<open>
  C34. A commit is acknowledged only for an object that is there as a whole, whose SHA-256 the
  client named up to letter case, whose size and page count are within the limits and whose
  sniffed format is one of PDF, EPUB, text and HTML (never an office format or Markdown, since the
  sniffer is given a file name ending in \<open>.pdf\<close>); then exactly one document row has been added, in
  state \<open>uploaded\<close> and under the client's own spelling of the hash, and its split job is queued.
\<close>

theorem handleCommit_accepts:
  assumes "handleCommit D key docID (Some b) w = (Inr (Answer code v), w')" "outside_uploads D"
  shows "code = 202 \<and> v = (docID, ''uploaded'')
    \<and> (\<exists>bytes f w1 w2. GetReader D (RawBucket (Settings D)) (RawKey docID) w1 = (Inr (bytes, None), w2)
         \<and> to_lower (cr_ContentSHA256 b) = hex (sha256 (bytes_of bytes))
         \<and> DetectFormat (take 64 bytes) (RawKey docID) = Inr f \<and> f \<in> {FmtPDF, FmtEPUB, FmtTXT, FmtHTML}
         \<and> int (length bytes) \<le> max 64 (body_cap (Settings D) f))
    \<and> (\<exists>d. db w' = (db w)\<lparr>documents := documents (db w) @ [d]\<rparr> \<and> d_ID d = docID \<and> d_State d = StateUploaded
         \<and> d_CollectionID d = Some (cr_CollectionID b) \<and> d_ContentSHA256 d = cr_ContentSHA256 b
         \<and> docID \<notin> d_ID ` set (documents (db w)))
    \<and> (\<exists>x mid. XAddJob (Broker D) StreamSplit (split_fields (split_job (Settings D) docID)) x = (Inr mid, ext w'))"
proof -
  have guards: "docID \<noteq> []" "isUUID docID" "cr_CollectionID b \<noteq> []" "length (cr_ContentSHA256 b) = 64"
    using assms(1) by (auto simp: handleCommit_def split: if_splits)
  then obtain backlog w1 where q: "on_ext (QueueDepth (Broker D) StreamParse) w = (Inr backlog, w1)"
    and r1: "(if MaxParseBacklog (Settings D) < backlog then writeDetail 429 (over_backlog backlog)
               else or500 (FindDuplicate (cr_CollectionID b) (cr_ContentSHA256 b)) (\<lambda>dup.
               if dup \<noteq> None then writeDetail 409 ''duplicate document in collection''
               else or_fail 400 '''' (verifyRawObject D (RawKey docID) (cr_ContentSHA256 b)) (\<lambda>(pageCount, f).
               commit_verified D key docID b pageCount f))) w1 = (Inr (Answer code v), w')"
    using assms(1) by (auto simp: handleCommit_def elim: or_fail_Answer)
  have "\<not> MaxParseBacklog (Settings D) < backlog" using r1 by (auto split: if_splits)
  then obtain dup w2 where fd: "FindDuplicate (cr_CollectionID b) (cr_ContentSHA256 b) w1 = (Inr dup, w2)"
    and r2: "(if dup \<noteq> None then writeDetail 409 ''duplicate document in collection''
               else or_fail 400 '''' (verifyRawObject D (RawKey docID) (cr_ContentSHA256 b)) (\<lambda>(pageCount, f).
               commit_verified D key docID b pageCount f)) w2 = (Inr (Answer code v), w')"
    using r1 by (auto simp: or500_def elim: or_fail_Answer)
  have "dup = None" using r2 by (auto split: if_splits)
  then obtain n f w3 where ver: "verifyRawObject D (RawKey docID) (cr_ContentSHA256 b) w2 = (Inr (n, f), w3)"
    and r3: "commit_verified D key docID b n f w3 = (Inr (Answer code v), w')"
    using r2 by (auto elim!: or_fail_Answer split: prod.splits)
  obtain w4 where ins: "InsertDocument (committed_doc (Settings D) key docID b n f) w3 = (Inr (), w4)"
    and r4: "or_fail 500 ''enqueue split failed: ''
       (on_ext (XAddJob (Broker D) StreamSplit (split_fields (split_job (Settings D) docID)))) (\<lambda>_.
     WriteJSON 202 (docID, doc_state_text StateUploaded)) w4 = (Inr (Answer code v), w')"
    using r3 unfolding commit_verified_def or500_def by (auto elim: or_fail_Answer)
  obtain mid w5 where add: "on_ext (XAddJob (Broker D) StreamSplit (split_fields (split_job (Settings D) docID))) w4 = (Inr mid, w5)"
    and r5: "WriteJSON 202 (docID, doc_state_text StateUploaded) w5 = (Inr (Answer code v), w')"
    using r4 by (rule or_fail_Answer)
  have w': "w' = w5" "code = 202" "v = (docID, ''uploaded'')" using r5 by (auto simp: WriteJSON_def)
  obtain x where x: "XAddJob (Broker D) StreamSplit (split_fields (split_job (Settings D) docID)) (ext w4) = (Inr mid, x)"
    "w5 = w4\<lparr>ext := x\<rparr>"
    using add by (auto simp: on_ext_def split: prod.splits)
  have d1: "db w1 = db w" using q by (auto simp: on_ext_def split: prod.splits)
  have d2: "db w2 = db w1" using fd unfolding FindDuplicate_def by (rule query_keeps_db)
  obtain bytes v1 v2 where bytes: "GetReader D (RawBucket (Settings D)) (RawKey docID) v1 = (Inr (bytes, None), v2)"
    "DetectFormat (take 64 bytes) (RawKey docID) = Inr f" "to_lower (cr_ContentSHA256 b) = hex (sha256 (bytes_of bytes))"
    "int (length bytes) \<le> max 64 (body_cap (Settings D) f)" "db w3 = db w2"
    using ver assms(2) by (rule verifyRawObject_Inr)
  obtain d where d: "db w4 = (db w3)\<lparr>documents := documents (db w3) @ [d]\<rparr>" "d_ID d = docID" "d_State d = StateUploaded"
    "d_ContentSHA256 d = cr_ContentSHA256 b" "d_CollectionID d = Some (cr_CollectionID b)"
    "docID \<notin> d_ID ` set (documents (db w3))"
    using ins by (rule InsertDocument_Inr) (simp add: committed_doc_def)
  have same: "db w3 = db w" using d1 d2 bytes(5) by simp
  show ?thesis
  proof (intro conjI)
    show "\<exists>bytes f w1 w2. GetReader D (RawBucket (Settings D)) (RawKey docID) w1 = (Inr (bytes, None), w2)
         \<and> to_lower (cr_ContentSHA256 b) = hex (sha256 (bytes_of bytes))
         \<and> DetectFormat (take 64 bytes) (RawKey docID) = Inr f \<and> f \<in> {FmtPDF, FmtEPUB, FmtTXT, FmtHTML}
         \<and> int (length bytes) \<le> max 64 (body_cap (Settings D) f)"
      using bytes detected_from_RawKey[OF bytes(2)] by blast
    show "\<exists>d. db w' = (db w)\<lparr>documents := documents (db w) @ [d]\<rparr> \<and> d_ID d = docID \<and> d_State d = StateUploaded
         \<and> d_CollectionID d = Some (cr_CollectionID b) \<and> d_ContentSHA256 d = cr_ContentSHA256 b
         \<and> docID \<notin> d_ID ` set (documents (db w))"
      using d w' x(2) same by (intro exI[where x = d]) simp
    show "\<exists>x mid. XAddJob (Broker D) StreamSplit (split_fields (split_job (Settings D) docID)) x = (Inr mid, ext w')"
      using x w'(1) by auto
  qed (use w' in simp_all)
qed

section \<open>An instance\<close>

definition sample_uploads :: "mem api_deps" where
  "sample_uploads = \<lparr>
     Settings = \<lparr>MaxParseBacklog = 10, MaxDocumentPages = 100, MaxNonPdfBytes = 1000, RawBucket = ''raw''\<rparr>,
     Broker = mem_redis, RandomBytes = (\<lambda>x. (replicate 16 0, x)), PresignPut = (\<lambda>b k. ret ''url''),
     GetReader = (\<lambda>b k. ret (''%PDF-1.4'', None)), UploadFile = (\<lambda>b k t c. ret ()), IngestDir = ret (),
     CreateTemp = ret (), WriteTemp = (\<lambda>b. ret ()), CloseTemp = ret (), ReadTemp = Inr, ZipMembers = (\<lambda>b. Inr 1),
     Pdf = damaged_lib\<lparr>ReadAndValidate := (\<lambda>b. Inr 3)\<rparr>\<rparr>"

definition sample_id :: string where
  "sample_id = ''00000000-0000-4000-8000-000000000000''"

definition sample_commit :: commitRequest where
  "sample_commit = \<lparr>cr_CollectionID = ''c'', cr_ContentSHA256 = hex (sha256 (bytes_of ''%PDF-1.4'')), cr_Title = None,
     cr_Author = None, cr_Metadata = None\<rparr>"

lemma hex_lower: "to_lower (hex bs) = hex bs"
proof (rule to_lower_id)
  have "byte (hex_char n) < 128 \<and> Formats.lower_rune (byte (hex_char n)) = byte (hex_char n)" if "n < 16" for n
    using that by (auto simp: hex_char_def Formats.lower_rune_def)
  moreover have "unat (b :: Hashes.byte) div 16 < 16" for b 
    using unsigned_less[of b, where 'a = nat] by (intro less_mult_imp_div_less) simp
  ultimately show "\<forall>c \<in> set (hex bs). byte c < 128 \<and> Formats.lower_rune (byte c) = byte c"
    by (auto simp: hex_def)
qed

lemma sample_uploads_sel [simp]:
  "Broker sample_uploads = mem_redis" "GetReader sample_uploads b k = ret (''%PDF-1.4'', None)"
  "RawBucket (Settings sample_uploads) = ''raw''" "MaxParseBacklog (Settings sample_uploads) = 10"
  "MaxDocumentPages (Settings sample_uploads) = 100" 
  "PageCountBytes (Pdf sample_uploads) b = Inr 3"
  by (simp_all add: sample_uploads_def PageCountBytes_def)

lemma sample_verified:
  "verifyRawObject sample_uploads k (cr_ContentSHA256 sample_commit) w = (Inr (3, FmtPDF), w)"
proof -
  have "DetectFormat ''%PDF-1.4'' k = Inr FmtPDF" by (simp add: DetectFormat_def has_prefix_def)
  then show ?thesis
    by (simp add: verifyRawObject_def bnd_attempt[OF ret_apply] read_full_def body_cap_def read_rest_all sample_commit_def hex_lower
        verified_pages_def)
qed

lemma sample_depth: "on_ext (QueueDepth mem_redis StreamParse) w = (Inr 0, w)" if "ext w = mem_empty"
  using that by (simp add: on_ext_def QueueDepth_def UndeliveredCount_def mem_redis_def mem_info_def mem_after_def mem_empty_def bnd_def
      attempt_def find_group_def ret_def)

text \<open>A collection and nothing else.\<close>

definition sample_collection :: Collection where
  "sample_collection = \<lparr>k_ID = ''c'', k_Name = ''C'', k_EmbeddingModel = ''m'', k_VectorDim = 3, k_EmbeddingModelID = None,
     k_RerankModelID = None, k_CreatedAt = 0\<rparr>"

definition sample_shelf :: "mem world" where
  "sample_shelf = sample_world (empty_tables\<lparr>collections := [sample_collection]\<rparr>) mem_empty"

lemma handleCommit_accepts_witness:
  "\<exists>w' d. handleCommit sample_uploads None sample_id (Some sample_commit) sample_shelf = (Inr (Answer 202 (sample_id, ''uploaded'')), w')
     \<and> documents (db w') = [d] \<and> d_ID d = sample_id \<and> d_State d = StateUploaded"
proof -
  have "isUUID sample_id \<longleftrightarrow> length sample_id = 36 \<and> list_all uuid_rune (enumerate 0 (map byte sample_id))"
    by (rule isUUID_ascii) code_simp
  also have "\<dots>"
    by (simp add: sample_id_def uuid_rune_def isHexDigit_def low_byte_def)
  finally have u: "isUUID sample_id" "sample_id \<noteq> []" by (simp_all add: sample_id_def)
  let ?w = "sample_shelf"
  let ?w1 = "?w\<lparr>nstmt := Suc 0\<rparr>"
  have depth: "ext ?w = mem_empty" by (simp add: sample_shelf_def)
  have sample_commit_sel: "cr_CollectionID sample_commit = ''c''" "length (cr_ContentSHA256 sample_commit) = 64"
    by (simp_all add: sample_commit_def length_hex sha256_def be32_def Let_def split: prod.splits)
  have fd: "FindDuplicate ''c'' sha ?w = (Inr None, ?w1)" for sha
    by (simp add: FindDuplicate_def pool_stmt_Inr sample_shelf_def sample_world_def empty_tables_def)
  obtain w2 where ins: "InsertDocument (committed_doc (Settings sample_uploads) None sample_id sample_commit 3 FmtPDF) ?w1 = (Inr (), w2)"
    by (simp add: InsertDocument_def pool_stmt_Inr sample_shelf_def sample_world_def empty_tables_def committed_doc_def
        sample_commit_def sample_collection_def)
  obtain mid w3 where add: "on_ext (XAddJob mem_redis StreamSplit (split_fields (split_job (Settings sample_uploads) sample_id))) w2
      = (Inr mid, w3)"
    by (simp add: on_ext_def XAddJob_def mem_add_def split: prod.splits)
  have run: "\<exists>w'. handleCommit sample_uploads None sample_id (Some sample_commit) sample_shelf
      = (Inr (Answer 202 (sample_id, ''uploaded'')), w')"
    by (simp add: handleCommit_def u or500_def commit_verified_def WriteJSON_def
        or_fail_Inr[where m = "on_ext (QueueDepth mem_redis StreamParse)", OF sample_depth[of ?w, OF depth]] or_fail_Inr[where m = "FindDuplicate ''c'' x" for x, OF fd]
        or_fail_Inr[where m = "verifyRawObject sample_uploads k (cr_ContentSHA256 sample_commit)" for k, OF sample_verified]
        or_fail_Inr[where m = "InsertDocument (committed_doc (Settings sample_uploads) None sample_id sample_commit 3 FmtPDF)", OF ins]
        or_fail_Inr[where m = "on_ext (XAddJob mem_redis StreamSplit (split_fields (split_job (Settings sample_uploads) sample_id)))", OF add]
        sample_commit_sel)
  then obtain w' where r: "handleCommit sample_uploads None sample_id (Some sample_commit) sample_shelf
      = (Inr (Answer 202 (sample_id, ''uploaded'')), w')" by blast
  have "outside_uploads sample_uploads" by (simp add: outside_uploads_def sample_uploads_def outside_base)
  from handleCommit_accepts[OF r this] show ?thesis using r by (auto simp: sample_shelf_def empty_tables_def)
qed

end
