(* ===== verification/Ssrf.thy ===== *)
theory Ssrf
  imports Http Counters "HOL-Library.Word"
begin

unbundle bit_operations_syntax

text \<open>
  The guard of the server's outgoing fetches (\<open>isForbiddenIP\<close>, \<open>ssrfGuardedClient\<close> of
  \<open>internal/api/ingest.go\<close>): the address test, the dial over the resolved addresses and the
  redirect policy.  An address is its 4 or 16 bytes, as \<open>net.IP\<close> is; resolving and connecting are
  parameters.
\<close>

section \<open>Addresses\<close>

type_synonym ip = "8 word list"

definition v4InV6Prefix :: ip where
  "v4InV6Prefix = [0, 0, 0, 0, 0, 0, 0, 0, 0, 0, 0xff, 0xff]"

definition To4 :: "ip \<Rightarrow> ip option" where
  "To4 ip =
     (if length ip = 4 then Some ip
      else if length ip = 16 \<and> take 12 ip = v4InV6Prefix then Some (drop 12 ip)
      else None)"

text \<open>\<open>IP.Equal\<close> with an address in 16 bytes: a 4-byte address equals its mapped form.\<close>

definition IPv6loopback :: ip where "IPv6loopback = replicate 15 0 @ [1]"
definition IPv6unspecified :: ip where "IPv6unspecified = replicate 16 0"

definition IsUnspecified :: "ip \<Rightarrow> bool" where
  "IsUnspecified ip \<longleftrightarrow> ip = [0, 0, 0, 0] \<or> ip = v4InV6Prefix @ [0, 0, 0, 0] \<or> ip = IPv6unspecified"

definition IsLoopback :: "ip \<Rightarrow> bool" where
  "IsLoopback ip = (case To4 ip of Some b \<Rightarrow> b ! 0 = 127 | None \<Rightarrow> ip = IPv6loopback)"

definition IsPrivate :: "ip \<Rightarrow> bool" where
  "IsPrivate ip =
     (case To4 ip of
        Some b \<Rightarrow> b ! 0 = 10 \<or> (b ! 0 = 172 \<and> b ! 1 AND 0xf0 = 16) \<or> (b ! 0 = 192 \<and> b ! 1 = 168)
      | None \<Rightarrow> length ip = 16 \<and> ip ! 0 AND 0xfe = 0xfc)"

definition IsMulticast :: "ip \<Rightarrow> bool" where
  "IsMulticast ip =
     (case To4 ip of Some b \<Rightarrow> b ! 0 AND 0xf0 = 0xe0 | None \<Rightarrow> length ip = 16 \<and> ip ! 0 = 0xff)"

definition IsLinkLocalMulticast :: "ip \<Rightarrow> bool" where
  "IsLinkLocalMulticast ip =
     (case To4 ip of
        Some b \<Rightarrow> b ! 0 = 224 \<and> b ! 1 = 0 \<and> b ! 2 = 0
      | None \<Rightarrow> length ip = 16 \<and> ip ! 0 = 0xff \<and> ip ! 1 AND 0x0f = 0x02)"

definition IsLinkLocalUnicast :: "ip \<Rightarrow> bool" where
  "IsLinkLocalUnicast ip =
     (case To4 ip of
        Some b \<Rightarrow> b ! 0 = 169 \<and> b ! 1 = 254
      | None \<Rightarrow> length ip = 16 \<and> ip ! 0 = 0xfe \<and> ip ! 1 AND 0xc0 = 0x80)"

definition isForbiddenIP :: "ip \<Rightarrow> bool" where
  "isForbiddenIP ip \<longleftrightarrow>
     (if IsLoopback ip \<or> IsPrivate ip \<or> IsLinkLocalUnicast ip \<or> IsLinkLocalMulticast ip \<or> IsUnspecified ip
         \<or> IsMulticast ip
      then True
      else if (case To4 ip of
                 None \<Rightarrow> False
               | Some v4 \<Rightarrow>
                   (v4 ! 0 = 100 \<and> 64 \<le> v4 ! 1 \<and> v4 ! 1 \<le> 127)
                   \<or> (v4 ! 0 = 192 \<and> v4 ! 1 = 0 \<and> v4 ! 2 = 0)
                   \<or> (v4 ! 0 = 192 \<and> v4 ! 1 = 0 \<and> v4 ! 2 = 2)
                   \<or> (v4 ! 0 = 198 \<and> v4 ! 1 = 51 \<and> v4 ! 2 = 100)
                   \<or> (v4 ! 0 = 203 \<and> v4 ! 1 = 0 \<and> v4 ! 2 = 113)
                   \<or> 240 \<le> v4 ! 0)
      then True
      else length ip = 16 \<and> ip ! 0 = 0x20 \<and> ip ! 1 = 0x01 \<and> ip ! 2 = 0x0d \<and> ip ! 3 = 0xb8)"

section \<open>The guarded client\<close>

text \<open>
  The dial: every resolved address is tested, refused ones are skipped, the first that connects is
  used.  \<open>Control\<close> tests the address of the connection once more, so a refusal there is an error of
  the dial.
\<close>

record 'x resolver =
  LookupIP :: "string \<Rightarrow> ('x world, goerr, ip list) prog"
  Connect :: "ip \<Rightarrow> string \<Rightarrow> ('x world, goerr, ip) prog"
  IpText :: "ip \<Rightarrow> string"

definition control :: "'x resolver \<Rightarrow> ip \<Rightarrow> ('x world, goerr, unit) prog" where
  "control V ip =
     (if isForbiddenIP ip then raise (Plain (''ssrf guard: connect to blocked address '' @ IpText V ip @ '' refused''))
      else ret ())"

definition dial_one :: "'x resolver \<Rightarrow> string \<Rightarrow> ip \<Rightarrow> ('x world, goerr, ip) prog" where
  "dial_one V port ip = bnd (control V ip) (\<lambda>_. Connect V ip port)"

fun dial_each :: "'x resolver \<Rightarrow> string \<Rightarrow> string \<Rightarrow> goerr option \<Rightarrow> ip list \<Rightarrow> ('x world, goerr, ip) prog" where
  "dial_each V host port lastErr [] =
     raise (case lastErr of
              None \<Rightarrow> Plain (''ssrf guard: '' @ host @ '' resolved to no usable address'')
            | Some e \<Rightarrow> e)"
| "dial_each V host port lastErr (ip # ips) =
     (if isForbiddenIP ip then
        dial_each V host port
          (Some (Plain (''ssrf guard: '' @ host @ '' resolves to a blocked address ('' @ IpText V ip @ '')''))) ips
      else bnd (attempt (dial_one V port ip)) (\<lambda>r.
           case r of Inl e \<Rightarrow> dial_each V host port (Some e) ips | Inr conn \<Rightarrow> ret conn))"

definition dialContext :: "'x resolver \<Rightarrow> string \<Rightarrow> string \<Rightarrow> ('x world, goerr, ip) prog" where
  "dialContext V host port =
     bnd (attempt (LookupIP V host)) (\<lambda>r.
     case r of
       Inl e \<Rightarrow> raise (Wrap (''ssrf guard: resolve '' @ host @ '': '') e)
     | Inr ips \<Rightarrow> dial_each V host port None ips)"

text \<open>\<open>CheckRedirect\<close>: the number of requests already made and the scheme of the next one.\<close>

definition checkRedirect :: "nat \<Rightarrow> string \<Rightarrow> goerr option" where
  "checkRedirect via scheme =
     (if 10 \<le> via then Some (Plain ''too many redirects'')
      else if scheme \<in> {''http'', ''https''} then None
      else Some (Plain ''ssrf guard: only http(s) redirects allowed''))"

section \<open>The blocked networks\<close>

text \<open>A network is an address with a prefix length, tested with the mask as \<open>net.IPNet\<close> does.\<close>

definition mask_byte :: "nat \<Rightarrow> 8 word" where
  "mask_byte n = word_of_nat (256 - 2 ^ (8 - min n 8))"

definition in_net :: "ip \<times> nat \<Rightarrow> ip \<Rightarrow> bool" where
  "in_net p ip \<longleftrightarrow>
     (let (net, n) = p
      in length ip = length net \<and> list_all (\<lambda>(i, b, a). b AND mask_byte (n - 8 * i) = a) (enumerate 0 (zip ip net)))"

definition blocked4 :: "(ip \<times> nat) list" where
  "blocked4 =
     [([0, 0, 0, 0], 32), ([10, 0, 0, 0], 8), ([100, 64, 0, 0], 10), ([127, 0, 0, 0], 8), ([169, 254, 0, 0], 16),
      ([172, 16, 0, 0], 12), ([192, 0, 0, 0], 24), ([192, 0, 2, 0], 24), ([192, 168, 0, 0], 16),
      ([198, 51, 100, 0], 24), ([203, 0, 113, 0], 24), ([224, 0, 0, 0], 4), ([240, 0, 0, 0], 4)]"

definition blocked6 :: "(ip \<times> nat) list" where
  "blocked6 =
     [(replicate 16 0, 128), (replicate 15 0 @ [1], 128), ([0x20, 0x01, 0x0d, 0xb8] @ replicate 12 0, 32),
      (0xfc # replicate 15 0, 7), ([0xfe, 0x80] @ replicate 14 0, 10), (0xff # replicate 15 0, 8)]"

definition blocked :: "ip \<Rightarrow> bool" where
  "blocked ip =
     (case To4 ip of
        Some b \<Rightarrow> list_ex (\<lambda>p. in_net p b) blocked4
      | None \<Rightarrow> list_ex (\<lambda>p. in_net p ip) blocked6)"

lemma mask_bytes:
  "mask_byte 0 = 0" "mask_byte (Suc 0) = 0x80" "mask_byte 2 = 0xc0" "mask_byte 4 = 0xf0" "mask_byte 7 = 0xfe" "8 \<le> n \<Longrightarrow> mask_byte n = 0xff"
  by (simp_all add: mask_byte_def)

lemma and_ff [simp]: "(x :: 8 word) AND 0xff = x"
proof -
  have "(0xff :: 8 word) = - 1" by simp
  then show ?thesis by (simp only: and.right_neutral)
qed

text \<open>The leading bits of a byte as a number.\<close>

lemma uint_and_not_mask: "uint ((x :: 8 word) AND NOT (mask n)) = uint x - uint x mod 2 ^ n"
proof -
  have "(x AND mask n) + (x AND NOT (mask n)) = (x AND mask n) OR (x AND NOT (mask n))"
    by (rule disjunctive_add) (auto simp: bit_simps)
  also have "\<dots> = x" by (rule bit_eqI) (auto simp: bit_simps)
  finally have "x AND NOT (mask n) = x - take_bit n x" by (simp add: take_bit_eq_mask algebra_simps)
  moreover have "uint (take_bit n x) = uint x mod 2 ^ n" by (simp only: unsigned_take_bit_eq take_bit_int_def)
  moreover have "uint x mod 2 ^ n \<le> uint x" by (rule zmod_le_nonneg_dividend) simp
  ultimately show ?thesis using uint_sub_lem[of "take_bit n x" x] by simp
qed

lemma cgnat: "(x :: 8 word) AND 0xc0 = 64 \<longleftrightarrow> 64 \<le> x \<and> x \<le> 127"
proof -
  have "(0xc0 :: 8 word) = NOT (mask 6)" by (simp add: mask_eq_exp_minus_1)
  then have "uint (x AND 0xc0) = uint x - uint x mod 64" using uint_and_not_mask[of x 6] by simp
  moreover have "x AND 0xc0 = 64 \<longleftrightarrow> uint (x AND 0xc0) = 64" by (simp add: word_uint_eq_iff)
  moreover have "64 \<le> x \<and> x \<le> 127 \<longleftrightarrow> 64 \<le> uint x \<and> uint x \<le> 127" by (simp add: word_le_def)
  ultimately show ?thesis by presburger
qed

lemma reserved: "(x :: 8 word) AND 0xf0 = 240 \<longleftrightarrow> 240 \<le> x"
proof -
  have "(0xf0 :: 8 word) = NOT (mask 4)" by (simp add: mask_eq_exp_minus_1)
  then have "uint (x AND 0xf0) = uint x - uint x mod 16" using uint_and_not_mask[of x 4] by simp
  moreover have "x AND 0xf0 = 240 \<longleftrightarrow> uint (x AND 0xf0) = 240" by (simp add: word_uint_eq_iff)
  moreover have "240 \<le> x \<longleftrightarrow> 240 \<le> uint x" by (simp add: word_le_def)
  moreover have "uint x < 256" using unsigned_less[of x, where 'a = int] by simp
  ultimately show ?thesis by presburger
qed

lemma length_16: "length xs = 16 \<Longrightarrow> \<exists>a b c d e f g h i j k l m n p q. xs = [a, b, c, d, e, f, g, h, i, j, k, l, m, n, p, q]"
  by (auto simp: numeral_eq_Suc length_Suc_conv)

lemma length_4: "length xs = 4 \<Longrightarrow> \<exists>a b c d. xs = [a, b, c, d]"
  by (auto simp: numeral_eq_Suc length_Suc_conv)

lemma To4_Some:
  assumes "To4 ip = Some b"
  shows "length b = 4" "ip = b \<or> ip = v4InV6Prefix @ b"
  using assms by (auto simp: To4_def split: if_splits) (metis append_take_drop_id)

lemma forbidden_v4:
  assumes "To4 ip = Some [a, b, c, d]"
  shows "isForbiddenIP ip \<longleftrightarrow> blocked ip"
proof -
  have u: "IsUnspecified ip \<longleftrightarrow> [a, b, c, d] = [0, 0, 0, 0]"
    using To4_Some[OF assms] assms
    by (auto simp: IsUnspecified_def IPv6unspecified_def v4InV6Prefix_def numeral_eq_Suc)
  have nths: "[a, b, c, d] ! 0 = a" "[a, b, c, d] ! 1 = b" "[a, b, c, d] ! 2 = c" "[a, b, c, d] ! 3 = d" by simp_all
  have doc: "\<not> (length ip = 16 \<and> ip ! 0 = 0x20)"
    using To4_Some(2)[OF assms] by (auto simp: v4InV6Prefix_def)
  have "isForbiddenIP ip \<longleftrightarrow>
      a = 127 \<or> a = 10 \<or> (a = 172 \<and> b AND 0xf0 = 16) \<or> (a = 192 \<and> b = 168) \<or> (a = 169 \<and> b = 254)
      \<or> (a = 224 \<and> b = 0 \<and> c = 0) \<or> (a = 0 \<and> b = 0 \<and> c = 0 \<and> d = 0) \<or> a AND 0xf0 = 0xe0
      \<or> (a = 100 \<and> 64 \<le> b \<and> b \<le> 127) \<or> (a = 192 \<and> b = 0 \<and> c = 0) \<or> (a = 192 \<and> b = 0 \<and> c = 2)
      \<or> (a = 198 \<and> b = 51 \<and> c = 100) \<or> (a = 203 \<and> b = 0 \<and> c = 113) \<or> 240 \<le> a"
    using doc unfolding isForbiddenIP_def u
    unfolding assms IsLoopback_def IsPrivate_def IsMulticast_def IsLinkLocalMulticast_def IsLinkLocalUnicast_def option.case
      nths list.inject simp_thms if_bool_eq_disj
    by satx
  moreover have "blocked ip \<longleftrightarrow>
      (a = 0 \<and> b = 0 \<and> c = 0 \<and> d = 0) \<or> a = 10 \<or> (a = 100 \<and> b AND 0xc0 = 64) \<or> a = 127 \<or> (a = 169 \<and> b = 254)
      \<or> (a = 172 \<and> b AND 0xf0 = 16) \<or> (a = 192 \<and> b = 0 \<and> c = 0) \<or> (a = 192 \<and> b = 0 \<and> c = 2)
      \<or> (a = 192 \<and> b = 168) \<or> (a = 198 \<and> b = 51 \<and> c = 100) \<or> (a = 203 \<and> b = 0 \<and> c = 113)
      \<or> a AND 0xf0 = 0xe0 \<or> a AND 0xf0 = 0xf0"
    by (simp add: blocked_def assms blocked4_def in_net_def mask_bytes)
  moreover have "a = 224 \<Longrightarrow> a AND 0xf0 = 0xe0" by simp
  ultimately show ?thesis unfolding cgnat reserved by satx
qed

lemma zeros:
  "replicate 12 (0 :: 8 word) = [0, 0, 0, 0, 0, 0, 0, 0, 0, 0, 0, 0]"
  "replicate 14 (0 :: 8 word) = [0, 0, 0, 0, 0, 0, 0, 0, 0, 0, 0, 0, 0, 0]"
  "replicate 15 (0 :: 8 word) = [0, 0, 0, 0, 0, 0, 0, 0, 0, 0, 0, 0, 0, 0, 0]"
  "replicate 16 (0 :: 8 word) = [0, 0, 0, 0, 0, 0, 0, 0, 0, 0, 0, 0, 0, 0, 0, 0]"
  by (simp_all add: numeral_eq_Suc)

lemma forbidden_v6:
  assumes "To4 ip = None"
  shows "isForbiddenIP ip \<longleftrightarrow> blocked ip"
proof (cases "length ip = 16")
  case False
  then show ?thesis using assms
    by (auto simp: isForbiddenIP_def blocked_def blocked6_def in_net_def IsUnspecified_def IPv6unspecified_def
        IsLoopback_def IPv6loopback_def IsPrivate_def IsMulticast_def IsLinkLocalMulticast_def IsLinkLocalUnicast_def
        v4InV6Prefix_def To4_def split: if_splits)
next
  case True
  then obtain a b c d e f g h i j k l m n p q where ip: "ip = [a, b, c, d, e, f, g, h, i, j, k, l, m, n, p, q]"
    using length_16[OF True] by (elim exE) (rule that)
  have u: "IsUnspecified ip \<longleftrightarrow> ip = replicate 16 0"
    using assms by (auto simp: IsUnspecified_def IPv6unspecified_def v4InV6Prefix_def To4_def numeral_eq_Suc)
  have nths: "ip ! 0 = a" "ip ! 1 = b" "ip ! 2 = c" "ip ! 3 = d" by (simp_all add: ip)
  have "isForbiddenIP ip \<longleftrightarrow> ip = replicate 15 0 @ [1] \<or> a AND 0xfe = 0xfc \<or> (a = 0xfe \<and> b AND 0xc0 = 0x80)
      \<or> a = 0xff \<or> ip = replicate 16 0 \<or> (a = 0x20 \<and> b = 0x01 \<and> c = 0x0d \<and> d = 0xb8)"
    unfolding isForbiddenIP_def u assms IsLoopback_def IPv6loopback_def IsPrivate_def IsMulticast_def IsLinkLocalMulticast_def
      IsLinkLocalUnicast_def option.case True nths simp_thms if_bool_eq_disj
    by satx
  moreover have "blocked ip \<longleftrightarrow> ip = replicate 16 0 \<or> ip = replicate 15 0 @ [1]
      \<or> (a = 0x20 \<and> b = 0x01 \<and> c = 0x0d \<and> d = 0xb8) \<or> a AND 0xfe = 0xfc \<or> (a = 0xfe \<and> b AND 0xc0 = 0x80) \<or> a = 0xff"
    unfolding blocked_def assms option.case by (simp add: blocked6_def in_net_def mask_bytes ip zeros)
  ultimately show ?thesis by blast
qed

lemma forbidden_blocked: "isForbiddenIP ip \<longleftrightarrow> blocked ip"
proof (cases "To4 ip")
  case (Some b)
  then show ?thesis using To4_Some(1)[OF Some] length_4[of b] forbidden_v4 by blast
qed (rule forbidden_v6)

section \<open>What the client may reach\<close>

lemma dial_each_Inr:
  assumes "dial_each V host port e ips w = (Inr conn, w')"
    and "\<And>ip u c u'. Connect V ip port u = (Inr c, u') \<Longrightarrow> c = ip"
  shows "conn \<in> set ips \<and> \<not> isForbiddenIP conn"
  using assms(1)
proof (induction ips arbitrary: e w)
  case (Cons ip ips)
  show ?case
  proof (cases "isForbiddenIP ip")
    case True
    then show ?thesis using Cons by auto
  next
    case False
    obtain r w1 where d: "dial_one V port ip w = (r, w1)" by fastforce
    show ?thesis
    proof (cases r)
      case (Inl e')
      then show ?thesis using Cons d False by (auto simp: bnd_attempt)
    next
      case (Inr c)
      then have "c = ip" using d False assms(2) by (auto simp: dial_one_def control_def)
      then show ?thesis using Cons.prems d False Inr by (simp add: bnd_attempt)
    qed
  qed
qed simp

text \<open>
  C36. A fetch connects only to an address its host resolved to and that lies in none of the
  blocked networks: the guard's test, with its byte comparisons over both forms of an IPv4
  address, is membership in the thirteen IPv4 and six IPv6 networks of the table, so neither a
  private, loopback, link-local, shared, documentation, multicast or reserved address nor its
  mapped form is ever dialled.
\<close>

theorem dialContext_public:
  assumes "dialContext V host port w = (Inr conn, w')"
    and "\<And>ip u c u'. Connect V ip port u = (Inr c, u') \<Longrightarrow> c = ip"
  shows "\<not> blocked conn \<and> (\<exists>ips w1. LookupIP V host w = (Inr ips, w1) \<and> conn \<in> set ips)"
proof -
  obtain r w1 where l: "LookupIP V host w = (r, w1)" by fastforce
  then obtain ips where ips: "r = Inr ips" using assms(1) by (cases r) (auto simp: dialContext_def bnd_attempt)
  then have "dial_each V host port None ips w1 = (Inr conn, w')" using assms(1) l by (simp add: dialContext_def bnd_attempt)
  then have "conn \<in> set ips \<and> \<not> isForbiddenIP conn" using dial_each_Inr assms(2) by blast
  then show ?thesis using l ips forbidden_blocked by blast
qed

text \<open>A host with a private and a public address.\<close>

definition sample_resolver :: "unit resolver" where
  "sample_resolver = \<lparr>LookupIP = (\<lambda>h. ret [[10, 0, 0, 1], [93, 184, 216, 34]]), Connect = (\<lambda>ip p. ret ip), IpText = (\<lambda>ip. [])\<rparr>"

lemma dialContext_public_witness:
  "dialContext sample_resolver ''h'' ''80'' (sample_world empty_tables ()) = (Inr [93, 184, 216, 34], sample_world empty_tables ())
   \<and> \<not> blocked [93, 184, 216, 34]"
proof -
  let ?w = "sample_world empty_tables ()"
  have "isForbiddenIP [10, 0, 0, 1]" "\<not> isForbiddenIP [93, 184, 216, 34]" by code_simp+
  then have run: "dialContext sample_resolver ''h'' ''80'' ?w = (Inr [93, 184, 216, 34], ?w)"
    by (simp add: dialContext_def sample_resolver_def bnd_attempt[OF ret_apply] bnd_attempt dial_one_def control_def)
  then show ?thesis using dialContext_public[OF run] by (simp add: sample_resolver_def)
qed

text \<open>The benchmark network 198.18.0.0/15 is not in the table.\<close>

lemma benchmark_allowed: "\<not> isForbiddenIP [198, 18, 0, 1]"
  by code_simp

end
