(* ===== verification/Ingest.thy ===== *)
theory Ingest
  imports Uploads Ssrf
begin

text \<open>
  Server-side ingestion (\<open>internal/api/ingest.go\<close>): the shared pipeline from a body to a document
  and its split job, the URL fetch, and the OPDS catalogue's browse and sync.  What the handlers
  take from \<open>net/url\<close> and \<open>encoding/xml\<close>, and the HTTP exchange itself (whose connections go
  through \<open>Ssrf.dialContext\<close>), is the parameter \<open>U\<close>.
\<close>

section \<open>From a body to a document\<close>

record ingestResult =
  ir_DocID :: string
  ir_HTTPStatus :: int
  ir_Detail :: string

definition refused :: "int \<Rightarrow> string \<Rightarrow> ('x world, goerr, ingestResult) prog" where
  "refused status detail = ret \<lparr>ir_DocID = [], ir_HTTPStatus = status, ir_Detail = detail\<rparr>"

text \<open>A step whose error ends the ingestion with a status and a prefix.\<close>

definition or_refuse ::
  "int \<Rightarrow> string \<Rightarrow> ('x world, goerr, 'b) prog \<Rightarrow> ('b \<Rightarrow> ('x world, goerr, ingestResult) prog)
   \<Rightarrow> ('x world, goerr, ingestResult) prog" where
  "or_refuse status prefix m k = bnd (attempt m) (\<lambda>r.
     case r of Inl e \<Rightarrow> refused status (prefix @ error_text e) | Inr x \<Rightarrow> k x)"

record ingestCommitArgs =
  ia_CollectionID :: string
  ia_Filename :: string
  ia_MimeType :: string
  ia_Title :: "string option"
  ia_Author :: "string option"
  ia_Metadata :: "payload option"
  ia_Path :: string
  ia_SHA :: string
  ia_PageCount :: int

definition ingested_doc :: "api_settings \<Rightarrow> ApiKey option \<Rightarrow> string \<Rightarrow> ingestCommitArgs \<Rightarrow> Document" where
  "ingested_doc S key docID a =
     \<lparr>d_ID = docID, d_CollectionID = Some (ia_CollectionID a), d_Title = ia_Title a, d_Author = ia_Author a,
      d_Filename = Some (ia_Filename a), d_ByteSize = None, d_SourceURI = source_uri S docID,
      d_ContentSHA256 = ia_SHA a, d_PageCount = Some (ia_PageCount a), d_MimeType = Some (ia_MimeType a),
      d_State = StateUploaded, d_ErrorCode = None, d_ErrorDetail = None, d_TotalShards = None, d_ShardsDone = 0,
      d_ShardsFailed = 0, d_ChunkCount = None, d_Completeness = None,
      d_Metadata = (case ia_Metadata a of None \<Rightarrow> [] | Some m \<Rightarrow> m), d_UploadedBy = keyName key,
      d_CreatedAt = 0, d_UpdatedAt = 0, d_ReadyAt = None\<rparr>"

definition ingestCommit ::
  "'x api_deps \<Rightarrow> ApiKey option \<Rightarrow> ingestCommitArgs \<Rightarrow> ('x world, goerr, ingestResult) prog" where
  "ingestCommit D key a =
     or_refuse 500 ''queue depth read failed: '' (on_ext (QueueDepth (Broker D) StreamParse)) (\<lambda>backlog.
     if MaxParseBacklog (Settings D) < backlog then refused 429 (over_backlog backlog)
     else bnd (newUUID D) (\<lambda>docID.
     or_refuse 500 [] (FindDuplicate (ia_CollectionID a) (ia_SHA a)) (\<lambda>dup.
     if dup \<noteq> None then refused 409 ''duplicate document in collection''
     else or_refuse 500 ''object upload failed: ''
            (UploadFile D (RawBucket (Settings D)) (RawKey docID) (ia_MimeType a) (ia_Path a)) (\<lambda>_.
     or_refuse 500 [] (InsertDocument (ingested_doc (Settings D) key docID a)) (\<lambda>_.
     or_refuse 500 ''enqueue split failed: ''
       (on_ext (XAddJob (Broker D) StreamSplit (split_fields (split_job (Settings D) docID)))) (\<lambda>_.
     ret \<lparr>ir_DocID = docID, ir_HTTPStatus = 202, ir_Detail = doc_state_text StateUploaded\<rparr>))))))"

text \<open>
  What \<open>io.Copy\<close> takes of the body through the limit of one byte more than allowed, and whether
  the copy fails.
\<close>

definition copied :: "int \<Rightarrow> body \<Rightarrow> body" where
  "copied maxBytes b =
     (let (bytes, fails) = b; n = nat (maxBytes + 1)
      in if n \<le> length bytes then (take n bytes, None) else (bytes, fails))"

definition ingest_args ::
  "string \<Rightarrow> string \<Rightarrow> Format \<Rightarrow> string option \<Rightarrow> string option \<Rightarrow> payload option \<Rightarrow> string \<Rightarrow> int \<Rightarrow> ingestCommitArgs" where
  "ingest_args coll filename f title author metadata bytes pages =
     \<lparr>ia_CollectionID = coll, ia_Filename = (if filename = [] then ParseSourceName f else filename),
      ia_MimeType = MimeType f, ia_Title = title, ia_Author = author, ia_Metadata = metadata, ia_Path = bytes,
      ia_SHA = hex (sha256 (bytes_of bytes)), ia_PageCount = pages\<rparr>"

definition verified_ingest ::
  "'x api_deps \<Rightarrow> Format \<Rightarrow> string \<Rightarrow> string + int" where
  "verified_ingest D f bytes =
     (if f = FmtPDF then
        (case PageCount (Pdf D) (Some (ReadTemp D bytes)) of
           Inl e \<Rightarrow> Inl (''unreadable PDF: '' @ error_text e)
         | Inr n \<Rightarrow>
             if MaxDocumentPages (Settings D) < n
             then Inl (itoa n @ '' pages over cap '' @ itoa (MaxDocumentPages (Settings D))) else Inr n)
      else case verifyNonPDF D f bytes of Some m \<Rightarrow> Inl m | None \<Rightarrow> Inr 1)"

definition ingestFromStream ::
  "'x api_deps \<Rightarrow> ApiKey option \<Rightarrow> body \<Rightarrow> string \<Rightarrow> string \<Rightarrow> string option \<Rightarrow> string option \<Rightarrow> payload option
   \<Rightarrow> ('x world, goerr, ingestResult) prog" where
  "ingestFromStream D key r coll filename title author metadata =
     (case read_full 64 r of
        None \<Rightarrow> refused 400 ''unreadable body''
      | Some head \<Rightarrow>
          (case DetectFormat head filename of
             Inl e \<Rightarrow> refused 400 ''unsupported file type''
           | Inr f \<Rightarrow>
               or_refuse 500 ''temp dir failed: '' (IngestDir D) (\<lambda>_.
               or_refuse 500 ''temp file failed: '' (CreateTemp D) (\<lambda>_.
               (let (bytes, fails) = copied (body_cap (Settings D) f) r
                in bnd (attempt (WriteTemp D bytes)) (\<lambda>wr.
                   bnd (attempt (CloseTemp D)) (\<lambda>cl.
                   case wr of
                     Inl e \<Rightarrow> refused 400 (''download failed: '' @ error_text e)
                   | Inr _ \<Rightarrow>
                       (case fails of
                          Some e \<Rightarrow> refused 400 (''download failed: '' @ error_text e)
                        | None \<Rightarrow>
                            if body_cap (Settings D) f < int (length bytes) then refused 400 ''file too large''
                            else case cl of
                              Inl e \<Rightarrow> refused 500 (''temp write failed: '' @ error_text e)
                            | Inr _ \<Rightarrow>
                                (case verified_ingest D f bytes of
                                   Inl m \<Rightarrow> refused 400 m
                                 | Inr pages \<Rightarrow>
                                     ingestCommit D key (ingest_args coll filename f title author metadata bytes pages))))))))))"

section \<open>Fetching a URL\<close>

record url =
  u_Scheme :: string
  u_Host :: string
  u_Path :: string
  u_Rest :: string

record atomLink =
  al_Rel :: string
  al_Href :: string
  al_Type :: string

record atomEntry =
  ae_Title :: string
  ae_Summary :: string
  ae_Authors :: "string list"
  ae_Links :: "atomLink list"

record atomFeed =
  af_Links :: "atomLink list"
  af_Entries :: "atomEntry list"

text \<open>\<open>Fetch\<close> is \<open>client.Do\<close> on the guarded client: the address, the credentials, the status and body.\<close>

record 'x web =
  ParseURL :: "string \<Rightarrow> url option"
  ResolveReference :: "url \<Rightarrow> url \<Rightarrow> url"
  UrlText :: "url \<Rightarrow> string"
  BadRequest :: "string \<Rightarrow> goerr option"
  Fetch :: "string \<Rightarrow> (string \<times> string) option \<Rightarrow> ('x world, goerr, int \<times> body) prog"
  ParseFeed :: "string \<Rightarrow> atomFeed option"

definition absolute_url :: "'x web \<Rightarrow> string \<Rightarrow> bool" where
  "absolute_url U s =
     (case ParseURL U s of None \<Rightarrow> False | Some u \<Rightarrow> u_Scheme u \<in> {''http'', ''https''} \<and> u_Host u \<noteq> [])"

text \<open>\<open>filepath.Base\<close>\<close>

definition path_base :: "string \<Rightarrow> string" where
  "path_base p =
     (if p = [] then ''.''
      else let q = dropWhile (\<lambda>c. c = CHR ''/'') (rev p)
           in if q = [] then ''/'' else rev (takeWhile (\<lambda>c. c \<noteq> CHR ''/'') q))"

record fetchURLRequest =
  fu_CollectionID :: string
  fu_URL :: string
  fu_Title :: "string option"
  fu_Author :: "string option"
  fu_Metadata :: "payload option"

definition fetched_name :: "'x web \<Rightarrow> string \<Rightarrow> string" where
  "fetched_name U s =
     (let name = path_base (case ParseURL U s of None \<Rightarrow> [] | Some u \<Rightarrow> u_Path u)
      in if name \<in> {[], ''.'', ''/''} then ''downloaded.pdf'' else name)"

definition ingest_reply :: "ingestResult \<Rightarrow> ('x, string \<times> string) handler" where
  "ingest_reply res =
     (if ir_HTTPStatus res = 202 then WriteJSON 202 (ir_DocID res, ir_Detail res)
      else writeDetail (ir_HTTPStatus res) (ir_Detail res))"

definition handleFetchURL ::
  "'x api_deps \<Rightarrow> 'x web \<Rightarrow> ApiKey option \<Rightarrow> fetchURLRequest option \<Rightarrow> ('x, string \<times> string) handler" where
  "handleFetchURL D U key b0 =
     (case b0 of
        None \<Rightarrow> writeDetail 422 ''invalid JSON body''
      | Some b \<Rightarrow>
          if fu_CollectionID b = [] then writeDetail 422 ''field required: collection_id''
          else if \<not> absolute_url U (fu_URL b) then writeDetail 422 ''url must be an absolute http(s) URL''
          else or500 (GetCollection (fu_CollectionID b)) (\<lambda>col.
               if col = None then writeDetail 404 ''collection not found''
               else case BadRequest U (fu_URL b) of
                      Some e \<Rightarrow> writeDetail 400 (''bad url: '' @ error_text e)
                    | None \<Rightarrow>
                        or_fail 400 ''fetch failed: '' (Fetch U (fu_URL b) None) (\<lambda>(status, r).
                        if status \<noteq> 200 then writeDetail 400 (''remote returned '' @ itoa status)
                        else bnd (ingestFromStream D key r (fu_CollectionID b) (fetched_name U (fu_URL b)) (fu_Title b)
                                   (fu_Author b) (fu_Metadata b)) ingest_reply)))"

section \<open>OPDS catalogues\<close>

definition opdsMimes :: "string list" where
  "opdsMimes = map MimeType [FmtPDF, FmtEPUB, FmtDOCX, FmtPPTX, FmtXLSX, FmtTXT, FmtMD, FmtHTML]"

definition acquisition_rel :: string where
  "acquisition_rel = ''http://opds-spec.org/acquisition''"

definition atomAcquisitionLinks :: "atomEntry \<Rightarrow> (string \<times> string) list" where
  "atomAcquisitionLinks e =
     map (\<lambda>l. (al_Href l, al_Type l))
       (filter (\<lambda>l. al_Rel l = acquisition_rel \<or> has_prefix (al_Rel l) (acquisition_rel @ ''/'') \<or> al_Type l \<in> set opdsMimes)
          (ae_Links e))"

definition opdsResolveHref :: "'x web \<Rightarrow> url option \<Rightarrow> string \<Rightarrow> string" where
  "opdsResolveHref U base href =
     (if trim_space href = [] then []
      else case ParseURL U href of
             None \<Rightarrow> []
           | Some ref \<Rightarrow>
               if u_Scheme ref \<in> {''http'', ''https''} then href
               else case base of
                      None \<Rightarrow> []
                    | Some b \<Rightarrow>
                        let r = ResolveReference U b ref
                        in if u_Scheme r \<notin> {''http'', ''https''} then [] else UrlText U r)"

record opdsRequest =
  or_URL :: string
  or_Username :: string
  or_Password :: string
  or_FeedURL :: string

definition opdsAuthedGet :: "'x web \<Rightarrow> string \<Rightarrow> string \<Rightarrow> string \<Rightarrow> ('x world, goerr, int \<times> body) prog" where
  "opdsAuthedGet U rawURL username password =
     (case BadRequest U rawURL of
        Some e \<Rightarrow> raise e
      | None \<Rightarrow> Fetch U rawURL (if username \<noteq> [] \<or> password \<noteq> [] then Some (username, password) else None))"

text \<open>One feed page: \<open>Inl\<close> is the status and detail of the refusal.\<close>

definition feed_limit :: nat where
  "feed_limit = 8 * 1024 * 1024"

definition read_feed :: "'x web \<Rightarrow> int \<times> body \<Rightarrow> int \<times> string + atomFeed" where
  "read_feed U reply =
     (let (status, bytes, fails) = reply
      in if status = 401 \<or> status = 403 then Inl (400, ''OPDS feed rejected credentials'')
         else if status \<noteq> 200 then Inl (400, ''OPDS feed returned '' @ itoa status)
         else case (if feed_limit \<le> length bytes then None else fails) of
                Some e \<Rightarrow> Inl (400, ''OPDS read failed: '' @ error_text e)
              | None \<Rightarrow>
                  (case ParseFeed U (take feed_limit bytes) of
                     None \<Rightarrow> Inl (400, ''not an OPDS/Atom feed'')
                   | Some feed \<Rightarrow>
                       if af_Entries feed = [] then Inl (400, ''not an OPDS/Atom feed'') else Inr feed))"

definition opds_target :: "opdsRequest \<Rightarrow> string" where
  "opds_target b = (if or_FeedURL b = [] then or_URL b else or_FeedURL b)"

definition opdsFetchFeed :: "'x web \<Rightarrow> opdsRequest \<Rightarrow> ('x world, goerr, int \<times> string + atomFeed) prog" where
  "opdsFetchFeed U b =
     bnd (attempt (opdsAuthedGet U (opds_target b) (or_Username b) (or_Password b))) (\<lambda>r.
     case r of
       Inl e \<Rightarrow> ret (Inl (400, ''OPDS fetch failed: '' @ error_text e))
     | Inr reply \<Rightarrow> ret (read_feed U reply))"

record opdsEntry =
  oe_Title :: string
  oe_Authors :: "string list"
  oe_Summary :: string
  oe_Acquisition :: "(string \<times> string) list"

definition browse_entry :: "'x web \<Rightarrow> url option \<Rightarrow> atomEntry \<Rightarrow> opdsEntry" where
  "browse_entry U base e =
     \<lparr>oe_Title = ae_Title e, oe_Authors = filter (\<lambda>n. n \<noteq> []) (ae_Authors e), oe_Summary = ae_Summary e,
      oe_Acquisition = filter (\<lambda>a. fst a \<noteq> [])
        (map (\<lambda>(href, mime). (opdsResolveHref U base href, mime)) (atomAcquisitionLinks e))\<rparr>"

definition next_href :: "'x web \<Rightarrow> url option \<Rightarrow> atomLink list \<Rightarrow> string option" where
  "next_href U base ls =
     fold (\<lambda>l acc. if al_Rel l = ''next'' \<and> opdsResolveHref U base (al_Href l) \<noteq> []
                   then Some (opdsResolveHref U base (al_Href l)) else acc) ls None"

definition handleOpdsBrowse ::
  "'x web \<Rightarrow> opdsRequest option \<Rightarrow> ('x, opdsEntry list \<times> string option) handler" where
  "handleOpdsBrowse U b0 =
     (case b0 of
        None \<Rightarrow> writeDetail 422 ''invalid JSON body''
      | Some b \<Rightarrow>
          if \<not> absolute_url U (opds_target b) then writeDetail 422 ''url must be an absolute http(s) URL''
          else or500 (opdsFetchFeed U b) (\<lambda>r.
               case r of
                 Inl (status, detail) \<Rightarrow> writeDetail status detail
               | Inr feed \<Rightarrow>
                   let base = ParseURL U (opds_target b)
                   in WriteJSON 200 (map (browse_entry U base) (af_Entries feed), next_href U base (af_Links feed))))"

record opdsEntryRef =
  rf_Title :: string
  rf_Href :: string
  rf_MimeType :: string

record opdsSyncRequest =
  os_URL :: string
  os_Username :: string
  os_Password :: string
  os_CollectionID :: string
  os_Selection :: "opdsEntryRef list"

record opdsItemResult =
  oi_Title :: string
  oi_Status :: string
  oi_DocID :: "string option"
  oi_Detail :: "string option"

text \<open>The first acquisition link of an entry with a known type that resolves.\<close>

definition best_link :: "'x web \<Rightarrow> url option \<Rightarrow> atomEntry \<Rightarrow> opdsEntryRef option" where
  "best_link U base e =
     (case filter (\<lambda>(href, mime). mime \<in> set opdsMimes \<and> opdsResolveHref U base href \<noteq> []) (atomAcquisitionLinks e) of
        [] \<Rightarrow> None
      | (href, mime) # _ \<Rightarrow>
          Some \<lparr>rf_Title = ae_Title e, rf_Href = opdsResolveHref U base href, rf_MimeType = mime\<rparr>)"

definition resolved_refs :: "'x web \<Rightarrow> url option \<Rightarrow> opdsEntryRef list \<Rightarrow> opdsEntryRef list" where
  "resolved_refs U base refs =
     filter (\<lambda>r. rf_Href r \<noteq> []) (map (\<lambda>r. r\<lparr>rf_Href := opdsResolveHref U base (rf_Href r)\<rparr>) refs)"

definition item_result :: "opdsEntryRef \<Rightarrow> ingestResult \<Rightarrow> opdsItemResult" where
  "item_result ref res =
     (if ir_HTTPStatus res = 202
      then \<lparr>oi_Title = rf_Title ref, oi_Status = ''accepted'', oi_DocID = Some (ir_DocID res), oi_Detail = None\<rparr>
      else if ir_HTTPStatus res = 409
      then \<lparr>oi_Title = rf_Title ref, oi_Status = ''duplicate'', oi_DocID = None, oi_Detail = Some (ir_Detail res)\<rparr>
      else \<lparr>oi_Title = rf_Title ref, oi_Status = ''rejected'', oi_DocID = None, oi_Detail = Some (ir_Detail res)\<rparr>)"

definition rejected_item :: "opdsEntryRef \<Rightarrow> string \<Rightarrow> opdsItemResult" where
  "rejected_item ref d =
     \<lparr>oi_Title = rf_Title ref, oi_Status = ''rejected'', oi_DocID = None, oi_Detail = Some d\<rparr>"

definition sync_item ::
  "'x api_deps \<Rightarrow> 'x web \<Rightarrow> ApiKey option \<Rightarrow> opdsSyncRequest \<Rightarrow> opdsEntryRef
   \<Rightarrow> ('x world, goerr, opdsItemResult) prog" where
  "sync_item D U key b ref =
     bnd (attempt (opdsAuthedGet U (rf_Href ref) (os_Username b) (os_Password b))) (\<lambda>r.
     case r of
       Inl e \<Rightarrow> ret (rejected_item ref (''fetch failed: '' @ error_text e))
     | Inr (status, body) \<Rightarrow>
         if status \<noteq> 200 then ret (rejected_item ref (''remote returned '' @ itoa status))
         else bnd (ingestFromStream D key body (os_CollectionID b) (path_base (rf_Href ref)) (Some (rf_Title ref)) None None)
                (\<lambda>res. ret (item_result ref res)))"

fun sync_items ::
  "(opdsEntryRef \<Rightarrow> ('x world, goerr, opdsItemResult) prog) \<Rightarrow> opdsEntryRef list
   \<Rightarrow> ('x world, goerr, opdsItemResult list) prog" where
  "sync_items f [] = ret []"
| "sync_items f (r # rs) = bnd (f r) (\<lambda>i. bnd (sync_items f rs) (\<lambda>is. ret (i # is)))"

definition count_status :: "string \<Rightarrow> opdsItemResult list \<Rightarrow> int" where
  "count_status s is = int (length (filter (\<lambda>i. oi_Status i = s) is))"

definition sync_reply :: "opdsItemResult list \<Rightarrow> ('x, int \<times> int \<times> opdsItemResult list) handler" where
  "sync_reply is = WriteJSON 200 (count_status ''accepted'' is, count_status ''rejected'' is, is)"

definition handleOpdsSync ::
  "'x api_deps \<Rightarrow> 'x web \<Rightarrow> ApiKey option \<Rightarrow> opdsSyncRequest option
   \<Rightarrow> ('x, int \<times> int \<times> opdsItemResult list) handler" where
  "handleOpdsSync D U key b0 =
     (case b0 of
        None \<Rightarrow> writeDetail 422 ''invalid JSON body''
      | Some b \<Rightarrow>
          if os_CollectionID b = [] then writeDetail 422 ''field required: collection_id''
          else if \<not> absolute_url U (os_URL b) then writeDetail 422 ''url must be an absolute http(s) URL''
          else or500 (GetCollection (os_CollectionID b)) (\<lambda>col.
               if col = None then writeDetail 404 ''collection not found''
               else let base = ParseURL U (os_URL b)
                    in if os_Selection b = [] then
                         or500 (opdsFetchFeed U \<lparr>or_URL = os_URL b, or_Username = os_Username b,
                                  or_Password = os_Password b, or_FeedURL = os_URL b\<rparr>) (\<lambda>r.
                         case r of
                           Inl (status, detail) \<Rightarrow> writeDetail status detail
                         | Inr feed \<Rightarrow>
                             bnd (sync_items (sync_item D U key b) (List.map_filter (best_link U base) (af_Entries feed)))
                               sync_reply)
                       else bnd (sync_items (sync_item D U key b) (resolved_refs U base (os_Selection b))) sync_reply))"

section \<open>What an ingestion accepts\<close>

lemma or_refuse_202:
  assumes "or_refuse status prefix m k w = (Inr res, w')" "ir_HTTPStatus res = 202" "status \<noteq> 202"
  obtains x w1 where "m w = (Inr x, w1)" "k x w1 = (Inr res, w')"
proof (cases "m w")
  case (Pair r w1)
  then show thesis using assms that by (cases r) (auto simp: or_refuse_def bnd_attempt refused_def)
qed

lemma refused_202 [simp]: "refused status d w = (Inr res, w') \<Longrightarrow> status \<noteq> 202 \<Longrightarrow> ir_HTTPStatus res \<noteq> 202"
  by (auto simp: refused_def)

definition outside_ingest :: "'x api_deps \<Rightarrow> bool" where
  "outside_ingest D \<longleftrightarrow> outside (IngestDir D) \<and> outside (CreateTemp D) \<and> (\<forall>b. outside (WriteTemp D b))
     \<and> outside (CloseTemp D) \<and> (\<forall>b k t c. outside (UploadFile D b k t c))"

lemma outsideD: "outside m \<Longrightarrow> m w = (r, w') \<Longrightarrow> db w' = db w"
  unfolding outside_def by (metis snd_conv)

lemma outside_ext: "outside (on_ext m)"
  by (simp add: outside_def on_ext_def split: prod.splits)

lemma ingestCommit_accepts:
  fixes D :: "'x api_deps"
  assumes "ingestCommit D key a w = (Inr res, w')" "ir_HTTPStatus res = 202" "outside_ingest D"
  obtains d where "db w' = (db w)\<lparr>documents := documents (db w) @ [d]\<rparr>" "d_ID d = ir_DocID res"
    "d_State d = StateUploaded" "d_ContentSHA256 d = ia_SHA a" "d_CollectionID d = Some (ia_CollectionID a)"
    "d_Filename d = None" "ir_DocID res \<notin> d_ID ` set (documents (db w))"
proof -
  have st: "(500 :: int) \<noteq> 202" by simp
  obtain backlog w1 where q: "on_ext (QueueDepth (Broker D) StreamParse) w = (Inr backlog, w1)"
    and r1: "(if MaxParseBacklog (Settings D) < backlog then refused 429 (over_backlog backlog)
     else bnd (newUUID D) (\<lambda>docID.
     or_refuse 500 [] (FindDuplicate (ia_CollectionID a) (ia_SHA a)) (\<lambda>dup.
     if dup \<noteq> None then refused 409 ''duplicate document in collection''
     else or_refuse 500 ''object upload failed: ''
            (UploadFile D (RawBucket (Settings D)) (RawKey docID) (ia_MimeType a) (ia_Path a)) (\<lambda>_.
     or_refuse 500 [] (InsertDocument (ingested_doc (Settings D) key docID a)) (\<lambda>_.
     or_refuse 500 ''enqueue split failed: ''
       (on_ext (XAddJob (Broker D) StreamSplit (split_fields (split_job (Settings D) docID)))) (\<lambda>_.
     ret \<lparr>ir_DocID = docID, ir_HTTPStatus = 202, ir_Detail = doc_state_text StateUploaded\<rparr>)))))) w1 = (Inr res, w')"
    using assms(1)[unfolded ingestCommit_def] assms(2) st by (rule or_refuse_202)
  have "\<not> MaxParseBacklog (Settings D) < backlog" using r1 assms(2) by (auto simp: refused_def split: if_splits)
  then obtain docID w2 where u: "newUUID D w1 = (Inr docID, w2)"
    and r2: "or_refuse 500 [] (FindDuplicate (ia_CollectionID a) (ia_SHA a)) (\<lambda>dup.
     if dup \<noteq> None then refused 409 ''duplicate document in collection''
     else or_refuse 500 ''object upload failed: ''
            (UploadFile D (RawBucket (Settings D)) (RawKey docID) (ia_MimeType a) (ia_Path a)) (\<lambda>_.
     or_refuse 500 [] (InsertDocument (ingested_doc (Settings D) key docID a)) (\<lambda>_.
     or_refuse 500 ''enqueue split failed: ''
       (on_ext (XAddJob (Broker D) StreamSplit (split_fields (split_job (Settings D) docID)))) (\<lambda>_.
     ret \<lparr>ir_DocID = docID, ir_HTTPStatus = 202, ir_Detail = doc_state_text StateUploaded\<rparr>)))) w2 = (Inr res, w')"
    using r1 by (auto elim: bnd_InrE)
  obtain dup w3 where fd: "FindDuplicate (ia_CollectionID a) (ia_SHA a) w2 = (Inr dup, w3)"
    and r3: "(if dup \<noteq> None then refused 409 ''duplicate document in collection''
     else or_refuse 500 ''object upload failed: ''
            (UploadFile D (RawBucket (Settings D)) (RawKey docID) (ia_MimeType a) (ia_Path a)) (\<lambda>_.
     or_refuse 500 [] (InsertDocument (ingested_doc (Settings D) key docID a)) (\<lambda>_.
     or_refuse 500 ''enqueue split failed: ''
       (on_ext (XAddJob (Broker D) StreamSplit (split_fields (split_job (Settings D) docID)))) (\<lambda>_.
     ret \<lparr>ir_DocID = docID, ir_HTTPStatus = 202, ir_Detail = doc_state_text StateUploaded\<rparr>)))) w3 = (Inr res, w')"
    using r2 assms(2) st by (rule or_refuse_202)
  have "dup = None" using r3 assms(2) by (auto simp: refused_def split: if_splits)
  then obtain x w4 where up: "UploadFile D (RawBucket (Settings D)) (RawKey docID) (ia_MimeType a) (ia_Path a) w3 = (Inr x, w4)"
    and r4: "or_refuse 500 [] (InsertDocument (ingested_doc (Settings D) key docID a)) (\<lambda>_.
     or_refuse 500 ''enqueue split failed: ''
       (on_ext (XAddJob (Broker D) StreamSplit (split_fields (split_job (Settings D) docID)))) (\<lambda>_.
     ret \<lparr>ir_DocID = docID, ir_HTTPStatus = 202, ir_Detail = doc_state_text StateUploaded\<rparr>)) w4 = (Inr res, w')"
    using r3 assms(2) by (auto elim: or_refuse_202)
  obtain y w5 where ins: "InsertDocument (ingested_doc (Settings D) key docID a) w4 = (Inr y, w5)"
    and r5: "or_refuse 500 ''enqueue split failed: ''
       (on_ext (XAddJob (Broker D) StreamSplit (split_fields (split_job (Settings D) docID)))) (\<lambda>_.
     ret \<lparr>ir_DocID = docID, ir_HTTPStatus = 202, ir_Detail = doc_state_text StateUploaded\<rparr>) w5 = (Inr res, w')"
    using r4 assms(2) st by (rule or_refuse_202)
  obtain mid w6 where add: "on_ext (XAddJob (Broker D) StreamSplit (split_fields (split_job (Settings D) docID))) w5 = (Inr mid, w6)"
    and r6: "(ret \<lparr>ir_DocID = docID, ir_HTTPStatus = 202, ir_Detail = doc_state_text StateUploaded\<rparr>
               :: ('x world, goerr, ingestResult) prog) w6 = (Inr res, w')"
    using r5 assms(2) st by (rule or_refuse_202)
  have res: "ir_DocID res = docID" "w' = w6" using r6 by auto
  have "outside (newUUID D)" unfolding newUUID_def by (rule outside_ext)
  moreover have "db w3 = db w2" using fd unfolding FindDuplicate_def by (rule query_keeps_db)
  moreover have "outside (UploadFile D (RawBucket (Settings D)) (RawKey docID) (ia_MimeType a) (ia_Path a))"
    using assms(3) by (simp add: outside_ingest_def)
  ultimately have d4: "db w4 = db w"
    using outsideD[OF outside_ext q] outsideD[where m = "newUUID D", OF _ u]
      outsideD[where m = "UploadFile D (RawBucket (Settings D)) (RawKey docID) (ia_MimeType a) (ia_Path a)", OF _ up] by simp
  have ins': "InsertDocument (ingested_doc (Settings D) key docID a) w4 = (Inr (), w5)" using ins by simp
  have d6: "db w6 = db w5" by (rule outsideD[OF outside_ext add])
  obtain d where d: "db w5 = (db w4)\<lparr>documents := documents (db w4) @ [d]\<rparr>" "d_ID d = docID" "d_State d = StateUploaded"
    "d_ContentSHA256 d = ia_SHA a" "d_CollectionID d = Some (ia_CollectionID a)" "d_Filename d = None"
    "docID \<notin> d_ID ` set (documents (db w4))"
    using ins' by (rule InsertDocument_Inr) (simp add: ingested_doc_def)
  show thesis by (rule that[of d]) (use d d4 d6 res in simp_all)
qed

lemma copied_within:
  "copied cap (bytes, fails) = (b, None) \<Longrightarrow> int (length b) \<le> cap \<Longrightarrow> b = bytes \<and> fails = None"
  by (auto simp: copied_def Let_def split: if_splits)

text \<open>
  C35. An ingestion answers 202 only for a body that arrived to its end within the limit of its
  sniffed format and that passed the format's verification; then exactly one document row has
  been added, under a new id, in state \<open>uploaded\<close> and with the SHA-256 of exactly the received
  bytes (the file name the caller derived is lost: the insert does not store it).
\<close>

theorem ingestFromStream_accepts:
  assumes "ingestFromStream D key (bytes, fails) coll filename title author metadata w = (Inr res, w')"
    and "ir_HTTPStatus res = 202" "outside_ingest D"
  shows "fails = None
    \<and> (\<exists>f pages. DetectFormat (take 64 bytes) filename = Inr f \<and> int (length bytes) \<le> body_cap (Settings D) f
         \<and> verified_ingest D f bytes = Inr pages)
    \<and> (\<exists>d. db w' = (db w)\<lparr>documents := documents (db w) @ [d]\<rparr> \<and> d_ID d = ir_DocID res \<and> d_State d = StateUploaded
         \<and> d_CollectionID d = Some coll \<and> d_ContentSHA256 d = hex (sha256 (bytes_of bytes)) \<and> d_Filename d = None
         \<and> ir_DocID res \<notin> d_ID ` set (documents (db w)))"
proof -
  obtain head where head: "read_full 64 (bytes, fails) = Some head"
    using assms(1,2) by (cases "read_full 64 (bytes, fails)") (auto simp: ingestFromStream_def refused_def)
  obtain f where f: "DetectFormat head filename = Inr f"
    using assms(1,2) head by (cases "DetectFormat head filename") (auto simp: ingestFromStream_def refused_def)
  obtain b e where c: "copied (body_cap (Settings D) f) (bytes, fails) = (b, e)" by fastforce
  define store where "store = (\<lambda>wr. \<lambda>cl. case wr of
                     Inl e \<Rightarrow> refused 400 (''download failed: '' @ error_text e)
                   | Inr (_ :: unit) \<Rightarrow>
                       (case e of
                          Some e \<Rightarrow> refused 400 (''download failed: '' @ error_text e)
                        | None \<Rightarrow>
                            if body_cap (Settings D) f < int (length b) then refused 400 ''file too large''
                            else case cl of
                              Inl e \<Rightarrow> refused 500 (''temp write failed: '' @ error_text e)
                            | Inr (_ :: unit) \<Rightarrow>
                                (case verified_ingest D f b of
                                   Inl m \<Rightarrow> refused 400 m
                                 | Inr pages \<Rightarrow>
                                     ingestCommit D key (ingest_args coll filename f title author metadata b pages))))"
  have run: "or_refuse 500 ''temp dir failed: '' (IngestDir D) (\<lambda>_.
               or_refuse 500 ''temp file failed: '' (CreateTemp D) (\<lambda>_.
               bnd (attempt (WriteTemp D b)) (\<lambda>wr. bnd (attempt (CloseTemp D)) (store wr)))) w = (Inr res, w')"
    using assms(1) head f c unfolding store_def by (simp add: ingestFromStream_def)
  obtain x w1 where i: "IngestDir D w = (Inr x, w1)" and r1: "or_refuse 500 ''temp file failed: '' (CreateTemp D) (\<lambda>_.
               bnd (attempt (WriteTemp D b)) (\<lambda>wr. bnd (attempt (CloseTemp D)) (store wr))) w1 = (Inr res, w')"
    using run assms(2) by (rule or_refuse_202) simp
  obtain y w2 where cr: "CreateTemp D w1 = (Inr y, w2)"
    and r2: "bnd (attempt (WriteTemp D b)) (\<lambda>wr. bnd (attempt (CloseTemp D)) (store wr)) w2 = (Inr res, w')"
    using r1 assms(2) by (rule or_refuse_202) simp
  obtain wr w3 where t: "WriteTemp D b w2 = (wr, w3)" by fastforce
  obtain cl w4 where cl: "CloseTemp D w3 = (cl, w4)" by fastforce
  have r4: "store wr cl w4 = (Inr res, w')" using r2 t cl by (simp add: bnd_attempt)
  have ok: "e = None" "int (length b) \<le> body_cap (Settings D) f"
    using r4 assms(2) unfolding store_def by (auto simp: refused_def split: sum.splits option.splits if_splits)
  obtain pages where v: "verified_ingest D f b = Inr pages"
    and r5: "ingestCommit D key (ingest_args coll filename f title author metadata b pages) w4 = (Inr res, w')"
    using r4 assms(2) unfolding store_def by (auto simp: refused_def split: sum.splits option.splits if_splits)
  have same: "b = bytes" "fails = None" using copied_within[OF c[unfolded ok(1)] ok(2)] by simp_all
  have d4: "db w4 = db w"
    using outsideD[where m = "IngestDir D", OF _ i] outsideD[where m = "CreateTemp D", OF _ cr]
      outsideD[where m = "WriteTemp D b", OF _ t] outsideD[where m = "CloseTemp D", OF _ cl] assms(3)
    by (simp add: outside_ingest_def)
  obtain d where d: "db w' = (db w4)\<lparr>documents := documents (db w4) @ [d]\<rparr>" "d_ID d = ir_DocID res"
    "d_State d = StateUploaded" "d_ContentSHA256 d = hex (sha256 (bytes_of b))" "d_CollectionID d = Some coll"
    "d_Filename d = None" "ir_DocID res \<notin> d_ID ` set (documents (db w4))"
    using ingestCommit_accepts[OF r5 assms(2,3)] by (auto simp: ingest_args_def)
  show ?thesis
    using same f v ok(2) read_full_take[OF head] d d4 by auto
qed

section \<open>An instance\<close>

lemma or_refuse_Inr: "m w = (Inr x, w1) \<Longrightarrow> or_refuse c p m k w = k x w1"
  by (simp add: or_refuse_def bnd_attempt)

lemma sample_ingest_sel:
  "outside_ingest sample_uploads" "IngestDir sample_uploads = ret ()" "CreateTemp sample_uploads = ret ()"
  "WriteTemp sample_uploads b = ret ()" "CloseTemp sample_uploads = ret ()" "UploadFile sample_uploads b k t c = ret ()"
  "PageCount (Pdf sample_uploads) (Some (ReadTemp sample_uploads b)) = Inr 3"
  "newUUID sample_uploads w = (Inr (uuid_v4 (replicate 16 0)), w)"
  by (simp_all add: outside_ingest_def sample_uploads_def outside_base PageCount_def read_file_def PageCountBytes_def
      newUUID_def on_ext_def)

lemma ingestFromStream_accepts_witness:
  "\<exists>res w' d. ingestFromStream sample_uploads None (''%PDF-1.4'', None) ''c'' ''a.pdf'' None None None sample_shelf = (Inr res, w')
     \<and> ir_HTTPStatus res = 202 \<and> documents (db w') = [d] \<and> d_ContentSHA256 d = hex (sha256 (bytes_of ''%PDF-1.4''))"
proof -
  let ?w = "sample_shelf" and ?id = "uuid_v4 (replicate 16 0)"
  let ?w1 = "?w\<lparr>nstmt := Suc 0\<rparr>"
  let ?a = "ingest_args ''c'' ''a.pdf'' FmtPDF None None None ''%PDF-1.4'' 3"
  have depth: "ext ?w = mem_empty" by (simp add: sample_shelf_def)
  have coll: "ia_CollectionID ?a = ''c''" by (simp add: ingest_args_def)
  have fd: "FindDuplicate ''c'' sha ?w = (Inr None, ?w1)" for sha
    by (simp add: FindDuplicate_def pool_stmt_Inr sample_shelf_def sample_world_def empty_tables_def)
  obtain w2 where ins: "InsertDocument (ingested_doc (Settings sample_uploads) None ?id ?a) ?w1 = (Inr (), w2)"
    by (simp add: InsertDocument_def pool_stmt_Inr sample_shelf_def sample_world_def empty_tables_def ingested_doc_def
        sample_collection_def ingest_args_def)
  obtain mid w3 where add: "on_ext (XAddJob mem_redis StreamSplit (split_fields (split_job (Settings sample_uploads) ?id))) w2
      = (Inr mid, w3)"
    by (simp add: on_ext_def XAddJob_def mem_add_def split: prod.splits)
  have commit: "\<exists>res. ingestCommit sample_uploads None ?a ?w = (Inr res, w3) \<and> ir_HTTPStatus res = 202"
    by (simp add: ingestCommit_def
        or_refuse_Inr[where m = "on_ext (QueueDepth mem_redis StreamParse)", OF sample_depth[of ?w, OF depth]]
        bnd_Inr[where m = "newUUID sample_uploads", OF sample_ingest_sel(8)]
        or_refuse_Inr[where m = "FindDuplicate ''c'' x" for x, OF fd] coll
        or_refuse_Inr[where m = "ret ()", OF ret_apply] sample_ingest_sel(6)
        or_refuse_Inr[where m = "InsertDocument (ingested_doc (Settings sample_uploads) None ?id ?a)", OF ins]
        or_refuse_Inr[where m = "on_ext (XAddJob mem_redis StreamSplit (split_fields (split_job (Settings sample_uploads) ?id)))", OF add])
  have det: "DetectFormat ''%PDF-1.4'' ''a.pdf'' = Inr FmtPDF" by (simp add: DetectFormat_def has_prefix_def)
  have run: "\<exists>res. ingestFromStream sample_uploads None (''%PDF-1.4'', None) ''c'' ''a.pdf'' None None None ?w = (Inr res, w3)
      \<and> ir_HTTPStatus res = 202"
    using commit by (simp add: ingestFromStream_def read_full_def det body_cap_def copied_def sample_ingest_sel
        or_refuse_Inr[where m = "ret ()", OF ret_apply] bnd_attempt[OF ret_apply] verified_ingest_def)
  then obtain res where r: "ingestFromStream sample_uploads None (''%PDF-1.4'', None) ''c'' ''a.pdf'' None None None ?w = (Inr res, w3)"
    "ir_HTTPStatus res = 202" by blast
  from ingestFromStream_accepts[OF r sample_ingest_sel(1)] r show ?thesis
    by (auto simp: sample_shelf_def empty_tables_def)
qed

end
