(* ===== verification/Events.thy ===== *)
theory Events
  imports Http SearchFilter
begin

text \<open>
  The Logs page: the listing of events (\<open>internal/store/events.go\<close>) and its two endpoints
  (\<open>internal/api/events.go\<close>).  The query's text is built as the code builds it, and the database
  checks its placeholders against the arguments before it runs.  The \<open>id\<close> column, filled by a
  sequence, is the argument \<open>ids\<close>, one number per row of the table; times stay numbers in the
  payloads.
\<close>

section \<open>Placeholders\<close>

text \<open>The parameter numbers a query mentions.\<close>

fun placeholders :: "string \<Rightarrow> nat list" where
  "placeholders [] = []"
| "placeholders (c # s) =
     (if c = CHR ''$'' \<and> s \<noteq> [] \<and> digit_byte (hd s)
      then digits_value (takeWhile digit_byte s) 0 # placeholders s else placeholders s)"

text \<open>
  What the driver and the server check before a query runs: every parameter up to the highest one
  mentioned must occur, or its type is unknown, and there must be as many arguments.
\<close>

definition params_error :: "string \<Rightarrow> nat \<Rightarrow> goerr option" where
  "params_error sql nargs =
     (let ps = placeholders sql; n = fold max ps 0; missing = filter (\<lambda>i. i \<notin> set ps) [1..<Suc n]
      in if missing \<noteq> [] then
           Some (PgError ''42P18'' (''could not determine data type of parameter $'' @ itoa (int (hd missing))))
         else if n \<noteq> nargs then
           Some (Plain (''expected '' @ itoa (int n) @ '' arguments, got '' @ itoa (int nargs)))
         else None)"

section \<open>The listing\<close>

record EventFilter =
  ef_DocID :: string
  ef_Level :: string
  ef_Stage :: string
  ef_Limit :: int
  ef_LastID :: int
  ef_Asc :: bool

text \<open>The conditions with the arguments appended for them, in the code's order.\<close>

definition event_where :: "EventFilter \<Rightarrow> (string \<times> string) list" where
  "event_where f =
     (if ef_DocID f \<noteq> [] then [(''doc_id::text = $1'', ef_DocID f)] else [])
     @ (if ef_Level f \<noteq> [] then [(''level = $2'', ef_Level f)] else [])
     @ (if ef_Stage f \<noteq> [] then [(''stage = $3'', ef_Stage f)] else [])
     @ (if 0 < ef_LastID f then [(''id > $4'', itoa (ef_LastID f))] else [])"

definition event_sql :: "EventFilter \<Rightarrow> string" where
  "event_sql f =
     ''SELECT id, doc_id, shard_idx, level, stage, code, message, context, worker_id, created_at FROM events''
     @ (if event_where f \<noteq> [] then '' WHERE '' @ join '' AND '' (map fst (event_where f)) else [])
     @ (if ef_Asc f then '' ORDER BY id ASC'' else '' ORDER BY created_at DESC'')
     @ '' LIMIT $5''"

text \<open>The rows the query selects when its parameters bind, with their ids.\<close>

definition event_matches :: "EventFilter \<Rightarrow> int \<times> Event \<Rightarrow> bool" where
  "event_matches f p =
     (let (i, e) = p
      in (ef_DocID f \<noteq> [] \<longrightarrow> e_DocID e = Some (ef_DocID f)) \<and> (ef_Level f \<noteq> [] \<longrightarrow> e_Level e = ef_Level f)
         \<and> (ef_Stage f \<noteq> [] \<longrightarrow> e_Stage e = ef_Stage f) \<and> (0 < ef_LastID f \<longrightarrow> ef_LastID f < i))"

definition event_rows :: "int list \<Rightarrow> EventFilter \<Rightarrow> tables \<Rightarrow> (int \<times> Event) list" where
  "event_rows ids f t =
     (let rows = filter (event_matches f) (zip ids (events t))
      in take (nat (ef_Limit f))
           (if ef_Asc f then sort_key fst rows else sort_key (\<lambda>(i, e). - e_CreatedAt e) rows))"

definition event_limit :: "EventFilter \<Rightarrow> EventFilter" where
  "event_limit f = (if ef_Limit f \<le> 0 \<or> 500 < ef_Limit f then f\<lparr>ef_Limit := 100\<rparr> else f)"

definition ListEvents :: "int list \<Rightarrow> EventFilter \<Rightarrow> ('x world, goerr, (int \<times> Event) list) prog" where
  "ListEvents ids f0 =
     (let f = event_limit f0
      in pool_stmt (\<lambda>now t.
           case params_error (event_sql f) (Suc (length (event_where f))) of
             Some e \<Rightarrow> (Inl e, t)
           | None \<Rightarrow> (Inr (event_rows ids f t), t)))"

section \<open>The endpoints\<close>

text \<open>\<open>strconv.Atoi\<close>\<close>

definition Atoi :: "string \<Rightarrow> int option" where
  "Atoi s =
     (let neg = (s \<noteq> [] \<and> hd s = CHR ''-''); signed = (s \<noteq> [] \<and> hd s \<in> {CHR ''+'', CHR ''-''});
          ds = (if signed then tl s else s); v = (if neg then - int (digits_value ds 0) else int (digits_value ds 0))
      in if ds \<noteq> [] \<and> list_all digit_byte ds \<and> - (2 ^ 63) \<le> v \<and> v < 2 ^ 63 then Some v else None)"

definition list_limit :: "string \<Rightarrow> int" where
  "list_limit v =
     min 500 (if v \<noteq> [] then (case Atoi v of Some n \<Rightarrow> if 0 < n then n else 100 | None \<Rightarrow> 100) else 100)"

definition handleListEvents ::
  "int list \<Rightarrow> string \<Rightarrow> string \<Rightarrow> string \<Rightarrow> string \<Rightarrow> ('x, (int \<times> Event) list) handler" where
  "handleListEvents ids limit docID level stage =
     or500 (ListEvents ids \<lparr>ef_DocID = docID, ef_Level = level, ef_Stage = stage, ef_Limit = list_limit limit,
                            ef_LastID = 0, ef_Asc = False\<rparr>)
       (\<lambda>rows. WriteJSON 200 rows)"

record SSEPayload =
  sse_ID :: int
  sse_DocID :: string
  sse_ShardIdx :: "int option"
  sse_Level :: string
  sse_Stage :: string
  sse_Code :: string
  sse_Message :: string
  sse_CreatedAt :: int

definition NewSSEPayload :: "int \<times> Event \<Rightarrow> SSEPayload" where
  "NewSSEPayload p =
     (let (i, e) = p
      in \<lparr>sse_ID = i, sse_DocID = (case e_DocID e of Some d \<Rightarrow> d | None \<Rightarrow> []), sse_ShardIdx = e_ShardIdx e,
          sse_Level = e_Level e, sse_Stage = e_Stage e, sse_Code = (case e_Code e of Some c \<Rightarrow> c | None \<Rightarrow> []),
          sse_Message = e_Message e, sse_CreatedAt = e_CreatedAt e\<rparr>)"

text \<open>
  One poll of the feed: the payloads it sends and the highest id seen.  The feed is as many polls
  as the client stays for.
\<close>

definition event_poll :: "int list \<Rightarrow> int \<Rightarrow> ('x world, goerr, int \<times> SSEPayload list) prog" where
  "event_poll ids lastID =
     bnd (attempt (ListEvents ids \<lparr>ef_DocID = [], ef_Level = [], ef_Stage = [], ef_Limit = 100,
                                   ef_LastID = lastID, ef_Asc = True\<rparr>)) (\<lambda>r.
     case r of
       Inl e \<Rightarrow> ret (lastID, [])
     | Inr rows \<Rightarrow> ret (fold (\<lambda>(i, e) m. max i m) rows lastID, map NewSSEPayload rows))"

fun handleEventStream :: "nat \<Rightarrow> int list \<Rightarrow> int \<Rightarrow> ('x world, goerr, SSEPayload list) prog" where
  "handleEventStream 0 ids lastID = ret []"
| "handleEventStream (Suc n) ids lastID =
     bnd (event_poll ids lastID) (\<lambda>(l, sent).
     bnd (handleEventStream n ids l) (\<lambda>more. ret (sent @ more)))"

section \<open>The query's parameters\<close>

lemma placeholders_append:
  assumes "s \<noteq> []" "\<not> digit_byte (hd t)" "last s \<noteq> CHR ''$''"
  shows "placeholders (s @ t) = placeholders s @ placeholders t"
  using assms(1,3)
proof (induction s)
  case (Cons c s)
  show ?case
  proof (cases "s = []")
    case False
    have "takeWhile digit_byte t = []" using assms(2) by (cases t) simp_all
    then have "takeWhile digit_byte (s @ t) = takeWhile digit_byte s"
      by (cases "\<forall>x \<in> set s. digit_byte x")
        (auto simp: takeWhile_append1 takeWhile_append2 takeWhile_eq_all_conv[THEN iffD2])
    then show ?thesis using Cons False by (simp add: hd_append)
  qed (use Cons in simp)
qed simp

text \<open>Each piece of the text: what it mentions, and that it neither starts nor ends a placeholder.\<close>

definition piece :: "string \<Rightarrow> nat list \<Rightarrow> bool" where
  "piece s ps \<longleftrightarrow> s \<noteq> [] \<and> \<not> digit_byte (hd s) \<and> last s \<noteq> CHR ''$'' \<and> placeholders s = ps"

lemma piece_append [intro]: "piece s ps \<Longrightarrow> piece t qs \<Longrightarrow> piece (s @ t) (ps @ qs)"
  by (auto simp: piece_def placeholders_append)

lemma piece_sql:
  "piece ''SELECT id, doc_id, shard_idx, level, stage, code, message, context, worker_id, created_at FROM events'' []"
  "piece '' WHERE '' []" "piece '' AND '' []" "piece ''doc_id::text = $1'' [Suc 0]" "piece ''level = $2'' [2]"
  "piece ''stage = $3'' [3]" "piece ''id > $4'' [4]" "piece '' ORDER BY id ASC'' []"
  "piece '' ORDER BY created_at DESC'' []" "piece '' LIMIT $5'' [5]"
  by code_simp+

lemma piece_join: "qs \<noteq> [] \<Longrightarrow> list_all2 piece ss qs \<Longrightarrow> piece (join '' AND '' ss) (concat qs)"
proof (induction qs arbitrary: ss rule: induct_list012)
  case (3 q q' qs)
  then obtain s s' ss' where "ss = s # s' # ss'" by (auto simp: list_all2_Cons2)
  then show ?case using 3 piece_append[OF _ piece_append[OF piece_sql(3)]] by simp
qed (auto simp: list_all2_Cons2)

text \<open>The conditions a filter sets.\<close>

definition where_params :: "EventFilter \<Rightarrow> nat list" where
  "where_params f = (if ef_DocID f \<noteq> [] then [1] else []) @ (if ef_Level f \<noteq> [] then [2] else [])
     @ (if ef_Stage f \<noteq> [] then [3] else []) @ (if 0 < ef_LastID f then [4] else [])"

lemma where_pieces:
  "list_all2 piece (map fst (event_where f)) (map (\<lambda>i. [i]) (where_params f))"
  by (simp add: event_where_def where_params_def piece_sql[simplified])

lemma placeholders_sql: "placeholders (event_sql f) = where_params f @ [5]"
proof -
  have order: "piece (if ef_Asc f then '' ORDER BY id ASC'' else '' ORDER BY created_at DESC'') []"
    by (simp add: piece_sql)
  have len: "length (event_where f) = length (where_params f)"
    using list_all2_lengthD[OF where_pieces[of f]] by simp
  have "piece (event_sql f) (where_params f @ [5])"
  proof (cases "event_where f = []")
    case True
    then show ?thesis
      using len piece_append[OF piece_sql(1) piece_append[OF order piece_sql(10)]] by (simp add: event_sql_def)
  next
    case False
    then have "piece (join '' AND '' (map fst (event_where f))) (concat (map (\<lambda>i. [i]) (where_params f)))"
      by (intro piece_join[OF _ where_pieces]) (use len in auto)
    moreover have "concat (map (\<lambda>i. [i]) xs) = xs" for xs :: "nat list" by (induction xs) simp_all
    ultimately have "piece (join '' AND '' (map fst (event_where f))) (where_params f)" by simp
    then show ?thesis
      using False piece_append[OF piece_sql(1) piece_append[OF piece_append[OF piece_sql(2)] piece_append[OF order piece_sql(10)]]]
      by (simp add: event_sql_def)
  qed
  then show ?thesis by (simp add: piece_def)
qed

lemma params_error_sql:
  assumes "where_params f \<noteq> [1, 2, 3, 4]"
  shows "params_error (event_sql f) n \<noteq> None"
proof -
  have "filter (\<lambda>i. i \<notin> set (where_params f @ [5])) [1..<Suc (fold max (where_params f @ [5]) 0)] \<noteq> []"
    using assms unfolding where_params_def by (simp add: upt_rec split: if_splits)
  then show ?thesis unfolding params_error_def placeholders_sql Let_def by (simp only: if_True not_False_eq_True option.simps simp_thms)
qed

lemma ListEvents_fails:
  assumes "where_params f \<noteq> [1, 2, 3, 4]"
  shows "\<exists>e w'. ListEvents ids f w = (Inl e, w') \<and> db w' = db w"
proof -
  have same: "where_params (event_limit f) = where_params f" by (simp add: where_params_def event_limit_def)
  obtain e where "params_error (event_sql (event_limit f)) (Suc (length (event_where (event_limit f)))) = Some e"
    using params_error_sql[OF assms[folded same]] by fast
  then show ?thesis
    by (auto simp: ListEvents_def pool_stmt_def bnd_def next_fault_def run_stmt_def split: option.splits)
qed

lemma event_poll_silent: "lastID \<le> 0 \<Longrightarrow> \<exists>w'. event_poll ids lastID w = (Inr (lastID, []), w') \<and> db w' = db w"
  using ListEvents_fails[of "\<lparr>ef_DocID = [], ef_Level = [], ef_Stage = [], ef_Limit = 100, ef_LastID = lastID, ef_Asc = True\<rparr>" ids w]
  by (auto simp: event_poll_def bnd_def attempt_def ret_def where_params_def)

lemma handleEventStream_silent: "\<exists>w'. handleEventStream n ids 0 w = (Inr [], w') \<and> db w' = db w"
proof (induction n arbitrary: w)
  case (Suc n)
  obtain w1 where "event_poll ids 0 w = (Inr (0, []), w1)" "db w1 = db w" using event_poll_silent[of 0] by blast
  moreover obtain w2 where "handleEventStream n ids 0 w1 = (Inr [], w2)" "db w2 = db w1" using Suc by blast
  ultimately show ?case by (simp add: bnd_def ret_def)
qed (simp add: ret_def)

text \<open>
  C39. The listing numbers its conditions by the filter's field and its limit always \<open>$5\<close>, but
  appends only the arguments it has: unless all four filters are set the query names a parameter
  set with gaps and the database refuses it.  So \<open>GET /v1/events\<close>, which never filters by id,
  answers 500 to every request, and the event stream sends nothing however long it runs.
\<close>

theorem events_unreadable:
  "(\<exists>msg w'. handleListEvents ids limit docID level stage w = (Inr (Detail 500 msg), w') \<and> db w' = db w)
   \<and> (\<exists>w'. handleEventStream n ids 0 w = (Inr [], w') \<and> db w' = db w)"
proof
  let ?f = "\<lparr>ef_DocID = docID, ef_Level = level, ef_Stage = stage, ef_Limit = list_limit limit, ef_LastID = 0, ef_Asc = False\<rparr>"
  have "where_params ?f \<noteq> [1, 2, 3, 4]" by (simp add: where_params_def)
  then obtain e w' where "ListEvents ids ?f w = (Inl e, w')" "db w' = db w" using ListEvents_fails by blast
  then show "\<exists>msg w'. handleListEvents ids limit docID level stage w = (Inr (Detail 500 msg), w') \<and> db w' = db w"
    unfolding handleListEvents_def by (simp add: or500_Inl)
qed (rule handleEventStream_silent)

end
