(* ===== verification/Documents.thy ===== *)
theory Documents
  imports Uploads ChunkStore Events
begin

text \<open>
  The document and chunk endpoints (\<open>internal/api/documents.go\<close>, \<open>chunks.go\<close>): listing, reading,
  deleting, batches, retries and the chunk inspector.  Replies carry the rows the handlers render.
\<close>

section \<open>Identifiers the database accepts\<close>

text \<open>
  A text bound to a \<open>uuid\<close> parameter: 32 hexadecimal digits, alone or in five groups with any
  separators; the row's id is the lower-case form with dashes.
\<close>

definition hex_lower_char :: "char \<Rightarrow> char" where
  "hex_lower_char c = (if 65 \<le> byte c \<and> byte c \<le> 70 then char_of (byte c + 32) else c)"

definition parse_uuid :: "string \<Rightarrow> string option" where
  "parse_uuid s =
     (let ds = (if length s = 36
                then substr 0 8 s @ substr 9 13 s @ substr 14 18 s @ substr 19 23 s @ substr 24 36 s else s)
      in if length ds = 32 \<and> list_all isHexDigit ds then Some (uuid_groups (map hex_lower_char ds)) else None)"

definition uuid_arg :: "string \<Rightarrow> ('x world, goerr, string) prog" where
  "uuid_arg s = (case parse_uuid s of None \<Rightarrow> raise (Plain (''cannot parse UUID '' @ s)) | Some u \<Rightarrow> ret u)"

definition get_document :: "string \<Rightarrow> ('x world, goerr, Document option) prog" where
  "get_document s = bnd (uuid_arg s) GetDocument"

section \<open>Listing\<close>

text \<open>\<open>ILIKE\<close> over runes: \<open>%\<close> any text, \<open>_\<close> one rune, a backslash takes the next rune literally.\<close>

fun like :: "nat list \<Rightarrow> nat list \<Rightarrow> bool" where
  "like [] t = (t = [])"
| "like (p # ps) [] = (p = 37 \<and> like ps [])"
| "like (p # ps) (r # t) =
     (if p = 37 then like ps (r # t) \<or> like (p # ps) t
      else if p = 95 then like ps t
      else if p = 92 then (case ps of [] \<Rightarrow> False | q # qs \<Rightarrow> q = r \<and> like qs t)
      else p = r \<and> like ps t)"

definition ilike :: "string \<Rightarrow> string \<Rightarrow> bool" where
  "ilike t p = like (runes (to_lower p)) (runes (to_lower t))"

definition doc_matches :: "string \<Rightarrow> string \<Rightarrow> string \<Rightarrow> Document \<Rightarrow> bool" where
  "doc_matches state collection q d \<longleftrightarrow>
     (state \<noteq> [] \<longrightarrow> doc_state_text (d_State d) = state)
     \<and> (collection \<noteq> [] \<longrightarrow> d_CollectionID d = Some collection)
     \<and> (q \<noteq> [] \<longrightarrow> (case d_Title d of None \<Rightarrow> False | Some t \<Rightarrow> ilike t (CHR ''%'' # q @ ''%'')))"

text \<open>\<open>ListDocuments\<close>; an empty text is a filter that is not set.\<close>

definition ListDocuments :: "string \<Rightarrow> string \<Rightarrow> string \<Rightarrow> int \<Rightarrow> int \<Rightarrow> ('x world, goerr, Document list) prog" where
  "ListDocuments state collection q limit offset =
     (let n = (if limit \<le> 0 \<or> 200 < limit then 50 else limit)
      in pool_stmt (query (\<lambda>t.
           take (nat n) (drop (nat offset)
             (sort_key (\<lambda>d. - d_UpdatedAt d) (filter (doc_matches state collection q) (documents t)))))))"

definition positive_or :: "int \<Rightarrow> string \<Rightarrow> int" where
  "positive_or def v = (case Atoi v of Some n \<Rightarrow> if 0 < n then n else def | None \<Rightarrow> def)"

definition handleListDocuments ::
  "string \<Rightarrow> string \<Rightarrow> string \<Rightarrow> string \<Rightarrow> string \<Rightarrow> ('x, Document list) handler" where
  "handleListDocuments state collection q limit offset =
     or500 (ListDocuments state collection q (min 200 (positive_or 50 limit)) (positive_or 0 offset))
       (\<lambda>docs. WriteJSON 200 docs)"

definition handleGetDocument :: "string \<Rightarrow> ('x, Document) handler" where
  "handleGetDocument docID =
     or500 (get_document docID) (\<lambda>doc.
     case doc of None \<Rightarrow> writeDetail 404 ''document not found'' | Some d \<Rightarrow> WriteJSON 200 d)"

definition handleGetShards :: "string \<Rightarrow> ('x, Shard list) handler" where
  "handleGetShards docID = or500 (bnd (uuid_arg docID) GetShards) (\<lambda>ss. WriteJSON 200 ss)"

section \<open>Deleting\<close>

definition scoped :: "ApiKey option \<Rightarrow> bool" where
  "scoped key = (case key of None \<Rightarrow> False | Some k \<Rightarrow> ak_Collections k \<noteq> [])"

definition keyAllowedCollection :: "ApiKey option \<Rightarrow> string option \<Rightarrow> bool" where
  "keyAllowedCollection key collectionID \<longleftrightarrow>
     \<not> scoped key \<or> (\<exists>k c. key = Some k \<and> collectionID = Some c \<and> CollectionAllowed k c)"

definition deleted_event :: "string \<Rightarrow> Document \<Rightarrow> string \<Rightarrow> ('x world, goerr, unit) prog" where
  "deleted_event verb doc docID =
     best_effort (WriteEventPool ''info'' ''documents''
       (''document '' @ verb @ '': '' @ (case d_Title doc of None \<Rightarrow> ''(untitled)'' | Some t \<Rightarrow> t)
        @ '' (raw object left for janitor GC)'') (Some docID) None None None [])"

definition handleDeleteDocument :: "ApiKey option \<Rightarrow> string \<Rightarrow> ('x, string) handler" where
  "handleDeleteDocument key docID =
     (if docID = [] \<or> \<not> isUUID docID then writeDetail 422 ''invalid doc_id''
      else or500 (get_document docID) (\<lambda>doc.
      case doc of
        None \<Rightarrow> writeDetail 404 ''document not found''
      | Some d \<Rightarrow>
          if \<not> keyAllowedCollection key (d_CollectionID d)
          then writeDetail 403 ''key is not scoped to this collection''
          else or500 (DeleteDocument (d_ID d)) (\<lambda>_.
               bnd (deleted_event ''deleted'' d (d_ID d)) (\<lambda>_.
               WriteJSON 200 docID))))"

section \<open>Retries\<close>

definition parse_jobs_of :: "string \<Rightarrow> Document \<Rightarrow> Shard list \<Rightarrow> ParseJob list" where
  "parse_jobs_of docID doc ss =
     map (\<lambda>s. \<lparr>pj_SchemaVersion = SchemaVersion, pj_DocID = docID, pj_Idx = s_Idx s, pj_PageStart = s_PageStart s,
                pj_PageEnd = s_PageEnd s, pj_SourceURI = d_SourceURI doc\<rparr>) ss"

definition requeue_tx :: "string \<Rightarrow> ('x world, goerr, unit) prog" where
  "requeue_tx docID =
     Tx (bnd (RequeueFailedShards docID) (\<lambda>_. SetDocState docID StateParsing None None))"

definition batchReparseDoc :: "'x redis_ops \<Rightarrow> Document \<Rightarrow> ('x world, goerr, string \<times> string) prog" where
  "batchReparseDoc R doc =
     bnd (attempt (FailedShards (d_ID doc))) (\<lambda>r.
     case r of
       Inl e \<Rightarrow> ret (''error'', error_text e)
     | Inr ss \<Rightarrow>
         if ss = [] then ret (''skipped'', ''no failed shards to retry'')
         else bnd (attempt (requeue_tx (d_ID doc))) (\<lambda>r2.
              case r2 of
                Inl e \<Rightarrow> ret (''error'', error_text e)
              | Inr _ \<Rightarrow>
                  bnd (attempt (enqueue_all R (parse_jobs_of (d_ID doc) doc ss))) (\<lambda>r3.
                  case r3 of Inl e \<Rightarrow> ret (''error'', error_text e) | Inr _ \<Rightarrow> ret (''ok'', []))))"

definition embed_job :: "string \<Rightarrow> EmbedJob" where
  "embed_job docID = \<lparr>ej_SchemaVersion = SchemaVersion, ej_DocID = docID\<rparr>"

definition split_job_of :: "string \<Rightarrow> Document \<Rightarrow> SplitJob" where
  "split_job_of docID doc = \<lparr>sj_SchemaVersion = SchemaVersion, sj_DocID = docID, sj_SourceURI = d_SourceURI doc\<rparr>"

definition retry_shards :: "'x redis_ops \<Rightarrow> string \<Rightarrow> Document \<Rightarrow> ('x, string \<times> string) handler" where
  "retry_shards R docID d =
     or500 (FailedShards (d_ID d)) (\<lambda>ss.
     if ss = [] then writeDetail 409 ''no failed shards to retry''
     else or500 (requeue_tx (d_ID d)) (\<lambda>_.
          or500 (enqueue_all R (parse_jobs_of docID d ss)) (\<lambda>_.
          WriteJSON 200 (docID, ''shards''))))"

definition retry_with ::
  "'x redis_ops \<Rightarrow> string \<Rightarrow> string \<Rightarrow> ('x world, goerr, unit) prog \<Rightarrow> string \<Rightarrow> (string \<times> field) list
   \<Rightarrow> ('x, string \<times> string) handler" where
  "retry_with R docID scope body stream job =
     or500 (Tx body) (\<lambda>_. or500 (on_ext (XAddJob R stream job)) (\<lambda>_. WriteJSON 200 (docID, scope)))"

definition handleRetry :: "'x redis_ops \<Rightarrow> string \<Rightarrow> string option \<Rightarrow> ('x, string \<times> string) handler" where
  "handleRetry R docID b =
     (case b of
        None \<Rightarrow> writeDetail 422 ''invalid JSON body''
      | Some scope \<Rightarrow>
          if scope \<notin> {''shards'', ''embed'', ''rechunk'', ''full''}
          then writeDetail 422 ''scope must be one of shards|embed|rechunk|full''
          else or500 (get_document docID) (\<lambda>doc.
          case doc of
            None \<Rightarrow> writeDetail 404 ''document not found''
          | Some d \<Rightarrow>
              if scope = ''embed''
              then retry_with R docID scope (SetDocState (d_ID d) StateEmbedding None None) StreamEmbed
                     (embed_fields (embed_job docID))
              else if scope = ''rechunk''
              then retry_with R docID scope (ResetDocForRechunk (d_ID d)) StreamEmbed (embed_fields (embed_job docID))
              else if scope = ''full''
              then retry_with R docID scope (ResetDocForFullRetry (d_ID d)) StreamSplit
                     (split_fields (split_job_of docID d))
              else retry_shards R docID d))"

section \<open>Batches\<close>

text \<open>Every document is looked up before anything is changed; \<open>Inl\<close> is the first id without one.\<close>

fun resolve_docs :: "string list \<Rightarrow> ('x world, goerr, string + Document list) prog" where
  "resolve_docs [] = ret (Inr [])"
| "resolve_docs (i # is) =
     bnd (get_document i) (\<lambda>doc.
     case doc of
       None \<Rightarrow> ret (Inl i)
     | Some d \<Rightarrow> bnd (resolve_docs is) (\<lambda>r. ret (map_sum id (\<lambda>ds. d # ds) r)))"

text \<open>The first document whose collection the key does not allow.\<close>

definition forbidden_doc :: "ApiKey option \<Rightarrow> Document list \<Rightarrow> Document option" where
  "forbidden_doc key docs =
     (case key of
        None \<Rightarrow> None
      | Some k \<Rightarrow>
          if ak_Collections k = [] then None
          else find (\<lambda>d. case d_CollectionID d of None \<Rightarrow> False | Some c \<Rightarrow> \<not> CollectionAllowed k c) docs)"

definition batch_delete_doc :: "Document \<Rightarrow> ('x world, goerr, string \<times> string \<times> string) prog" where
  "batch_delete_doc d =
     bnd (attempt (DeleteDocument (d_ID d))) (\<lambda>r.
     case r of
       Inl e \<Rightarrow> ret (d_ID d, ''error'', error_text e)
     | Inr _ \<Rightarrow> bnd (deleted_event ''batch-deleted'' d (d_ID d)) (\<lambda>_. ret (d_ID d, ''ok'', [])))"

definition batch_reparse :: "'x redis_ops \<Rightarrow> Document \<Rightarrow> ('x world, goerr, string \<times> string \<times> string) prog" where
  "batch_reparse R d = bnd (batchReparseDoc R d) (\<lambda>(status, detail). ret (d_ID d, status, detail))"

fun collect :: "('a \<Rightarrow> ('s, 'e, 'b) prog) \<Rightarrow> 'a list \<Rightarrow> ('s, 'e, 'b list) prog" where
  "collect f [] = ret []"
| "collect f (x # xs) = bnd (f x) (\<lambda>y. bnd (collect f xs) (\<lambda>ys. ret (y # ys)))"

definition handleDocumentBatch ::
  "'x redis_ops \<Rightarrow> ApiKey option \<Rightarrow> (string \<times> string list) option
   \<Rightarrow> ('x, string \<times> (string \<times> string \<times> string) list) handler" where
  "handleDocumentBatch R key b =
     (case b of
        None \<Rightarrow> writeDetail 422 ''invalid JSON body''
      | Some (action, ids) \<Rightarrow>
          if action \<notin> {''delete'', ''reparse''} then writeDetail 422 ''action must be one of delete|reparse''
          else if ids = [] then writeDetail 422 ''field required: doc_ids''
          else case find (\<lambda>i. \<not> isUUID i) ids of
            Some i \<Rightarrow> writeDetail 422 (''unknown doc_id: '' @ i)
          | None \<Rightarrow>
              or500 (resolve_docs ids) (\<lambda>r.
              case r of
                Inl i \<Rightarrow> writeDetail 422 (''unknown doc_id: '' @ i)
              | Inr docs \<Rightarrow>
                  (case forbidden_doc key docs of
                     Some d \<Rightarrow> writeDetail 403 (''key is not scoped to collection '' @ the (d_CollectionID d))
                   | None \<Rightarrow>
                       bnd (collect (if action = ''delete'' then batch_delete_doc else batch_reparse R) docs) (\<lambda>out.
                       WriteJSON 200 (action, out)))))"

section \<open>Chunks\<close>

definition chunk_forbidden :: string where
  "chunk_forbidden = ''key is not scoped to this document'' @ CHR 0x27 # ''s collection''"

text \<open>\<open>keyScopeChunks\<close>: the handler's continuation runs only where it returns true.\<close>

definition keyScopeChunks :: "ApiKey option \<Rightarrow> string \<Rightarrow> ('x, 'a) handler \<Rightarrow> ('x, 'a) handler" where
  "keyScopeChunks key docID k =
     (if \<not> scoped key then k
      else or500 (get_document docID) (\<lambda>doc.
      case doc of
        None \<Rightarrow> writeDetail 404 ''document not found''
      | Some d \<Rightarrow>
          (case d_CollectionID d of
             None \<Rightarrow> writeDetail 403 chunk_forbidden
           | Some c \<Rightarrow> if c \<in> set (ak_Collections (the key)) then k else writeDetail 403 chunk_forbidden)))"

definition queryInt :: "string \<Rightarrow> int \<Rightarrow> int" where
  "queryInt v def = (if v = [] then def else case Atoi v of None \<Rightarrow> def | Some n \<Rightarrow> if n < 1 then def else n)"

definition handleListDocChunks ::
  "ApiKey option \<Rightarrow> string \<Rightarrow> string \<Rightarrow> string \<Rightarrow> ('x, int \<times> int \<times> int \<times> Chunk list) handler" where
  "handleListDocChunks key docID page0 size0 =
     keyScopeChunks key docID
       (let page = queryInt page0 1; pageSize = queryInt size0 50
        in or500 (bnd (uuid_arg docID) (\<lambda>u. ListDocChunks u page pageSize)) (\<lambda>(cs, total').
           WriteJSON 200 (total', page, (if pageSize < 1 then 50 else min 200 pageSize), cs)))"

definition last_seq :: "int \<Rightarrow> Chunk list \<Rightarrow> string option" where
  "last_seq s cs = (case filter (\<lambda>c. c_Seq c = s) (rev cs) of [] \<Rightarrow> None | c # _ \<Rightarrow> Some (c_ID c))"

record chunkDetailOut =
  cd_Chunk :: Chunk
  cd_ParentText :: string
  cd_PrevID :: "string option"
  cd_NextID :: "string option"
  cd_Neighbours :: "Chunk list"

definition handleGetChunk :: "ApiKey option \<Rightarrow> string \<Rightarrow> ('x, chunkDetailOut) handler" where
  "handleGetChunk key chunkID =
     or500 (bnd (uuid_arg chunkID) GetChunkWithParent) (\<lambda>found.
     case found of
       None \<Rightarrow> writeDetail 404 ''chunk not found''
     | Some (c, parent) \<Rightarrow>
         keyScopeChunks key (c_DocID c)
           (or500 (ChunkNeighbours (c_DocID c) (c_Seq c) 1) (\<lambda>ns.
            WriteJSON 200 \<lparr>cd_Chunk = c, cd_ParentText = (case parent of None \<Rightarrow> [] | Some p \<Rightarrow> c_Text p),
              cd_PrevID = last_seq (c_Seq c - 1) ns, cd_NextID = last_seq (c_Seq c + 1) ns, cd_Neighbours = ns\<rparr>)))"

section \<open>A batch is checked before it is carried out\<close>

lemma get_document_keeps_db: "db (snd (get_document s w)) = db w"
  by (cases "parse_uuid s") (simp_all add: get_document_def uuid_arg_def bnd_def GetDocument_def pool_stmt_def next_fault_def
      run_stmt_def split: option.splits)

lemma get_document_Inr:
  assumes "get_document s w = (Inr (Some d), w')"
  shows "parse_uuid s = Some (d_ID d)" "d \<in> set (documents (db w))"
  using assms unfolding get_document_def uuid_arg_def
  by (auto simp: bnd_eq_Inr GetDocument_def pool_stmt_Inr doc_by_id_def find_Some_iff split: option.splits)

lemma resolve_docs_keeps_db: "db (snd (resolve_docs is w)) = db w"
proof (induction "is" arbitrary: w)
  case (Cons i "is")
  obtain r w1 where g: "get_document i w = (r, w1)" by fastforce
  then have d: "db w1 = db w" using get_document_keeps_db[of i w] by simp
  obtain r2 w2 where t: "resolve_docs is w1 = (r2, w2)" by fastforce
  then have "db w2 = db w1" using Cons[of w1] by simp
  then show ?case using g t d by (auto simp: bnd_def split: sum.splits option.splits)
qed simp

definition found :: "tables \<Rightarrow> string \<Rightarrow> Document \<Rightarrow> bool" where
  "found t i d \<longleftrightarrow> parse_uuid i = Some (d_ID d) \<and> d \<in> set (documents t)"

lemma resolve_docs_Inr:
  assumes "resolve_docs is w = (Inr (Inr docs), w')"
  shows "list_all2 (found (db w)) is docs"
  using assms
proof (induction "is" arbitrary: w docs w')
  case (Cons i "is")
  obtain r w1 where g: "get_document i w = (r, w1)" by fastforce
  obtain d where r: "r = Inr (Some d)" using Cons.prems g by (auto simp: bnd_def split: sum.splits option.splits)
  obtain ds w2 where t: "resolve_docs is w1 = (Inr (Inr ds), w2)" and docs: "docs = d # ds"
    using Cons.prems g r by (auto simp: bnd_def map_sum_def split: sum.splits prod.splits)
  have "db w1 = db w" using get_document_keeps_db[of i w] g by simp
  then have "list_all2 (found (db w)) is ds" using Cons.IH[OF t] by simp
  moreover have "found (db w) i d" using get_document_Inr[OF g[unfolded r]] by (simp add: found_def)
  ultimately show ?case using docs by simp
qed simp

text \<open>A program that always returns a value.\<close>

definition always :: "('s, 'e, 'a) prog \<Rightarrow> bool" where
  "always m \<longleftrightarrow> (\<forall>w. \<exists>x w'. m w = (Inr x, w'))"

lemma always_bnd: "always m \<Longrightarrow> (\<And>x. always (f x)) \<Longrightarrow> always (bnd m f)"
  unfolding always_def bnd_def by (metis (no_types, lifting) case_prod_conv old.sum.simps(6))

lemma always_ret [simp]: "always (ret x)" by (simp add: always_def)

lemma always_attempt [simp]: "always (attempt m)"
  by (simp add: always_def attempt_def split: prod.splits)

lemma always_writeDetail [simp]: "always (writeDetail c m)" "always (WriteJSON c v)"
  by (simp_all add: writeDetail_def WriteJSON_def)

lemma always_or_fail: "(\<And>x. always (k x)) \<Longrightarrow> always (or_fail c p m k)"
  unfolding or_fail_def by (rule always_bnd) (auto split: sum.splits)

lemma always_best_effort: "always (best_effort m)"
  unfolding best_effort_def by (rule always_bnd) simp_all

lemma always_collect: "(\<And>x. always (f x)) \<Longrightarrow> always (collect f xs)"
  by (induction xs) (auto intro!: always_bnd)

lemma always_steps: "always (batch_delete_doc d)" "always (batch_reparse R d)"
  unfolding batch_delete_doc_def batch_reparse_def batchReparseDoc_def deleted_event_def
  by (intro always_bnd always_best_effort; auto intro!: always_bnd always_best_effort split: sum.splits prod.splits)+

lemma collect_length: "collect f xs w = (Inr ys, w') \<Longrightarrow> length ys = length xs"
  by (induction xs arbitrary: w ys) (auto simp: bnd_eq_Inr)

text \<open>What a batch may touch with a key: documents of its collections, and those of no collection.\<close>

definition batch_allowed :: "ApiKey option \<Rightarrow> Document \<Rightarrow> bool" where
  "batch_allowed key d \<longleftrightarrow>
     (case (key, d_CollectionID d) of
        (Some k, Some c) \<Rightarrow> ak_Collections k = [] \<or> CollectionAllowed k c | _ \<Rightarrow> True)"

lemma forbidden_None: "forbidden_doc key docs = None \<longleftrightarrow> list_all (batch_allowed key) docs"
  by (cases key) (auto simp: forbidden_doc_def batch_allowed_def list_all_iff find_None_iff split: option.splits)

text \<open>
  C37. A batch is all or nothing up to its checks: it is answered either with an error and without
  any change to the tables, or with one outcome per named document, and then every id named a
  document that exists and that the key may touch.
\<close>

theorem handleDocumentBatch_fails_closed:
  "(\<exists>code msg w'. handleDocumentBatch R key b w = (Inr (Detail code msg), w') \<and> db w' = db w)
   \<or> (\<exists>action ids docs out w'. b = Some (action, ids) \<and> action \<in> {''delete'', ''reparse''}
        \<and> handleDocumentBatch R key b w = (Inr (Answer 200 (action, out)), w') \<and> length out = length ids
        \<and> list_all2 (found (db w)) ids docs \<and> list_all (batch_allowed key) docs)"
proof (cases "\<exists>action ids. b = Some (action, ids) \<and> action \<in> {''delete'', ''reparse''} \<and> ids \<noteq> []
    \<and> find (\<lambda>i. \<not> isUUID i) ids = None")
  case False
  then show ?thesis
    by (auto simp: handleDocumentBatch_def writeDetail_def split: option.splits if_splits)
next
  case True
  then obtain action ids where b: "b = Some (action, ids)" "action \<in> {''delete'', ''reparse''}" "ids \<noteq> []"
    "find (\<lambda>i. \<not> isUUID i) ids = None" by blast
  have guard: "(action \<notin> {''delete'', ''reparse''}) = False" "(ids = []) = False" using b(2,3) by simp_all
  define step where "step = (if action = ''delete'' then batch_delete_doc else batch_reparse R)"
  have eq: "handleDocumentBatch R key b = or500 (resolve_docs ids) (\<lambda>r.
              case r of
                Inl i \<Rightarrow> writeDetail 422 (''unknown doc_id: '' @ i)
              | Inr docs \<Rightarrow>
                  (case forbidden_doc key docs of
                     Some d \<Rightarrow> writeDetail 403 (''key is not scoped to collection '' @ the (d_CollectionID d))
                   | None \<Rightarrow> bnd (collect step docs) (\<lambda>out. WriteJSON 200 (action, out))))"
    unfolding step_def handleDocumentBatch_def b(1) option.case prod.case b(4) guard if_False by (rule refl)
  obtain r w1 where run: "resolve_docs ids w = (r, w1)" by fastforce
  then have d: "db w1 = db w" using resolve_docs_keeps_db[of ids w] by simp
  show ?thesis
  proof (cases "\<exists>docs. r = Inr (Inr docs) \<and> forbidden_doc key docs = None")
    case False
    then have "\<exists>code msg. handleDocumentBatch R key b w = (Inr (Detail code msg), w1)"
      using run unfolding eq or500_def or_fail_def
      by (cases r) (auto simp: bnd_attempt writeDetail_def split: sum.splits option.splits)
    then show ?thesis using d by blast
  next
    case True
    then obtain docs where docs: "r = Inr (Inr docs)" "forbidden_doc key docs = None" by blast
    have "always (collect step docs)" unfolding step_def by (rule always_collect) (simp add: always_steps)
    then obtain out w2 where c: "collect step docs w1 = (Inr out, w2)" unfolding always_def by blast
    have l: "list_all2 (found (db w)) ids docs" using resolve_docs_Inr run docs(1) by blast
    have "handleDocumentBatch R key b w = (Inr (Answer 200 (action, out)), w2)"
      using run docs c unfolding eq or500_Inr[where m = "resolve_docs ids", OF run[unfolded docs(1)]]
      by (simp add: bnd_Inr[where m = "collect step docs", OF c] WriteJSON_def)
    moreover have "length out = length ids" using collect_length[OF c] list_all2_lengthD[OF l] by simp
    ultimately show ?thesis using b(1,2) l docs(2) forbidden_None by blast
  qed
qed

section \<open>A retry keeps the counters exact\<close>

lemma Tx_exact:
  assumes "post fn R" "\<And>now t x u. R now t x u \<Longrightarrow> exact t \<Longrightarrow> exact u"
  shows "keeps (\<lambda>w. exact (db w)) (Tx (fn :: ('x world, goerr, 'a) prog))"
proof (rule keepsI)
  fix w :: "'x world" assume e: "exact (db w)"
  obtain r w' where t: "Tx fn w = (r, w')" by fastforce
  then show "exact (db (snd (Tx fn w)))"
    using Tx_Inl[of fn w _ w'] postD[OF post_Tx[OF assms(1)], of w _ w'] assms(2) e by (cases r) fastforce+
qed

lemma exact_update_docs:
  assumes "exact t"
    and "\<And>d. d_ID (f d) = d_ID d" "\<And>d. d_ShardsDone (f d) = d_ShardsDone d" "\<And>d. d_ShardsFailed (f d) = d_ShardsFailed d"
  shows "exact (update_docs p f t)"
  unfolding exact_def2
proof
  fix d assume "d \<in> set (documents (update_docs p f t))"
  then obtain d0 where "d0 \<in> set (documents t)" "d = (if p d0 then f d0 else d0)" by (auto simp: update_docs_def)
  then show "d_ShardsDone d = count_shards (d_ID d) ShardDone (update_docs p f t)
      \<and> d_ShardsFailed d = count_shards (d_ID d) ShardFailed (update_docs p f t)"
    using assms unfolding exact_def2 by (simp add: count_shards_def update_docs_def)
qed

lemma exact_delete_chunks: "exact (delete_doc_chunks docID t) \<longleftrightarrow> exact t"
  by (simp add: exact_def2 count_shards_def delete_doc_chunks_def)

lemma exact_set_state: "exact t \<Longrightarrow> exact (set_doc_state docID st c m now t)"
  unfolding set_doc_state_def by (rule exact_update_docs) simp_all

lemma exact_rechunk:
  "exact t \<Longrightarrow> exact (update_docs (doc_is docID) (\<lambda>d. d\<lparr>
       d_State := StateEmbedding, d_ChunkCount := None, d_Completeness := None,
       d_ErrorCode := None, d_ErrorDetail := None, d_ReadyAt := None, d_UpdatedAt := now\<rparr>) (delete_doc_chunks docID t))"
  by (rule exact_update_docs) (simp_all add: exact_delete_chunks)

lemma count_delete_shards:
  "count_shards d st (delete_doc_shards docID t) = (if d = docID then 0 else count_shards d st t)"
  by (auto simp: count_shards_def delete_doc_shards_def conj_ac filter_empty_conv intro!: arg_cong[where f = length] filter_cong)

lemma exact_full:
  assumes "exact t"
  shows "exact (update_docs (doc_is docID) (\<lambda>d. d\<lparr>
       d_State := StateUploaded, d_TotalShards := None, d_ShardsDone := 0, d_ShardsFailed := 0,
       d_ChunkCount := None, d_Completeness := None, d_ErrorCode := None, d_ErrorDetail := None,
       d_ReadyAt := None, d_UpdatedAt := now\<rparr>) (delete_doc_shards docID (delete_doc_chunks docID t)))"
proof -
  let ?s = "delete_doc_shards docID (delete_doc_chunks docID t)"
  have c: "count_shards d st ?s = (if d = docID then 0 else count_shards d st t)" for d st
    unfolding count_delete_shards by (simp add: count_shards_def delete_doc_chunks_def)
  have d: "documents ?s = documents t" by (simp add: delete_doc_shards_def delete_doc_chunks_def)
  have u: "count_shards i st (update_docs p g ?s) = count_shards i st ?s" for i st p g
    by (simp add: count_shards_def update_docs_def)
  show ?thesis using assms unfolding exact_def2 u c by (auto simp: update_docs_def d)
qed

lemma post_ResetDocForRechunk:
  "post (ResetDocForRechunk docID) (\<lambda>now t x u. exact t \<longrightarrow> exact u)"
  unfolding ResetDocForRechunk_def
  by (rule post_weaken[OF post_bnd[OF post_tx_stmt post_tx_stmt]]) (auto intro: exact_rechunk)

lemma post_ResetDocForFullRetry:
  "post (ResetDocForFullRetry docID) (\<lambda>now t x u. exact t \<longrightarrow> exact u)"
  unfolding ResetDocForFullRetry_def
  by (rule post_weaken[OF post_bnd[OF post_tx_stmt post_bnd[OF post_tx_stmt post_tx_stmt]]]) (auto intro: exact_full)

lemma post_SetDocState_exact: "post (SetDocState docID st c m) (\<lambda>now t x u. exact t \<longrightarrow> exact u)"
  unfolding SetDocState_def by (rule post_weaken[OF post_tx_stmt]) (auto simp: exact_set_state)

lemma post_requeue:
  "post (bnd (RequeueFailedShards docID) (\<lambda>_. SetDocState docID StateParsing None None)) (\<lambda>now t x u. exact t \<longrightarrow> exact u)"
proof (rule post_weaken[OF post_bnd[OF post_RequeueFailedShards post_SetDocState_exact]], elim exE conjE, intro impI, goal_cases)
  case (1 now t x u n v)
  then show ?case using requeue_exact[OF 1(4), of v docID n now] 1 by blast
qed

lemma keeps_same_db: "(\<And>w. db (snd (m w)) = db w) \<Longrightarrow> keeps (\<lambda>w. exact (db w)) m"
  by (simp add: keeps_def)

lemma keeps_or_fail:
  "keeps P m \<Longrightarrow> (\<And>x. keeps P (k x)) \<Longrightarrow> keeps P (or_fail c p m k)"
  unfolding or_fail_def writeDetail_def by (intro keeps_intros)

lemma keeps_retry_parts:
  "keeps (\<lambda>w. exact (db w)) (get_document i)" "keeps (\<lambda>w. exact (db w)) (FailedShards i)"
  "keeps (\<lambda>w. exact (db w)) (on_ext q)" "keeps (\<lambda>w. exact (db w)) (writeDetail c m)"
  "keeps (\<lambda>w. exact (db w)) (WriteJSON c v)"
  by (rule keeps_same_db, simp add: get_document_keeps_db FailedShards_def pool_stmt_def bnd_def next_fault_def run_stmt_def
      on_ext_def writeDetail_def WriteJSON_def split: option.splits prod.splits)+

lemma keeps_retry_enqueue: "keeps (\<lambda>w. exact (db w)) (enqueue_all R jobs)"
  unfolding enqueue_all_def enqueue_parse_def by (intro keeps_intros keeps_retry_parts)

lemma keeps_retry_with:
  "post body (\<lambda>now t x u. exact t \<longrightarrow> exact u) \<Longrightarrow> keeps (\<lambda>w. exact (db w)) (retry_with R docID scope body stream job)"
  unfolding retry_with_def or500_def by (intro keeps_or_fail keeps_retry_parts Tx_exact) blast+

text \<open>
  C38. Whatever its scope and wherever it fails, a retry leaves the documents' counters equal to
  the shard rows they count.
\<close>

theorem handleRetry_keeps_exact:
  assumes "exact (db w)" "handleRetry R docID b w = (r, w')"
  shows "exact (db w')"
proof -
  have shards: "keeps (\<lambda>w. exact (db w)) (retry_shards R docID d)" for d
    unfolding retry_shards_def or500_def requeue_tx_def
    by (intro keeps_or_fail keeps_if keeps_retry_parts keeps_retry_enqueue Tx_exact[OF post_requeue]) blast
  have "keeps (\<lambda>w. exact (db w)) (handleRetry R docID b)"
    unfolding handleRetry_def or500_def
    by (intro keeps_case_option keeps_if keeps_or_fail keeps_retry_parts shards keeps_retry_with post_SetDocState_exact
        post_ResetDocForRechunk post_ResetDocForFullRetry)
  then show ?thesis using assms by (metis keepsD snd_conv)
qed

lemma handleRetry_keeps_exact_witness:
  "exact (db (snd (handleRetry mem_redis sample_id (Some ''full'') (sample_world (sample_tables ShardPending) mem_empty))))"
  by (rule handleRetry_keeps_exact[OF _ prod.collapse[symmetric]]) (simp add: sample_ok)

end
