(* ===== verification/Models.thy ===== *)
theory Models
  imports Ingest Documents Rerank
begin

text \<open>
  The model registry's endpoints (\<open>internal/api/models.go\<close>, \<open>rerankmodels.go\<close>) and the collections'
  (\<open>collections.go\<close>).  The id the database generates, the network and the clock of a probe are
  arguments; \<open>url.Parse\<close> is the parameter \<open>U\<close> of \<open>Ingest\<close>.
\<close>

section \<open>Embedding models\<close>

text \<open>Model ids are UUID columns.\<close>

definition get_model :: "string \<Rightarrow> ('x world, goerr, EmbeddingModel option) prog" where
  "get_model i = bnd (uuid_arg i) GetEmbeddingModel"

definition get_reranker :: "string \<Rightarrow> ('x world, goerr, RerankModel option) prog" where
  "get_reranker i = bnd (uuid_arg i) GetRerankModel"

record modelCreate =
  mc_Name :: string
  mc_Provider :: string
  mc_ModelID :: string
  mc_IngestURL :: string
  mc_QueryURL :: string
  mc_APIKey :: "string option"
  mc_VectorDim :: int
  mc_QueryPrefix :: string
  mc_BatchSize :: int
  mc_CtxBudget :: int
  mc_TruncateChars :: int

definition validModelProvider :: "string \<Rightarrow> bool" where
  "validModelProvider p \<longleftrightarrow> p = ''tei'' \<or> p = ''ollama'' \<or> p = ''openai''"

definition validModelURL :: "'x web \<Rightarrow> string \<Rightarrow> bool" where
  "validModelURL U raw =
     (case ParseURL U raw of None \<Rightarrow> False | Some u \<Rightarrow> (u_Scheme u = ''http'' \<or> u_Scheme u = ''https'') \<and> u_Host u \<noteq> [])"

definition no_key :: "string option \<Rightarrow> bool" where
  "no_key k \<longleftrightarrow> k = None \<or> k = Some []"

text \<open>The empty text is a body that passes.\<close>

definition validateModelCreate :: "'x web \<Rightarrow> modelCreate \<Rightarrow> string" where
  "validateModelCreate U b =
     (if mc_Name b = [] \<or> 200 < length (mc_Name b) then ''name must be 1-200 characters''
      else if \<not> validModelProvider (mc_Provider b) then ''provider must be one of tei|ollama|openai''
      else if mc_ModelID b = [] then ''field required: model_id''
      else if \<not> validModelURL U (mc_IngestURL b) then ''ingest_url must parse as an http(s) URL''
      else if \<not> validModelURL U (mc_QueryURL b) then ''query_url must parse as an http(s) URL''
      else if mc_VectorDim b < 1 \<or> 2000 < mc_VectorDim b then ''vector_dim must be between 1 and 2000''
      else if mc_Provider b = ''openai'' \<and> no_key (mc_APIKey b) then ''openai provider requires api_key on create''
      else [])"

definition normalizeCreate :: "modelCreate \<Rightarrow> modelCreate" where
  "normalizeCreate b = b\<lparr>
     mc_QueryPrefix := (if mc_QueryPrefix b = [] then ''search_query: '' else mc_QueryPrefix b),
     mc_BatchSize := (if mc_BatchSize b = 0 then 48 else mc_BatchSize b),
     mc_CtxBudget := (if mc_CtxBudget b = 0 then 1900 else mc_CtxBudget b),
     mc_TruncateChars := (if mc_TruncateChars b = 0 then 6000 else mc_TruncateChars b)\<rparr>"

definition probe_spec :: "modelCreate \<Rightarrow> EmbedSpec" where
  "probe_spec b = \<lparr>es_Provider = mc_Provider b, es_ModelID = mc_ModelID b, es_IngestURL = mc_IngestURL b,
     es_QueryURL = mc_QueryURL b, es_APIKey = deref (mc_APIKey b), es_TruncateChars = 0\<rparr>"

definition dim_mismatch :: "int \<Rightarrow> int \<Rightarrow> string" where
  "dim_mismatch declared detected =
     ''declared vector_dim ('' @ itoa declared @ '') does not match the model'' @ CHR 0x27
     # ''s actual output dimension ('' @ itoa detected @ ''); confirm with POST /v1/models/test''"

definition confirmDim ::
  "'x world net \<Rightarrow> ('x world, goerr, int) prog \<Rightarrow> modelCreate \<Rightarrow> ('x world, goerr, string) prog" where
  "confirmDim N elapsedMS b =
     (case NewEmbedClient (probe_spec b) ''query'' of
        Inl e \<Rightarrow> ret []
      | Inr c \<Rightarrow>
          bnd (Probe N elapsedMS c) (\<lambda>(p, c').
          if \<not> pb_Reachable p then ret []
          else if 0 < pb_Dim p \<and> pb_Dim p \<noteq> mc_VectorDim b then ret (dim_mismatch (mc_VectorDim b) (pb_Dim p))
          else ret []))"

definition handleListModels :: "('x, EmbeddingModel list) handler" where
  "handleListModels = or500 ListEmbeddingModels (\<lambda>ms. WriteJSON 200 ms)"

definition model_row :: "modelCreate \<Rightarrow> EmbeddingModel" where
  "model_row b =
     \<lparr>em_ID = [], em_Name = mc_Name b, em_Provider = mc_Provider b, em_ModelID = mc_ModelID b,
      em_IngestURL = mc_IngestURL b, em_QueryURL = mc_QueryURL b, em_HasAPIKey = False, em_VectorDim = mc_VectorDim b,
      em_QueryPrefix = mc_QueryPrefix b, em_BatchSize = mc_BatchSize b, em_CtxBudget = mc_CtxBudget b,
      em_TruncateChars = mc_TruncateChars b, em_CreatedAt = 0, em_UpdatedAt = 0\<rparr>"

definition given_key :: "string option \<Rightarrow> string option" where
  "given_key k = (if no_key k then None else k)"

definition registered_event :: "modelCreate \<Rightarrow> EmbeddingModel \<Rightarrow> ('x world, goerr, unit) prog" where
  "registered_event b m =
     best_effort (WriteEventPool ''info'' ''models''
       (''embedding model '' @ CHR 0x27 # mc_Name b @ CHR 0x27 # '' registered ('' @ mc_Provider b @ ''/'' @ mc_ModelID b
        @ '', dim '' @ itoa (em_VectorDim m) @ '')'')
       None None (Some ''created'') None [(''model_id'', JStr (em_ID m)), (''name'', JStr (mc_Name b))])"

definition handleCreateModel ::
  "'x web \<Rightarrow> 'x world net \<Rightarrow> ('x world, goerr, int) prog \<Rightarrow> string \<Rightarrow> modelCreate option \<Rightarrow> ('x, EmbeddingModel) handler" where
  "handleCreateModel U N elapsedMS uuid b0 =
     (case b0 of
        None \<Rightarrow> writeDetail 422 ''invalid JSON body''
      | Some b1 \<Rightarrow>
          let msg = validateModelCreate U b1; b = normalizeCreate b1
          in if msg \<noteq> [] then writeDetail 422 msg
             else bnd (confirmDim N elapsedMS b) (\<lambda>detail.
                  if detail \<noteq> [] then writeDetail 422 detail
                  else or500 (InsertEmbeddingModel uuid (model_row b) (given_key (mc_APIKey b))) (\<lambda>out.
                       bnd (registered_event b out) (\<lambda>_. WriteJSON 201 out))))"

record modelTestResult =
  mt_Reachable :: bool
  mt_LatencyMS :: "int option"
  mt_Detail :: string
  mt_VectorDim :: "int option"

definition handleTestModel ::
  "'x world net \<Rightarrow> ('x world, goerr, int) prog \<Rightarrow> modelCreate option \<Rightarrow> ('x, modelTestResult) handler" where
  "handleTestModel N elapsedMS b0 =
     (case b0 of
        None \<Rightarrow> writeDetail 422 ''invalid JSON body''
      | Some b \<Rightarrow>
          if mc_Name b = [] \<or> 200 < length (mc_Name b) then writeDetail 422 ''name must be 1-200 characters''
          else if \<not> validModelProvider (mc_Provider b) then writeDetail 422 ''provider must be one of tei|ollama|openai''
          else if mc_ModelID b = [] then writeDetail 422 ''field required: model_id''
          else case NewEmbedClient (probe_spec b) ''query'' of
                 Inl e \<Rightarrow> writeDetail 422 (error_text e)
               | Inr c \<Rightarrow>
                   bnd (Probe N elapsedMS c) (\<lambda>(p, c').
                   WriteJSON 200 \<lparr>mt_Reachable = pb_Reachable p,
                     mt_LatencyMS = (if pb_Reachable p then Some (pb_LatencyMS p) else None), mt_Detail = pb_Detail p,
                     mt_VectorDim = (if 0 < pb_Dim p then Some (pb_Dim p) else None)\<rparr>))"

record modelUpdate =
  mu_Name :: "string option"
  mu_Provider :: "string option"
  mu_ModelID :: "string option"
  mu_IngestURL :: "string option"
  mu_QueryURL :: "string option"
  mu_APIKey :: "string option"
  mu_VectorDim :: "int option"
  mu_QueryPrefix :: "string option"
  mu_BatchSize :: "int option"
  mu_CtxBudget :: "int option"
  mu_TruncateChars :: "int option"

definition given :: "'a option \<Rightarrow> 'a \<Rightarrow> 'a" where
  "given v old = (case v of None \<Rightarrow> old | Some x \<Rightarrow> x)"

text \<open>The partial body over the existing row; the key is left out of the merge.\<close>

definition merged_model :: "EmbeddingModel \<Rightarrow> modelUpdate \<Rightarrow> modelCreate" where
  "merged_model old u =
     \<lparr>mc_Name = given (mu_Name u) (em_Name old), mc_Provider = given (mu_Provider u) (em_Provider old),
      mc_ModelID = given (mu_ModelID u) (em_ModelID old), mc_IngestURL = given (mu_IngestURL u) (em_IngestURL old),
      mc_QueryURL = given (mu_QueryURL u) (em_QueryURL old), mc_APIKey = None,
      mc_VectorDim = given (mu_VectorDim u) (em_VectorDim old), mc_QueryPrefix = given (mu_QueryPrefix u) (em_QueryPrefix old),
      mc_BatchSize = given (mu_BatchSize u) (em_BatchSize old), mc_CtxBudget = given (mu_CtxBudget u) (em_CtxBudget old),
      mc_TruncateChars = given (mu_TruncateChars u) (em_TruncateChars old)\<rparr>"

definition handleUpdateModel ::
  "'x web \<Rightarrow> 'x world net \<Rightarrow> ('x world, goerr, int) prog \<Rightarrow> string \<Rightarrow> modelUpdate option \<Rightarrow> ('x, EmbeddingModel) handler" where
  "handleUpdateModel U N elapsedMS i u0 =
     (case u0 of
        None \<Rightarrow> writeDetail 422 ''invalid JSON body''
      | Some u \<Rightarrow>
          or500 (get_model i) (\<lambda>existing.
          case existing of
            None \<Rightarrow> writeDetail 404 ''model not found''
          | Some old \<Rightarrow>
              let b = merged_model old u; msg = validateModelCreate U b
              in if msg \<noteq> [] then writeDetail 422 msg
                 else if mc_Provider b = ''openai'' \<and> no_key (mc_APIKey b) \<and> \<not> em_HasAPIKey old
                 then writeDetail 422 ''openai provider requires api_key''
                 else bnd (confirmDim N elapsedMS b) (\<lambda>detail.
                      if detail \<noteq> [] then writeDetail 422 detail
                      else or500 (UpdateEmbeddingModel (em_ID old) (model_row b) (given_key (mu_APIKey u))) (\<lambda>out.
                           case out of None \<Rightarrow> writeDetail 404 ''model not found'' | Some m \<Rightarrow> WriteJSON 200 m))))"

definition trim_text_prefix :: "string \<Rightarrow> string \<Rightarrow> string" where
  "trim_text_prefix s p = (if has_prefix s p then drop (length p) s else s)"

definition handleDeleteModel :: "string \<Rightarrow> ('x, unit) handler" where
  "handleDeleteModel i =
     bnd (attempt (bnd (uuid_arg i) DeleteEmbeddingModel)) (\<lambda>r.
     case r of
       Inr _ \<Rightarrow> WriteJSON 204 ()
     | Inl e \<Rightarrow>
         if errors_is ErrModelNotFound e then writeDetail 404 ''model not found''
         else if errors_is ErrModelInUse e
         then writeDetail 409 (''model bound to collection(s): '' @ trim_text_prefix (error_text e) (error_text ErrModelInUse))
         else writeDetail 500 (error_text e))"

text \<open>The reply of a binding leaves the two binding columns out, unlike \<open>toCollectionOut\<close>.\<close>

record collectionOut =
  co_ID :: string
  co_Name :: string
  co_EmbeddingModel :: string
  co_VectorDim :: int
  co_EmbeddingModelID :: "string option"
  co_RerankModelID :: "string option"

definition bound_out :: "Collection \<Rightarrow> collectionOut" where
  "bound_out c = \<lparr>co_ID = k_ID c, co_Name = k_Name c, co_EmbeddingModel = k_EmbeddingModel c, co_VectorDim = k_VectorDim c,
     co_EmbeddingModelID = None, co_RerankModelID = None\<rparr>"

definition toCollectionOut :: "Collection \<Rightarrow> collectionOut" where
  "toCollectionOut c = \<lparr>co_ID = k_ID c, co_Name = k_Name c, co_EmbeddingModel = k_EmbeddingModel c, co_VectorDim = k_VectorDim c,
     co_EmbeddingModelID = k_EmbeddingModelID c, co_RerankModelID = k_RerankModelID c\<rparr>"

definition bind_reply :: "goerr \<Rightarrow> string \<Rightarrow> goerr + Collection option \<Rightarrow> ('x, collectionOut) handler" where
  "bind_reply missing detail r =
     (case r of
        Inl e \<Rightarrow> if e = missing then writeDetail 404 detail else writeDetail 500 (error_text e)
      | Inr None \<Rightarrow> writeDetail 404 ''collection not found''
      | Inr (Some c) \<Rightarrow> WriteJSON 200 (bound_out c))"

definition handleBindCollectionModel :: "string \<Rightarrow> string option \<Rightarrow> ('x, collectionOut) handler" where
  "handleBindCollectionModel cid b =
     (case b of
        None \<Rightarrow> writeDetail 422 ''invalid JSON body''
      | Some mid \<Rightarrow>
          if mid = [] then writeDetail 422 ''field required: embedding_model_id''
          else bnd (attempt (bnd (uuid_arg mid) (BindCollectionModel cid))) (bind_reply ErrModelNotFound ''embedding model not found''))"

section \<open>Rerank models\<close>

record rerankModelCreate =
  rk_Name :: string
  rk_Provider :: string
  rk_ModelID :: string
  rk_QueryURL :: string
  rk_APIKey :: "string option"
  rk_TruncateChars :: int

definition validRerankProvider :: "string \<Rightarrow> bool" where
  "validRerankProvider p \<longleftrightarrow> p = ''tei'' \<or> p = ''openai''"

definition validateRerankCreate :: "'x web \<Rightarrow> rerankModelCreate \<Rightarrow> string" where
  "validateRerankCreate U b =
     (if rk_Name b = [] \<or> 200 < length (rk_Name b) then ''name must be 1-200 characters''
      else if \<not> validRerankProvider (rk_Provider b) then ''provider must be one of tei|openai''
      else if rk_ModelID b = [] then ''field required: model_id''
      else if \<not> validModelURL U (rk_QueryURL b) then ''query_url must parse as an http(s) URL''
      else if rk_TruncateChars b < 0 then ''truncate_chars must be >= 0''
      else if rk_Provider b = ''openai'' \<and> no_key (rk_APIKey b) then ''openai provider requires api_key on create''
      else [])"

definition normalizeRerankCreate :: "rerankModelCreate \<Rightarrow> rerankModelCreate" where
  "normalizeRerankCreate b = (if rk_TruncateChars b = 0 then b\<lparr>rk_TruncateChars := 6000\<rparr> else b)"

definition reranker_row :: "rerankModelCreate \<Rightarrow> RerankModel" where
  "reranker_row b =
     \<lparr>rm_ID = [], rm_Name = rk_Name b, rm_Provider = rk_Provider b, rm_ModelID = rk_ModelID b, rm_QueryURL = rk_QueryURL b,
      rm_HasAPIKey = False, rm_TruncateChars = rk_TruncateChars b, rm_CreatedAt = 0, rm_UpdatedAt = 0\<rparr>"

definition handleListRerankModels :: "('x, RerankModel list) handler" where
  "handleListRerankModels = or500 ListRerankModels (\<lambda>ms. WriteJSON 200 ms)"

definition handleCreateRerankModel :: "'x web \<Rightarrow> string \<Rightarrow> rerankModelCreate option \<Rightarrow> ('x, RerankModel) handler" where
  "handleCreateRerankModel U uuid b0 =
     (case b0 of
        None \<Rightarrow> writeDetail 422 ''invalid JSON body''
      | Some b1 \<Rightarrow>
          let msg = validateRerankCreate U b1; b = normalizeRerankCreate b1
          in if msg \<noteq> [] then writeDetail 422 msg
             else or500 (InsertRerankModel uuid (reranker_row b) (given_key (rk_APIKey b))) (\<lambda>out. WriteJSON 201 out))"

definition handleTestRerankModel ::
  "'x web \<Rightarrow> 'x world net \<Rightarrow> (rat \<Rightarrow> rat) \<Rightarrow> ('x world, goerr, int) prog \<Rightarrow> rerankModelCreate option
   \<Rightarrow> ('x, bool \<times> int option \<times> string) handler" where
  "handleTestRerankModel U N Exp elapsedMS b0 =
     (case b0 of
        None \<Rightarrow> writeDetail 422 ''invalid JSON body''
      | Some b \<Rightarrow>
          if rk_Name b = [] \<or> 200 < length (rk_Name b) then writeDetail 422 ''name must be 1-200 characters''
          else if \<not> validRerankProvider (rk_Provider b) then writeDetail 422 ''provider must be one of tei|openai''
          else if rk_ModelID b = [] then writeDetail 422 ''field required: model_id''
          else if \<not> validModelURL U (rk_QueryURL b) then writeDetail 422 ''query_url must parse as an http(s) URL''
          else case NewRerankClient (rk_Provider b) (rk_ModelID b) (rk_QueryURL b) (deref (rk_APIKey b)) (rk_TruncateChars b) of
                 Inl e \<Rightarrow> writeDetail 422 (error_text e)
               | Inr c \<Rightarrow>
                   bnd (Probe_rerank N Exp elapsedMS c) (\<lambda>(reachable, ms, detail).
                   WriteJSON 200 (reachable, (if reachable then Some ms else None), detail)))"

record rerankModelUpdate =
  ru_Name :: "string option"
  ru_Provider :: "string option"
  ru_ModelID :: "string option"
  ru_QueryURL :: "string option"
  ru_APIKey :: "string option"
  ru_TruncateChars :: "int option"

definition merged_reranker :: "RerankModel \<Rightarrow> rerankModelUpdate \<Rightarrow> rerankModelCreate" where
  "merged_reranker old u =
     \<lparr>rk_Name = given (ru_Name u) (rm_Name old), rk_Provider = given (ru_Provider u) (rm_Provider old),
      rk_ModelID = given (ru_ModelID u) (rm_ModelID old), rk_QueryURL = given (ru_QueryURL u) (rm_QueryURL old),
      rk_APIKey = None, rk_TruncateChars = given (ru_TruncateChars u) (rm_TruncateChars old)\<rparr>"

definition handleUpdateRerankModel :: "'x web \<Rightarrow> string \<Rightarrow> rerankModelUpdate option \<Rightarrow> ('x, RerankModel) handler" where
  "handleUpdateRerankModel U i u0 =
     (case u0 of
        None \<Rightarrow> writeDetail 422 ''invalid JSON body''
      | Some u \<Rightarrow>
          or500 (get_reranker i) (\<lambda>existing.
          case existing of
            None \<Rightarrow> writeDetail 404 ''rerank model not found''
          | Some old \<Rightarrow>
              let b = merged_reranker old u; msg = validateRerankCreate U b
              in if msg \<noteq> [] then writeDetail 422 msg
                 else if rk_Provider b = ''openai'' \<and> no_key (rk_APIKey b) \<and> \<not> rm_HasAPIKey old
                 then writeDetail 422 ''openai provider requires api_key''
                 else or500 (UpdateRerankModel (rm_ID old) (reranker_row b) (given_key (ru_APIKey u))) (\<lambda>out.
                      case out of None \<Rightarrow> writeDetail 404 ''rerank model not found'' | Some m \<Rightarrow> WriteJSON 200 m)))"

definition handleDeleteRerankModel :: "string \<Rightarrow> ('x, unit) handler" where
  "handleDeleteRerankModel i =
     bnd (attempt (bnd (uuid_arg i) DeleteRerankModel)) (\<lambda>r.
     case r of
       Inr _ \<Rightarrow> WriteJSON 204 ()
     | Inl e \<Rightarrow>
         if errors_is ErrRerankModelNotFound e then writeDetail 404 ''rerank model not found''
         else if errors_is ErrRerankModelInUse e
         then writeDetail 409 (''rerank model bound to collection(s): '' @ trim_text_prefix (error_text e) (error_text ErrRerankModelInUse))
         else writeDetail 500 (error_text e))"

text \<open>The decoded body is the model's id, or null; the outer option is a body that does not decode.\<close>

definition handleBindCollectionReranker :: "string \<Rightarrow> string option option \<Rightarrow> ('x, collectionOut) handler" where
  "handleBindCollectionReranker cid b =
     (case b of
        None \<Rightarrow> writeDetail 422 ''invalid JSON body''
      | Some mid \<Rightarrow>
          if mid = Some [] then writeDetail 422 ''rerank_model_id must be a model id or null''
          else bnd (attempt (case mid of None \<Rightarrow> BindCollectionReranker cid [] | Some m \<Rightarrow> bnd (uuid_arg m) (BindCollectionReranker cid)))
                 (bind_reply ErrRerankModelNotFound ''rerank model not found''))"

section \<open>Collections\<close>

definition handleListCollections :: "('x, collectionOut list) handler" where
  "handleListCollections = or500 ListCollections (\<lambda>cs. WriteJSON 200 (map toCollectionOut cs))"

record collectionCreate =
  cn_ID :: string
  cn_Name :: string
  cn_EmbeddingModelID :: string

definition handleCreateCollection :: "collectionCreate option \<Rightarrow> ('x, collectionOut) handler" where
  "handleCreateCollection b0 =
     (case b0 of
        None \<Rightarrow> writeDetail 422 ''invalid JSON body''
      | Some b \<Rightarrow>
          if cn_ID b = [] \<or> 64 < length (cn_ID b) then writeDetail 422 ''id must be 1-64 characters''
          else if cn_Name b = [] then writeDetail 422 ''field required: name''
          else if cn_EmbeddingModelID b = [] then writeDetail 422 ''field required: embedding_model_id''
          else or500 (get_model (cn_EmbeddingModelID b)) (\<lambda>mo.
               case mo of
                 None \<Rightarrow> writeDetail 404 ''embedding model not found''
               | Some m \<Rightarrow>
                   or500 (GetCollection (cn_ID b)) (\<lambda>existing.
                   if existing \<noteq> None then writeDetail 409 ''collection id already exists''
                   else or500 (InsertCollection (cn_ID b) (cn_Name b) m) (\<lambda>c. WriteJSON 201 (toCollectionOut c)))))"

record collectionStatsOut =
  ct_ID :: string
  ct_Name :: string
  ct_EmbeddingModel :: string
  ct_DocCount :: int
  ct_ChunkCount :: int
  ct_ByteSize :: int
  ct_TotalShards :: int

definition handleCollectionStats :: "string \<Rightarrow> ('x, collectionStatsOut) handler" where
  "handleCollectionStats i =
     or500 (GetCollection i) (\<lambda>co.
     case co of
       None \<Rightarrow> writeDetail 404 ''collection not found''
     | Some c \<Rightarrow>
         or500 (CollectionCounts i) (\<lambda>(docs, cs).
         or500 (CollectionStatsAgg i) (\<lambda>(bytes, shs).
         WriteJSON 200 \<lparr>ct_ID = k_ID c, ct_Name = k_Name c, ct_EmbeddingModel = k_EmbeddingModel c, ct_DocCount = docs,
           ct_ChunkCount = cs, ct_ByteSize = bytes, ct_TotalShards = shs\<rparr>)))"

definition handleListCollectionChunks ::
  "ApiKey option \<Rightarrow> string \<Rightarrow> string \<Rightarrow> string \<Rightarrow> string \<Rightarrow> ('x, int \<times> int \<times> int \<times> Chunk list) handler" where
  "handleListCollectionChunks key i docID page0 size0 =
     or500 (GetCollection i) (\<lambda>co.
     case co of
       None \<Rightarrow> writeDetail 404 ''collection not found''
     | Some c \<Rightarrow>
         if \<not> keyAllowedCollection key (Some (k_ID c)) then writeDetail 403 ''key is not scoped to this collection''
         else let page = queryInt page0 1; pageSize = queryInt size0 50
              in or500 (ListCollectionChunks i (if docID = [] then None else Some docID) page pageSize) (\<lambda>(cs, n).
                 WriteJSON 200 (n, page, pageSize, cs)))"

section \<open>Updates of models with a key\<close>

lemma validate_openai: "mc_Provider b = ''openai'' \<Longrightarrow> mc_APIKey b = None \<Longrightarrow> validateModelCreate U b \<noteq> []"
  by (simp add: validateModelCreate_def no_key_def)

lemma validate_rerank_openai: "rk_Provider b = ''openai'' \<Longrightarrow> rk_APIKey b = None \<Longrightarrow> validateRerankCreate U b \<noteq> []"
  by (simp add: validateRerankCreate_def no_key_def)

lemma get_model_keeps_db: "db (snd (get_model i w)) = db w" "db (snd (get_reranker j v)) = db v"
  by (simp_all add: get_model_def get_reranker_def uuid_arg_def bnd_def GetEmbeddingModel_def GetRerankModel_def pool_stmt_def
      next_fault_def run_stmt_def split: option.splits)

text \<open>
  C40. No model of the provider \<open>openai\<close> can be updated, and none can be turned into one: the update
  validates the merged row as a creation with the key left out, so it answers 422 (or 500 when the
  row cannot be read) whatever it carries, a new key included, and changes nothing.  The same
  holds for rerank models.
\<close>

theorem openai_never_updated:
  assumes "get_model i w = (Inr (Some old), w1)" "given (mu_Provider u) (em_Provider old) = ''openai''"
    and "get_reranker j v = (Inr (Some oldr), v1)" "given (ru_Provider ur) (rm_Provider oldr) = ''openai''"
  shows "(\<exists>msg. handleUpdateModel U N elapsedMS i (Some u) w = (Inr (Detail 422 msg), w1) \<and> db w1 = db w)
    \<and> (\<exists>msg. handleUpdateRerankModel U j (Some ur) v = (Inr (Detail 422 msg), v1) \<and> db v1 = db v)"
proof
  have "validateModelCreate U (merged_model old u) \<noteq> []"
    using assms(2) by (intro validate_openai) (simp_all add: merged_model_def)
  moreover have "db w1 = db w" using get_model_keeps_db(1)[of i w] assms(1) by simp
  ultimately show "\<exists>msg. handleUpdateModel U N elapsedMS i (Some u) w = (Inr (Detail 422 msg), w1) \<and> db w1 = db w"
    by (simp add: handleUpdateModel_def or500_Inr[where m = "get_model i", OF assms(1)] writeDetail_def Let_def)
  have "validateRerankCreate U (merged_reranker oldr ur) \<noteq> []"
    using assms(4) by (intro validate_rerank_openai) (simp_all add: merged_reranker_def)
  moreover have "db v1 = db v" using get_model_keeps_db(2)[of j v] assms(3) by simp
  ultimately show "\<exists>msg. handleUpdateRerankModel U j (Some ur) v = (Inr (Detail 422 msg), v1) \<and> db v1 = db v"
    by (simp add: handleUpdateRerankModel_def or500_Inr[where m = "get_reranker j", OF assms(3)] writeDetail_def Let_def)
qed

text \<open>An endpoint that needs a key, registered with one, and the update that brings a new key.\<close>

definition sample_keyed :: "unit world" where
  "sample_keyed = sample_world (empty_tables\<lparr>
     embedding_models := [(\<lparr>em_ID = sample_id, em_Name = ''m'', em_Provider = ''openai'', em_ModelID = ''e'', em_IngestURL = ''u'',
       em_QueryURL = ''u'', em_HasAPIKey = False, em_VectorDim = 3, em_QueryPrefix = [], em_BatchSize = 1, em_CtxBudget = 1,
       em_TruncateChars = 0, em_CreatedAt = 0, em_UpdatedAt = 0\<rparr>, Some ''old'')],
     rerank_models := [(\<lparr>rm_ID = sample_id, rm_Name = ''r'', rm_Provider = ''openai'', rm_ModelID = ''e'', rm_QueryURL = ''u'',
       rm_HasAPIKey = False, rm_TruncateChars = 0, rm_CreatedAt = 0, rm_UpdatedAt = 0\<rparr>, Some ''old'')]\<rparr>) ()"

definition sample_web :: "unit web" where
  "sample_web = \<lparr>ParseURL = (\<lambda>s. None), ResolveReference = (\<lambda>b r. r), UrlText = (\<lambda>u. []), BadRequest = (\<lambda>s. None),
     Fetch = (\<lambda>s c. raise (Plain ''offline'')), ParseFeed = (\<lambda>s. None)\<rparr>"

definition new_key_only :: modelUpdate where
  "new_key_only = \<lparr>mu_Name = None, mu_Provider = None, mu_ModelID = None, mu_IngestURL = None, mu_QueryURL = None,
     mu_APIKey = Some ''new'', mu_VectorDim = None, mu_QueryPrefix = None, mu_BatchSize = None, mu_CtxBudget = None,
     mu_TruncateChars = None\<rparr>"

definition new_rerank_key_only :: rerankModelUpdate where
  "new_rerank_key_only = \<lparr>ru_Name = None, ru_Provider = None, ru_ModelID = None, ru_QueryURL = None,
     ru_APIKey = Some ''new'', ru_TruncateChars = None\<rparr>"

lemma openai_never_updated_witness:
  "\<exists>msg w1. handleUpdateModel sample_web (\<lparr>n_Do = (\<lambda>rq. ret (NoReply [])), n_BadURL = (\<lambda>_. None), n_Rand = (\<lambda>_. ret 0),
       n_Sleep = (\<lambda>_. ret ()), n_Float64 = (\<lambda>_. Some 0), n_Float32 = id, n_DecodeError = (\<lambda>_. []), n_Sprint = (\<lambda>_. [])\<rparr>)
     (ret 0) sample_id (Some new_key_only) sample_keyed = (Inr (Detail 422 msg), w1) \<and> db w1 = db sample_keyed"
proof -
  have p: "parse_uuid sample_id = Some sample_id"
    by (simp add: parse_uuid_def sample_id_def substr_def isHexDigit_def uuid_groups_def hex_lower_char_def)
  obtain old w1 where m: "get_model sample_id sample_keyed = (Inr (Some old), w1)" "em_Provider old = ''openai''"
    by (simp add: get_model_def uuid_arg_def p GetEmbeddingModel_def pool_stmt_Inr sample_keyed_def sample_world_def
        model_by_id_def scanModel_def)
  obtain oldr v1 where r: "get_reranker sample_id sample_keyed = (Inr (Some oldr), v1)" "rm_Provider oldr = ''openai''"
    by (simp add: get_reranker_def uuid_arg_def p GetRerankModel_def pool_stmt_Inr sample_keyed_def sample_world_def
        reranker_by_id_def scanRerankModel_def)
  have g: "given (mu_Provider new_key_only) (em_Provider old) = ''openai''"
    "given (ru_Provider new_rerank_key_only) (rm_Provider oldr) = ''openai''"
    using m(2) r(2) by (simp_all add: given_def new_key_only_def new_rerank_key_only_def)
  show ?thesis using openai_never_updated[OF m(1) g(1) r(1) g(2)] by blast
qed

end
