(* ===== verification/Spec2Isabelle.thy ===== *)
theory Spec2Isabelle
  imports Shards EmbedRefines Schema Docling Formats Hashes Access SearchApi Models
begin

text \<open>
  The verification development of lybrix, an ingestion pipeline for books.

  \<^bold>\<open>The program.\<close>  A document is uploaded and committed to a collection.  Three workers move it
  through three Redis streams: the splitter (\<open>internal/service/splitter.go\<close>) records the page
  ranges of the book as shards and enqueues one parse job for each; the parser
  (\<open>internal/service/parser.go\<close>) turns a shard into markdown and, when the last one settles,
  enqueues the embed job; the embedder (\<open>internal/service/embedder.go\<close>) stitches the
  markdown of the settled shards, chunks it (\<open>internal/chunker\<close>), embeds the chunks and writes
  them.  The janitor (\<open>internal/worker/janitor.go\<close>) repairs what crashes and lost messages
  leave behind.  The state is in Postgres (\<open>internal/store\<close>); the streams only carry jobs.

  \<^bold>\<open>State and effects.\<close>  \<open>World\<close> holds the tables as lists of records, one per row type of
  \<open>internal/store/models.go\<close>, and the transaction layer.  An effectful function is a computation
  \<open>('s, 'e, 'a) prog\<close> (\<open>Prelude\<close>): a state goes to an error or a value and the next state.  The
  record \<open>world\<close> carries the tables, the clock, the runner's pending writes, and an oracle
  \<open>faults\<close> that may make any statement, \<open>BEGIN\<close>, \<open>COMMIT\<close> and \<open>ROLLBACK\<close> included, fail with any
  error; theorems hold for every oracle unless they say otherwise.  \<open>ext\<close> is everything outside
  Postgres; the network, the object store, Redis, docling, anydoc and pdfcpu are functions on it
  that the definitions take as arguments, and what the code relies on is a named hypothesis
  (\<open>redis_view\<close> and \<open>delivery_view\<close> in \<open>MemRedis\<close>, with an in-memory stream that satisfies them).

  \<^bold>\<open>Theories, bottom up.\<close>
  \<^item> \<open>Prelude\<close>, \<open>GoText\<close>, \<open>Utf8\<close>, \<open>Json\<close>, \<open>Regexp\<close>, \<open>Hashes\<close>: integer division, strings as bytes
    (and as code points for the chunker), runes, \<open>encoding/json\<close>, the regular expressions the
    chunker compiles, SHA-1, SHA-256 and hex.
  \<^item> \<open>Errors\<close> (\<open>internal/errors\<close>, \<open>internal/store/pgerr.go\<close>), \<open>Formats\<close> (\<open>pipeline/fileformat.go\<close>),
    \<open>Jobs\<close> (\<open>internal/queue/contracts.go\<close>, the encoders of \<open>streams.go\<close>), \<open>Streams\<close>
    (\<open>internal/queue/streams.go\<close>), \<open>World\<close> (\<open>store/models.go\<close>, \<open>Tx\<close> and \<open>TxWithRetry\<close> of \<open>store/db.go\<close>).
  \<^item> \<open>Store\<close> and \<open>StoreSweeps\<close> (\<open>store/documents.go\<close>, \<open>janitor.go\<close>, \<open>events.go\<close>), \<open>ChunkStore\<close>
    (\<open>store/chunks.go\<close>), \<open>Registry\<close> (\<open>store/embeddingmodels.go\<close>, \<open>rerankmodels.go\<close>,
    \<open>collections.go\<close>, \<open>EnsureDimIndex\<close>): one statement per query, each a function of the clock
    and the tables.
  \<^item> \<open>Counters\<close>: the counters \<open>shards_done\<close> and \<open>shards_failed\<close> against the shard rows they
    count, through every operation that writes either, and the exclusive claim.
  \<^item> \<open>Shards\<close> (\<open>pipeline/splitter.go\<close>), \<open>Stitch\<close> (\<open>pipeline/stitch.go\<close>), \<open>EmbedBatching\<close>
    (\<open>pipeline/embedder.go\<close>, \<open>truncate.go\<close>), \<open>Parsing\<close> (\<open>pipeline/parser.go\<close>, \<open>pdfcpu.go\<close>,
    \<open>gate.go\<close>, \<open>anydoc.go\<close>), \<open>EmbedClient\<close> (\<open>tei_client.go\<close>), \<open>Docling\<close> (\<open>docling_client.go\<close>).
  \<^item> \<open>Patterns\<close>, \<open>Protected\<close>, \<open>TableHeaders\<close>, \<open>Splitter\<close>, \<open>SplitterInv\<close>, \<open>Profiler\<close>, \<open>Headings\<close>,
    \<open>Heuristics\<close>, \<open>Strategy\<close>, \<open>TierInv\<close> (\<open>internal/chunker\<close>): from the compiled patterns to
    \<open>SplitParentChild\<close>.  The locale of \<open>TierInv\<close> is the contract of a splitting tier; the three
    tiers interpret it.
  \<^item> \<open>Janitor\<close> (\<open>worker/janitor.go\<close>), \<open>MemRedis\<close> and \<open>Dedup\<close> (what its sweeps promise over a
    Redis with the documented behaviour), \<open>Rules\<close> (triples for computations).
  \<^item> \<open>SplitHandler\<close>, \<open>ParseHandler\<close>, \<open>EmbedHandler\<close>: the whole handlers, guards and error paths
    included.  \<open>EmbedRefines\<close> proves the embedder against an abstract contract, and \<open>Schema\<close> the
    keys, references and checks of \<open>schema.sql\<close> through every handler and console operation: its
    locale \<open>kept_tables\<close> states what an invariant of the tables must survive statement by
    statement, and both instances inherit the preservation by all handlers.

  \<^item> \<open>Http\<close> (\<open>api/server.go\<close> and its helpers: replies, the early exit with a reply), \<open>Keys\<close>
    (\<open>internal/store/keys.go\<close>), \<open>Access\<close> (\<open>api/auth.go\<close>, \<open>keys.go\<close>, \<open>usage.go\<close> and the routes): who may
    call what.
  \<^item> \<open>SearchFilter\<close> (\<open>internal/store/search.go\<close>: the compiled filters), \<open>Search\<close>
    (\<open>internal/search\<close>: the two legs, their fusion and the parents), \<open>Rerank\<close> (the reranking client and
    stage), \<open>SearchApi\<close> (\<open>api/search.go\<close>).
  \<^item> \<open>Events\<close> (\<open>store/events.go\<close>, \<open>api/events.go\<close>), \<open>Uploads\<close> and \<open>Documents\<close> (\<open>api/documents.go\<close>,
    \<open>chunks.go\<close>), \<open>Ssrf\<close> and \<open>Ingest\<close> (\<open>api/ingest.go\<close>), \<open>Models\<close> (\<open>api/models.go\<close>,
    \<open>rerankmodels.go\<close>, \<open>collections.go\<close>).  A handler is a computation that ends in a status and a body;
    the body is a datatype of the replies the code writes, and rendering it as JSON is left out.

  \<^bold>\<open>What the theorems show.\<close>  Sharding covers every page and windows do not overlap beyond the
  configured pages; stitching maps every line to a page of its shard; a transaction that fails
  writes nothing and one that succeeds writes once, also under retries; the counters stay exact
  through the sweeps; a shard is claimed by one worker; no sweep enqueues a job that is already
  queued; the split handler commits before it enqueues and repeats harmlessly; resplitting
  terminates because sub-ranges shrink; chunks are verbatim slices, lose no visible rune and
  their page ranges lie on the page map; the embedder leaves the tables alone, fails the document,
  or replaces its chunks exactly; every handler keeps the schema.

  \<^bold>\<open>Bounds and fuel.\<close>  Retry ladders recurse on the attempts left (3 for the index, the
  given attempts for a transaction, 6 for the clients).  The JSON decoder carries fuel and the
  nesting depth Go allows; every call consumes a byte, so the length of the input is enough.  A
  star of a regular expression repeats at most once per remaining code point, because each
  repetition must consume one.  Loops over a text carry the remaining text or
  an index below its length; the \<open>function\<close>s among them have termination proofs by \<open>measure\<close>.

  \<^bold>\<open>Idealisations.\<close>  Go's \<open>int\<close> is \<open>int\<close>: the quantities are page numbers, lengths and
  counts, far below \<open>2 ^ 63\<close>.  Floating-point numbers are exact rationals or parameters.  Texts
  of the chunker are lists of code points, so valid UTF-8 is presupposed there; elsewhere strings
  are bytes.  Statements are atomic; a value refused by a column's type is an error of the
  oracle.  \<open>parent_id\<close> is checked on insertion only.  The update from a staging table with two
  rows for one id takes the first.

  \<^bold>\<open>Not modelled.\<close>  The web console (TypeScript), the evaluation tool (\<open>cmd/lybrix-eval\<close>), process
  start-up and configuration (\<open>cmd/lybrix-server\<close>, \<open>internal/config\<close>, \<open>internal/logging\<close>), the
  S3 client (\<open>internal/objectstore\<close>) and the vendored bindings (\<open>third_party\<close>) are input and
  output around the logic, and appear here as parameters.
\<close>

end
